(* ===== verification/Aor_Prelude.thy ===== *)
theory Aor_Prelude
  imports Main "HOL-Library.Word" "HOL-Library.Char_ord"
begin

text \<open>
  Shared vocabulary of the development: bytes and Python text, the exceptions the code raises and
  the result type of code that may raise, JSON values (the \<^verbatim>\<open>dict[str, Any]\<close> payloads the whole
  system hashes and signs), dictionaries that keep insertion order, and the string and slice
  operations of the Python standard library that several components use.

  Text is modelled as \<open>string\<close>, one \<open>char\<close> per ASCII character: for ASCII text the UTF-8
  encoding is the character code, and the case and whitespace classes of \<^verbatim>\<open>str\<close> and \<^verbatim>\<open>re\<close> are the
  ASCII ones. Time is an \<open>int\<close> number of microseconds (of the proleptic Gregorian calendar, from
  \<^verbatim>\<open>0001-01-01T00:00\<close>, for wall clocks); every clock reading of the code is an
  argument of the definition that reads the clock.
\<close>

section \<open>Bytes, text, time\<close>

type_synonym byte = "8 word"
type_synonym bytes = "byte list"
type_synonym time = int

abbreviation second :: time where
  "second \<equiv> 1000000"

text \<open>\<^verbatim>\<open>str.encode("utf-8")\<close> and \<^verbatim>\<open>bytes.decode("ascii")\<close> on ASCII text.\<close>

definition str_encode :: "string \<Rightarrow> bytes" where
  "str_encode s = map of_char s"

definition bytes_decode :: "bytes \<Rightarrow> string" where
  "bytes_decode b = map (\<lambda>w. char_of (unat w)) b"

section \<open>Exceptions and results\<close>

text \<open>
  The exception classes the code raises or catches, and an exception as its class and message.
  \<open>FileAgentError\<close>, \<open>AuditAgentError\<close>, \<open>DatabaseAgentError\<close>, pydantic's \<open>ValidationError\<close>,
  \<open>UnicodeDecodeError\<close> and \<^verbatim>\<open>binascii.Error\<close> are subclasses of \<^verbatim>\<open>ValueError\<close>;
  \<open>AgentRuntimeError\<close>, \<open>TSARequestError\<close> and \<open>MissingVerifiedSessionContext\<close> are subclasses of
  \<^verbatim>\<open>RuntimeError\<close>. An \<^verbatim>\<open>except\<close> clause catches the subclasses of the classes it names.
\<close>

datatype exc_class =
    ValueError | TypeError | KeyError | AttributeError | OSError | AssertionError | RuntimeError
  | ValidationError | UnicodeDecodeError | BinasciiError | InvalidTag | SQLiteError | HTTPXError
  | FileAgentError | AuditAgentError | DatabaseAgentError | AgentRuntimeError | TSARequestError
  | VerificationError | MissingVerifiedSessionContext | OverflowError | IndexError | HTTPException nat

datatype py_error = Exc (exc_type: exc_class) (exc_msg: string)

type_synonym 'a res = "py_error + 'a"

fun superclass :: "exc_class \<Rightarrow> exc_class option" where
  "superclass ValidationError = Some ValueError"
| "superclass UnicodeDecodeError = Some ValueError"
| "superclass BinasciiError = Some ValueError"
| "superclass FileAgentError = Some ValueError"
| "superclass AuditAgentError = Some ValueError"
| "superclass DatabaseAgentError = Some ValueError"
| "superclass AgentRuntimeError = Some RuntimeError"
| "superclass TSARequestError = Some RuntimeError"
| "superclass MissingVerifiedSessionContext = Some RuntimeError"
| "superclass _ = None"

text \<open>Whether \<^verbatim>\<open>except (cs)\<close> catches the exception.\<close>

definition caught_by :: "exc_class list \<Rightarrow> py_error \<Rightarrow> bool" where
  "caught_by cs e \<longleftrightarrow>
     exc_type e \<in> set cs \<or> (case superclass (exc_type e) of None \<Rightarrow> False | Some c \<Rightarrow> c \<in> set cs)"

text \<open>Sequencing: an exception skips the rest of the body.\<close>

definition bind_res :: "'a res \<Rightarrow> ('a \<Rightarrow> 'b res) \<Rightarrow> 'b res" where
  "bind_res m f = (case m of Inl e \<Rightarrow> Inl e | Inr x \<Rightarrow> f x)"

definition map_res :: "('a \<Rightarrow> 'b) \<Rightarrow> 'a res \<Rightarrow> 'b res" where
  "map_res f m = (case m of Inl e \<Rightarrow> Inl e | Inr x \<Rightarrow> Inr (f x))"

text \<open>A list comprehension whose element expression may raise.\<close>

fun traverse :: "('a \<Rightarrow> 'b res) \<Rightarrow> 'a list \<Rightarrow> 'b list res" where
  "traverse f [] = Inr []"
| "traverse f (x # xs) = bind_res (f x) (\<lambda>y. map_res (\<lambda>ys. y # ys) (traverse f xs))"

section \<open>JSON values and dictionaries\<close>

text \<open>
  The values a payload can hold. A Python \<^verbatim>\<open>dict\<close> is an association list in insertion order;
  \<open>dict_set\<close> is \<^verbatim>\<open>d[k] = v\<close>, which keeps the position of an existing key.
\<close>

datatype json =
    JNull
  | JBool bool
  | JInt int
  | JStr string
  | JList "json list"
  | JObj "(string \<times> json) list"

type_synonym 'v dict = "(string \<times> 'v) list"

fun dict_set :: "'k \<Rightarrow> 'v \<Rightarrow> ('k \<times> 'v) list \<Rightarrow> ('k \<times> 'v) list" where
  "dict_set k v [] = [(k, v)]"
| "dict_set k v ((k', v') # d) = (if k' = k then (k, v) # d else (k', v') # dict_set k v d)"

abbreviation dict_get :: "('k \<times> 'v) list \<Rightarrow> 'k \<Rightarrow> 'v option" where
  "dict_get \<equiv> map_of"

fun is_dict :: "json \<Rightarrow> bool" where
  "is_dict (JObj _) = True"
| "is_dict _ = False"

fun is_str :: "json \<Rightarrow> bool" where
  "is_str (JStr _) = True"
| "is_str _ = False"

text \<open>Python truth of a value: \<^verbatim>\<open>bool(v)\<close>.\<close>

fun truthy :: "json \<Rightarrow> bool" where
  "truthy JNull = False"
| "truthy (JBool b) = b"
| "truthy (JInt i) = (i \<noteq> 0)"
| "truthy (JStr s) = (s \<noteq> [])"
| "truthy (JList xs) = (xs \<noteq> [])"
| "truthy (JObj d) = (d \<noteq> [])"

text \<open>\<^verbatim>\<open>d.get(k)\<close> with the default \<^verbatim>\<open>None\<close>.\<close>

definition get_or_null :: "json dict \<Rightarrow> string \<Rightarrow> json" where
  "get_or_null d k = (case map_of d k of None \<Rightarrow> JNull | Some v \<Rightarrow> v)"

definition opt_json :: "string option \<Rightarrow> json" where
  "opt_json v = (case v of None \<Rightarrow> JNull | Some s \<Rightarrow> JStr s)"

section \<open>Text\<close>

definition py_isspace :: "char \<Rightarrow> bool" where
  "py_isspace c \<longleftrightarrow>
     (let n = of_char c :: nat in (9 \<le> n \<and> n \<le> 13) \<or> (28 \<le> n \<and> n \<le> 32))"

definition lstrip :: "string \<Rightarrow> string" where
  "lstrip s = dropWhile py_isspace s"

definition strip :: "string \<Rightarrow> string" where
  "strip s = rev (dropWhile py_isspace (rev (dropWhile py_isspace s)))"

definition lower_char :: "char \<Rightarrow> char" where
  "lower_char c = (let n = of_char c :: nat in if 65 \<le> n \<and> n \<le> 90 then char_of (n + 32) else c)"

definition str_lower :: "string \<Rightarrow> string" where
  "str_lower s = map lower_char s"

definition startswith :: "string \<Rightarrow> string \<Rightarrow> bool" where
  "startswith s p \<longleftrightarrow> take (length p) s = p"

definition endswith :: "string \<Rightarrow> string \<Rightarrow> bool" where
  "endswith s p \<longleftrightarrow> length p \<le> length s \<and> drop (length s - length p) s = p"

fun str_contains :: "string \<Rightarrow> string \<Rightarrow> bool" where
  "str_contains [] p = (p = [])"
| "str_contains (c # s) p = (startswith (c # s) p \<or> str_contains s p)"

text \<open>Decimal rendering of a number, as an f-string prints it.\<close>

fun show_nat :: "nat \<Rightarrow> string" where
  "show_nat n = (if n < 10 then [char_of (48 + n)] else show_nat (n div 10) @ [char_of (48 + n mod 10)])"

declare show_nat.simps [simp del]

definition show_int :: "int \<Rightarrow> string" where
  "show_int i = (if i < 0 then ''-'' @ show_nat (nat (- i)) else show_nat (nat i))"

text \<open>\<^verbatim>\<open>sep.join(parts)\<close>.\<close>

fun str_join :: "string \<Rightarrow> string list \<Rightarrow> string" where
  "str_join sep [] = []"
| "str_join sep [s] = s"
| "str_join sep (s # t # rest) = s @ sep @ str_join sep (t # rest)"

section \<open>Shared lemmas\<close>

named_theorems res_simps \<open>equations of the result combinators\<close>
named_theorems text_defs \<open>definitions of the text operations\<close>

lemma bind_res_simps [simp, res_simps]:
  "bind_res (Inl e) f = Inl e"
  "bind_res (Inr x) f = f x"
  by (simp_all add: bind_res_def)

lemma bind_res_cong [fundef_cong]:
  "m = m' \<Longrightarrow> (\<And>x. m' = Inr x \<Longrightarrow> f x = g x) \<Longrightarrow> bind_res m f = bind_res m' g"
  by (cases m') auto

lemma map_res_simps [simp, res_simps]:
  "map_res g (Inl e) = Inl e"
  "map_res g (Inr x) = Inr (g x)"
  by (simp_all add: map_res_def)

lemma bind_res_eq_Inr: "bind_res m f = Inr y \<longleftrightarrow> (\<exists>x. m = Inr x \<and> f x = Inr y)"
  by (cases m) auto

lemma bind_res_eq_Inl: "bind_res m f = Inl e \<longleftrightarrow> m = Inl e \<or> (\<exists>x. m = Inr x \<and> f x = Inl e)"
  by (cases m) auto

lemma map_res_eq_Inr: "map_res g m = Inr y \<longleftrightarrow> (\<exists>x. m = Inr x \<and> y = g x)"
  by (cases m) auto

lemma map_res_eq_Inl [simp]: "map_res g m = Inl e \<longleftrightarrow> m = Inl e"
  by (cases m) auto

lemmas res_elims = bind_res_eq_Inr bind_res_eq_Inl map_res_eq_Inr

lemma traverse_eq_Inr:
  "traverse f xs = Inr ys \<longleftrightarrow> length xs = length ys \<and> (\<forall>i < length xs. f (xs ! i) = Inr (ys ! i))"
proof (induction xs arbitrary: ys)
  case Nil
  then show ?case by auto
next
  case (Cons x xs)
  show ?case
    by (cases ys) (auto simp: res_elims Cons.IH nth_Cons' less_Suc_eq_0_disj)
qed

lemma traverse_map: "(\<And>x. x \<in> set xs \<Longrightarrow> f x = Inr (g x)) \<Longrightarrow> traverse f xs = Inr (map g xs)"
  by (induction xs) auto

lemma map_of_dict_set [simp]: "map_of (dict_set k v d) = (map_of d)(k \<mapsto> v)"
  by (induction d) (auto simp: fun_eq_iff)

lemma fst_dict_set: "set (map fst (dict_set k v d)) = insert k (set (map fst d))"
proof (induction d)
  case (Cons p d)
  then show ?case by (cases p) (simp add: insert_commute)
qed simp

lemma distinct_dict_set: "distinct (map fst d) \<Longrightarrow> distinct (map fst (dict_set k v d))"
proof (induction d)
  case (Cons p d)
  then show ?case using fst_dict_set [of k v d] by (cases p) auto
qed simp

lemma length_str_encode [simp]: "length (str_encode s) = length s"
  by (simp add: str_encode_def)

lemma startswith_append [simp]: "startswith (p @ s) p"
  by (simp add: startswith_def)

lemma startswith_iff: "startswith s p \<longleftrightarrow> (\<exists>t. s = p @ t)"
  unfolding startswith_def by (metis append_eq_conv_conj append_take_drop_id)

lemma endswith_iff: "endswith s p \<longleftrightarrow> (\<exists>t. s = t @ p)"
proof
  assume "endswith s p"
  then have "s = take (length s - length p) s @ p"
    unfolding endswith_def by (metis append_take_drop_id)
  then show "\<exists>t. s = t @ p" by blast
qed (auto simp: endswith_def)

lemma str_contains_iff: "str_contains s p \<longleftrightarrow> (\<exists>a b. s = a @ p @ b)"
proof (induction s)
  case Nil
  then show ?case by auto
next
  case (Cons c s)
  show ?case
  proof
    assume "str_contains (c # s) p"
    then consider "startswith (c # s) p" | "str_contains s p" by auto
    then show "\<exists>a b. c # s = a @ p @ b"
    proof cases
      case 1
      then obtain t where "c # s = [] @ p @ t" by (auto simp: startswith_iff)
      then show ?thesis by blast
    next
      case 2
      then obtain a b where "c # s = (c # a) @ p @ b" using Cons.IH by auto
      then show ?thesis by blast
    qed
  next
    assume "\<exists>a b. c # s = a @ p @ b"
    then obtain a b where e: "c # s = a @ p @ b" by blast
    show "str_contains (c # s) p"
    proof (cases a)
      case Nil
      with e have "startswith (c # s) p" by (simp add: startswith_iff)
      then show ?thesis by simp
    next
      case (Cons x a')
      with e have "s = a' @ p @ b" by simp
      then show ?thesis using Cons.IH by auto
    qed
  qed
qed

lemma length_concat_replicate_same:
  "(\<And>x. x \<in> set xs \<Longrightarrow> length x = n) \<Longrightarrow> length (concat xs) = n * length xs"
  by (induction xs) auto

end
