(* ===== verification/Encodings.thy ===== *)
theory Encodings
  imports Aor_Prelude
begin

text \<open>
  The byte encodings of the Python standard library that the code uses: \<^verbatim>\<open>bytes.hex\<close> and
  \<^verbatim>\<open>bytes.fromhex\<close>, and \<^verbatim>\<open>base64\<close> in its standard, URL-safe and unpadded (JWK) forms. The decoder is
  the state machine of \<^verbatim>\<open>binascii.a2b_base64\<close>, with its strict mode (\<^verbatim>\<open>validate=True\<close>) and its lax mode,
  which skips characters outside the alphabet. The helper functions of \<^verbatim>\<open>key_registry/jwks.py\<close> and
  \<^verbatim>\<open>action_executor/poi_encoding.py\<close> that wrap them are here too. Every encoder/decoder pair is an
  instance of the interface \<open>codec\<close>.
\<close>

section \<open>Hexadecimal\<close>

definition hex_digit :: "nat \<Rightarrow> char" where
  "hex_digit n = (if n < 10 then char_of (48 + n) else char_of (87 + n))"

definition hex_val :: "char \<Rightarrow> nat option" where
  "hex_val c = (let n = of_char c :: nat in
     if 48 \<le> n \<and> n \<le> 57 then Some (n - 48)
     else if 97 \<le> n \<and> n \<le> 102 then Some (n - 87)
     else if 65 \<le> n \<and> n \<le> 70 then Some (n - 55)
     else None)"

definition byte_hex :: "byte \<Rightarrow> string" where
  "byte_hex w = [hex_digit (unat w div 16), hex_digit (unat w mod 16)]"

definition bytes_hex :: "bytes \<Rightarrow> string" where
  "bytes_hex b = concat (map byte_hex b)"

text \<open>The digit characters by their value, for evaluation.\<close>

definition hex_char :: "int \<Rightarrow> char" where
  "hex_char i =
     (if i = 0 then CHR ''0'' else if i = 1 then CHR ''1'' else if i = 2 then CHR ''2''
      else if i = 3 then CHR ''3'' else if i = 4 then CHR ''4'' else if i = 5 then CHR ''5''
      else if i = 6 then CHR ''6'' else if i = 7 then CHR ''7'' else if i = 8 then CHR ''8''
      else if i = 9 then CHR ''9'' else if i = 10 then CHR ''a'' else if i = 11 then CHR ''b''
      else if i = 12 then CHR ''c'' else if i = 13 then CHR ''d'' else if i = 14 then CHR ''e''
      else CHR ''f'')"

text \<open>\<^verbatim>\<open>repr(s)\<close> of a text.\<close>

definition repr_quote :: "string \<Rightarrow> char" where
  "repr_quote s = (if CHR 0x27 \<in> set s \<and> CHR 0x22 \<notin> set s then CHR 0x22 else CHR 0x27)"

definition repr_char :: "char \<Rightarrow> char \<Rightarrow> string" where
  "repr_char q c =
     (if c = q \<or> c = CHR 0x5C then [CHR 0x5C, c]
      else if c = CHR 0x09 then [CHR 0x5C, CHR ''t'']
      else if c = CHR 0x0A then [CHR 0x5C, CHR ''n'']
      else if c = CHR 0x0D then [CHR 0x5C, CHR ''r'']
      else
        let n = of_char c :: nat in
        if n < 32 \<or> n = 127 then [CHR 0x5C, CHR ''x''] @ byte_hex (of_char c) else [c])"

definition py_repr :: "string \<Rightarrow> string" where
  "py_repr s = (let q = repr_quote s in [q] @ concat (map (repr_char q) s) @ [q])"

text \<open>\<^verbatim>\<open>str(exc)\<close>: a \<^verbatim>\<open>KeyError\<close> shows its key as \<^verbatim>\<open>repr\<close> does.\<close>

definition exc_str :: "py_error \<Rightarrow> string" where
  "exc_str e = (if exc_type e = KeyError then py_repr (exc_msg e) else exc_msg e)"

text \<open>\<^verbatim>\<open>bytes.fromhex\<close> skips ASCII whitespace between byte pairs and accepts both cases.\<close>

definition ascii_space :: "char \<Rightarrow> bool" where
  "ascii_space c \<longleftrightarrow> (let n = of_char c :: nat in n = 32 \<or> (9 \<le> n \<and> n \<le> 13))"

definition hex_error :: py_error where
  "hex_error = Exc ValueError ''non-hexadecimal number found in fromhex() arg''"

fun bytes_fromhex :: "string \<Rightarrow> bytes res" where
  "bytes_fromhex [] = Inr []"
| "bytes_fromhex [c] = (if ascii_space c then Inr [] else Inl hex_error)"
| "bytes_fromhex (c # d # s) =
     (if ascii_space c then bytes_fromhex (d # s)
      else case (hex_val c, hex_val d) of
        (Some a, Some b) \<Rightarrow> map_res (\<lambda>r. of_nat (16 * a + b) # r) (bytes_fromhex s)
      | _ \<Rightarrow> Inl hex_error)"

section \<open>Base64\<close>

definition b64_char :: "nat \<Rightarrow> char" where
  "b64_char n =
     (if n < 26 then char_of (65 + n) else if n < 52 then char_of (71 + n)
      else if n < 62 then char_of (n - 4) else if n = 62 then CHR ''+'' else CHR ''/'')"

definition b64_val :: "char \<Rightarrow> nat option" where
  "b64_val c = (let n = of_char c :: nat in
     if 65 \<le> n \<and> n \<le> 90 then Some (n - 65)
     else if 97 \<le> n \<and> n \<le> 122 then Some (n - 71)
     else if 48 \<le> n \<and> n \<le> 57 then Some (n + 4)
     else if n = 43 then Some 62
     else if n = 47 then Some 63
     else None)"

abbreviation pad_char :: char where
  "pad_char \<equiv> CHR ''=''"

text \<open>\<^verbatim>\<open>base64.b64encode\<close>: three bytes become four characters.\<close>

fun b64encode :: "bytes \<Rightarrow> string" where
  "b64encode [] = []"
| "b64encode [a] =
     [b64_char (unat a div 4), b64_char (unat a mod 4 * 16), pad_char, pad_char]"
| "b64encode [a, b] =
     [b64_char (unat a div 4), b64_char (unat a mod 4 * 16 + unat b div 16),
      b64_char (unat b mod 16 * 4), pad_char]"
| "b64encode (a # b # c # r) =
     b64_char (unat a div 4) # b64_char (unat a mod 4 * 16 + unat b div 16) #
     b64_char (unat b mod 16 * 4 + unat c div 64) # b64_char (unat c mod 64) # b64encode r"

definition b64_error :: py_error where
  "b64_error = Exc BinasciiError ''Incorrect padding''"

text \<open>
  The loop of \<^verbatim>\<open>binascii.a2b_base64\<close>: \<open>pos\<close> is the position in the current group of four, \<open>left\<close>
  the bits left over from the last character, \<open>pads\<close> the padding characters counted so far and
  \<open>started\<close> whether padding was seen.
\<close>

definition a2b_emit :: "nat \<Rightarrow> nat \<Rightarrow> nat \<Rightarrow> bytes" where
  "a2b_emit pos left v =
     (if pos = 0 then []
      else if pos = 1 then [of_nat (left * 4 + v div 16)]
      else if pos = 2 then [of_nat (left * 16 + v div 4)]
      else [of_nat (left * 64 + v)])"

definition a2b_left :: "nat \<Rightarrow> nat \<Rightarrow> nat" where
  "a2b_left pos v =
     (if pos = 0 then v else if pos = 1 then v mod 16 else if pos = 2 then v mod 4 else 0)"

fun a2b_base64 :: "bool \<Rightarrow> nat \<Rightarrow> nat \<Rightarrow> nat \<Rightarrow> bool \<Rightarrow> string \<Rightarrow> bytes res" where
  "a2b_base64 strict pos left pads started [] = (if pos = 0 then Inr [] else Inl b64_error)"
| "a2b_base64 strict pos left pads started (c # cs) =
     (if c = pad_char then
        if strict \<and> pos = 0 then Inl b64_error
        else if 2 \<le> pos \<and> 4 \<le> pos + pads + 1
          then (if strict \<and> cs \<noteq> [] then Inl b64_error else Inr [])
        else a2b_base64 strict pos left (if 2 \<le> pos then pads + 1 else pads) True cs
      else case b64_val c of
        None \<Rightarrow> if strict then Inl b64_error else a2b_base64 strict pos left pads started cs
      | Some v \<Rightarrow>
          if strict \<and> started then Inl b64_error
          else map_res (\<lambda>r. a2b_emit pos left v @ r)
                 (a2b_base64 strict ((pos + 1) mod 4) (a2b_left pos v) 0 started cs))"

definition b64decode :: "bool \<Rightarrow> string \<Rightarrow> bytes res" where
  "b64decode validate s = a2b_base64 validate 0 0 0 False s"

text \<open>\<^verbatim>\<open>base64.urlsafe_b64encode\<close> and \<^verbatim>\<open>base64.urlsafe_b64decode\<close>: the standard form with two letters exchanged.\<close>

definition to_urlsafe :: "char \<Rightarrow> char" where
  "to_urlsafe c = (if c = CHR ''+'' then CHR ''-'' else if c = CHR ''/'' then CHR ''_'' else c)"

definition from_urlsafe :: "char \<Rightarrow> char" where
  "from_urlsafe c = (if c = CHR ''-'' then CHR ''+'' else if c = CHR ''_'' then CHR ''/'' else c)"

definition urlsafe_b64encode :: "bytes \<Rightarrow> string" where
  "urlsafe_b64encode b = map to_urlsafe (b64encode b)"

definition urlsafe_b64decode :: "string \<Rightarrow> bytes res" where
  "urlsafe_b64decode s = b64decode False (map from_urlsafe s)"

subsection \<open>Wrappers of \<^verbatim>\<open>jwks.py\<close> and \<^verbatim>\<open>poi_encoding.py\<close>\<close>

definition rstrip_pad :: "string \<Rightarrow> string" where
  "rstrip_pad s = rev (dropWhile (\<lambda>c. c = pad_char) (rev s))"

definition base64url_encode :: "bytes \<Rightarrow> string" where
  "base64url_encode v = rstrip_pad (urlsafe_b64encode v)"

definition base64url_decode :: "string \<Rightarrow> bytes res" where
  "base64url_decode v = urlsafe_b64decode (v @ replicate (nat (- int (length v) mod 4)) pad_char)"

text \<open>\<^verbatim>\<open>"".join(value.split())\<close> drops every whitespace character.\<close>

definition compact_header :: "string \<Rightarrow> string" where
  "compact_header v = filter (\<lambda>c. \<not> py_isspace c) v"

definition urlsafe_base64_encode :: "bytes \<Rightarrow> string" where
  "urlsafe_base64_encode v = urlsafe_b64encode v"

definition urlsafe_base64_decode :: "string \<Rightarrow> bytes res" where
  "urlsafe_base64_decode v = urlsafe_b64decode (compact_header v)"

section \<open>Hexadecimal round trip\<close>

lemma unat_byte_less [simp]: "unat (w :: byte) < 256"
  using unsigned_less [of w] by simp

text \<open>Code equations over \<open>int\<close>, which the simplifier evaluates faster than \<open>nat\<close> division.\<close>

lemma hex_char_digit: "n < 16 \<Longrightarrow> hex_char (int n) = hex_digit n"
proof -
  assume "n < 16"
  then have "n \<in> {0, 1, 2, 3, 4, 5, 6, 7, 8, 9, 10, 11, 12, 13, 14, 15}" by (simp, arith)
  then show ?thesis by (auto simp: hex_char_def hex_digit_def char_of_def bit_Suc_0_iff)
qed

lemma byte_hex_code [code]: "byte_hex w = [hex_char (uint w div 16), hex_char (uint w mod 16)]"
proof -
  have "unat w < 256" by simp
  then have "unat w div 16 < 16" by linarith
  moreover have "uint w div 16 = int (unat w div 16)" "uint w mod 16 = int (unat w mod 16)"
    by (simp_all add: zdiv_int zmod_int)
  ultimately show ?thesis by (simp add: byte_hex_def hex_char_digit)
qed

lemma str_encode_code [code]: "str_encode s = map (\<lambda>c. word_of_int (of_char c)) s"
  by (simp only: str_encode_def of_int_of_char)

lemma of_char_hex_digit:
  "n < 16 \<Longrightarrow> (of_char (hex_digit n) :: nat) = (if n < 10 then 48 + n else 87 + n)"
  by (simp add: hex_digit_def)

lemma hex_val_digit [simp]: "n < 16 \<Longrightarrow> hex_val (hex_digit n) = Some n"
  by (simp add: hex_val_def of_char_hex_digit)

lemma hex_digit_not_space [simp]: "n < 16 \<Longrightarrow> \<not> ascii_space (hex_digit n)"
  by (simp add: ascii_space_def of_char_hex_digit)

lemma byte_split [simp]: "word_of_nat (16 * (unat w div 16) + unat w mod 16) = (w :: byte)"
proof -
  have "word_of_nat (16 * (unat w div 16) + unat w mod 16) = (word_of_nat (unat w) :: byte)"
    by (subst mult_div_mod_eq) simp
  then show ?thesis by simp
qed

lemma bytes_fromhex_byte: "bytes_fromhex (byte_hex w @ s) = map_res (\<lambda>r. w # r) (bytes_fromhex s)"
proof -
  have "unat w div 16 < 16" using unat_byte_less [of w] by linarith
  then show ?thesis by (simp add: byte_hex_def)
qed

lemma bytes_fromhex_hex: "bytes_fromhex (bytes_hex b) = Inr b"
  by (induction b) (simp_all add: bytes_hex_def bytes_fromhex_byte)

lemma length_bytes_hex [simp]: "length (bytes_hex b) = 2 * length b"
  by (induction b) (simp_all add: bytes_hex_def byte_hex_def)

section \<open>Base64 round trips\<close>

lemma of_char_b64_char:
  "n < 64 \<Longrightarrow> (of_char (b64_char n) :: nat) =
     (if n < 26 then 65 + n else if n < 52 then 71 + n else if n < 62 then n - 4
      else if n = 62 then 43 else 47)"
  by (auto simp: b64_char_def)

lemma b64_val_char [simp]: "n < 64 \<Longrightarrow> b64_val (b64_char n) = Some n"
  by (auto simp: b64_val_def of_char_b64_char Let_def)

lemma b64_val_pad [simp]: "b64_val pad_char = None"
  by (simp add: b64_val_def)

lemma b64_char_not_pad [simp]:
  assumes "n < 64"
  shows "b64_char n \<noteq> pad_char"
proof
  assume "b64_char n = pad_char"
  then have "b64_val (b64_char n) = None" by simp
  with assms show False by simp
qed

lemmas pad_not_b64_char [simp] = b64_char_not_pad [symmetric]

text \<open>One alphabet character advances the group and emits the bits it completes.\<close>

lemma a2b_char:
  "v < 64 \<Longrightarrow> a2b_base64 st pos l p False (b64_char v # cs) =
     map_res (\<lambda>r. a2b_emit pos l v @ r)
       (a2b_base64 st ((pos + 1) mod 4) (a2b_left pos v) 0 False cs)"
  by simp

lemma a2b_next:
  "(0 + 1) mod 4 = (1 :: nat)" "(1 + 1) mod 4 = (2 :: nat)" "(2 + 1) mod 4 = (3 :: nat)"
  "(3 + 1) mod 4 = (0 :: nat)"
  by simp_all

lemma a2b_step:
  assumes "v < 64"
  shows "a2b_base64 st 0 l p False (b64_char v # cs) = a2b_base64 st 1 v 0 False cs"
    and "a2b_base64 st 1 l p False (b64_char v # cs) =
      map_res (\<lambda>r. of_nat (l * 4 + v div 16) # r) (a2b_base64 st 2 (v mod 16) 0 False cs)"
    and "a2b_base64 st 2 l p False (b64_char v # cs) =
      map_res (\<lambda>r. of_nat (l * 16 + v div 4) # r) (a2b_base64 st 3 (v mod 4) 0 False cs)"
    and "a2b_base64 st 3 l p False (b64_char v # cs) =
      map_res (\<lambda>r. of_nat (l * 64 + v) # r) (a2b_base64 st 0 0 0 False cs)"
  by (simp_all only: a2b_char [OF assms] a2b_next) (simp_all add: a2b_emit_def a2b_left_def map_res_def split: sum.split)

lemma a2b_end:
  "a2b_base64 st 0 l p False [] = Inr []"
  "a2b_base64 st 2 l 0 False [pad_char, pad_char] = Inr []"
  "a2b_base64 st 3 l 0 False [pad_char] = Inr []"
  by simp_all

lemma b64_sextets [simp]:
  fixes a b c :: byte
  shows "unat a div 4 < 64" "unat a mod 4 * 16 < 64" "unat a mod 4 * 16 + unat b div 16 < 64"
    "unat b mod 16 * 4 < 64" "unat b mod 16 * 4 + unat c div 64 < 64" "unat c mod 64 < 64"
  using unat_byte_less [of a] unat_byte_less [of b] unat_byte_less [of c] by linarith+

lemma digits_split:
  fixes k q s :: nat
  shows "q < 16 \<Longrightarrow> (k * 16 + q) div 16 = k" "q < 16 \<Longrightarrow> (k * 16 + q) mod 16 = q"
    and "s < 4 \<Longrightarrow> (k * 4 + s) div 4 = k" "s < 4 \<Longrightarrow> (k * 4 + s) mod 4 = s"
  by simp_all

lemma high_digits [simp]:
  fixes w :: byte
  shows "unat w div 16 < 16" "unat w div 64 < 4"
  using unat_byte_less [of w] by linarith+

lemma word_of_parts:
  fixes w :: byte
  shows "word_of_nat (unat w div n * n + unat w mod n) = w"
  by (subst div_mult_mod_eq) simp

lemma word_of_parts':
  fixes a b :: byte
  shows "word_of_nat (unat a div 4 * 4 + (unat a mod 4 * 16) div 16) = a"
    and "word_of_nat (unat b div 16 * 16 + (unat b mod 16 * 4) div 4) = b"
  by (simp_all only: nonzero_mult_div_cancel_right word_of_parts zero_neq_numeral not_False_eq_True)

lemmas a2b_roundtrip_simps =
  b64encode.simps a2b_step a2b_end b64_sextets high_digits digits_split word_of_parts word_of_parts'
  map_res_simps

lemma a2b_b64encode: "a2b_base64 strict 0 0 0 False (b64encode b) = Inr b"
  by (induction b rule: b64encode.induct) (simp_all only: a2b_roundtrip_simps)

lemma b64decode_encode: "b64decode validate (b64encode b) = Inr b"
  by (simp add: b64decode_def a2b_b64encode)

text \<open>Where the characters of an encoding come from, and the shape of its padding.\<close>

definition b64_text :: "char \<Rightarrow> bool" where
  "b64_text c \<longleftrightarrow> c = pad_char \<or> b64_val c \<noteq> None"

lemma b64_text_encode: "list_all b64_text (b64encode b)"
  by (induction b rule: b64encode.induct) (simp_all add: b64_text_def)

definition padded :: "string \<Rightarrow> bool" where
  "padded s \<longleftrightarrow> (\<exists>core k. s = core @ replicate k pad_char \<and> pad_char \<notin> set core \<and> k \<le> 2
     \<and> (length core + k) mod 4 = 0)"

lemma paddedI:
  "s = core @ replicate k pad_char \<Longrightarrow> pad_char \<notin> set core \<Longrightarrow> k \<le> 2 \<Longrightarrow>
   (length core + k) mod 4 = 0 \<Longrightarrow> padded s"
  unfolding padded_def by (intro exI conjI)

lemma paddedE:
  assumes "padded s"
  obtains core k where "s = core @ replicate k pad_char" "pad_char \<notin> set core" "k \<le> 2"
    "(length core + k) mod 4 = 0"
  using assms unfolding padded_def by (elim exE conjE) (rule that)

lemma padded_group:
  assumes "padded s" "pad_char \<notin> set q" "length q = 4"
  shows "padded (q @ s)"
proof -
  from assms(1) obtain core k where *: "s = core @ replicate k pad_char" "pad_char \<notin> set core" "k \<le> 2"
      "(length core + k) mod 4 = 0" by (rule paddedE)
  show ?thesis
    by (rule paddedI [of _ "q @ core" k]) (use * assms in \<open>simp_all, presburger?\<close>)
qed

lemma padded_b64encode: "padded (b64encode b)"
proof (induction b rule: b64encode.induct)
  case 1
  show ?case by (rule paddedI [of _ "[]" 0]) simp_all
next
  case (2 a)
  show ?case
    by (rule paddedI [of _ "[b64_char (unat a div 4), b64_char (unat a mod 4 * 16)]" 2])
      (simp_all add: numeral_2_eq_2)
next
  case (3 a b)
  show ?case
    by (rule paddedI [of _ "[b64_char (unat a div 4), b64_char (unat a mod 4 * 16 + unat b div 16),
        b64_char (unat b mod 16 * 4)]" 1]) simp_all
next
  case (4 a b c r)
  from padded_group [OF this, of "[b64_char (unat a div 4), b64_char (unat a mod 4 * 16 + unat b div 16),
     b64_char (unat b mod 16 * 4 + unat c div 64), b64_char (unat c mod 64)]"]
  show ?case by simp
qed

lemma from_to_urlsafe_char: "b64_text c \<Longrightarrow> from_urlsafe (to_urlsafe c) = c"
  by (auto simp: b64_text_def from_urlsafe_def to_urlsafe_def b64_val_def)

lemma to_urlsafe_pad [simp]: "to_urlsafe pad_char = pad_char" "from_urlsafe pad_char = pad_char"
  by (simp_all add: to_urlsafe_def from_urlsafe_def)

lemma to_urlsafe_not_pad: "to_urlsafe c = pad_char \<longleftrightarrow> c = pad_char"
  by (simp add: to_urlsafe_def)

lemma from_to_urlsafe: "map from_urlsafe (urlsafe_b64encode b) = b64encode b"
proof -
  have "from_urlsafe (to_urlsafe c) = c" if "c \<in> set (b64encode b)" for c
    using that b64_text_encode [of b] by (simp add: from_to_urlsafe_char list_all_iff)
  then show ?thesis by (simp add: urlsafe_b64encode_def map_idI)
qed

lemma urlsafe_b64decode_encode: "urlsafe_b64decode (urlsafe_b64encode b) = Inr b"
  by (simp add: urlsafe_b64decode_def from_to_urlsafe b64decode_encode)

text \<open>The unpadded form: stripping the padding loses nothing, since the length determines it.\<close>

lemma padded_map_urlsafe: "padded s \<Longrightarrow> padded (map to_urlsafe s)"
proof -
  assume "padded s"
  then obtain core k where *: "s = core @ replicate k pad_char" "pad_char \<notin> set core" "k \<le> 2"
      "(length core + k) mod 4 = 0" by (rule paddedE)
  have "pad_char \<noteq> to_urlsafe c" if "c \<in> set core" for c
    using that *(2) to_urlsafe_not_pad [of c] by metis
  then show ?thesis
    by (intro paddedI [of _ "map to_urlsafe core" k]) (use * in auto)
qed

lemma repad:
  assumes "padded s"
  shows "rstrip_pad s @ replicate (nat (- int (length (rstrip_pad s)) mod 4)) pad_char = s"
proof -
  from assms obtain core k where *: "s = core @ replicate k pad_char" "pad_char \<notin> set core" "k \<le> 2"
      "(length core + k) mod 4 = 0" by (rule paddedE)
  have "dropWhile (\<lambda>c. c = pad_char) (rev core) = rev core"
  proof (cases "rev core")
    case (Cons c cs)
    then have "c \<in> set core" by (metis list.set_intros(1) set_rev)
    with *(2) have "c \<noteq> pad_char" by metis
    with Cons show ?thesis by simp
  qed simp
  then have core: "rstrip_pad s = core"
    using *(1) by (simp add: rstrip_pad_def dropWhile_append)
  have "- int (length core) mod 4 = int k" using *(3,4) by presburger
  then show ?thesis using core *(1) by simp
qed

lemma base64url_decode_encode: "base64url_decode (base64url_encode v) = Inr v"
proof -
  have "padded (urlsafe_b64encode v)"
    by (simp add: urlsafe_b64encode_def padded_map_urlsafe padded_b64encode)
  from repad [OF this] show ?thesis
    by (simp add: base64url_decode_def base64url_encode_def urlsafe_b64decode_encode)
qed

text \<open>A folded header decodes like the unfolded one: encodings contain no whitespace.\<close>

lemma not_space_b64: "b64_text c \<Longrightarrow> \<not> py_isspace (to_urlsafe c)"
  by (auto simp: b64_text_def b64_val_def py_isspace_def to_urlsafe_def Let_def split: if_splits)

lemma compact_urlsafe: "compact_header (urlsafe_b64encode b) = urlsafe_b64encode b"
  using b64_text_encode [of b] not_space_b64
  by (auto simp: compact_header_def urlsafe_b64encode_def list_all_iff filter_id_conv)

lemma urlsafe_base64_decode_encode: "urlsafe_base64_decode (urlsafe_base64_encode b) = Inr b"
  by (simp add: urlsafe_base64_decode_def urlsafe_base64_encode_def compact_urlsafe
      urlsafe_b64decode_encode)

section \<open>The interface: a codec\<close>

text \<open>
  What the clients rely on: decoding an encoding gives the bytes back. The client lemmas are
  proved once; each pair above is an instance.
\<close>

locale codec =
  fixes enc :: "bytes \<Rightarrow> string" and dec :: "string \<Rightarrow> bytes res"
  assumes dec_enc: "dec (enc b) = Inr b"
begin

lemma enc_eq_iff: "enc a = enc b \<longleftrightarrow> a = b"
  by (metis dec_enc sum.inject(2))

lemma inj_enc: "inj enc"
  by (rule injI) (simp add: enc_eq_iff)

lemma dec_result_unique: "dec (enc a) = Inr b \<Longrightarrow> b = a"
  by (simp add: dec_enc)

end

interpretation hex: codec bytes_hex bytes_fromhex
  by unfold_locales (rule bytes_fromhex_hex)

interpretation b64: codec b64encode "b64decode validate" for validate
  by unfold_locales (rule b64decode_encode)

interpretation urlsafe: codec urlsafe_base64_encode urlsafe_base64_decode
  by unfold_locales (rule urlsafe_base64_decode_encode)

interpretation jwk: codec base64url_encode base64url_decode
  by unfold_locales (rule base64url_decode_encode)

section \<open>Errors of the decoders\<close>

lemma a2b_base64_error: "a2b_base64 strict pos left pads started s = Inl e \<Longrightarrow> e = b64_error"
  by (induction strict pos left pads started s rule: a2b_base64.induct)
     (auto split: if_splits option.splits)

lemma b64decode_error: "b64decode validate s = Inl e \<Longrightarrow> caught_by (ValueError # cs) e"
  using a2b_base64_error [of validate 0 0 0 False s e]
  by (simp add: b64decode_def caught_by_def b64_error_def)

lemma bytes_fromhex_error: "bytes_fromhex s = Inl e \<Longrightarrow> caught_by (ValueError # cs) e"
  by (induction s rule: bytes_fromhex.induct)
     (auto simp: caught_by_def hex_error_def split: if_splits option.splits)

end
