(* ===== verification/Iso_Time.thy ===== *)
theory Iso_Time
  imports Aor_Prelude
begin

text \<open>
  The part of \<^verbatim>\<open>datetime\<close> that the verifier and the key registry use: \<^verbatim>\<open>datetime.fromisoformat\<close> (the
  grammar of Python 3.10, the oldest version the project supports), conversion to UTC with its
  \<^verbatim>\<open>OverflowError\<close>, and the two timestamp helpers built on them (\<^verbatim>\<open>models.py:_as_utc\<close> and
  \<^verbatim>\<open>verifier.py:_parse_timestamp\<close>). Instants are microseconds since \<^verbatim>\<open>0001-01-01T00:00\<close>.
\<close>

section \<open>The calendar\<close>

definition is_leap :: "int \<Rightarrow> bool" where
  "is_leap y \<longleftrightarrow> y mod 4 = 0 \<and> (y mod 100 \<noteq> 0 \<or> y mod 400 = 0)"

definition days_in_month :: "int \<Rightarrow> int \<Rightarrow> int" where
  "days_in_month y m =
     (if m = 2 then (if is_leap y then 29 else 28) else if m = 4 \<or> m = 6 \<or> m = 9 \<or> m = 11 then 30 else 31)"

text \<open>Days before 1 January of year \<open>y\<close>, and in year \<open>y\<close> before the first of the month.\<close>

definition days_before_year :: "int \<Rightarrow> int" where
  "days_before_year y = (let k = y - 1 in k * 365 + k div 4 - k div 100 + k div 400)"

definition days_before_month :: "int \<Rightarrow> int \<Rightarrow> int" where
  "days_before_month y m =
     (if m = 1 then 0 else if m = 2 then 31 else (if is_leap y then 1 else 0) +
       (if m = 3 then 59 else if m = 4 then 90 else if m = 5 then 120 else if m = 6 then 151
        else if m = 7 then 181 else if m = 8 then 212 else if m = 9 then 243 else if m = 10 then 273
        else if m = 11 then 304 else 334))"

abbreviation day_us :: int where
  "day_us \<equiv> 86400000000"

definition max_time :: int where
  "max_time = 3652059 * day_us"

text \<open>A \<^verbatim>\<open>datetime\<close>: wall-clock reading, and the offset from UTC when it has one.\<close>

datatype datetime = Naive time | Aware time int

definition in_range :: "time \<Rightarrow> bool" where
  "in_range t \<longleftrightarrow> 0 \<le> t \<and> t < max_time"

text \<open>\<^verbatim>\<open>datetime(year, month, day, hour, minute, second, microsecond)\<close>.\<close>

definition make_datetime :: "int \<Rightarrow> int \<Rightarrow> int \<Rightarrow> int \<Rightarrow> int \<Rightarrow> int \<Rightarrow> int \<Rightarrow> time res" where
  "make_datetime y mo d h mi s us =
     (if y < 1 \<or> 9999 < y \<or> mo < 1 \<or> 12 < mo \<or> d < 1 \<or> days_in_month y mo < d
         \<or> 23 < h \<or> 59 < mi \<or> 59 < s \<or> 999999 < us
      then Inl (Exc ValueError ''datetime field out of range'')
      else Inr ((days_before_year y + days_before_month y mo + (d - 1)) * day_us
             + ((h * 60 + mi) * 60 + s) * second + us))"

section \<open>\<^verbatim>\<open>datetime.fromisoformat\<close>\<close>

definition digit :: "char \<Rightarrow> int option" where
  "digit c = (let n = of_char c :: int in if 48 \<le> n \<and> n \<le> 57 then Some (n - 48) else None)"

definition iso_error :: py_error where
  "iso_error = Exc ValueError ''Invalid isoformat string''"

fun digits :: "int \<Rightarrow> string \<Rightarrow> int res" where
  "digits acc [] = Inr acc"
| "digits acc (c # cs) = (case digit c of None \<Rightarrow> Inl iso_error | Some d \<Rightarrow> digits (acc * 10 + d) cs)"

definition parse_date :: "string \<Rightarrow> (int \<times> int \<times> int) res" where
  "parse_date s =
     (if length s \<noteq> 10 \<or> s ! 4 \<noteq> CHR ''-'' \<or> s ! 7 \<noteq> CHR ''-'' then Inl iso_error
      else bind_res (digits 0 (take 4 s)) (\<lambda>y. bind_res (digits 0 (take 2 (drop 5 s))) (\<lambda>m.
        map_res (\<lambda>d. (y, m, d)) (digits 0 (drop 8 s)))))"

text \<open>The tail of the clock fields after the seconds: nothing, or a dot and three or six digits.\<close>

definition parse_fraction :: "string \<Rightarrow> int res" where
  "parse_fraction s =
     (case s of [] \<Rightarrow> Inr 0
      | c # f \<Rightarrow>
          if c \<noteq> CHR ''.'' then Inl iso_error
          else if length f = 6 then digits 0 f
          else if length f = 3 then map_res (\<lambda>n. n * 1000) (digits 0 f)
          else Inl iso_error)"

text \<open>\<^verbatim>\<open>HH[:MM[:SS[.fff[fff]]]]\<close> as hours, minutes, seconds, microseconds.\<close>

definition parse_clock :: "string \<Rightarrow> (int \<times> int \<times> int \<times> int) res" where
  "parse_clock s =
     (if length s < 2 then Inl iso_error
      else bind_res (digits 0 (take 2 s)) (\<lambda>h.
        if length s = 2 then Inr (h, 0, 0, 0)
        else if s ! 2 \<noteq> CHR '':'' \<or> length s < 5 then Inl iso_error
        else bind_res (digits 0 (take 2 (drop 3 s))) (\<lambda>m.
          if length s = 5 then Inr (h, m, 0, 0)
          else if s ! 5 \<noteq> CHR '':'' \<or> length s < 8 then Inl iso_error
          else bind_res (digits 0 (take 2 (drop 6 s))) (\<lambda>sec.
            map_res (\<lambda>f. (h, m, sec, f)) (parse_fraction (drop 8 s))))))"

definition clock_us :: "int \<times> int \<times> int \<times> int \<Rightarrow> int" where
  "clock_us c = (case c of (h, m, s, f) \<Rightarrow> ((h * 60 + m) * 60 + s) * second + f)"

text \<open>Position of the UTC offset: the first minus sign, or else the first plus sign.\<close>

definition offset_pos :: "string \<Rightarrow> nat option" where
  "offset_pos s =
     (if CHR ''-'' \<in> set s then Some (length (takeWhile (\<lambda>c. c \<noteq> CHR ''-'') s))
      else if CHR ''+'' \<in> set s then Some (length (takeWhile (\<lambda>c. c \<noteq> CHR ''+'') s))
      else None)"

definition parse_offset :: "char \<Rightarrow> string \<Rightarrow> int res" where
  "parse_offset sign s =
     (if length s \<notin> {5, 8, 15} then Inl iso_error
      else bind_res (parse_clock s) (\<lambda>c.
        if day_us \<le> clock_us c then Inl iso_error
        else Inr (if sign = CHR ''-'' then - clock_us c else clock_us c)))"

definition fromisoformat :: "string \<Rightarrow> datetime res" where
  "fromisoformat s =
     bind_res (parse_date (take 10 s)) (\<lambda>(y, mo, d).
       let t = drop 11 s in
       if t = [] then map_res Naive (make_datetime y mo d 0 0 0 0)
       else
         let clock = (case offset_pos t of None \<Rightarrow> t | Some i \<Rightarrow> take i t) in
         bind_res (parse_clock clock) (\<lambda>(h, mi, sec, us).
           case offset_pos t of
             None \<Rightarrow> map_res Naive (make_datetime y mo d h mi sec us)
           | Some i \<Rightarrow> bind_res (parse_offset (t ! i) (drop (i + 1) t)) (\<lambda>off.
               map_res (\<lambda>w. Aware w off) (make_datetime y mo d h mi sec us))))"

section \<open>Conversion to UTC\<close>

text \<open>\<^verbatim>\<open>value.astimezone(timezone.utc)\<close> of an aware value.\<close>

definition astimezone_utc :: "time \<Rightarrow> int \<Rightarrow> time res" where
  "astimezone_utc w off =
     (if off = 0 then Inr w
      else if in_range (w - off) then Inr (w - off)
      else Inl (Exc OverflowError ''date value out of range''))"

text \<open>\<^verbatim>\<open>key_registry/models.py:_as_utc\<close>.\<close>

definition as_utc :: "datetime \<Rightarrow> time res" where
  "as_utc v =
     (case v of Naive _ \<Rightarrow> Inl (Exc ValueError ''timestamps must include a timezone'')
      | Aware w off \<Rightarrow> astimezone_utc w off)"

text \<open>\<^verbatim>\<open>timestamp.replace("Z", "+00:00")\<close>.\<close>

definition replace_z :: "string \<Rightarrow> string" where
  "replace_z s = concat (map (\<lambda>c. if c = CHR ''Z'' then ''+00:00'' else [c]) s)"

text \<open>\<^verbatim>\<open>verifier.py:SignatureVerifier._parse_timestamp\<close>.\<close>

definition parse_timestamp :: "string \<Rightarrow> time option res" where
  "parse_timestamp s =
     (case fromisoformat (replace_z s) of
        Inl e \<Rightarrow> if caught_by [ValueError] e then Inr None else Inl e
      | Inr (Naive _) \<Rightarrow> Inr None
      | Inr (Aware w off) \<Rightarrow> map_res Some (astimezone_utc w off))"

section \<open>\<^verbatim>\<open>datetime.isoformat\<close>\<close>

definition zero_pad :: "nat \<Rightarrow> int \<Rightarrow> string" where
  "zero_pad k n = replicate (k - length (show_int n)) CHR ''0'' @ show_int n"

definition year_of_day :: "int \<Rightarrow> int" where
  "year_of_day d =
     (let y = d * 400 div 146097 + 1 in
      if d < days_before_year y then y - 1 else if days_before_year (y + 1) \<le> d then y + 1 else y)"

definition month_of_day :: "int \<Rightarrow> int \<Rightarrow> int" where
  "month_of_day y r = last (filter (\<lambda>m. days_before_month y m \<le> r) [1, 2, 3, 4, 5, 6, 7, 8, 9, 10, 11, 12])"

text \<open>\<^verbatim>\<open>isoformat()\<close> of an instant in UTC.\<close>

definition isoformat_utc :: "time \<Rightarrow> string" where
  "isoformat_utc t =
     (let d = t div day_us; us = t mod day_us; y = year_of_day d; r = d - days_before_year y; m = month_of_day y r;
          s = us div second; f = us mod second in
      zero_pad 4 y @ ''-'' @ zero_pad 2 m @ ''-'' @ zero_pad 2 (r - days_before_month y m + 1) @ ''T''
      @ zero_pad 2 (s div 3600) @ '':'' @ zero_pad 2 (s div 60 mod 60) @ '':'' @ zero_pad 2 (s mod 60)
      @ (if f = 0 then [] else ''.'' @ zero_pad 6 f) @ ''+00:00'')"

section \<open>Lemmas\<close>

lemma digits_error: "digits acc s = Inl e \<Longrightarrow> e = iso_error"
  by (induction s arbitrary: acc) (auto split: option.splits)

lemma as_utc_range: "as_utc v = Inr t \<Longrightarrow> v = Aware t 0 \<or> in_range t"
  by (auto simp: as_utc_def astimezone_utc_def split: datetime.splits if_splits)

end
