(* ===== verification/Crypto_Core.thy ===== *)
theory Crypto_Core
  imports Encodings
begin

text \<open>
  \<^verbatim>\<open>crypto_core/\<close>: canonicalisation, hashing, signing and key serialisation.

  The code that is not in the repository is a record of functions, \<open>crypto_libs\<close>, an argument of
  every definition that calls it: the \<^verbatim>\<open>rfc8785\<close> package, the SHA3-256 primitive of \<^verbatim>\<open>hashlib\<close> and the
  \<^verbatim>\<open>cryptography\<close> package. Nothing is known of these functions except what a theorem states as a
  hypothesis (\<open>sha3_len\<close>, \<open>ed25519_correct\<close>, \<open>collision_free\<close>, ...). \<open>demo_libs\<close> is one concrete
  instance, on which the hypotheses are discharged where a theorem is applied to concrete data.
\<close>

section \<open>Keys and the external libraries\<close>

datatype curve = SECP256R1 | OtherCurve string

datatype public_key =
    Ed25519PublicKey bytes
  | EllipticCurvePublicKey curve nat nat
  | OtherPublicKey bytes

datatype private_key = Ed25519PrivateKey bytes | OtherPrivateKey bytes

text \<open>
  \<open>ed25519_check k s m\<close> is that \<^verbatim>\<open>Ed25519PublicKey.verify\<close> returns instead of raising
  \<^verbatim>\<open>InvalidSignature\<close>; \<open>ecdsa_check x y r s m\<close> likewise for
  \<^verbatim>\<open>public_key.verify(encode_dss_signature(r, s), m, ECDSA(SHA256()))\<close>.
\<close>

record crypto_libs =
  rfc8785_dumps :: "json \<Rightarrow> bytes res"
  sha3_256 :: "bytes \<Rightarrow> bytes"
  ed25519_public :: "bytes \<Rightarrow> bytes"
  ed25519_sign :: "bytes \<Rightarrow> bytes \<Rightarrow> bytes"
  ed25519_check :: "bytes \<Rightarrow> bytes \<Rightarrow> bytes \<Rightarrow> bool"
  ecdsa_check :: "nat \<Rightarrow> nat \<Rightarrow> nat \<Rightarrow> nat \<Rightarrow> bytes \<Rightarrow> bool"
  private_raw_bytes :: "private_key \<Rightarrow> bytes"
  ed25519_from_private_bytes :: "bytes \<Rightarrow> private_key res"
  public_raw_bytes :: "public_key \<Rightarrow> bytes"
  ed25519_from_public_bytes :: "bytes \<Rightarrow> public_key res"
  private_pem :: "private_key \<Rightarrow> bytes"
  load_pem_private_key :: "bytes \<Rightarrow> private_key res"
  public_pem :: "public_key \<Rightarrow> bytes"
  load_pem_public_key :: "bytes \<Rightarrow> public_key res"
  public_der :: "public_key \<Rightarrow> bytes"
  load_der_public_key :: "bytes \<Rightarrow> public_key res"
  ec_public_from_numbers :: "nat \<Rightarrow> nat \<Rightarrow> public_key res"

fun is_ed25519_private :: "private_key \<Rightarrow> bool" where
  "is_ed25519_private (Ed25519PrivateKey _) = True"
| "is_ed25519_private (OtherPrivateKey _) = False"

fun is_ed25519_public :: "public_key \<Rightarrow> bool" where
  "is_ed25519_public (Ed25519PublicKey _) = True"
| "is_ed25519_public _ = False"

text \<open>\<^verbatim>\<open>isinstance(key, (Ed25519PublicKey, EllipticCurvePublicKey))\<close>.\<close>

fun is_supported :: "public_key \<Rightarrow> bool" where
  "is_supported (OtherPublicKey _) = False"
| "is_supported _ = True"

section \<open>\<^verbatim>\<open>canonical.py\<close> and \<^verbatim>\<open>hashing.py\<close>\<close>

definition canonicalize :: "crypto_libs \<Rightarrow> json \<Rightarrow> bytes res" where
  "canonicalize L d =
     (if \<not> is_dict d then Inl (Exc TypeError ''data must be a dictionary'')
      else rfc8785_dumps L d)"

definition hash_sha3_256 :: "crypto_libs \<Rightarrow> bytes \<Rightarrow> bytes" where
  "hash_sha3_256 L d = sha3_256 L d"

definition hash_payload :: "crypto_libs \<Rightarrow> json \<Rightarrow> bytes res" where
  "hash_payload L d = map_res (hash_sha3_256 L) (canonicalize L d)"

section \<open>\<^verbatim>\<open>signing.py\<close>\<close>

definition public_key_of :: "crypto_libs \<Rightarrow> private_key \<Rightarrow> public_key" where
  "public_key_of L k =
     (case k of Ed25519PrivateKey s \<Rightarrow> Ed25519PublicKey (ed25519_public L s)
      | OtherPrivateKey s \<Rightarrow> OtherPublicKey s)"

text \<open>\<^verbatim>\<open>generate_keypair\<close>: the fresh seed is the argument.\<close>

definition generate_keypair :: "crypto_libs \<Rightarrow> bytes \<Rightarrow> private_key \<times> public_key" where
  "generate_keypair L seed = (let k = Ed25519PrivateKey seed in (k, public_key_of L k))"

definition sign :: "crypto_libs \<Rightarrow> private_key \<Rightarrow> bytes \<Rightarrow> bytes res" where
  "sign L k d =
     (case k of Ed25519PrivateKey s \<Rightarrow> Inr (ed25519_sign L s d)
      | OtherPrivateKey _ \<Rightarrow> Inl (Exc TypeError ''private_key must be an Ed25519PrivateKey''))"

text \<open>\<^verbatim>\<open>int.from_bytes(b, "big")\<close> and \<^verbatim>\<open>int.to_bytes(n, "big")\<close>.\<close>

definition from_bytes_big :: "bytes \<Rightarrow> nat" where
  "from_bytes_big b = foldl (\<lambda>acc w. acc * 256 + unat w) 0 b"

fun to_bytes_big :: "nat \<Rightarrow> nat \<Rightarrow> bytes" where
  "to_bytes_big 0 n = []"
| "to_bytes_big (Suc k) n = to_bytes_big k (n div 256) @ [of_nat (n mod 256)]"

definition verify :: "crypto_libs \<Rightarrow> public_key \<Rightarrow> bytes \<Rightarrow> bytes \<Rightarrow> bool res" where
  "verify L pk sig d =
     (case pk of
        OtherPublicKey _ \<Rightarrow> Inl (Exc TypeError ''public_key must be an Ed25519PublicKey or P-256 public key'')
      | Ed25519PublicKey k \<Rightarrow> Inr (ed25519_check L k sig d)
      | EllipticCurvePublicKey c x y \<Rightarrow>
          if c = SECP256R1 \<and> length sig = 64
          then Inr (ecdsa_check L x y (from_bytes_big (take 32 sig)) (from_bytes_big (drop 32 sig)) d)
          else Inr False)"

definition serialize_private_key_raw :: "crypto_libs \<Rightarrow> private_key \<Rightarrow> bytes res" where
  "serialize_private_key_raw L k =
     (if \<not> is_ed25519_private k then Inl (Exc TypeError ''private_key must be an Ed25519PrivateKey'')
      else Inr (private_raw_bytes L k))"

definition deserialize_private_key_raw :: "crypto_libs \<Rightarrow> bytes \<Rightarrow> private_key res" where
  "deserialize_private_key_raw L b = ed25519_from_private_bytes L b"

definition serialize_public_key_raw :: "crypto_libs \<Rightarrow> public_key \<Rightarrow> bytes res" where
  "serialize_public_key_raw L k =
     (if \<not> is_ed25519_public k then Inl (Exc TypeError ''public_key must be an Ed25519PublicKey'')
      else Inr (public_raw_bytes L k))"

definition deserialize_public_key_raw :: "crypto_libs \<Rightarrow> bytes \<Rightarrow> public_key res" where
  "deserialize_public_key_raw L b = ed25519_from_public_bytes L b"

definition serialize_private_key_pem :: "crypto_libs \<Rightarrow> private_key \<Rightarrow> bytes res" where
  "serialize_private_key_pem L k =
     (if \<not> is_ed25519_private k then Inl (Exc TypeError ''private_key must be an Ed25519PrivateKey'')
      else Inr (private_pem L k))"

definition deserialize_private_key_pem :: "crypto_libs \<Rightarrow> bytes \<Rightarrow> private_key res" where
  "deserialize_private_key_pem L b =
     bind_res (load_pem_private_key L b) (\<lambda>k.
       if \<not> is_ed25519_private k then Inl (Exc TypeError ''PEM does not contain an Ed25519 private key'')
       else Inr k)"

definition serialize_public_key_pem :: "crypto_libs \<Rightarrow> public_key \<Rightarrow> bytes res" where
  "serialize_public_key_pem L k =
     (if \<not> is_ed25519_public k then Inl (Exc TypeError ''public_key must be an Ed25519PublicKey'')
      else Inr (public_pem L k))"

definition deserialize_public_key_pem :: "crypto_libs \<Rightarrow> bytes \<Rightarrow> public_key res" where
  "deserialize_public_key_pem L b =
     bind_res (load_pem_public_key L b) (\<lambda>k.
       if \<not> is_ed25519_public k then Inl (Exc TypeError ''PEM does not contain an Ed25519 public key'')
       else Inr k)"

section \<open>What the code relies on\<close>

text \<open>
  Documented behaviour of the libraries, named so that theorems can assume it. \<open>collision_free L S\<close>
  says that the digests of the (finitely many) byte strings in \<open>S\<close> are pairwise distinct: a hash
  function with 32-byte digests cannot be injective everywhere, so every theorem names the inputs
  on which it needs distinct digests.
\<close>

definition sha3_len :: "crypto_libs \<Rightarrow> bool" where
  "sha3_len L \<longleftrightarrow> (\<forall>b. length (sha3_256 L b) = 32)"

definition ed25519_correct :: "crypto_libs \<Rightarrow> bool" where
  "ed25519_correct L \<longleftrightarrow> (\<forall>k m. ed25519_check L (ed25519_public L k) (ed25519_sign L k m) m)"

definition ed25519_raw_roundtrip :: "crypto_libs \<Rightarrow> bool" where
  "ed25519_raw_roundtrip L \<longleftrightarrow>
     (\<forall>k. ed25519_from_public_bytes L (public_raw_bytes L (Ed25519PublicKey k)) = Inr (Ed25519PublicKey k))"

definition collision_free :: "crypto_libs \<Rightarrow> bytes set \<Rightarrow> bool" where
  "collision_free L S \<longleftrightarrow> inj_on (sha3_256 L) S"

text \<open>The same for payloads: distinct payloads of \<open>S\<close> have distinct digests.\<close>

definition payload_collision_free :: "crypto_libs \<Rightarrow> json set \<Rightarrow> bool" where
  "payload_collision_free L S \<longleftrightarrow> inj_on (hash_payload L) S"

text \<open>
  How a signature check can be broken. No signature scheme excludes forgeries for all byte strings, so theorems
  exhibit them: \<open>forgery L pk S sig h\<close> says that \<open>sig\<close> verifies under \<open>pk\<close> on the digest \<open>h\<close>, which is
  the digest of none of the payloads in \<open>S\<close>, those that the holder of the private key signed. \<open>payloads_collide\<close> is a
  collision between two given payloads.
\<close>

definition forgery :: "crypto_libs \<Rightarrow> public_key \<Rightarrow> json set \<Rightarrow> bytes \<Rightarrow> bytes \<Rightarrow> bool" where
  "forgery L pk S sig h \<longleftrightarrow> verify L pk sig h = Inr True \<and> Inr h \<notin> hash_payload L ` S"

definition payloads_collide :: "crypto_libs \<Rightarrow> json \<Rightarrow> json \<Rightarrow> bool" where
  "payloads_collide L j j' \<longleftrightarrow> j \<noteq> j' \<and> (\<exists>h. hash_payload L j = Inr h \<and> hash_payload L j' = Inr h)"

section \<open>A concrete instance\<close>

text \<open>
  \<open>demo_digest\<close> adds the input bytes into a rotating state of 32 bytes, \<open>demo_dumps\<close> is a JSON
  printer for the value types above, and the signature of a message under a key is key and message
  together.
\<close>

fun demo_absorb :: "bytes \<Rightarrow> bytes \<Rightarrow> bytes" where
  "demo_absorb st [] = st"
| "demo_absorb st (w # ws) = (case st of [] \<Rightarrow> [] | x # xs \<Rightarrow> demo_absorb (xs @ [x + w]) ws)"

definition demo_digest :: "bytes \<Rightarrow> bytes" where
  "demo_digest b = demo_absorb (replicate 32 1) b"

fun demo_text :: "json \<Rightarrow> string" where
  "demo_text JNull = ''null''"
| "demo_text (JBool b) = (if b then ''true'' else ''false'')"
| "demo_text (JInt i) = show_int i"
| "demo_text (JStr s) = [CHR 0x22] @ s @ [CHR 0x22]"
| "demo_text (JList xs) = ''['' @ concat (map (\<lambda>x. demo_text x @ '','') xs) @ '']''"
| "demo_text (JObj d) =
     ''{'' @ concat (map (\<lambda>p. [CHR 0x22] @ fst p @ [CHR 0x22] @ '':'' @ demo_text (snd p) @ '','') d) @ ''}''"

definition demo_dumps :: "json \<Rightarrow> bytes res" where
  "demo_dumps j = Inr (str_encode (demo_text j))"

definition demo_ecdsa :: "nat \<Rightarrow> nat \<Rightarrow> nat \<Rightarrow> nat \<Rightarrow> bytes \<Rightarrow> bool" where
  "demo_ecdsa x y r s m \<longleftrightarrow> r = unat (hd m) \<and> s = x"

fun demo_public_bytes :: "public_key \<Rightarrow> bytes" where
  "demo_public_bytes (Ed25519PublicKey s) = s"
| "demo_public_bytes (EllipticCurvePublicKey c x y) = to_bytes_big 32 x @ to_bytes_big 32 y"
| "demo_public_bytes (OtherPublicKey s) = s"

fun demo_private_bytes :: "private_key \<Rightarrow> bytes" where
  "demo_private_bytes (Ed25519PrivateKey s) = s"
| "demo_private_bytes (OtherPrivateKey s) = s"

definition demo_private_from :: "bytes \<Rightarrow> private_key res" where
  "demo_private_from b = Inr (Ed25519PrivateKey b)"

definition demo_public_from :: "bytes \<Rightarrow> public_key res" where
  "demo_public_from b = Inr (Ed25519PublicKey b)"

fun demo_der :: "public_key \<Rightarrow> bytes" where
  "demo_der (Ed25519PublicKey s) = 48 # 1 # s"
| "demo_der (EllipticCurvePublicKey c x y) = 48 # 2 # to_bytes_big 32 x @ to_bytes_big 32 y"
| "demo_der (OtherPublicKey s) = 48 # 3 # s"

fun demo_load_der :: "bytes \<Rightarrow> public_key res" where
  "demo_load_der (t # u # s) =
     (if t \<noteq> 48 then Inl (Exc ValueError ''not DER'')
      else if u = 1 then Inr (Ed25519PublicKey s)
      else if u = 2 then Inr (EllipticCurvePublicKey SECP256R1
         (from_bytes_big (take 32 s)) (from_bytes_big (drop 32 s)))
      else Inr (OtherPublicKey s))"
| "demo_load_der _ = Inl (Exc ValueError ''not DER'')"

definition demo_sign :: "bytes \<Rightarrow> bytes \<Rightarrow> bytes" where
  "demo_sign k m = k @ m"

definition demo_check :: "bytes \<Rightarrow> bytes \<Rightarrow> bytes \<Rightarrow> bool" where
  "demo_check k s m \<longleftrightarrow> s = k @ m"

definition demo_ec_from :: "nat \<Rightarrow> nat \<Rightarrow> public_key res" where
  "demo_ec_from x y = Inr (EllipticCurvePublicKey SECP256R1 x y)"

definition demo_libs :: crypto_libs where
  "demo_libs = \<lparr>
     rfc8785_dumps = demo_dumps, sha3_256 = demo_digest, ed25519_public = id,
     ed25519_sign = demo_sign, ed25519_check = demo_check, ecdsa_check = demo_ecdsa,
     private_raw_bytes = demo_private_bytes, ed25519_from_private_bytes = demo_private_from,
     public_raw_bytes = demo_public_bytes, ed25519_from_public_bytes = demo_public_from,
     private_pem = demo_private_bytes, load_pem_private_key = demo_private_from,
     public_pem = demo_public_bytes, load_pem_public_key = demo_public_from,
     public_der = demo_der, load_der_public_key = demo_load_der,
     ec_public_from_numbers = demo_ec_from \<rparr>"

section \<open>Lemmas\<close>

lemma hash_payload_eq_Inr:
  "hash_payload L d = Inr h \<longleftrightarrow> is_dict d \<and> (\<exists>b. rfc8785_dumps L d = Inr b \<and> h = sha3_256 L b)"
  by (auto simp: hash_payload_def canonicalize_def hash_sha3_256_def map_res_eq_Inr)

lemma length_hash_payload: "sha3_len L \<Longrightarrow> hash_payload L d = Inr h \<Longrightarrow> length h = 32"
  by (auto simp: hash_payload_eq_Inr sha3_len_def)

text \<open>What a signature that verifies shows of a payload.\<close>

lemma signed_or_broken:
  assumes "verify L pk sig h = Inr True" "hash_payload L j = Inr h"
  shows "j \<in> S \<or> forgery L pk S sig h \<or> (\<exists>j' \<in> S. payloads_collide L j j')"
  using assms by (force simp: forgery_def payloads_collide_def image_iff)

lemma length_to_bytes_big [simp]: "length (to_bytes_big k n) = k"
  by (induction k arbitrary: n) simp_all

lemma from_bytes_big_snoc: "from_bytes_big (b @ [w]) = from_bytes_big b * 256 + unat w"
  by (simp add: from_bytes_big_def)

lemma from_to_bytes_big: "n < 256 ^ k \<Longrightarrow> from_bytes_big (to_bytes_big k n) = n"
proof (induction k arbitrary: n)
  case 0
  then show ?case by (simp add: from_bytes_big_def)
next
  case (Suc k)
  then have "n div 256 < 256 ^ k" by (simp add: less_mult_imp_div_less mult.commute)
  with Suc.IH show ?case
    by (simp add: from_bytes_big_snoc unsigned_of_nat take_bit_eq_mod)
qed

lemma verify_total: "is_supported pk \<Longrightarrow> \<exists>b. verify L pk sig d = Inr b"
  by (cases pk) (auto simp: verify_def)

lemma verify_ed25519 [simp]:
  "verify L (Ed25519PublicKey k) sig d = Inr (ed25519_check L k sig d)"
  by (simp add: verify_def)

lemma sign_verify_ed25519:
  assumes "ed25519_correct L" "sign L k d = Inr sig"
  shows "verify L (public_key_of L k) sig d = Inr True"
  using assms by (cases k) (auto simp: sign_def public_key_of_def ed25519_correct_def)

lemma p256_wrong_length_rejected:
  "length sig \<noteq> 64 \<Longrightarrow> verify L (EllipticCurvePublicKey c x y) sig d = Inr False"
  by (simp add: verify_def)

lemma p256_raw_signature:
  assumes "r < 2 ^ 256" "s < 2 ^ 256"
  shows "verify L (EllipticCurvePublicKey SECP256R1 x y) (to_bytes_big 32 r @ to_bytes_big 32 s) d =
    Inr (ecdsa_check L x y r s d)"
proof -
  have "(2 :: nat) ^ 256 = 256 ^ 32" by simp
  with assms show ?thesis by (simp add: verify_def from_to_bytes_big)
qed

lemma length_demo_absorb [simp]: "length (demo_absorb st ws) = length st"
  by (induction st ws rule: demo_absorb.induct) (auto split: list.split)

lemma demo_sha3_len: "sha3_len demo_libs"
  by (simp add: sha3_len_def demo_libs_def demo_digest_def)

lemma demo_ed25519_correct: "ed25519_correct demo_libs"
  by (simp add: ed25519_correct_def demo_libs_def demo_sign_def demo_check_def)

lemma demo_ed25519_raw_roundtrip: "ed25519_raw_roundtrip demo_libs"
  by (simp add: ed25519_raw_roundtrip_def demo_libs_def demo_public_from_def)

end
