(* ===== verification/Context_Ledger.thy ===== *)
theory Context_Ledger
  imports Crypto_Core
begin

text \<open>
  \<^verbatim>\<open>ledger_core/ledger.py\<close>: the append-only hash chain of context entries. Each leaf hash commits the
  entry's content and the previous leaf hash. The theory shows that every ledger the API can build
  is a valid chain, that a rewritten content is reported at exactly the entry that was rewritten,
  and that the last leaf hash of a valid chain determines all contents (up to hash collisions).
\<close>

section \<open>The ledger\<close>

record ledger_entry =
  entry_id :: int
  entry_type :: string
  content :: json
  entry_timestamp :: string
  prev_hash :: bytes
  leaf_hash :: bytes

record ledger =
  led_entries :: "ledger_entry list"

definition new_ledger :: ledger where
  "new_ledger = \<lparr>led_entries = []\<rparr>"

definition from_entries :: "ledger_entry list \<Rightarrow> ledger" where
  "from_entries es = \<lparr>led_entries =
     map (\<lambda>e. \<lparr>entry_id = entry_id e, entry_type = entry_type e, content = content e,
            entry_timestamp = entry_timestamp e, prev_hash = prev_hash e, leaf_hash = leaf_hash e\<rparr>) es\<rparr>"

definition leaf_material :: "json \<Rightarrow> bytes \<Rightarrow> json" where
  "leaf_material c p = JObj [(''content'', c), (''prev_hash'', JStr (bytes_hex p))]"

definition compute_leaf_hash :: "crypto_libs \<Rightarrow> json \<Rightarrow> bytes \<Rightarrow> bytes res" where
  "compute_leaf_hash L c p = hash_payload L (leaf_material c p)"

text \<open>\<^verbatim>\<open>self._entries[-1].leaf_hash if self._entries else b""\<close>.\<close>

definition last_leaf :: "ledger_entry list \<Rightarrow> bytes" where
  "last_leaf es = (if es = [] then [] else leaf_hash (last es))"

text \<open>\<^verbatim>\<open>Ledger.append\<close>; \<open>ts\<close> is the rendered clock reading. A raised exception leaves the ledger as it was.\<close>

definition ledger_append :: "crypto_libs \<Rightarrow> string \<Rightarrow> string \<Rightarrow> json \<Rightarrow> ledger \<Rightarrow> (ledger_entry \<times> ledger) res" where
  "ledger_append L ts ty c l =
     (if ty = [] then Inl (Exc ValueError ''entry_type must be a non-empty string'')
      else if \<not> is_dict c then Inl (Exc TypeError ''content must be a dictionary'')
      else
        let p = last_leaf (led_entries l) in
        bind_res (compute_leaf_hash L c p) (\<lambda>h.
          let e = \<lparr>entry_id = int (length (led_entries l)) + 1, entry_type = ty, content = c,
                   entry_timestamp = ts, prev_hash = p, leaf_hash = h\<rparr>
          in Inr (e, l\<lparr>led_entries := led_entries l @ [e]\<rparr>)))"

definition get_entry :: "ledger \<Rightarrow> int \<Rightarrow> ledger_entry res" where
  "get_entry l i =
     (if i < 1 then Inl (Exc KeyError (show_int i))
      else if nat (i - 1) < length (led_entries l) then Inr (led_entries l ! nat (i - 1))
      else Inl (Exc KeyError (show_int i)))"

definition all_entries :: "ledger \<Rightarrow> ledger_entry list" where
  "all_entries l = led_entries l"

text \<open>The loop of \<^verbatim>\<open>first_invalid_entry_id\<close>, with the expected predecessor hash.\<close>

fun first_invalid_from :: "crypto_libs \<Rightarrow> bytes \<Rightarrow> ledger_entry list \<Rightarrow> int option res" where
  "first_invalid_from L expected [] = Inr None"
| "first_invalid_from L expected (e # es) =
     bind_res (compute_leaf_hash L (content e) expected) (\<lambda>h.
       if prev_hash e \<noteq> expected \<or> leaf_hash e \<noteq> h then Inr (Some (entry_id e))
       else first_invalid_from L (leaf_hash e) es)"

definition first_invalid_entry_id :: "crypto_libs \<Rightarrow> ledger \<Rightarrow> int option res" where
  "first_invalid_entry_id L l = first_invalid_from L [] (led_entries l)"

definition verify_chain :: "crypto_libs \<Rightarrow> ledger \<Rightarrow> bool res" where
  "verify_chain L l = map_res (\<lambda>r. r = None) (first_invalid_entry_id L l)"

text \<open>The ledgers the public interface can build: \<^verbatim>\<open>Ledger()\<close> and successful appends.\<close>

inductive ledger_reach :: "crypto_libs \<Rightarrow> ledger \<Rightarrow> bool" for L where
  init: "ledger_reach L new_ledger"
| append: "ledger_reach L l \<Longrightarrow> ledger_append L ts ty c l = Inr (e, l') \<Longrightarrow> ledger_reach L l'"

text \<open>What a forensic test or an attacker with memory access does: rewrite a stored content.\<close>

definition rewrite_content :: "nat \<Rightarrow> json \<Rightarrow> ledger \<Rightarrow> ledger" where
  "rewrite_content i c l = l\<lparr>led_entries := (led_entries l)[i := (led_entries l ! i)\<lparr>content := c\<rparr>]\<rparr>"

definition rewrite_labels :: "nat \<Rightarrow> string \<Rightarrow> string \<Rightarrow> ledger \<Rightarrow> ledger" where
  "rewrite_labels i ty ts l =
     l\<lparr>led_entries := (led_entries l)[i := (led_entries l ! i)\<lparr>entry_type := ty, entry_timestamp := ts\<rparr>]\<rparr>"

text \<open>A two-entry ledger built through the interface, for concrete instances.\<close>

definition demo_c1 :: json where
  "demo_c1 = JObj [(''text'', JStr ''a'')]"

definition demo_c2 :: json where
  "demo_c2 = JObj [(''text'', JStr ''b'')]"

definition demo_ledger :: ledger where
  "demo_ledger = (case ledger_append demo_libs ''t1'' ''system_prompt'' demo_c1 new_ledger of
     Inl _ \<Rightarrow> new_ledger
   | Inr (_, l) \<Rightarrow> (case ledger_append demo_libs ''t2'' ''user_prompt'' demo_c2 l of
       Inl _ \<Rightarrow> l | Inr (_, l') \<Rightarrow> l'))"

section \<open>Chains\<close>

definition chain :: "crypto_libs \<Rightarrow> bytes \<Rightarrow> ledger_entry list \<Rightarrow> bool" where
  "chain L p es \<longleftrightarrow> first_invalid_from L p es = Inr None"

lemma chain_Nil [simp]: "chain L p []"
  by (simp add: chain_def)

lemma chain_Cons [simp]:
  "chain L p (e # es) \<longleftrightarrow>
     prev_hash e = p \<and> compute_leaf_hash L (content e) p = Inr (leaf_hash e) \<and> chain L (leaf_hash e) es"
  by (auto simp: chain_def res_elims split: if_splits)

lemma last_leaf_simps [simp]:
  "last_leaf [] = []" "last_leaf (es @ [e]) = leaf_hash e"
  by (simp_all add: last_leaf_def)

lemma chain_append:
  "chain L p (es @ fs) \<longleftrightarrow> chain L p es \<and> chain L (if es = [] then p else leaf_hash (last es)) fs"
  by (induction es arbitrary: p) auto

lemma chain_snoc [simp]:
  "chain L [] (es @ [e]) \<longleftrightarrow> chain L [] es \<and> prev_hash e = last_leaf es
     \<and> compute_leaf_hash L (content e) (last_leaf es) = Inr (leaf_hash e)"
  by (simp add: chain_append last_leaf_def)

lemma verify_chain_iff: "verify_chain L l = Inr True \<longleftrightarrow> chain L [] (led_entries l)"
  by (auto simp: verify_chain_def first_invalid_entry_id_def chain_def map_res_eq_Inr)

lemma ledger_append_eq_Inr:
  "ledger_append L ts ty c l = Inr (e, l') \<longleftrightarrow>
     ty \<noteq> [] \<and> is_dict c \<and>
     (\<exists>h. compute_leaf_hash L c (last_leaf (led_entries l)) = Inr h \<and>
        e = \<lparr>entry_id = int (length (led_entries l)) + 1, entry_type = ty, content = c,
             entry_timestamp = ts, prev_hash = last_leaf (led_entries l), leaf_hash = h\<rparr> \<and>
        l' = l\<lparr>led_entries := led_entries l @ [e]\<rparr>)"
  by (auto simp: ledger_append_def Let_def res_elims)

lemma ledger_append_entries: "ledger_append L ts ty c l = Inr (e, l') \<Longrightarrow> led_entries l' = led_entries l @ [e]"
  by (auto simp: ledger_append_eq_Inr)

text \<open>Restoring a snapshot keeps every committed field.\<close>

lemma from_all_entries [simp]: "from_entries (all_entries l) = l"
proof -
  have "\<lparr>entry_id = entry_id e, entry_type = entry_type e, content = content e,
      entry_timestamp = entry_timestamp e, prev_hash = prev_hash e, leaf_hash = leaf_hash e\<rparr> = e"
    for e :: ledger_entry by (cases e) simp
  then show ?thesis by (cases l) (simp add: from_entries_def all_entries_def map_idI)
qed

section \<open>The ledger invariant\<close>

definition ledger_inv :: "crypto_libs \<Rightarrow> ledger \<Rightarrow> bool" where
  "ledger_inv L l \<longleftrightarrow> chain L [] (led_entries l)
     \<and> map entry_id (led_entries l) = map (\<lambda>i. int i + 1) [0..<length (led_entries l)]
     \<and> list_all (\<lambda>e. entry_type e \<noteq> [] \<and> is_dict (content e)) (led_entries l)"

lemma ledger_inv_new [simp]: "ledger_inv L new_ledger"
  by (simp add: ledger_inv_def new_ledger_def)

lemma ledger_inv_append: "ledger_inv L l \<Longrightarrow> ledger_append L ts ty c l = Inr (e, l') \<Longrightarrow> ledger_inv L l'"
  by (auto simp: ledger_inv_def ledger_append_eq_Inr)

lemma ledger_reach_inv: "ledger_reach L l \<Longrightarrow> ledger_inv L l"
  by (induction rule: ledger_reach.induct) (auto intro: ledger_inv_append)

lemma ledger_inv_entry_id:
  assumes "ledger_inv L l" "i < length (led_entries l)"
  shows "entry_id (led_entries l ! i) = int i + 1"
proof -
  have "map entry_id (led_entries l) ! i = map (\<lambda>i. int i + 1) [0..<length (led_entries l)] ! i"
    using assms(1) by (simp add: ledger_inv_def)
  with assms(2) show ?thesis by simp
qed

section \<open>Append-only logs\<close>

text \<open>
  The interface of a store that only grows: one step adds one record at the end. Whatever was
  recorded stays at its position; clients of the ledger and of the anchor store use these facts.
\<close>

locale append_only =
  fixes records :: "'s \<Rightarrow> 'e list" and step :: "'s \<Rightarrow> 's \<Rightarrow> bool"
  assumes step_adds: "step s t \<Longrightarrow> \<exists>e. records t = records s @ [e]"
begin

lemma steps_extend: "step\<^sup>*\<^sup>* s t \<Longrightarrow> \<exists>es. records t = records s @ es"
proof (induction rule: rtranclp_induct)
  case base
  then show ?case by simp
next
  case (step t u)
  then show ?case using step_adds [of t u] by auto
qed

lemma record_stable:
  assumes "step\<^sup>*\<^sup>* s t" "i < length (records s)"
  shows "records t ! i = records s ! i"
  using steps_extend [OF assms(1)] assms(2) by (auto simp: nth_append)

lemma length_mono: "step\<^sup>*\<^sup>* s t \<Longrightarrow> length (records s) \<le> length (records t)"
  by (auto dest: steps_extend)

lemma prefix_stable: "step\<^sup>*\<^sup>* s t \<Longrightarrow> take (length (records s)) (records t) = records s"
  by (auto dest: steps_extend)

end

definition ledger_step :: "crypto_libs \<Rightarrow> ledger \<Rightarrow> ledger \<Rightarrow> bool" where
  "ledger_step L l l' \<longleftrightarrow> (\<exists>ts ty c e. ledger_append L ts ty c l = Inr (e, l'))"

interpretation ledger_log: append_only led_entries "ledger_step L" for L
  by unfold_locales (auto simp: ledger_step_def dest: ledger_append_entries)

section \<open>What the chain binds\<close>

definition materials :: "ledger_entry list \<Rightarrow> json set" where
  "materials es = (\<lambda>e. leaf_material (content e) (prev_hash e)) ` set es"

lemma materials_simps [simp]:
  "materials [] = {}"
  "materials (e # es) = insert (leaf_material (content e) (prev_hash e)) (materials es)"
  "materials (es @ fs) = materials es \<union> materials fs"
  by (auto simp: materials_def)

lemma leaf_material_eq_iff [simp]: "leaf_material c p = leaf_material c' p' \<longleftrightarrow> c = c' \<and> p = p'"
  by (simp add: leaf_material_def hex.enc_eq_iff)

lemma compute_leaf_hash_len: "sha3_len L \<Longrightarrow> compute_leaf_hash L c p = Inr h \<Longrightarrow> length h = 32"
  by (auto simp: compute_leaf_hash_def length_hash_payload)

text \<open>Equal leaf hashes of two chain entries mean equal contents and predecessors.\<close>

lemma leaf_hash_binds:
  assumes inj: "payload_collision_free L S"
    and mem: "leaf_material c p \<in> S" "leaf_material c' p' \<in> S"
    and h: "compute_leaf_hash L c p = Inr h" "compute_leaf_hash L c' p' = Inr h"
  shows "c = c' \<and> p = p'"
proof -
  have "hash_payload L (leaf_material c p) = hash_payload L (leaf_material c' p')"
    using h by (simp add: compute_leaf_hash_def)
  with inj mem have "leaf_material c p = leaf_material c' p'"
    unfolding payload_collision_free_def by (blast dest: inj_onD)
  then show ?thesis by simp
qed

lemma payload_collision_free_mono: "payload_collision_free L S \<Longrightarrow> T \<subseteq> S \<Longrightarrow> payload_collision_free L T"
  unfolding payload_collision_free_def by (rule inj_on_subset)

lemma chain_last_leaf_Nil:
  assumes "sha3_len L" "chain L [] es" "last_leaf es = []"
  shows "es = []"
proof (cases es rule: rev_cases)
  case (snoc fs e)
  with assms have "length (leaf_hash e) = 32" by (auto dest: compute_leaf_hash_len)
  with assms(3) snoc show ?thesis by simp
qed

lemma chain_binding:
  assumes "sha3_len L" "payload_collision_free L (materials es \<union> materials es')"
    and "chain L [] es" "chain L [] es'" "last_leaf es = last_leaf es'"
  shows "map content es = map content es' \<and> map leaf_hash es = map leaf_hash es'"
  using assms(2-)
proof (induction es arbitrary: es' rule: rev_induct)
  case Nil
  then show ?case using chain_last_leaf_Nil [OF assms(1), of es'] by simp
next
  case (snoc e es)
  show ?case
  proof (cases es' rule: rev_cases)
    case Nil
    with snoc.prems have "last_leaf (es @ [e]) = []" by simp
    from chain_last_leaf_Nil [OF assms(1) snoc.prems(2) this] show ?thesis by simp
  next
    case (snoc fs f)
    with snoc.prems have eq: "content e = content f \<and> last_leaf es = last_leaf fs"
      by (intro leaf_hash_binds [OF snoc.prems(1), of _ _ _ _ "leaf_hash e"]) (simp_all add: snoc)
    from snoc.prems(1) snoc have "payload_collision_free L (materials es \<union> materials fs)"
      by (auto elim: payload_collision_free_mono)
    from snoc.IH [OF this] snoc.prems snoc eq show ?thesis by simp
  qed
qed

section \<open>Where a rewritten content is reported\<close>

lemma first_invalid_from_append_chain:
  "chain L p es \<Longrightarrow> first_invalid_from L p (es @ fs) =
     first_invalid_from L (if es = [] then p else leaf_hash (last es)) fs"
  by (induction es arbitrary: p) auto

lemma first_invalid_rewritten:
  assumes "chain L p (es @ e # fs)" "compute_leaf_hash L c (prev_hash e) = Inr h" "h \<noteq> leaf_hash e"
  shows "first_invalid_from L p (es @ e\<lparr>content := c\<rparr> # fs) = Inr (Some (entry_id e))"
  using assms by (auto simp: chain_append first_invalid_from_append_chain)

lemma upd_split: "i < length xs \<Longrightarrow> xs[i := y] = take i xs @ y # drop (Suc i) xs"
  by (rule upd_conv_take_nth_drop)

lemma nth_split: "i < length xs \<Longrightarrow> xs = take i xs @ xs ! i # drop (Suc i) xs"
  by (simp add: Cons_nth_drop_Suc)

section \<open>Properties\<close>

lemma demo_ledger_reach: "ledger_reach demo_libs demo_ledger"
  unfolding demo_ledger_def
  by (auto split: sum.split prod.split
      intro: ledger_reach.init ledger_reach.append ledger_reach.append [OF ledger_reach.append])

text \<open>
  C30: every ledger that the public interface can build (\<^verbatim>\<open>Ledger()\<close> followed by any successful
  appends) verifies as a valid chain, and its entries are addressed by their position: \<^verbatim>\<open>get_entry(i)\<close>
  returns the entry with \<^verbatim>\<open>entry_id = i\<close> for \<open>1 \<le> i \<le> n\<close> and raises \<^verbatim>\<open>KeyError\<close> outside that range.
\<close>

theorem reachable_ledger_valid:
  assumes "ledger_reach L l"
  shows "verify_chain L l = Inr True \<and>
    (\<forall>i. if 1 \<le> i \<and> i \<le> int (length (all_entries l))
         then \<exists>e. get_entry l i = Inr e \<and> entry_id e = i
         else get_entry l i = Inl (Exc KeyError (show_int i)))"
proof -
  from assms have inv: "ledger_inv L l" by (rule ledger_reach_inv)
  then have "verify_chain L l = Inr True" by (simp add: verify_chain_iff ledger_inv_def)
  moreover have "entry_id (led_entries l ! nat (i - 1)) = i" if "1 \<le> i" "i \<le> int (length (led_entries l))" for i
    using ledger_inv_entry_id [OF inv, of "nat (i - 1)"] that by simp
  ultimately show ?thesis by (auto simp: get_entry_def all_entries_def)
qed

theorem reachable_ledger_valid_witness:
  "verify_chain demo_libs demo_ledger = Inr True \<and> (\<exists>e. get_entry demo_ledger 2 = Inr e \<and> entry_id e = 2)"
proof -
  have "length (all_entries demo_ledger) = 2" by code_simp
  then show ?thesis
    using reachable_ledger_valid [OF demo_ledger_reach] by (auto split: if_splits)
qed

text \<open>
  Rewriting the content of a stored entry of a ledger built through the interface is
  located exactly: \<^verbatim>\<open>first_invalid_entry_id\<close> returns the rewritten entry's own id when the new leaf
  digest differs from the committed one, and \<^verbatim>\<open>None\<close> otherwise; no other entry is ever reported.
\<close>

theorem rewritten_content_located:
  assumes "ledger_reach L l" "i < length (all_entries l)"
    and "compute_leaf_hash L c (prev_hash (all_entries l ! i)) = Inr h"
  shows "first_invalid_entry_id L (rewrite_content i c l) =
    Inr (if h = leaf_hash (all_entries l ! i) then None else Some (int i + 1))"
proof -
  let ?es = "led_entries l"
  from assms(1) have inv: "ledger_inv L l" by (rule ledger_reach_inv)
  have i: "i < length ?es" using assms(2) by (simp add: all_entries_def)
  have ch: "chain L [] (take i ?es @ ?es ! i # drop (Suc i) ?es)"
    using inv nth_split [OF i] by (simp add: ledger_inv_def)
  have upd: "led_entries (rewrite_content i c l) = take i ?es @ (?es ! i)\<lparr>content := c\<rparr> # drop (Suc i) ?es"
    by (simp add: rewrite_content_def upd_split [OF i])
  show ?thesis
  proof (cases "h = leaf_hash (?es ! i)")
    case True
    then have "chain L [] (led_entries (rewrite_content i c l))"
      using ch assms(3) by (simp add: upd chain_append all_entries_def)
    with True show ?thesis
      by (simp add: first_invalid_entry_id_def chain_def all_entries_def)
  next
    case False
    with first_invalid_rewritten [OF ch, of c h] assms(3)
    show ?thesis
      by (simp add: first_invalid_entry_id_def upd all_entries_def ledger_inv_entry_id [OF inv i])
  qed
qed

theorem rewritten_content_located_witness:
  "first_invalid_entry_id demo_libs (rewrite_content 0 demo_c2 demo_ledger) = Inr (Some 1)"
proof -
  obtain h where h: "compute_leaf_hash demo_libs demo_c2 [] = Inr h"
    by (simp add: compute_leaf_hash_def hash_payload_def canonicalize_def leaf_material_def
        demo_libs_def demo_dumps_def)
  have len: "0 < length (all_entries demo_ledger)"
    and p: "prev_hash (all_entries demo_ledger ! 0) = []"
    and n: "compute_leaf_hash demo_libs demo_c2 [] \<noteq> Inr (leaf_hash (all_entries demo_ledger ! 0))"
    by code_simp+
  from rewritten_content_located [OF demo_ledger_reach len, of demo_c2 h] h p n show ?thesis by auto
qed

text \<open>
  The last leaf hash of a valid chain binds the whole history. Two ledgers that both
  verify and end in the same leaf hash hold the same contents in the same order (in particular they
  have the same length), unless two of the hashed leaf payloads collide.
\<close>

theorem last_leaf_binds_history:
  assumes "sha3_len L"
    and "payload_collision_free L (materials (all_entries l) \<union> materials (all_entries l'))"
    and "verify_chain L l = Inr True" "verify_chain L l' = Inr True"
    and "last_leaf (all_entries l) = last_leaf (all_entries l')"
  shows "map content (all_entries l) = map content (all_entries l')"
  using chain_binding [of L "led_entries l" "led_entries l'"] assms
  by (simp add: verify_chain_iff all_entries_def)

theorem last_leaf_binds_history_witness:
  "map content (all_entries demo_ledger) = map content (all_entries (from_entries (all_entries demo_ledger)))
    \<and> length (all_entries demo_ledger) = 2"
proof -
  have pcf: "payload_collision_free demo_libs (materials (all_entries demo_ledger))"
    unfolding payload_collision_free_def materials_def all_entries_def by code_simp
  have v: "verify_chain demo_libs demo_ledger = Inr True"
    using ledger_reach_inv [OF demo_ledger_reach] by (simp add: verify_chain_iff ledger_inv_def)
  show ?thesis
    using last_leaf_binds_history [OF demo_sha3_len, of demo_ledger demo_ledger] pcf v by simp code_simp
qed

text \<open>
  What the chain does not bind. Rewriting an entry's type label or timestamp never changes
  the outcome of \<^verbatim>\<open>first_invalid_entry_id\<close>, so such a rewrite is invisible to \<^verbatim>\<open>verify_chain\<close>.
\<close>

theorem labels_not_committed:
  "first_invalid_entry_id L (rewrite_labels i ty ts l) = first_invalid_entry_id L l"
proof -
  have "first_invalid_from L p (es[i := (es ! i)\<lparr>entry_type := ty, entry_timestamp := ts\<rparr>]) =
    first_invalid_from L p es" for p es
  proof (induction es arbitrary: p i)
    case (Cons e es)
    then show ?case by (cases i) (auto cong: if_cong)
  qed simp
  then show ?thesis by (simp add: first_invalid_entry_id_def rewrite_labels_def)
qed

end
