(* ===== verification/Merkle_Tree.thy ===== *)
theory Merkle_Tree
  imports Context_Ledger
begin

text \<open>
  \<^verbatim>\<open>ledger_core/merkle.py\<close>: ordered Merkle trees over the ledger's leaf hashes, inclusion proofs and
  their verification. An odd level repeats its last node when the parents are computed. The theory
  proves that every proof the tree hands out verifies against its root, that the proof has one item
  per level, that the root binds the leaves of trees with equally many leaves, that an accepted proof
  of the tree's height proves membership, what the root of arbitrary leaves does not bind (their number),
  and that for the leaves of a hash chain it binds the number too.
\<close>

section \<open>Building the tree\<close>

definition left_sibling :: bytes where
  "left_sibling = [0]"

definition right_sibling :: bytes where
  "right_sibling = [1]"

definition hash_size :: nat where
  "hash_size = 32"

definition parent_hash :: "crypto_libs \<Rightarrow> bytes \<Rightarrow> bytes \<Rightarrow> bytes" where
  "parent_hash L l r = hash_sha3_256 L (l @ r)"

record merkle_tree =
  mt_levels :: "bytes list list"
  mt_positions :: "(int \<times> nat) list"

text \<open>\<^verbatim>\<open>current_level if even else current_level + [current_level[-1]]\<close>.\<close>

definition pad_level :: "'a list \<Rightarrow> 'a list" where
  "pad_level xs = (if length xs mod 2 = 0 then xs else xs @ [last xs])"

text \<open>The comprehension over \<^verbatim>\<open>range(0, len(padded_level), 2)\<close>.\<close>

fun pair_up :: "('a \<Rightarrow> 'a \<Rightarrow> 'a) \<Rightarrow> 'a list \<Rightarrow> 'a list" where
  "pair_up f (x # y # xs) = f x y # pair_up f xs"
| "pair_up f _ = []"

definition next_level :: "crypto_libs \<Rightarrow> bytes list \<Rightarrow> bytes list" where
  "next_level L xs = pair_up (parent_hash L) (pad_level xs)"

lemma length_pair_up [simp]: "length (pair_up f xs) = length xs div 2"
  by (induction f xs rule: pair_up.induct) auto

lemma length_pad_level: "length (pad_level xs) = 2 * ((length xs + 1) div 2)"
  unfolding pad_level_def by (simp, arith)

lemma length_next_level [simp]: "length (next_level L xs) = (length xs + 1) div 2"
  by (simp add: next_level_def length_pad_level)

text \<open>The \<^verbatim>\<open>while len(current_level) > 1\<close> loop; the levels from the current one upwards.\<close>

function build_levels :: "crypto_libs \<Rightarrow> bytes list \<Rightarrow> bytes list list" where
  "build_levels L xs = (if length xs > 1 then xs # build_levels L (next_level L xs) else [xs])"
  by pat_completeness auto
termination
  by (relation "measure (\<lambda>(L, xs). length xs)") auto

declare build_levels.simps [simp del]

text \<open>The \<^verbatim>\<open>for position, entry in enumerate(entries)\<close> loop with its two checks.\<close>

fun collect_leaves ::
  "nat \<Rightarrow> (int \<times> nat) list \<Rightarrow> bytes list \<Rightarrow> ledger_entry list \<Rightarrow> ((int \<times> nat) list \<times> bytes list) res"
where
  "collect_leaves pos ps ls [] = Inr (ps, ls)"
| "collect_leaves pos ps ls (e # es) =
     (if map_of ps (entry_id e) \<noteq> None then Inl (Exc ValueError (''duplicate entry_id: '' @ show_int (entry_id e)))
      else if length (leaf_hash e) \<noteq> hash_size
        then Inl (Exc ValueError ''each entry leaf_hash must be a 32-byte SHA3-256 digest'')
      else collect_leaves (pos + 1) (dict_set (entry_id e) pos ps) (ls @ [leaf_hash e]) es)"

definition build_merkle_tree :: "crypto_libs \<Rightarrow> ledger_entry list \<Rightarrow> merkle_tree res" where
  "build_merkle_tree L es =
     (if es = [] then Inl (Exc ValueError ''cannot build a Merkle tree with no entries'')
      else bind_res (collect_leaves 0 [] [] es) (\<lambda>(ps, ls).
        Inr \<lparr>mt_levels = build_levels L ls, mt_positions = ps\<rparr>))"

definition mt_root :: "merkle_tree \<Rightarrow> bytes" where
  "mt_root t = hd (last (mt_levels t))"

text \<open>The loop of \<^verbatim>\<open>get_proof\<close> over \<^verbatim>\<open>self._levels[:-1]\<close>.\<close>

fun proof_items :: "nat \<Rightarrow> bytes list list \<Rightarrow> bytes list" where
  "proof_items index [] = []"
| "proof_items index (level # levels) =
     (if index mod 2 = 0
      then right_sibling @ level ! (if index + 1 < length level then index + 1 else index)
      else left_sibling @ level ! (index - 1)) # proof_items (index div 2) levels"

definition get_proof :: "merkle_tree \<Rightarrow> int \<Rightarrow> bytes list res" where
  "get_proof t i =
     (case map_of (mt_positions t) i of
        None \<Rightarrow> Inl (Exc KeyError (''entry_id '' @ show_int i @ '' is not in this tree''))
      | Some index \<Rightarrow> Inr (proof_items index (butlast (mt_levels t))))"

text \<open>The loop of \<^verbatim>\<open>verify_merkle_proof\<close>; \<open>None\<close> is an early \<^verbatim>\<open>return False\<close>.\<close>

fun fold_proof :: "crypto_libs \<Rightarrow> bytes \<Rightarrow> bytes list \<Rightarrow> bytes option" where
  "fold_proof L cur [] = Some cur"
| "fold_proof L cur (item # items) =
     (if length item \<noteq> hash_size + 1 then None
      else if take 1 item = left_sibling then fold_proof L (parent_hash L (drop 1 item) cur) items
      else if take 1 item = right_sibling then fold_proof L (parent_hash L cur (drop 1 item)) items
      else None)"

definition verify_merkle_proof :: "crypto_libs \<Rightarrow> bytes \<Rightarrow> bytes list \<Rightarrow> bytes \<Rightarrow> bool" where
  "verify_merkle_proof L leaf items root \<longleftrightarrow>
     length leaf = hash_size \<and> length root = hash_size \<and> fold_proof L leaf items = Some root"

section \<open>Levels\<close>

lemma build_levels_1: "length xs \<le> 1 \<Longrightarrow> build_levels L xs = [xs]"
  by (subst build_levels.simps) simp

lemma build_levels_more: "1 < length xs \<Longrightarrow> build_levels L xs = xs # build_levels L (next_level L xs)"
  by (subst build_levels.simps) simp

lemma build_levels_nonempty [simp]: "build_levels L xs \<noteq> []"
  by (subst build_levels.simps) simp

lemma last_build_levels: "xs \<noteq> [] \<Longrightarrow> length (last (build_levels L xs)) = 1"
proof (induction L xs rule: build_levels.induct)
  case (1 L xs)
  show ?case
  proof (cases "1 < length xs")
    case True
    then have "next_level L xs \<noteq> []" by (simp flip: length_0_conv)
    with 1 True show ?thesis by (simp add: build_levels_more)
  next
    case False
    with 1 show ?thesis by (cases xs) (simp_all add: build_levels_1)
  qed
qed

definition tree_root :: "crypto_libs \<Rightarrow> bytes list \<Rightarrow> bytes" where
  "tree_root L xs = hd (last (build_levels L xs))"

lemma tree_root_1: "tree_root L [x] = x"
  by (simp add: tree_root_def build_levels_1)

lemma tree_root_more: "1 < length xs \<Longrightarrow> tree_root L xs = tree_root L (next_level L xs)"
  by (simp add: tree_root_def build_levels_more)

text \<open>The two children of a node of the next level, with the repeated last node.\<close>

lemma pair_up_nth: "2 * i + 1 < length xs \<Longrightarrow> pair_up f xs ! i = f (xs ! (2 * i)) (xs ! (2 * i + 1))"
proof (induction f xs arbitrary: i rule: pair_up.induct)
  case (1 f x y xs)
  then show ?case by (cases i) auto
qed auto

lemma pad_level_nth:
  "i < length (pad_level xs) \<Longrightarrow> pad_level xs ! i = xs ! (if i < length xs then i else i - 1)"
proof -
  assume i: "i < length (pad_level xs)"
  have "last xs = xs ! (i - 1)" if "\<not> i < length xs" "length xs mod 2 \<noteq> 0"
    using i that by (cases "xs = []") (auto simp: pad_level_def last_conv_nth less_Suc_eq)
  with i show ?thesis by (auto simp: pad_level_def nth_append split: if_splits)
qed

lemma next_level_nth:
  assumes "i < length (next_level L xs)"
  shows "next_level L xs ! i =
    parent_hash L (xs ! (2 * i)) (xs ! (if 2 * i + 1 < length xs then 2 * i + 1 else 2 * i))"
proof -
  have "2 * i + 1 < length (pad_level xs)" using assms by (simp add: length_pad_level)
  moreover have "2 * i < length xs" using assms by simp
  ultimately show ?thesis
    by (simp add: next_level_def pair_up_nth pad_level_nth)
qed

section \<open>Proofs that the tree hands out verify\<close>

definition all_hashes :: "bytes list \<Rightarrow> bool" where
  "all_hashes xs \<longleftrightarrow> (\<forall>x \<in> set xs. length x = hash_size)"

lemma all_hashes_nth: "all_hashes xs \<Longrightarrow> i < length xs \<Longrightarrow> length (xs ! i) = hash_size"
  by (simp add: all_hashes_def)

lemma length_parent_hash: "sha3_len L \<Longrightarrow> length (parent_hash L l r) = hash_size"
  by (simp add: sha3_len_def parent_hash_def hash_sha3_256_def hash_size_def)

lemma all_hashes_next_level: "sha3_len L \<Longrightarrow> all_hashes (next_level L xs)"
  by (auto simp: all_hashes_def in_set_conv_nth next_level_nth length_parent_hash simp del: length_next_level)

lemma fold_proof_left [simp]:
  "fold_proof L cur ((left_sibling @ s) # items) =
     (if length s = hash_size then fold_proof L (parent_hash L s cur) items else None)"
  by (simp add: left_sibling_def hash_size_def)

lemma fold_proof_right [simp]:
  "fold_proof L cur ((right_sibling @ s) # items) =
     (if length s = hash_size then fold_proof L (parent_hash L cur s) items else None)"
  by (simp add: left_sibling_def right_sibling_def hash_size_def)

lemma fold_proof_items:
  assumes "sha3_len L" "all_hashes xs" "i < length xs"
  shows "fold_proof L (xs ! i) (proof_items i (butlast (build_levels L xs))) = Some (tree_root L xs)"
  using assms
proof (induction L xs arbitrary: i rule: build_levels.induct)
  case (1 L xs)
  show ?case
  proof (cases "1 < length xs")
    case False
    with "1.prems" show ?thesis by (cases xs) (auto simp: build_levels_1 tree_root_1)
  next
    case True
    let ?n = "next_level L xs"
    have i2: "i div 2 < length ?n" using "1.prems"(3) by simp
    have ih: "fold_proof L (?n ! (i div 2)) (proof_items (i div 2) (butlast (build_levels L ?n))) =
        Some (tree_root L ?n)"
      using "1.IH" [OF True "1.prems"(1) _ i2] all_hashes_next_level [OF "1.prems"(1)] by simp
    have step: "butlast (build_levels L xs) = xs # butlast (build_levels L ?n)"
      using True by (simp add: build_levels_more)
    have sib: "length (xs ! j) = hash_size" if "j < length xs" for j
      using "1.prems"(2) that by (rule all_hashes_nth)
    show ?thesis
    proof (cases "i mod 2 = 0")
      case even: True
      then have "2 * (i div 2) = i" by auto
      then have node: "?n ! (i div 2) =
          parent_hash L (xs ! i) (xs ! (if i + 1 < length xs then i + 1 else i))"
        using next_level_nth [OF i2] by simp
      show ?thesis
        using ih even "1.prems"(3)
        unfolding step proof_items.simps if_P [OF even] fold_proof_right tree_root_more [OF True] node
        by (simp add: sib)
    next
      case odd: False
      then have "2 * (i div 2) + 1 = i" "2 * (i div 2) = i - 1" by presburger+
      then have node: "?n ! (i div 2) = parent_hash L (xs ! (i - 1)) (xs ! i)"
        using next_level_nth [OF i2] "1.prems"(3) by simp
      show ?thesis
        using ih odd "1.prems"(3)
        unfolding step proof_items.simps if_not_P [OF odd] fold_proof_left tree_root_more [OF True] node
        by (simp add: sib)
    qed
  qed
qed

section \<open>What a successful build contains\<close>

lemma dict_set_fresh: "map_of d k = None \<Longrightarrow> dict_set k v d = d @ [(k, v)]"
  by (induction d) (auto split: if_splits)

lemma collect_leaves_eq_Inr:
  "collect_leaves pos ps ls es = Inr r \<longleftrightarrow>
     distinct (map entry_id es) \<and> (\<forall>e \<in> set es. map_of ps (entry_id e) = None)
     \<and> all_hashes (map leaf_hash es)
     \<and> r = (ps @ zip (map entry_id es) [pos..<pos + length es], ls @ map leaf_hash es)"
proof (induction pos ps ls es arbitrary: r rule: collect_leaves.induct)
  case (2 pos ps ls e es)
  show ?case
  proof (cases "map_of ps (entry_id e) = None \<and> length (leaf_hash e) = hash_size")
    case True
    then have ps: "dict_set (entry_id e) pos ps = ps @ [(entry_id e, pos)]" by (simp add: dict_set_fresh)
    have z: "zip (map entry_id (e # es)) [pos..<pos + length (e # es)] =
        (entry_id e, pos) # zip (map entry_id es) [pos + 1..<pos + 1 + length es]"
      by (simp add: upt_conv_Cons del: upt_Suc)
    have fresh: "(\<forall>f \<in> set es. map_of (ps @ [(entry_id e, pos)]) (entry_id f) = None) \<longleftrightarrow>
        (\<forall>f \<in> set es. map_of ps (entry_id f) = None) \<and> entry_id e \<notin> entry_id ` set es"
      by (simp add: image_iff map_add_None) metis
    have "collect_leaves (pos + 1) (ps @ [(entry_id e, pos)]) (ls @ [leaf_hash e]) es = Inr r \<longleftrightarrow>
        distinct (map entry_id es)
        \<and> ((\<forall>f \<in> set es. map_of ps (entry_id f) = None) \<and> entry_id e \<notin> entry_id ` set es)
        \<and> all_hashes (map leaf_hash es)
        \<and> r = (ps @ zip (map entry_id (e # es)) [pos..<pos + length (e # es)], ls @ map leaf_hash (e # es))"
      using "2.IH" True unfolding ps fresh z by simp
    then show ?thesis
      unfolding collect_leaves.simps ps using True by (auto simp: all_hashes_def simp del: map_of_append)
  qed (auto simp: all_hashes_def)
qed (auto simp: all_hashes_def)

lemma build_merkle_tree_eq_Inr:
  "build_merkle_tree L es = Inr t \<longleftrightarrow>
     es \<noteq> [] \<and> distinct (map entry_id es) \<and> all_hashes (map leaf_hash es)
     \<and> t = \<lparr>mt_levels = build_levels L (map leaf_hash es),
             mt_positions = zip (map entry_id es) [0..<length es]\<rparr>"
  by (auto simp: build_merkle_tree_def res_elims collect_leaves_eq_Inr)

lemma mt_root_build: "build_merkle_tree L es = Inr t \<Longrightarrow> mt_root t = tree_root L (map leaf_hash es)"
  by (auto simp: build_merkle_tree_eq_Inr mt_root_def tree_root_def)

lemma get_proof_build:
  assumes "build_merkle_tree L es = Inr t"
  shows "i < length es \<Longrightarrow>
      get_proof t (entry_id (es ! i)) = Inr (proof_items i (butlast (build_levels L (map leaf_hash es))))"
    and "k \<notin> entry_id ` set es \<Longrightarrow> \<exists>m. get_proof t k = Inl (Exc KeyError m)"
proof -
  have d: "distinct (map entry_id es)" and t: "mt_levels t = build_levels L (map leaf_hash es)"
    "mt_positions t = zip (map entry_id es) [0..<length es]"
    using assms by (auto simp: build_merkle_tree_eq_Inr)
  show "get_proof t (entry_id (es ! i)) = Inr (proof_items i (butlast (build_levels L (map leaf_hash es))))"
    if "i < length es"
  proof -
    have "map_of (zip (map entry_id es) [0..<length es]) (map entry_id es ! i) = Some ([0..<length es] ! i)"
      using d that by (intro map_of_zip_nth) auto
    with that show ?thesis by (simp add: get_proof_def t)
  qed
  show "\<exists>m. get_proof t k = Inl (Exc KeyError m)" if "k \<notin> entry_id ` set es"
  proof -
    have "map_of (mt_positions t) k = None"
      using that by (simp add: t map_of_zip_is_None)
    then show ?thesis by (simp add: get_proof_def)
  qed
qed

lemma length_tree_root: "sha3_len L \<Longrightarrow> all_hashes xs \<Longrightarrow> xs \<noteq> [] \<Longrightarrow> length (tree_root L xs) = hash_size"
proof (induction L xs rule: build_levels.induct)
  case (1 L xs)
  show ?case
  proof (cases "1 < length xs")
    case True
    then have "next_level L xs \<noteq> []" by (simp flip: length_0_conv)
    with 1 True show ?thesis by (simp add: tree_root_more all_hashes_next_level)
  next
    case False
    with 1 show ?thesis by (cases xs) (simp_all add: tree_root_1 all_hashes_def)
  qed
qed

section \<open>The height of the tree\<close>

definition height :: "crypto_libs \<Rightarrow> bytes list \<Rightarrow> nat" where
  "height L xs = length (build_levels L xs) - 1"

lemma length_proof_items [simp]: "length (proof_items i ls) = length ls"
  by (induction i ls rule: proof_items.induct) auto

lemma height_simps:
  "length xs \<le> 1 \<Longrightarrow> height L xs = 0"
  "1 < length xs \<Longrightarrow> height L xs = Suc (height L (next_level L xs))"
proof -
  show "length xs \<le> 1 \<Longrightarrow> height L xs = 0" by (simp add: height_def build_levels_1)
  have "length (build_levels L ys) \<noteq> 0" for ys by simp
  then show "1 < length xs \<Longrightarrow> height L xs = Suc (height L (next_level L xs))"
    by (simp add: height_def build_levels_more)
qed

text \<open>The height is the binary logarithm of the number of leaves, rounded up.\<close>

lemma height_bounds: "xs \<noteq> [] \<Longrightarrow> length xs \<le> 2 ^ height L xs \<and> 2 ^ height L xs < 2 * length xs"
proof (induction L xs rule: build_levels.induct)
  case (1 L xs)
  show ?case
  proof (cases "1 < length xs")
    case True
    let ?n = "next_level L xs"
    from True have "?n \<noteq> []" by (simp flip: length_0_conv)
    with 1 True have ih: "length ?n \<le> 2 ^ height L ?n" "2 ^ height L ?n < 2 * length ?n" by blast+
    have "2 ^ height L ?n = (1 :: nat) \<or> even ((2 :: nat) ^ height L ?n)" by (cases "height L ?n") auto
    moreover have "length ?n = (length xs + 1) div 2" by simp
    ultimately have "2 ^ height L ?n < length xs" using True ih(2) by presburger
    moreover have "length xs \<le> 2 * length ?n" by simp
    ultimately show ?thesis using ih(1) by (simp add: height_simps(2) [OF True])
  next
    case False
    with 1 show ?thesis by (cases xs) (simp_all add: height_simps)
  qed
qed

section \<open>What the root binds\<close>

text \<open>The byte strings hashed while the tree over \<open>xs\<close> is built, and while a proof is folded.\<close>

definition tree_inputs :: "crypto_libs \<Rightarrow> bytes list \<Rightarrow> bytes list" where
  "tree_inputs L xs = concat (map (\<lambda>level. pair_up (@) (pad_level level)) (butlast (build_levels L xs)))"

fun fold_inputs :: "crypto_libs \<Rightarrow> bytes \<Rightarrow> bytes list \<Rightarrow> bytes list" where
  "fold_inputs L cur [] = []"
| "fold_inputs L cur (item # items) =
     (let m = (if take 1 item = left_sibling then drop 1 item @ cur else cur @ drop 1 item)
      in m # fold_inputs L (hash_sha3_256 L m) items)"

lemma tree_inputs_simps:
  "1 < length xs \<Longrightarrow> tree_inputs L xs = pair_up (@) (pad_level xs) @ tree_inputs L (next_level L xs)"
  by (simp add: tree_inputs_def build_levels_more)

lemma next_level_map: "next_level L xs = map (hash_sha3_256 L) (pair_up (@) (pad_level xs))"
proof -
  have "pair_up (parent_hash L) ys = map (hash_sha3_256 L) (pair_up (@) ys)" for ys
    by (induction "parent_hash L" ys rule: pair_up.induct) (auto simp: parent_hash_def)
  then show ?thesis by (simp add: next_level_def)
qed

lemma pair_up_append_inject:
  assumes "length xs = length ys" "even (length xs)" "all_hashes xs" "all_hashes ys"
    and "pair_up (@) xs = pair_up (@) ys"
  shows "xs = ys"
  using assms
proof (induction "(@) :: bytes \<Rightarrow> bytes \<Rightarrow> bytes" xs arbitrary: ys rule: pair_up.induct)
  case (1 x y xs)
  then obtain x' y' ys' where ys: "ys = x' # y' # ys'" by (cases ys; cases "tl ys") auto
  with 1 show ?case by (auto simp: all_hashes_def)
qed auto

lemma pad_level_inject: "length xs = length ys \<Longrightarrow> pad_level xs = pad_level ys \<Longrightarrow> xs = ys"
  by (auto simp: pad_level_def split: if_splits)

lemma set_pad_level: "xs \<noteq> [] \<Longrightarrow> set (pad_level xs) = set xs"
  by (auto simp: pad_level_def)

lemma all_hashes_pad: "xs \<noteq> [] \<Longrightarrow> all_hashes (pad_level xs) \<longleftrightarrow> all_hashes xs"
  by (simp add: all_hashes_def set_pad_level)

lemma even_pad: "even (length (pad_level xs))"
  by (simp add: length_pad_level)

lemma collision_free_mono: "collision_free L S \<Longrightarrow> T \<subseteq> S \<Longrightarrow> collision_free L T"
  unfolding collision_free_def by (rule inj_on_subset)

lemma collision_freeD:
  "collision_free L S \<Longrightarrow> hash_sha3_256 L a = hash_sha3_256 L b \<Longrightarrow> a \<in> S \<Longrightarrow> b \<in> S \<Longrightarrow> a = b"
  unfolding collision_free_def hash_sha3_256_def by (blast dest: inj_onD)

lemma map_hash_inject:
  assumes "collision_free L (set as \<union> set bs)" "map (hash_sha3_256 L) as = map (hash_sha3_256 L) bs"
  shows "as = bs"
  using assms unfolding collision_free_def hash_sha3_256_def
  by (simp add: inj_on_map_eq_map)

lemma tree_root_inject:
  assumes "sha3_len L" "length xs = length ys" "all_hashes xs" "all_hashes ys"
    and "collision_free L (set (tree_inputs L xs) \<union> set (tree_inputs L ys))"
    and "tree_root L xs = tree_root L ys" "xs \<noteq> []"
  shows "xs = ys"
  using assms
proof (induction L xs arbitrary: ys rule: build_levels.induct)
  case (1 L xs)
  show ?case
  proof (cases "1 < length xs")
    case False
    with "1.prems" show ?thesis by (cases xs; cases ys) (auto simp: tree_root_1)
  next
    case True
    let ?p = "pair_up (@) (pad_level xs)" and ?q = "pair_up (@) (pad_level ys)"
    from True "1.prems"(2) have y: "1 < length ys" "ys \<noteq> []" by auto
    note tix = tree_inputs_simps [OF True, of L] and tiy = tree_inputs_simps [OF y(1), of L]
    have "next_level L xs \<noteq> []" using True by (simp flip: length_0_conv)
    moreover have "collision_free L
        (set (tree_inputs L (next_level L xs)) \<union> set (tree_inputs L (next_level L ys)))"
      using "1.prems"(5) by (rule collision_free_mono) (auto simp: tix tiy)
    ultimately have "next_level L xs = next_level L ys"
      using "1.IH" [OF True, of "next_level L ys"] "1.prems" True y(1)
      by (simp add: all_hashes_next_level tree_root_more)
    moreover have "collision_free L (set ?p \<union> set ?q)"
      using "1.prems"(5) by (rule collision_free_mono) (auto simp: tix tiy)
    ultimately have "?p = ?q" by (simp add: next_level_map map_hash_inject)
    moreover have "length (pad_level xs) = length (pad_level ys)"
      using "1.prems"(2) by (simp add: length_pad_level)
    moreover have "all_hashes (pad_level xs)" "all_hashes (pad_level ys)"
      using "1.prems"(3,4,7) y(2) by (simp_all add: all_hashes_pad)
    ultimately have "pad_level xs = pad_level ys"
      by (blast intro: pair_up_append_inject [OF _ even_pad])
    with "1.prems"(2) show ?thesis by (rule pad_level_inject)
  qed
qed

text \<open>
  What is hashed in a ledger and its tree: payloads and pairs of nodes. The code hashes both with the same
  function, so distinct digests are asked of payloads and pairs together.
\<close>

datatype hashed = Payload json | Node bytes

fun digest_of :: "crypto_libs \<Rightarrow> hashed \<Rightarrow> bytes res" where
  "digest_of L (Payload j) = hash_payload L j"
| "digest_of L (Node b) = Inr (hash_sha3_256 L b)"

definition digests_distinct :: "crypto_libs \<Rightarrow> json set \<Rightarrow> bytes set \<Rightarrow> bool" where
  "digests_distinct L P N \<longleftrightarrow> inj_on (digest_of L) (Payload ` P \<union> Node ` N)"

lemma digests_distinctD:
  assumes "digests_distinct L P N"
  shows "payload_collision_free L P" "collision_free L N" "j \<in> P \<Longrightarrow> b \<in> N \<Longrightarrow> hash_payload L j \<noteq> Inr (hash_sha3_256 L b)"
proof -
  have "inj_on (digest_of L) (Payload ` P)" "inj_on (digest_of L) (Node ` N)"
    using assms unfolding digests_distinct_def by (auto elim: inj_on_subset)
  then show "payload_collision_free L P" "collision_free L N"
    by (auto simp: payload_collision_free_def collision_free_def inj_on_def hash_sha3_256_def)
  show "hash_payload L j \<noteq> Inr (hash_sha3_256 L b)" if "j \<in> P" "b \<in> N"
    using assms that unfolding digests_distinct_def by (auto dest: inj_onD [of _ _ "Payload j" "Node b"])
qed

lemma digests_distinct_mono: "digests_distinct L P N \<Longrightarrow> P' \<subseteq> P \<Longrightarrow> digests_distinct L P' N"
  unfolding digests_distinct_def by (rule inj_on_subset) auto

lemma pair_up_append_mem:
  "all_hashes xs \<Longrightarrow> a @ b \<in> set (pair_up (@) xs) \<Longrightarrow> length a = hash_size \<Longrightarrow> a \<in> set xs \<and> b \<in> set xs"
proof (induction "(@) :: bytes \<Rightarrow> bytes \<Rightarrow> bytes" xs rule: pair_up.induct)
  case (1 x y xs)
  then have "length x = hash_size" by (simp add: all_hashes_def)
  with 1 show ?case by (auto simp: all_hashes_def)
qed auto

lemma pair_up_pad:
  "pair_up f (pad_level (x # y # xs)) = f x y # pair_up f (pad_level xs)" "pair_up f (pad_level [x]) = [f x x]" "pad_level [] = []"
  by (auto simp: pad_level_def)

lemma distinct_pairs: "distinct xs \<Longrightarrow> all_hashes xs \<Longrightarrow> distinct (pair_up (@) (pad_level xs))"
proof (induction "(@) :: bytes \<Rightarrow> bytes \<Rightarrow> bytes" xs rule: pair_up.induct)
  case (1 x y xs)
  have "x @ y \<notin> set (pair_up (@) (pad_level xs))"
  proof
    assume x: "x @ y \<in> set (pair_up (@) (pad_level xs))"
    then have ne: "xs \<noteq> []" by (auto simp: pair_up_pad)
    with 1 x have "x \<in> set (pad_level xs)"
      using pair_up_append_mem [OF _ x] by (simp add: all_hashes_pad) (simp add: all_hashes_def)
    with 1 ne show False by (simp add: set_pad_level)
  qed
  with 1 show ?case by (simp add: pair_up_pad all_hashes_def)
qed (simp_all add: pair_up_pad)

lemma distinct_next_level:
  assumes "distinct xs" "all_hashes xs" "collision_free L (set (pair_up (@) (pad_level xs)))"
  shows "distinct (next_level L xs)"
  using distinct_pairs [OF assms(1,2)] assms(3)
  by (simp add: next_level_map distinct_map collision_free_def hash_sha3_256_def [abs_def])

text \<open>Without repetitions, trees of the same height are determined by their roots, whatever the numbers of leaves.\<close>

lemma pad_level_inject_distinct: "distinct xs \<Longrightarrow> distinct ys \<Longrightarrow> pad_level xs = pad_level ys \<Longrightarrow> xs = ys"
proof -
  have odd: "\<not> distinct (xs @ [last xs])" if "length xs mod 2 \<noteq> 0" for xs :: "'a list"
    using that by (cases xs) auto
  show "distinct xs \<Longrightarrow> distinct ys \<Longrightarrow> pad_level xs = pad_level ys \<Longrightarrow> xs = ys"
    using odd [of xs] odd [of ys] by (auto simp: pad_level_def split: if_splits)
qed

lemma pair_up_inject:
  assumes "even (length xs)" "even (length ys)" "all_hashes xs" "all_hashes ys" "pair_up (@) xs = pair_up (@) ys"
  shows "xs = ys"
proof -
  have "length xs div 2 = length ys div 2" using arg_cong [OF assms(5), of length] by simp
  with assms(1,2) have "length xs = length ys" by presburger
  from pair_up_append_inject [OF this assms(1,3,4,5)] show ?thesis .
qed

lemma tree_root_inject_height:
  assumes "sha3_len L" "height L xs = height L ys" "all_hashes xs" "all_hashes ys" "distinct xs" "distinct ys"
    and "collision_free L (set (tree_inputs L xs) \<union> set (tree_inputs L ys))"
    and "tree_root L xs = tree_root L ys" "xs \<noteq> []" "ys \<noteq> []"
  shows "xs = ys"
  using assms
proof (induction L xs arbitrary: ys rule: build_levels.induct)
  case (1 L xs)
  have iff: "1 < length zs \<longleftrightarrow> height L zs \<noteq> 0" for zs by (cases "1 < length zs") (simp_all add: height_simps)
  show ?case
  proof (cases "1 < length xs")
    case False
    with "1.prems" iff [of xs] iff [of ys] have "length xs = 1" "length ys = 1" by (cases xs; cases ys; auto)+
    with "1.prems" show ?thesis by (auto simp: length_Suc_conv tree_root_1)
  next
    case True
    let ?p = "pair_up (@) (pad_level xs)" and ?q = "pair_up (@) (pad_level ys)"
    from True "1.prems"(2) iff have y: "1 < length ys" by metis
    note tix = tree_inputs_simps [OF True, of L] and tiy = tree_inputs_simps [OF y, of L]
    have c: "collision_free L (set ?p)" "collision_free L (set ?q)" "collision_free L (set ?p \<union> set ?q)"
      "collision_free L (set (tree_inputs L (next_level L xs)) \<union> set (tree_inputs L (next_level L ys)))"
      by (rule collision_free_mono [OF "1.prems"(7)]; auto simp: tix tiy)+
    have ne: "next_level L xs \<noteq> []" "next_level L ys \<noteq> []" using True y by (simp_all flip: length_0_conv)
    have h: "height L (next_level L xs) = height L (next_level L ys)" using "1.prems"(2) by (simp add: height_simps(2) [OF True] height_simps(2) [OF y])
    have r: "tree_root L (next_level L xs) = tree_root L (next_level L ys)" using "1.prems"(8) by (simp add: tree_root_more [OF True] tree_root_more [OF y])
    note d = distinct_next_level [OF "1.prems"(5,3) c(1)] distinct_next_level [OF "1.prems"(6,4) c(2)]
    note a = all_hashes_next_level [OF "1.prems"(1)]
    from "1.IH" [OF True "1.prems"(1) h a a d c(4) r ne] have "next_level L xs = next_level L ys" .
    then have "?p = ?q" using c(3) by (simp add: next_level_map map_hash_inject)
    moreover have "all_hashes (pad_level xs)" "all_hashes (pad_level ys)"
      using "1.prems"(3,4) by (simp_all only: all_hashes_pad [OF "1.prems"(9)] all_hashes_pad [OF "1.prems"(10)])
    ultimately have "pad_level xs = pad_level ys" by (blast intro: pair_up_inject [OF even_pad even_pad])
    with "1.prems"(5,6) show ?thesis by (rule pad_level_inject_distinct)
  qed
qed

text \<open>A lower tree with the same root has nodes of the higher tree for its leaves.\<close>

lemma lower_tree_leaves:
  assumes "sha3_len L" "height L xs < height L ys" "all_hashes xs" "all_hashes ys" "distinct xs" "distinct ys"
    and "collision_free L (set (tree_inputs L xs) \<union> set (tree_inputs L ys))"
    and "tree_root L xs = tree_root L ys" "xs \<noteq> []" "ys \<noteq> []"
  shows "set xs \<subseteq> hash_sha3_256 L ` set (tree_inputs L ys)"
  using assms
proof (induction L ys rule: build_levels.induct)
  case (1 L ys)
  have y: "1 < length ys" using "1.prems"(2) by (cases "1 < length ys") (simp_all add: height_simps)
  note ti = tree_inputs_simps [OF y, of L]
  let ?n = "next_level L ys"
  have n: "all_hashes ?n" "distinct ?n" "tree_root L xs = tree_root L ?n" "?n \<noteq> []"
    "collision_free L (set (tree_inputs L xs) \<union> set (tree_inputs L ?n))"
  proof -
    show "distinct ?n"
      by (rule distinct_next_level [OF "1.prems"(6,4)], rule collision_free_mono [OF "1.prems"(7)]) (auto simp: ti)
    show "?n \<noteq> []" using y by (simp flip: length_0_conv)
    show "collision_free L (set (tree_inputs L xs) \<union> set (tree_inputs L ?n))"
      by (rule collision_free_mono [OF "1.prems"(7)]) (auto simp: ti)
  qed (use all_hashes_next_level [OF "1.prems"(1)] "1.prems"(8) in \<open>simp_all only: tree_root_more [OF y]\<close>)
  show ?case
  proof (cases "height L xs = height L ?n")
    case True
    from tree_root_inject_height [OF "1.prems"(1) True "1.prems"(3) n(1) "1.prems"(5) n(2,5,3) "1.prems"(9) n(4)]
    have "xs = ?n" .
    then show ?thesis by (auto simp: next_level_map ti)
  next
    case False
    then have "height L xs < height L ?n" using "1.prems"(2) by (simp add: height_simps(2) [OF y])
    from "1.IH" [OF y "1.prems"(1) this "1.prems"(3) n(1) "1.prems"(5) n(2,5,3) "1.prems"(9) n(4)] show ?thesis by (auto simp: ti)
  qed
qed

text \<open>One step of the fold hashes the pair in one of the two orders.\<close>

lemma fold_proof_step:
  assumes "fold_proof L cur (item # items) = Some r"
  obtains a b where "length (drop 1 item) = hash_size" "{a, b} = {cur, drop 1 item}"
    "fold_proof L (hash_sha3_256 L (a @ b)) items = Some r"
    "fold_inputs L cur (item # items) = (a @ b) # fold_inputs L (hash_sha3_256 L (a @ b)) items"
proof -
  have len: "length (drop 1 item) = hash_size" using assms by (auto split: if_splits)
  show thesis
  proof (cases "take 1 item = left_sibling")
    case True
    then show thesis
      using assms len by (intro that [of "drop 1 item" cur]) (auto simp: parent_hash_def Let_def split: if_splits)
  next
    case False
    then show thesis
      using assms len by (intro that [of cur "drop 1 item"]) (auto simp: parent_hash_def Let_def split: if_splits)
  qed
qed

lemma fold_proof_member:
  assumes "sha3_len L" "all_hashes xs" "xs \<noteq> []" "length cur = hash_size"
    and "length items = height L xs" "fold_proof L cur items = Some (tree_root L xs)"
    and "collision_free L (set (tree_inputs L xs) \<union> set (fold_inputs L cur items))"
  shows "cur \<in> set xs"
  using assms
proof (induction L xs arbitrary: cur items rule: build_levels.induct)
  case (1 L xs)
  show ?case
  proof (cases "1 < length xs")
    case False
    with "1.prems" show ?thesis by (cases xs) (auto simp: tree_root_1 height_simps)
  next
    case True
    note ti = tree_inputs_simps [OF True, of L]
    from "1.prems"(5) obtain item rest where it: "items = item # rest" "length rest = height L (next_level L xs)"
      by (cases items) (auto simp: height_simps(2) [OF True])
    from "1.prems"(6) [unfolded it(1)] obtain a b where ab: "length (drop 1 item) = hash_size"
        "{a, b} = {cur, drop 1 item}"
        "fold_proof L (hash_sha3_256 L (a @ b)) rest = Some (tree_root L xs)"
        "fold_inputs L cur items = (a @ b) # fold_inputs L (hash_sha3_256 L (a @ b)) rest"
      unfolding it(1) by (rule fold_proof_step)
    have len: "length a = hash_size" "cur \<in> {a, b}" using ab(1,2) "1.prems"(4) by (auto simp: doubleton_eq_iff)
    have "next_level L xs \<noteq> []" using True by (simp flip: length_0_conv)
    moreover have "length (hash_sha3_256 L (a @ b)) = hash_size"
      using length_parent_hash [OF "1.prems"(1), of a b] by (simp add: parent_hash_def)
    moreover have "collision_free L (set (tree_inputs L (next_level L xs)) \<union>
        set (fold_inputs L (hash_sha3_256 L (a @ b)) rest))"
      using "1.prems"(7) by (rule collision_free_mono) (auto simp: ti ab(4))
    ultimately have "hash_sha3_256 L (a @ b) \<in> set (next_level L xs)"
      using "1.IH" [OF True] "1.prems"(1) it(2) ab(3) tree_root_more [OF True]
      by (simp add: all_hashes_next_level)
    then obtain m where m: "m \<in> set (pair_up (@) (pad_level xs))" "hash_sha3_256 L (a @ b) = hash_sha3_256 L m"
      by (auto simp: next_level_map)
    have "a @ b = m"
      using collision_freeD [OF "1.prems"(7) m(2)] m(1) by (simp add: ti ab(4))
    with m(1) pair_up_append_mem [of "pad_level xs" a b] len(1) "1.prems"(2,3)
    have "a \<in> set xs \<and> b \<in> set xs" by (simp add: all_hashes_pad set_pad_level)
    with len(2) show ?thesis by auto
  qed
qed

section \<open>Properties\<close>

lemma reach_all_hashes: "sha3_len L \<Longrightarrow> chain L p es \<Longrightarrow> all_hashes (map leaf_hash es)"
  by (induction es arbitrary: p) (auto simp: all_hashes_def hash_size_def dest: compute_leaf_hash_len)

lemma reach_distinct_ids: "ledger_inv L l \<Longrightarrow> distinct (map entry_id (led_entries l))"
  by (simp add: ledger_inv_def distinct_map inj_on_def)

text \<open>
  C21: every ledger built through the interface with at least one entry has a Merkle tree (no
  error branch of \<^verbatim>\<open>build_merkle_tree\<close> is reachable), and for each of its entries \<^verbatim>\<open>get_proof\<close>
  returns a proof that \<^verbatim>\<open>verify_merkle_proof\<close> accepts for that entry's leaf hash against the tree's
  root; the proof's length is the binary logarithm of the number of entries, rounded up.
\<close>

theorem ledger_proofs_verify:
  assumes "sha3_len L" "ledger_reach L l" "all_entries l \<noteq> []"
  shows "\<exists>t. build_merkle_tree L (all_entries l) = Inr t \<and>
    (\<forall>i \<in> {1..length (all_entries l)}. \<exists>e p. get_entry l (int i) = Inr e \<and> get_proof t (int i) = Inr p
       \<and> verify_merkle_proof L (leaf_hash e) p (mt_root t)
       \<and> length (all_entries l) \<le> 2 ^ length p \<and> 2 ^ length p < 2 * length (all_entries l))"
proof -
  let ?es = "led_entries l" let ?xs = "map leaf_hash ?es"
  have inv: "ledger_inv L l" using assms(2) by (rule ledger_reach_inv)
  have hs: "all_hashes ?xs" using assms(1) inv by (auto simp: ledger_inv_def intro: reach_all_hashes)
  have ne: "?es \<noteq> []" using assms(3) by (simp add: all_entries_def)
  obtain t where t: "build_merkle_tree L ?es = Inr t"
    using build_merkle_tree_eq_Inr reach_distinct_ids [OF inv] hs ne by blast
  have "\<exists>e p. get_entry l (int i) = Inr e \<and> get_proof t (int i) = Inr p
       \<and> verify_merkle_proof L (leaf_hash e) p (mt_root t)
       \<and> length ?es \<le> 2 ^ length p \<and> 2 ^ length p < 2 * length ?es" if i: "i \<in> {1..length ?es}" for i
  proof -
    let ?j = "i - 1" let ?p = "proof_items ?j (butlast (build_levels L ?xs))"
    from i have j: "?j < length ?es" "int ?j + 1 = int i" by auto
    have g: "get_entry l (int i) = Inr (?es ! ?j)" using i by (auto simp: get_entry_def nat_diff_distrib)
    have "get_proof t (int i) = Inr ?p"
      using get_proof_build(1) [OF t j(1)] ledger_inv_entry_id [OF inv j(1)] j(2) by simp
    moreover have "fold_proof L (leaf_hash (?es ! ?j)) ?p = Some (mt_root t)"
      using fold_proof_items [OF assms(1) hs, of ?j] j(1) by (simp add: mt_root_build [OF t])
    then have "verify_merkle_proof L (leaf_hash (?es ! ?j)) ?p (mt_root t)"
      using hs j(1) length_tree_root [OF assms(1) hs] ne
      by (simp add: verify_merkle_proof_def mt_root_build [OF t] all_hashes_def)
    moreover have "length ?es \<le> 2 ^ length ?p \<and> 2 ^ length ?p < 2 * length ?es"
      using height_bounds [of ?xs L] ne by (simp add: height_def)
    ultimately show ?thesis using g by blast
  qed
  with t show ?thesis unfolding all_entries_def by blast
qed

theorem ledger_proofs_verify_witness:
  "\<exists>t e p. build_merkle_tree demo_libs (all_entries demo_ledger) = Inr t \<and> get_entry demo_ledger 2 = Inr e
     \<and> get_proof t 2 = Inr p \<and> verify_merkle_proof demo_libs (leaf_hash e) p (mt_root t)"
proof -
  have n: "length (all_entries demo_ledger) = 2" by code_simp
  then have "all_entries demo_ledger \<noteq> []" by auto
  from ledger_proofs_verify [OF demo_sha3_len demo_ledger_reach this]
  obtain t where t: "build_merkle_tree demo_libs (all_entries demo_ledger) = Inr t"
    and p: "\<forall>i \<in> {1..2}. \<exists>e p. get_entry demo_ledger (int i) = Inr e \<and> get_proof t (int i) = Inr p
       \<and> verify_merkle_proof demo_libs (leaf_hash e) p (mt_root t) \<and> 2 \<le> (2 :: nat) ^ length p
       \<and> 2 ^ length p < 2 * (2 :: nat)"
    unfolding n by blast
  from bspec [OF p, of 2] t show ?thesis by auto
qed

text \<open>Leaf hashes of a chain are pairwise different.\<close>

lemma chain_leaves_distinct:
  assumes "sha3_len L" "payload_collision_free L (materials es)" "chain L [] es"
  shows "distinct (map leaf_hash es)"
proof -
  have "i = j" if "i < length es" "j < length es" "leaf_hash (es ! i) = leaf_hash (es ! j)" for i j
  proof -
    have c: "chain L [] (take (Suc k) es)" for k
      using assms(3) chain_append [of L "[]" "take (Suc k) es" "drop (Suc k) es"] by simp
    have m: "payload_collision_free L (materials (take (Suc i) es) \<union> materials (take (Suc j) es))"
      using assms(2) by (rule payload_collision_free_mono) (auto simp: materials_def dest: in_set_takeD)
    have "last_leaf (take (Suc i) es) = last_leaf (take (Suc j) es)" using that by (simp add: take_Suc_conv_app_nth)
    from chain_binding [OF assms(1) m c c this] have "length (take (Suc i) es) = length (take (Suc j) es)" by (metis length_map)
    then show ?thesis using that by simp
  qed
  then show ?thesis by (auto simp: distinct_conv_nth)
qed

text \<open>The root of a chain determines its contents and their number, up to the digests that are hashed.\<close>

lemma chains_with_roots:
  assumes "sha3_len L" "chain L [] es" "chain L [] es'"
    and d: "digests_distinct L (materials es \<union> materials es')
      (set (tree_inputs L (map leaf_hash es)) \<union> set (tree_inputs L (map leaf_hash es')))"
    and "build_merkle_tree L es = Inr t" "build_merkle_tree L es' = Inr t'" "mt_root t = mt_root t'"
  shows "map content es = map content es'"
proof -
  let ?xs = "map leaf_hash es" and ?ys = "map leaf_hash es'"
  note pcf = digests_distinctD(1) [OF d] and cf = digests_distinctD(2) [OF d]
  have ne: "?xs \<noteq> []" "?ys \<noteq> []" using assms(5,6) by (auto simp: build_merkle_tree_eq_Inr)
  have h: "all_hashes ?xs" "all_hashes ?ys" using assms(2,3) by (auto intro: reach_all_hashes [OF assms(1)])
  have dist: "distinct ?xs" "distinct ?ys"
    using chain_leaves_distinct [OF assms(1) payload_collision_free_mono [OF pcf]] assms(2,3) by blast+
  have r: "tree_root L ?xs = tree_root L ?ys" using assms(7) by (simp add: mt_root_build [OF assms(5)] mt_root_build [OF assms(6)])
  have first: "\<exists>e \<in> set es. hash_payload L (leaf_material (content e) (prev_hash e)) = Inr (leaf_hash e)"
    if "chain L [] es" "map leaf_hash es \<noteq> []" for es :: "ledger_entry list"
    using that by (cases es) (auto simp: compute_leaf_hash_def)
  have apart: "\<not> set (map leaf_hash fs) \<subseteq> hash_sha3_256 L ` N"
    if f: "chain L [] fs" "map leaf_hash fs \<noteq> []" "materials fs \<subseteq> materials es \<union> materials es'"
      "N \<subseteq> set (tree_inputs L ?xs) \<union> set (tree_inputs L ?ys)" for fs N
  proof
    assume sub: "set (map leaf_hash fs) \<subseteq> hash_sha3_256 L ` N"
    obtain e where e: "e \<in> set fs" "hash_payload L (leaf_material (content e) (prev_hash e)) = Inr (leaf_hash e)"
      using first [OF f(1,2)] by blast
    with sub obtain b where "b \<in> N" "leaf_hash e = hash_sha3_256 L b" by auto
    moreover have "leaf_material (content e) (prev_hash e) \<in> materials fs" using e(1) by (auto simp: materials_def)
    ultimately show False using digests_distinctD(3) [OF d] e(2) f(3,4) by (metis subsetD)
  qed
  have "height L ?xs = height L ?ys"
  proof (rule ccontr)
    assume "height L ?xs \<noteq> height L ?ys"
    then consider "height L ?xs < height L ?ys" | "height L ?ys < height L ?xs" by linarith
    then show False
    proof cases
      case 1
      from lower_tree_leaves [OF assms(1) 1 h dist cf r ne] apart [OF assms(2) ne(1)] show False by blast
    next
      case 2
      have "collision_free L (set (tree_inputs L ?ys) \<union> set (tree_inputs L ?xs))" using cf by (simp add: Un_commute)
      from lower_tree_leaves [OF assms(1) 2 h(2,1) dist(2,1) this r [symmetric] ne(2,1)] apart [OF assms(3) ne(2)] show False by blast
    qed
  qed
  from tree_root_inject_height [OF assms(1) this h dist cf r ne] have "?xs = ?ys" .
  then have "last_leaf es = last_leaf es'" using ne by (metis last_leaf_def last_map map_is_Nil_conv)
  with chain_binding [OF assms(1) pcf assms(2,3)] show ?thesis by blast
qed

lemma chains_with_equal_roots:
  assumes "sha3_len L" "chain L [] es" "chain L [] es'"
    and "payload_collision_free L (materials es \<union> materials es')"
    and "collision_free L (set (tree_inputs L (map leaf_hash es)) \<union> set (tree_inputs L (map leaf_hash es')))"
    and "build_merkle_tree L es = Inr t" "build_merkle_tree L es' = Inr t'"
    and "length es = length es'" "mt_root t = mt_root t'"
  shows "map content es = map content es'"
proof -
  have ne: "es \<noteq> []" using assms(6) by (simp add: build_merkle_tree_eq_Inr)
  have "map leaf_hash es = map leaf_hash es'"
    using assms ne mt_root_build [OF assms(6)] mt_root_build [OF assms(7)]
    by (intro tree_root_inject [OF assms(1)]) (auto intro: reach_all_hashes [OF assms(1)])
  then have "last (map leaf_hash es) = last (map leaf_hash es')" by simp
  then have "last_leaf es = last_leaf es'" using ne assms(8) by (auto simp: last_leaf_def last_map)
  with chain_binding [OF assms(1) _ assms(2,3)] assms(4) show ?thesis by simp
qed

text \<open>
  C23: the root binds the whole context: two non-empty ledgers built through the interface that
  have equally many entries and the same Merkle root hold the same contents in the same order,
  unless two of the hashed leaf payloads or two of the hashed node pairs collide.
\<close>

theorem root_binds_context:
  assumes "sha3_len L" "ledger_reach L l" "ledger_reach L l'"
    and "payload_collision_free L (materials (all_entries l) \<union> materials (all_entries l'))"
    and "collision_free L (set (tree_inputs L (map leaf_hash (all_entries l))) \<union>
           set (tree_inputs L (map leaf_hash (all_entries l'))))"
    and "build_merkle_tree L (all_entries l) = Inr t" "build_merkle_tree L (all_entries l') = Inr t'"
    and "length (all_entries l) = length (all_entries l')" "mt_root t = mt_root t'"
  shows "map content (all_entries l) = map content (all_entries l')"
  using chains_with_equal_roots [OF assms(1) _ _ _ _ assms(6,7,8,9)] assms(2-5)
  by (auto dest!: ledger_reach_inv simp: ledger_inv_def all_entries_def)

lemma demo_pcf: "payload_collision_free demo_libs (materials (all_entries demo_ledger))"
  unfolding payload_collision_free_def materials_def all_entries_def by code_simp

lemma demo_tree_cf: "collision_free demo_libs (set (tree_inputs demo_libs (map leaf_hash (all_entries demo_ledger))))"
  unfolding collision_free_def by code_simp

lemma demo_tree: "\<exists>t. build_merkle_tree demo_libs (all_entries demo_ledger) = Inr t"
proof -
  have "isl (build_merkle_tree demo_libs (all_entries demo_ledger)) = False" by code_simp
  then show ?thesis by (cases "build_merkle_tree demo_libs (all_entries demo_ledger)") auto
qed

theorem root_binds_context_witness:
  "map content (all_entries demo_ledger) = map content (all_entries (from_entries (all_entries demo_ledger)))
    \<and> (\<exists>t. build_merkle_tree demo_libs (all_entries demo_ledger) = Inr t)"
  using demo_tree demo_pcf demo_tree_cf
    root_binds_context [OF demo_sha3_len demo_ledger_reach demo_ledger_reach]
  by auto

text \<open>
  An accepted proof of the tree's height proves membership: if \<^verbatim>\<open>verify_merkle_proof\<close>
  accepts a leaf hash against the root of a tree with a proof that has one item per level, the
  leaf hash is the leaf hash of one of the tree's entries, unless two of the hashed node pairs
  collide.
\<close>

theorem accepted_proof_member:
  assumes "sha3_len L" "build_merkle_tree L es = Inr t"
    and "length p = length (mt_levels t) - 1" "verify_merkle_proof L h p (mt_root t)"
    and "collision_free L (set (tree_inputs L (map leaf_hash es)) \<union> set (fold_inputs L h p))"
  shows "\<exists>e \<in> set es. leaf_hash e = h"
proof -
  have t: "es \<noteq> []" "all_hashes (map leaf_hash es)" "mt_levels t = build_levels L (map leaf_hash es)"
    using assms(2) by (auto simp: build_merkle_tree_eq_Inr)
  have "h \<in> set (map leaf_hash es)"
    using assms(1,3,4,5) t mt_root_build [OF assms(2)]
    by (intro fold_proof_member) (auto simp: verify_merkle_proof_def height_def)
  then show ?thesis by auto
qed

definition demo_h :: "bytes \<times> bytes list" where
  "demo_h = (leaf_hash (all_entries demo_ledger ! 0),
     [right_sibling @ leaf_hash (all_entries demo_ledger ! 1)])"

theorem accepted_proof_member_witness:
  "\<exists>e \<in> set (all_entries demo_ledger). leaf_hash e = fst demo_h"
proof -
  obtain t where t: "build_merkle_tree demo_libs (all_entries demo_ledger) = Inr t" using demo_tree by blast
  have "map_res (\<lambda>t. length (snd demo_h) = length (mt_levels t) - 1
      \<and> verify_merkle_proof demo_libs (fst demo_h) (snd demo_h) (mt_root t))
      (build_merkle_tree demo_libs (all_entries demo_ledger)) = Inr True" by code_simp
  moreover have "collision_free demo_libs (set (tree_inputs demo_libs (map leaf_hash (all_entries demo_ledger)))
      \<union> set (fold_inputs demo_libs (fst demo_h) (snd demo_h)))"
    unfolding collision_free_def by code_simp
  ultimately show ?thesis
    using accepted_proof_member [OF demo_sha3_len t, of "snd demo_h" "fst demo_h"] t by simp
qed

text \<open>
  What the root does not bind. When an odd number (at least three) of entries is followed by
  an entry that repeats the last leaf hash, the tree over the longer list exists and has the same
  root: the root alone does not determine the number of entries.
\<close>

theorem root_ignores_repeated_last:
  assumes "build_merkle_tree L es = Inr t" "odd (length es)" "1 < length es"
    and "entry_id e \<notin> entry_id ` set es" "leaf_hash e = leaf_hash (last es)"
  shows "\<exists>t'. build_merkle_tree L (es @ [e]) = Inr t' \<and> mt_root t' = mt_root t"
proof -
  let ?xs = "map leaf_hash es"
  have ne: "es \<noteq> []" using assms(3) by auto
  then have hs: "all_hashes ?xs" "all_hashes (?xs @ [leaf_hash e])" "distinct (map entry_id es)"
    using assms(1,5) by (auto simp: build_merkle_tree_eq_Inr all_hashes_def)
  then obtain t' where t': "build_merkle_tree L (es @ [e]) = Inr t'"
    using build_merkle_tree_eq_Inr [of L "es @ [e]"] assms(4) by auto
  have odd: "length es mod 2 = 1" "Suc (length es) mod 2 = 0" using assms(2) by presburger+
  have "next_level L (?xs @ [leaf_hash e]) = next_level L ?xs"
    using assms(5) ne odd by (simp add: next_level_def pad_level_def last_map)
  then have "tree_root L (?xs @ [leaf_hash e]) = tree_root L ?xs"
    using assms(3) ne tree_root_more [of ?xs L] tree_root_more [of "?xs @ [leaf_hash e]" L] by simp
  with t' mt_root_build [OF t'] mt_root_build [OF assms(1)] show ?thesis by simp
qed

definition demo_entry :: "int \<Rightarrow> byte \<Rightarrow> ledger_entry" where
  "demo_entry i w = \<lparr>entry_id = i, entry_type = ''tool_output'', content = demo_c1, entry_timestamp = ''t'',
     prev_hash = [], leaf_hash = replicate 32 w\<rparr>"

definition demo_three :: "ledger_entry list" where
  "demo_three = [demo_entry 1 7, demo_entry 2 8, demo_entry 3 9]"

theorem root_ignores_repeated_last_witness:
  "\<exists>t t'. build_merkle_tree demo_libs demo_three = Inr t
     \<and> build_merkle_tree demo_libs (demo_three @ [demo_entry 4 9]) = Inr t' \<and> mt_root t' = mt_root t"
proof -
  have d: "distinct (map entry_id demo_three)" "all_hashes (map leaf_hash demo_three)" "demo_three \<noteq> []"
    by (simp_all add: demo_three_def demo_entry_def all_hashes_def hash_size_def)
  then obtain t where t: "build_merkle_tree demo_libs demo_three = Inr t"
    using build_merkle_tree_eq_Inr by blast
  have "odd (length demo_three)" "1 < length demo_three" "entry_id (demo_entry 4 9) \<notin> entry_id ` set demo_three"
    "leaf_hash (demo_entry 4 9) = leaf_hash (last demo_three)"
    by (simp_all add: demo_three_def demo_entry_def)
  from root_ignores_repeated_last [OF t this] t show ?thesis by blast
qed

text \<open>
  Leaves and inner nodes are hashed alike, so the height matters: for a tree with at least
  two leaves every node of the level above the leaves is itself accepted as a leaf hash against the
  same root, with a proof that is one item shorter.
\<close>

theorem inner_node_accepted:
  assumes "sha3_len L" "build_merkle_tree L es = Inr t" "1 < length es" "h \<in> set (mt_levels t ! 1)"
  shows "\<exists>p. length p + 1 = length (mt_levels t) - 1 \<and> verify_merkle_proof L h p (mt_root t)"
proof -
  let ?xs = "map leaf_hash es" let ?n = "next_level L ?xs"
  have more: "1 < length ?xs" using assms(3) by simp
  have lv: "mt_levels t = ?xs # build_levels L ?n"
    using assms(2) build_levels_more [OF more] by (auto simp: build_merkle_tree_eq_Inr)
  have "hd (build_levels L ?n) = ?n" by (subst build_levels.simps) simp
  then have "h \<in> set ?n" using assms(4) by (simp add: lv hd_conv_nth)
  then obtain i where i: "i < length ?n" "h = ?n ! i" by (auto simp: in_set_conv_nth)
  have ne: "?n \<noteq> []" using i(1) by (metis length_greater_0_conv gr_implies_not_zero not_gr_zero)
  have hs: "all_hashes ?n" by (rule all_hashes_next_level [OF assms(1)])
  let ?p = "proof_items i (butlast (build_levels L ?n))"
  have "fold_proof L h ?p = Some (mt_root t)"
    using fold_proof_items [OF assms(1) hs i(1)] mt_root_build [OF assms(2)] tree_root_more [OF more] i(2) by simp
  moreover have "length (mt_root t) = hash_size" "length h = hash_size"
    using length_tree_root [OF assms(1) hs ne] i hs mt_root_build [OF assms(2)] tree_root_more [OF more]
    by (auto simp: all_hashes_def)
  ultimately have "verify_merkle_proof L h ?p (mt_root t)" by (simp add: verify_merkle_proof_def)
  moreover have "length ?p + 1 = length (mt_levels t) - 1"
    by (cases "build_levels L ?n") (simp_all add: lv)
  ultimately show ?thesis by blast
qed

theorem inner_node_accepted_witness:
  "\<exists>t p. build_merkle_tree demo_libs (all_entries demo_ledger) = Inr t
     \<and> verify_merkle_proof demo_libs (hd (mt_levels t ! 1)) p (mt_root t)"
proof -
  obtain t where t: "build_merkle_tree demo_libs (all_entries demo_ledger) = Inr t" using demo_tree by blast
  have "1 < length (all_entries demo_ledger)" by code_simp
  moreover have "map_res (\<lambda>t. mt_levels t ! 1 \<noteq> [])
      (build_merkle_tree demo_libs (all_entries demo_ledger)) = Inr True" by code_simp
  then have "hd (mt_levels t ! 1) \<in> set (mt_levels t ! 1)" by (simp add: t)
  ultimately show ?thesis using inner_node_accepted [OF demo_sha3_len t] t by blast
qed

end
