(* ===== verification/Key_Registry.thy ===== *)
theory Key_Registry
  imports Crypto_Core Iso_Time
begin

text \<open>
  \<^verbatim>\<open>key_registry/\<close>: the validity-aware public-key registry (\<^verbatim>\<open>models.py\<close>, \<^verbatim>\<open>storage.py\<close>,
  \<^verbatim>\<open>registry.py\<close>) and its JWK encoding (\<^verbatim>\<open>jwks.py\<close>). The table \<^verbatim>\<open>agent_keys\<close> is the list of its rows in
  insertion order; its timestamp columns hold instants. Every operation is a function of the table
  and of the clock readings it takes. The theory proves the invariant of the table, that revocation
  is final and registered key bytes never change whatever operations follow, that the lookup views
  agree, and the JWK round trip.
\<close>

section \<open>Loading keys and JWKs: \<^verbatim>\<open>jwks.py\<close>\<close>

definition load_supported_public_key :: "crypto_libs \<Rightarrow> bytes \<Rightarrow> public_key res" where
  "load_supported_public_key L b =
     (case load_der_public_key L b of
        Inl e \<Rightarrow>
          if caught_by [ValueError] e
          then if length b = 32 then ed25519_from_public_bytes L b
               else Inl (Exc ValueError ''public key must be DER SPKI or raw 32-byte Ed25519'')
          else Inl e
      | Inr k \<Rightarrow> if \<not> is_supported k then Inl (Exc ValueError ''unsupported public key type'') else Inr k)"

record agent_key_record =
  agent_id :: string
  agent_type :: "string option"
  pubkey_id :: string
  public_key_bytes :: bytes
  algorithm :: string
  valid_from :: time
  valid_until :: "time option"
  revoked :: bool
  created_at :: time

definition public_key_to_jwk :: "crypto_libs \<Rightarrow> agent_key_record \<Rightarrow> string dict res" where
  "public_key_to_jwk L r =
     bind_res (load_supported_public_key L (public_key_bytes r)) (\<lambda>k.
       let common = [(''kid'', pubkey_id r), (''use'', ''sig'')] in
       case k of
         Ed25519PublicKey _ \<Rightarrow>
           Inr (common @ [(''kty'', ''OKP''), (''crv'', ''Ed25519''),
             (''x'', base64url_encode (public_raw_bytes L k)), (''alg'', ''EdDSA'')])
       | EllipticCurvePublicKey c x y \<Rightarrow>
           if c = SECP256R1
           then Inr (common @ [(''kty'', ''EC''), (''crv'', ''P-256''),
             (''x'', base64url_encode (to_bytes_big 32 x)), (''y'', base64url_encode (to_bytes_big 32 y)),
             (''alg'', ''ES256'')])
           else Inl (Exc ValueError ''only Ed25519 and ECDSA P-256 public keys are supported'')
       | OtherPublicKey _ \<Rightarrow> Inl (Exc ValueError ''only Ed25519 and ECDSA P-256 public keys are supported''))"

text \<open>\<^verbatim>\<open>{"keys": [...]}\<close> is represented by its list of keys.\<close>

definition export_jwks :: "crypto_libs \<Rightarrow> agent_key_record list \<Rightarrow> string dict list res" where
  "export_jwks L rs = traverse (public_key_to_jwk L) rs"

text \<open>\<^verbatim>\<open>jwk[k]\<close>, and a value where the code needs text: any other type raises a caught \<^verbatim>\<open>TypeError\<close>.\<close>

definition jwk_item :: "json dict \<Rightarrow> string \<Rightarrow> json res" where
  "jwk_item jwk k = (case map_of jwk k of None \<Rightarrow> Inl (Exc KeyError k) | Some v \<Rightarrow> Inr v)"

definition jwk_bytes :: "json dict \<Rightarrow> string \<Rightarrow> bytes res" where
  "jwk_bytes jwk k = bind_res (jwk_item jwk k) (\<lambda>v.
     case v of JStr s \<Rightarrow> base64url_decode s | _ \<Rightarrow> Inl (Exc TypeError ''expected text''))"

text \<open>\<^verbatim>\<open>jwk["kty"] == kty and jwk["crv"] == crv\<close>: the curve is only read when the type matches.\<close>

definition jwk_is :: "json dict \<Rightarrow> string \<Rightarrow> string \<Rightarrow> bool res" where
  "jwk_is jwk kty crv = bind_res (jwk_item jwk ''kty'') (\<lambda>t.
     if t \<noteq> JStr kty then Inr False else map_res (\<lambda>c. c = JStr crv) (jwk_item jwk ''crv''))"

definition import_jwk_body :: "crypto_libs \<Rightarrow> json dict \<Rightarrow> bytes option res" where
  "import_jwk_body L jwk =
     bind_res (jwk_is jwk ''OKP'' ''Ed25519'') (\<lambda>okp.
       if okp then bind_res (jwk_bytes jwk ''x'') (\<lambda>raw.
         bind_res (ed25519_from_public_bytes L raw) (\<lambda>_. Inr (Some raw)))
       else bind_res (jwk_is jwk ''EC'' ''P-256'') (\<lambda>ec.
         if ec then bind_res (jwk_bytes jwk ''x'') (\<lambda>x. bind_res (jwk_bytes jwk ''y'') (\<lambda>y.
           bind_res (ec_public_from_numbers L (from_bytes_big x) (from_bytes_big y)) (\<lambda>k.
             Inr (Some (public_der L k)))))
         else Inr None))"

definition import_jwk :: "crypto_libs \<Rightarrow> json dict \<Rightarrow> bytes res" where
  "import_jwk L jwk =
     (case import_jwk_body L jwk of
        Inl e \<Rightarrow>
          if caught_by [KeyError, TypeError, ValueError, BinasciiError] e
          then Inl (Exc ValueError ''invalid supported public JWK'') else Inl e
      | Inr (Some b) \<Rightarrow> Inr b
      | Inr None \<Rightarrow> Inl (Exc ValueError ''unsupported JWK type''))"

section \<open>Request and record validation: \<^verbatim>\<open>models.py\<close>\<close>

text \<open>
  \<^verbatim>\<open>AgentKeyRecord(...)\<close>: field lengths, timezone-aware timestamps, ordered window. The validators
  raise \<^verbatim>\<open>ValueError\<close>, which pydantic turns into its \<^verbatim>\<open>ValidationError\<close>; other exceptions pass through.
\<close>

definition validator :: "'a res \<Rightarrow> 'a res" where
  "validator m = (case m of
     Inl e \<Rightarrow> if caught_by [ValueError, AssertionError] e then Inl (Exc ValidationError (exc_msg e)) else Inl e
   | Inr v \<Rightarrow> Inr v)"

definition optional_as_utc :: "datetime option \<Rightarrow> time option res" where
  "optional_as_utc v = (case v of None \<Rightarrow> Inr None | Some d \<Rightarrow> map_res Some (as_utc d))"

definition make_agent_key_record ::
  "string \<Rightarrow> string option \<Rightarrow> string \<Rightarrow> bytes \<Rightarrow> string \<Rightarrow> datetime \<Rightarrow> datetime option \<Rightarrow> time
   \<Rightarrow> agent_key_record res"
where
  "make_agent_key_record aid aty kid b alg vfrom vuntil created =
     bind_res (validator (as_utc vfrom)) (\<lambda>f. bind_res (validator (optional_as_utc vuntil)) (\<lambda>u.
       if aid = [] \<or> aty = Some [] \<or> kid = [] \<or> b = [] \<or> alg = []
       then Inl (Exc ValidationError ''String should have at least 1 character'')
       else if (case u of None \<Rightarrow> False | Some t \<Rightarrow> t < f)
       then Inl (Exc ValidationError ''valid_until must be at or after valid_from'')
       else Inr \<lparr>agent_id = aid, agent_type = aty, pubkey_id = kid, public_key_bytes = b, algorithm = alg,
                 valid_from = f, valid_until = u, revoked = False, created_at = created\<rparr>))"

record register_key_request =
  rk_agent_id :: string
  rk_pubkey_id :: string
  rk_algorithm :: string
  rk_public_key_b64 :: "string option"
  rk_public_key_jwk :: "json dict option"
  rk_valid_from :: "time option"
  rk_valid_until :: "time option"

definition make_register_key_request ::
  "string \<Rightarrow> string \<Rightarrow> string \<Rightarrow> string option \<Rightarrow> json dict option \<Rightarrow> datetime option \<Rightarrow> datetime option
   \<Rightarrow> register_key_request res"
where
  "make_register_key_request aid kid alg b64 jwk vfrom vuntil =
     bind_res (validator (optional_as_utc vfrom)) (\<lambda>f. bind_res (validator (optional_as_utc vuntil)) (\<lambda>u.
       if aid = [] \<or> kid = [] \<or> alg = []
       then Inl (Exc ValidationError ''String should have at least 1 character'')
       else if (b64 = None) = (jwk = None)
       then Inl (Exc ValidationError ''provide exactly one of public_key_b64 or public_key_jwk'')
       else if (case (f, u) of (Some s, Some t) \<Rightarrow> t < s | _ \<Rightarrow> False)
       then Inl (Exc ValidationError ''valid_until must be at or after valid_from'')
       else Inr \<lparr>rk_agent_id = aid, rk_pubkey_id = kid, rk_algorithm = alg, rk_public_key_b64 = b64,
                 rk_public_key_jwk = jwk, rk_valid_from = f, rk_valid_until = u\<rparr>))"

section \<open>The table: \<^verbatim>\<open>storage.py\<close>\<close>

type_synonym key_table = "agent_key_record list"

definition get_key_by_id :: "string \<Rightarrow> key_table \<Rightarrow> agent_key_record option" where
  "get_key_by_id k st = find (\<lambda>r. pubkey_id r = k) st"

text \<open>\<^verbatim>\<open>INSERT\<close> fails with \<^verbatim>\<open>IntegrityError\<close> on a primary key that exists.\<close>

definition insert_key :: "agent_key_record \<Rightarrow> key_table \<Rightarrow> key_table res" where
  "insert_key r st =
     (if pubkey_id r \<in> set (map pubkey_id st)
      then Inl (Exc ValueError (''pubkey_id already registered: '' @ pubkey_id r))
      else Inr (st @ [r]))"

text \<open>\<^verbatim>\<open>ORDER BY created_at DESC\<close>.\<close>

definition newest_first :: "key_table \<Rightarrow> key_table" where
  "newest_first st = sort_key (\<lambda>r. - created_at r) st"

definition get_keys_by_agent :: "string \<Rightarrow> key_table \<Rightarrow> agent_key_record list" where
  "get_keys_by_agent a st = newest_first (filter (\<lambda>r. agent_id r = a) st)"

definition all_keys :: "key_table \<Rightarrow> agent_key_record list" where
  "all_keys st = newest_first st"

definition storage_revoke_key :: "string \<Rightarrow> key_table \<Rightarrow> bool \<times> key_table" where
  "storage_revoke_key k st =
     (k \<in> set (map pubkey_id st), map (\<lambda>r. if pubkey_id r = k then r\<lparr>revoked := True\<rparr> else r) st)"

section \<open>\<^verbatim>\<open>KeyRegistry\<close>: \<^verbatim>\<open>registry.py\<close>\<close>

definition algorithm_for_key :: "crypto_libs \<Rightarrow> bytes \<Rightarrow> string res" where
  "algorithm_for_key L b =
     bind_res (load_supported_public_key L b) (\<lambda>k.
       case k of
         Ed25519PublicKey _ \<Rightarrow> Inr ''Ed25519''
       | EllipticCurvePublicKey c _ _ \<Rightarrow>
           if c = SECP256R1 then Inr ''ECDSA-P256-SHA256'' else Inl (Exc ValueError ''unsupported public key algorithm'')
       | OtherPublicKey _ \<Rightarrow> Inl (Exc ValueError ''unsupported public key algorithm''))"

definition is_active :: "agent_key_record \<Rightarrow> time \<Rightarrow> bool" where
  "is_active r now \<longleftrightarrow>
     \<not> revoked r \<and> now \<ge> valid_from r \<and> (case valid_until r of None \<Rightarrow> True | Some u \<Rightarrow> now \<le> u)"

definition accepted_algorithm_ids :: "string \<Rightarrow> string list" where
  "accepted_algorithm_ids a =
     (if a = ''Ed25519'' then [''Ed25519'', ''EdDSA''] else [''ECDSA-P256-SHA256'', ''ES256''])"

definition agent_type_for_id :: "string \<Rightarrow> string option" where
  "agent_type_for_id a =
     (if endswith a ''-agent'' \<and> length a > length ''-agent''
      then Some (take (length a - length ''-agent'') a) else None)"

text \<open>\<open>created\<close> is the clock reading stored as \<^verbatim>\<open>created_at\<close>.\<close>

definition register_key ::
  "crypto_libs \<Rightarrow> time \<Rightarrow> string \<Rightarrow> string \<Rightarrow> bytes \<Rightarrow> string \<Rightarrow> datetime \<Rightarrow> datetime option \<Rightarrow> string option
   \<Rightarrow> key_table \<Rightarrow> (agent_key_record \<times> key_table) res"
where
  "register_key L created aid kid b alg vfrom vuntil aty st =
     bind_res (algorithm_for_key L b) (\<lambda>expected.
       if alg \<notin> set (accepted_algorithm_ids expected)
       then Inl (Exc ValueError (''algorithm does not match public key: expected '' @ expected))
       else
         let ty = (if aty = None \<or> aty = Some [] then agent_type_for_id aid else aty) in
         bind_res (make_agent_key_record aid ty kid b expected vfrom vuntil created) (\<lambda>r.
           map_res (\<lambda>st'. (r, st')) (insert_key r st)))"

text \<open>\<open>now\<close> is the first clock reading (activity check or \<^verbatim>\<open>valid_from\<close>), \<open>created\<close> the second.\<close>

definition register_pubkey :: "crypto_libs \<Rightarrow> time \<Rightarrow> time \<Rightarrow> string \<Rightarrow> bytes \<Rightarrow> key_table \<Rightarrow> key_table res" where
  "register_pubkey L now created kid b st =
     (case get_key_by_id kid st of
        Some r \<Rightarrow>
          if public_key_bytes r = b \<and> is_active r now then Inr st
          else Inl (Exc ValueError (''pubkey_id already registered: '' @ kid))
      | None \<Rightarrow>
          bind_res (algorithm_for_key L b) (\<lambda>alg.
            map_res snd (register_key L created ''unassigned'' kid b alg (Aware now 0) None None st)))"

definition get_pubkey :: "time \<Rightarrow> string \<Rightarrow> key_table \<Rightarrow> bytes option" where
  "get_pubkey now k st =
     (case get_key_by_id k st of
        None \<Rightarrow> None
      | Some r \<Rightarrow> if \<not> is_active r now then None else Some (public_key_bytes r))"

definition get_key_record :: "time \<Rightarrow> string \<Rightarrow> key_table \<Rightarrow> agent_key_record option" where
  "get_key_record now k st =
     (case get_key_by_id k st of None \<Rightarrow> None | Some r \<Rightarrow> if is_active r now then Some r else None)"

definition revoke_key :: "string \<Rightarrow> key_table \<Rightarrow> bool \<times> key_table" where
  "revoke_key k st = storage_revoke_key k st"

definition list_active_keys :: "time \<Rightarrow> string \<Rightarrow> key_table \<Rightarrow> agent_key_record list" where
  "list_active_keys now a st = filter (\<lambda>r. is_active r now) (get_keys_by_agent a st)"

definition registry_export_jwks :: "crypto_libs \<Rightarrow> time \<Rightarrow> key_table \<Rightarrow> string dict list res" where
  "registry_export_jwks L now st = export_jwks L (filter (\<lambda>r. is_active r now) (all_keys st))"

text \<open>One state-changing call of the registry, successful or not, and the reachable tables.\<close>

inductive registry_step :: "crypto_libs \<Rightarrow> key_table \<Rightarrow> key_table \<Rightarrow> bool" for L where
  register: "register_key L created aid kid b alg vfrom vuntil aty st = Inr (r, st') \<Longrightarrow> registry_step L st st'"
| register_compat: "register_pubkey L now created kid b st = Inr st' \<Longrightarrow> registry_step L st st'"
| revoke: "revoke_key kid st = (found, st') \<Longrightarrow> registry_step L st st'"

abbreviation registry_reach :: "crypto_libs \<Rightarrow> key_table \<Rightarrow> bool" where
  "registry_reach L st \<equiv> (registry_step L)\<^sup>*\<^sup>* [] st"

text \<open>
  What a published JWK relies on, for one key: raw Ed25519 keys have 32 bytes, are not themselves DER
  structures and load back; P-256 coordinates have 32 bytes, and the key built from the coordinates
  and its DER form load back.
\<close>

definition key_encodes :: "crypto_libs \<Rightarrow> public_key \<Rightarrow> bool" where
  "key_encodes L k =
     (case k of
        Ed25519PublicKey _ \<Rightarrow>
          length (public_raw_bytes L k) = 32 \<and> ed25519_from_public_bytes L (public_raw_bytes L k) = Inr k
          \<and> (case load_der_public_key L (public_raw_bytes L k) of Inl e \<Rightarrow> caught_by [ValueError] e | Inr _ \<Rightarrow> False)
      | EllipticCurvePublicKey c x y \<Rightarrow>
          x < 2 ^ 256 \<and> y < 2 ^ 256 \<and> ec_public_from_numbers L x y = Inr k
          \<and> load_der_public_key L (public_der L k) = Inr k
      | OtherPublicKey _ \<Rightarrow> True)"

definition demo_key :: bytes where
  "demo_key = replicate 32 7"

definition demo_der_key :: bytes where
  "demo_der_key = 48 # 1 # demo_key"

definition demo_table :: key_table where
  "demo_table = (case register_pubkey demo_libs 100 100 ''k1'' demo_der_key [] of Inl _ \<Rightarrow> [] | Inr st \<Rightarrow> st)"

section \<open>The table invariant\<close>

definition key_record_ok :: "crypto_libs \<Rightarrow> agent_key_record \<Rightarrow> bool" where
  "key_record_ok L r \<longleftrightarrow> algorithm_for_key L (public_key_bytes r) = Inr (algorithm r)
     \<and> agent_id r \<noteq> [] \<and> agent_type r \<noteq> Some [] \<and> pubkey_id r \<noteq> []
     \<and> public_key_bytes r \<noteq> [] \<and> (case valid_until r of None \<Rightarrow> True | Some u \<Rightarrow> valid_from r \<le> u)"

definition registry_inv :: "crypto_libs \<Rightarrow> key_table \<Rightarrow> bool" where
  "registry_inv L st \<longleftrightarrow> distinct (map pubkey_id st) \<and> list_all (key_record_ok L) st"

lemma key_record_ok_revoked [simp]: "key_record_ok L (r\<lparr>revoked := v\<rparr>) = key_record_ok L r"
  by (simp add: key_record_ok_def split: option.split)

lemma registry_inv_Nil [simp]: "registry_inv L []"
  by (simp add: registry_inv_def)

lemma register_key_eq_Inr:
  assumes "register_key L created aid kid b alg vfrom vuntil aty st = Inr (r, st')"
  shows "st' = st @ [r]" "pubkey_id r \<notin> pubkey_id ` set st" "key_record_ok L r" "\<not> revoked r"
    "pubkey_id r = kid" "public_key_bytes r = b" "agent_id r = aid"
  using assms
  by (auto simp: register_key_def make_agent_key_record_def insert_key_def key_record_ok_def res_elims
      Let_def split: if_splits option.splits)

lemma find_eq_Some:
  "distinct (map f xs) \<Longrightarrow> find (\<lambda>x. f x = k) xs = Some x \<longleftrightarrow> x \<in> set xs \<and> f x = k"
  by (induction xs) auto

lemma find_None_iff_fun: "find (\<lambda>x. f x = k) xs = None \<longleftrightarrow> k \<notin> f ` set xs"
  by (auto simp: find_None_iff)

lemma get_key_by_id_eq_Some:
  "registry_inv L st \<Longrightarrow> get_key_by_id k st = Some r \<longleftrightarrow> r \<in> set st \<and> pubkey_id r = k"
  by (simp add: get_key_by_id_def registry_inv_def find_eq_Some)

lemma find_append: "find P (xs @ ys) = (case find P xs of None \<Rightarrow> find P ys | Some x \<Rightarrow> Some x)"
  by (induction xs) auto

lemma find_map_revoke:
  "find (\<lambda>r. pubkey_id r = k) (map (\<lambda>r. if pubkey_id r = k' then r\<lparr>revoked := True\<rparr> else r) st) =
     map_option (\<lambda>r. if pubkey_id r = k' then r\<lparr>revoked := True\<rparr> else r) (find (\<lambda>r. pubkey_id r = k) st)"
  by (induction st) auto

lemma register_pubkey_cases:
  assumes "register_pubkey L now created kid b st = Inr st'"
  obtains (same) "st' = st"
    | (new) r where "register_key L created ''unassigned'' kid b (algorithm r) (Aware now 0) None None st = Inr (r, st')"
proof (cases "get_key_by_id kid st")
  case (Some r)
  with assms same show thesis by (auto simp: register_pubkey_def split: if_splits)
next
  case None
  with assms obtain alg r where a: "algorithm_for_key L b = Inr alg"
    and r: "register_key L created ''unassigned'' kid b alg (Aware now 0) None None st = Inr (r, st')"
    by (auto simp: register_pubkey_def res_elims)
  from register_key_eq_Inr(3,6) [OF r] a have "algorithm r = alg" by (simp add: key_record_ok_def)
  with r new show thesis by blast
qed

lemma registry_inv_step: "registry_step L st st' \<Longrightarrow> registry_inv L st \<Longrightarrow> registry_inv L st'"
proof (induction rule: registry_step.induct)
  case (register created aid kid b alg vfrom vuntil aty st r st')
  then show ?case using register_key_eq_Inr [OF register.hyps] by (auto simp: registry_inv_def)
next
  case (register_compat now created kid b st st')
  then show ?case
  proof (cases rule: register_pubkey_cases [OF register_compat.hyps])
    case (2 r)
    with register_key_eq_Inr [OF 2] register_compat.prems show ?thesis by (auto simp: registry_inv_def)
  qed simp
next
  case (revoke kid st found st')
  have "map pubkey_id (map (\<lambda>r. if pubkey_id r = kid then r\<lparr>revoked := True\<rparr> else r) st) = map pubkey_id st"
    by simp
  with revoke show ?case
    by (auto simp: revoke_key_def storage_revoke_key_def registry_inv_def list_all_iff simp del: map_map)
qed

lemma registry_reach_inv: "registry_reach L st \<Longrightarrow> registry_inv L st"
  by (induction rule: rtranclp_induct) (auto intro: registry_inv_step)

section \<open>Stores whose records only change in one direction\<close>

text \<open>
  A keyed store in which a record, once present, stays present and only moves upwards in \<open>le\<close>.
\<close>

locale persistent_store =
  fixes lookup :: "'s \<Rightarrow> 'k \<Rightarrow> 'v option" and step :: "'s \<Rightarrow> 's \<Rightarrow> bool" and le :: "'v \<Rightarrow> 'v \<Rightarrow> bool"
  assumes le_refl: "le v v"
    and le_trans: "le u v \<Longrightarrow> le v w \<Longrightarrow> le u w"
    and step_keeps: "step s t \<Longrightarrow> lookup s k = Some v \<Longrightarrow> \<exists>w. lookup t k = Some w \<and> le v w"
begin

lemma steps_keep: "step\<^sup>*\<^sup>* s t \<Longrightarrow> lookup s k = Some v \<Longrightarrow> \<exists>w. lookup t k = Some w \<and> le v w"
proof (induction rule: rtranclp_induct)
  case base
  then show ?case using le_refl by blast
next
  case (step t u)
  then obtain w where "lookup t k = Some w" "le v w" by blast
  with step_keeps [OF step.hyps(2)] le_trans show ?case by blast
qed

lemma known_stays_known: "step\<^sup>*\<^sup>* s t \<Longrightarrow> lookup s k \<noteq> None \<Longrightarrow> lookup t k \<noteq> None"
  using steps_keep by fastforce

end

text \<open>A key record may only become revoked.\<close>

definition revoked_le :: "agent_key_record \<Rightarrow> agent_key_record \<Rightarrow> bool" where
  "revoked_le r r' \<longleftrightarrow> r' = r \<or> r' = r\<lparr>revoked := True\<rparr>"

lemma revoked_le_bytes: "revoked_le r r' \<Longrightarrow> public_key_bytes r' = public_key_bytes r \<and> agent_id r' = agent_id r"
  by (auto simp: revoked_le_def)

lemma insert_keeps: "get_key_by_id k st = Some r \<Longrightarrow> get_key_by_id k (st @ [r']) = Some r"
  by (simp add: get_key_by_id_def find_append)

interpretation keys: persistent_store "\<lambda>st k. get_key_by_id k st" "registry_step L" revoked_le for L
proof unfold_locales
  show "revoked_le v v" for v by (simp add: revoked_le_def)
  show "revoked_le u v \<Longrightarrow> revoked_le v w \<Longrightarrow> revoked_le u w" for u v w by (auto simp: revoked_le_def)
  show "\<exists>w. get_key_by_id k t = Some w \<and> revoked_le v w"
    if "registry_step L s t" "get_key_by_id k s = Some v" for s t k v
    using that
  proof (induction rule: registry_step.induct)
    case (register created aid kid b alg vfrom vuntil aty st r st')
    then show ?case
      using register_key_eq_Inr(1) [OF register.hyps] insert_keeps by (auto simp: revoked_le_def)
  next
    case (register_compat now created kid b st st')
    then show ?case
    proof (cases rule: register_pubkey_cases [OF register_compat.hyps])
      case (2 r)
      then show ?thesis
        using register_key_eq_Inr(1) [OF 2] insert_keeps register_compat.prems by (auto simp: revoked_le_def)
    qed (auto simp: revoked_le_def)
  next
    case (revoke kid st found st')
    then show ?case
      by (auto simp: revoke_key_def storage_revoke_key_def get_key_by_id_def find_map_revoke revoked_le_def)
  qed
qed

section \<open>Views and JWKs\<close>

lemma get_key_record_eq_Some:
  "get_key_record now k st = Some r \<longleftrightarrow> get_key_by_id k st = Some r \<and> is_active r now"
  by (auto simp: get_key_record_def split: option.splits)

lemma get_pubkey_eq: "get_pubkey now k st = map_option public_key_bytes (get_key_record now k st)"
  by (auto simp: get_pubkey_def get_key_record_def split: option.splits)

lemma set_list_active_keys:
  "set (list_active_keys now a st) = {r \<in> set st. agent_id r = a \<and> is_active r now}"
  by (auto simp: list_active_keys_def get_keys_by_agent_def newest_first_def)

lemma public_key_to_jwk_ok:
  assumes "key_record_ok L r"
  shows "\<exists>j. public_key_to_jwk L r = Inr j \<and> map_of j ''kid'' = Some (pubkey_id r)"
proof -
  from assms obtain k where k: "load_supported_public_key L (public_key_bytes r) = Inr k"
    by (auto simp: key_record_ok_def algorithm_for_key_def res_elims)
  with assms show ?thesis
    by (cases k) (auto simp: key_record_ok_def algorithm_for_key_def public_key_to_jwk_def Let_def split: if_splits)
qed

lemma export_jwks_ok:
  "list_all (key_record_ok L) rs \<Longrightarrow>
     \<exists>js. export_jwks L rs = Inr js \<and> map (\<lambda>j. map_of j ''kid'') js = map (Some \<circ> pubkey_id) rs"
proof (induction rs)
  case (Cons r rs)
  then show ?case using public_key_to_jwk_ok [of L r] by (auto simp: export_jwks_def)
qed (simp add: export_jwks_def)

lemma registry_export_ok:
  assumes "registry_inv L st"
  shows "\<exists>js. registry_export_jwks L now st = Inr js
    \<and> (\<lambda>j. map_of j ''kid'') ` set js = Some ` {k. get_pubkey now k st \<noteq> None}"
proof -
  let ?rs = "filter (\<lambda>r. is_active r now) (all_keys st)"
  have rs: "set ?rs = {r \<in> set st. is_active r now}" by (auto simp: all_keys_def newest_first_def)
  then have "list_all (key_record_ok L) ?rs" using assms by (auto simp: registry_inv_def list_all_iff)
  then obtain js where js: "export_jwks L ?rs = Inr js"
    and m: "map (\<lambda>j. map_of j ''kid'') js = map (Some \<circ> pubkey_id) ?rs" using export_jwks_ok by blast
  from m have "(\<lambda>j. map_of j ''kid'') ` set js = Some ` pubkey_id ` {r \<in> set st. is_active r now}"
    unfolding rs [symmetric] by (metis image_image image_comp list.set_map comp_def)
  moreover have "pubkey_id ` {r \<in> set st. is_active r now} = {k. get_pubkey now k st \<noteq> None}"
    using assms by (fastforce simp: get_pubkey_eq get_key_record_eq_Some get_key_by_id_eq_Some)
  ultimately show ?thesis using js by (auto simp: registry_export_jwks_def)
qed

text \<open>The JWK as the JSON object that \<^verbatim>\<open>import_jwk\<close> receives.\<close>

definition jwk_json :: "string dict \<Rightarrow> json dict" where
  "jwk_json j = map (\<lambda>(k, v). (k, JStr v)) j"

lemma map_of_jwk_json: "map_of (jwk_json j) k = map_option JStr (map_of j k)"
  by (induction j) (auto simp: jwk_json_def)

lemma two_pow_256: "(2 :: nat) ^ 256 = 256 ^ 32"
  by simp

lemma import_public_key_to_jwk:
  assumes "load_supported_public_key L (public_key_bytes r) = Inr k" "key_encodes L k"
    and "public_key_to_jwk L r = Inr j"
  shows "\<exists>b. import_jwk L (jwk_json j) = Inr b \<and> load_supported_public_key L b = Inr k"
proof (cases k)
  case (Ed25519PublicKey p)
  let ?raw = "public_raw_bytes L k"
  from assms Ed25519PublicKey have "import_jwk L (jwk_json j) = Inr ?raw"
    by (auto simp: public_key_to_jwk_def Let_def import_jwk_def import_jwk_body_def jwk_is_def jwk_item_def
        jwk_bytes_def map_of_jwk_json key_encodes_def jwk.dec_enc)
  moreover have "load_supported_public_key L ?raw = Inr k"
    using assms(2) Ed25519PublicKey
    by (auto simp: load_supported_public_key_def key_encodes_def split: sum.splits)
  ultimately show ?thesis by blast
next
  case (EllipticCurvePublicKey c x y)
  with assms have c: "c = SECP256R1" by (auto simp: public_key_to_jwk_def Let_def split: if_splits)
  from assms(2) EllipticCurvePublicKey have
    "from_bytes_big (to_bytes_big 32 x) = x" "from_bytes_big (to_bytes_big 32 y) = y"
    by (auto simp: key_encodes_def two_pow_256 intro!: from_to_bytes_big)
  with assms EllipticCurvePublicKey c have "import_jwk L (jwk_json j) = Inr (public_der L k)"
    by (auto simp: public_key_to_jwk_def Let_def import_jwk_def import_jwk_body_def jwk_is_def jwk_item_def
        jwk_bytes_def map_of_jwk_json key_encodes_def jwk.dec_enc)
  moreover have "load_supported_public_key L (public_der L k) = Inr k"
    using assms(2) EllipticCurvePublicKey by (auto simp: load_supported_public_key_def key_encodes_def)
  ultimately show ?thesis by blast
next
  case (OtherPublicKey p)
  with assms show ?thesis by (auto simp: public_key_to_jwk_def Let_def)
qed

section \<open>Properties\<close>

text \<open>
  On every table the registry can reach the lookup views agree. \<^verbatim>\<open>get_pubkey\<close> returns the
  bytes of the record that \<^verbatim>\<open>get_key_record\<close> returns; a record is returned exactly if it is in
  \<^verbatim>\<open>list_active_keys\<close> of its agent under that key id; and \<^verbatim>\<open>export_jwks\<close> never fails and publishes
  exactly the key ids that \<^verbatim>\<open>get_pubkey\<close> answers at that instant.
\<close>

theorem registry_views_agree:
  assumes "registry_reach L st"
  shows "get_pubkey now k st = map_option public_key_bytes (get_key_record now k st)
    \<and> (get_key_record now k st = Some r \<longleftrightarrow>
         pubkey_id r = k \<and> r \<in> set (list_active_keys now (agent_id r) st))
    \<and> (\<exists>js. registry_export_jwks L now st = Inr js
         \<and> (\<lambda>j. map_of j ''kid'') ` set js = Some ` {k. get_pubkey now k st \<noteq> None})"
proof -
  have inv: "registry_inv L st" using assms by (rule registry_reach_inv)
  then show ?thesis
    using registry_export_ok [OF inv, of now]
    by (auto simp: get_pubkey_eq get_key_record_eq_Some get_key_by_id_eq_Some set_list_active_keys)
qed

lemma demo_table_reach: "registry_reach demo_libs demo_table"
  unfolding demo_table_def
  by (auto split: sum.split intro: r_into_rtranclp registry_step.register_compat)

lemma demo_table_k1: "get_pubkey 200 ''k1'' demo_table = Some demo_der_key"
  by code_simp

theorem registry_views_agree_witness:
  "get_pubkey 200 ''k1'' demo_table = Some demo_der_key
    \<and> (\<exists>r. get_key_record 200 ''k1'' demo_table = Some r \<and> r \<in> set (list_active_keys 200 (agent_id r) demo_table))
    \<and> (\<exists>js. registry_export_jwks demo_libs 200 demo_table = Inr js \<and> js \<noteq> [])"
proof -
  note v = registry_views_agree [OF demo_table_reach, of 200 "''k1''"]
  obtain r where r: "get_key_record 200 ''k1'' demo_table = Some r"
    using conjunct1 [OF v] demo_table_k1 by (cases "get_key_record 200 ''k1'' demo_table") auto
  obtain js where js: "registry_export_jwks demo_libs 200 demo_table = Inr js"
    "(\<lambda>j. map_of j ''kid'') ` set js = Some ` {k. get_pubkey 200 k demo_table \<noteq> None}"
    using v by blast
  from js(2) demo_table_k1 have "js \<noteq> []" by auto
  with v [of r] r js(1) demo_table_k1 show ?thesis by blast
qed

text \<open>
  C32: revocation is final. After \<^verbatim>\<open>revoke_key(k)\<close> found the key, no sequence of registrations
  (through either entry point) and revocations makes it usable again: at every later time
  \<^verbatim>\<open>get_pubkey\<close> and \<^verbatim>\<open>get_key_record\<close> return \<^verbatim>\<open>None\<close>, no agent lists it as active, and no exported
  JWK set contains it.
\<close>

theorem revocation_is_final:
  assumes "registry_reach L st0" "revoke_key k st0 = (True, st)" "(registry_step L)\<^sup>*\<^sup>* st st'"
  shows "get_pubkey now k st' = None \<and> get_key_record now k st' = None
    \<and> (\<forall>a. k \<notin> pubkey_id ` set (list_active_keys now a st'))
    \<and> (\<exists>js. registry_export_jwks L now st' = Inr js \<and> Some k \<notin> (\<lambda>j. map_of j ''kid'') ` set js)"
proof -
  have step: "registry_step L st0 st" using assms(2) by (rule registry_step.revoke)
  have inv: "registry_inv L st'"
    using registry_reach_inv [of L st'] assms(1,3) step by (meson rtranclp.rtrancl_into_rtrancl rtranclp_trans)
  obtain r where "get_key_by_id k st = Some r" "revoked r"
    using assms(2) find_None_iff_fun [of pubkey_id k st0]
    by (fastforce simp: revoke_key_def storage_revoke_key_def get_key_by_id_def find_map_revoke find_Some_iff)
  with keys.steps_keep [OF assms(3)] obtain r' where r': "get_key_by_id k st' = Some r'" "revoked r'"
    by (fastforce simp: revoked_le_def)
  then have none: "get_key_record now k st' = None" by (simp add: get_key_record_def is_active_def)
  have "r'' = r'" if "r'' \<in> set st'" "pubkey_id r'' = k" for r''
    using r'(1) that inv by (metis get_key_by_id_eq_Some option.inject)
  with r'(2) have "\<forall>a. k \<notin> pubkey_id ` set (list_active_keys now a st')"
    by (auto simp: set_list_active_keys is_active_def)
  with none registry_export_ok [OF inv, of now] show ?thesis by (auto simp: get_pubkey_eq)
qed

theorem revocation_is_final_witness:
  "\<exists>st. revoke_key ''k1'' demo_table = (True, st) \<and> get_pubkey 200 ''k1'' st = None"
proof -
  have "fst (revoke_key ''k1'' demo_table)" by code_simp
  then obtain st where "revoke_key ''k1'' demo_table = (True, st)" by (cases "revoke_key ''k1'' demo_table") auto
  with revocation_is_final [OF demo_table_reach this, of st 200] show ?thesis by blast
qed

text \<open>
  C35: a registered key identifier is bound for good. Whatever calls follow, the identifier keeps its
  record up to the revocation flag, every later answer of \<^verbatim>\<open>get_pubkey\<close> is the registered bytes, and
  \<^verbatim>\<open>register_key\<close> under the same identifier raises.
\<close>

theorem key_binding_permanent:
  assumes "get_key_by_id k st = Some r" "(registry_step L)\<^sup>*\<^sup>* st st'"
  shows "(\<exists>v. get_key_by_id k st' = Some (r\<lparr>revoked := v\<rparr>))
    \<and> get_pubkey now k st' \<in> {None, Some (public_key_bytes r)}
    \<and> (\<exists>e. register_key L created aid k b alg vfrom vuntil aty st' = Inl e)"
proof -
  from keys.steps_keep [OF assms(2,1)] obtain r' where r': "get_key_by_id k st' = Some r'" "revoked_le r r'"
    by blast
  then have "\<exists>v. r' = r\<lparr>revoked := v\<rparr>" by (cases r) (auto simp: revoked_le_def)
  moreover have "get_pubkey now k st' \<in> {None, Some (public_key_bytes r)}"
    using r' revoked_le_bytes by (auto simp: get_pubkey_def)
  moreover have "\<exists>e. register_key L created aid k b alg vfrom vuntil aty st' = Inl e"
  proof (cases "register_key L created aid k b alg vfrom vuntil aty st'")
    case (Inr p)
    then have "register_key L created aid k b alg vfrom vuntil aty st' = Inr (fst p, snd p)" by simp
    from register_key_eq_Inr(2,5) [OF this] have "k \<notin> pubkey_id ` set st'" by simp
    with r'(1) find_None_iff_fun [of pubkey_id k st'] show ?thesis by (simp add: get_key_by_id_def)
  qed blast
  ultimately show ?thesis using r'(1) by blast
qed

theorem key_binding_permanent_witness:
  "\<exists>e. register_key demo_libs 5 ''email-agent'' ''k1'' demo_der_key ''Ed25519'' (Aware 5 0) None None demo_table = Inl e"
proof -
  from demo_table_k1 obtain r where "get_key_by_id ''k1'' demo_table = Some r"
    by (auto simp: get_pubkey_def split: option.splits)
  from key_binding_permanent [OF this, of demo_libs demo_table] show ?thesis by blast
qed

text \<open>
  The published JWK of a registered key can be imported back: for every record of a reachable
  table whose key the library encodes faithfully, \<^verbatim>\<open>public_key_to_jwk\<close> succeeds and \<^verbatim>\<open>import_jwk\<close>
  of the result returns bytes that load to the same public key as the registered bytes.
\<close>

theorem jwk_round_trip:
  assumes "registry_reach L st" "r \<in> set st"
    and "\<And>k. load_supported_public_key L (public_key_bytes r) = Inr k \<Longrightarrow> key_encodes L k"
  shows "\<exists>j b. public_key_to_jwk L r = Inr j \<and> import_jwk L (jwk_json j) = Inr b
    \<and> load_supported_public_key L b = load_supported_public_key L (public_key_bytes r)"
proof -
  have ok: "key_record_ok L r"
    using registry_reach_inv [OF assms(1)] assms(2) by (auto simp: registry_inv_def list_all_iff)
  then obtain k where k: "load_supported_public_key L (public_key_bytes r) = Inr k"
    by (auto simp: key_record_ok_def algorithm_for_key_def res_elims)
  obtain j where "public_key_to_jwk L r = Inr j" using public_key_to_jwk_ok [OF ok] by blast
  with import_public_key_to_jwk [OF k assms(3) [OF k] this] k show ?thesis by auto
qed

theorem jwk_round_trip_witness:
  "\<exists>j b. public_key_to_jwk demo_libs (hd demo_table) = Inr j \<and> import_jwk demo_libs (jwk_json j) = Inr b
    \<and> load_supported_public_key demo_libs b = Inr (Ed25519PublicKey demo_key)"
proof -
  have l: "load_supported_public_key demo_libs (public_key_bytes (hd demo_table)) = Inr (Ed25519PublicKey demo_key)"
    and m: "demo_table \<noteq> []" and e: "key_encodes demo_libs (Ed25519PublicKey demo_key)"
    by code_simp+
  from m have "hd demo_table \<in> set demo_table" by simp
  from jwk_round_trip [OF demo_table_reach this] l e show ?thesis by auto
qed

end
