(* ===== verification/Envelope_Verifier.thy ===== *)
theory Envelope_Verifier
  imports Key_Registry
begin

text \<open>
  \<^verbatim>\<open>verifier_service/verifier.py\<close> with its stores (\<^verbatim>\<open>nonce_store.py\<close>, \<^verbatim>\<open>pubkey_store.py\<close>) and request
  models (\<^verbatim>\<open>models.py\<close>): the gate every signed prompt envelope passes before anything else happens.
  The theory characterises acceptance exactly, proves that an accepted envelope is not accepted
  again (and under which clock assumptions), that acceptance authenticates the five signed fields,
  and which exceptions can escape.
\<close>

section \<open>Request models: \<^verbatim>\<open>models.py\<close>\<close>

record signed_envelope =
  env_prompt :: string
  env_user_id :: string
  env_session_id :: string
  env_timestamp :: string
  env_nonce :: string
  env_signature :: string
  env_pubkey_id :: string
  env_signature_algorithm :: string

definition signing_payload :: "signed_envelope \<Rightarrow> json" where
  "signing_payload env = JObj [(''prompt'', JStr (env_prompt env)), (''user_id'', JStr (env_user_id env)),
     (''session_id'', JStr (env_session_id env)), (''timestamp'', JStr (env_timestamp env)),
     (''nonce'', JStr (env_nonce env))]"

text \<open>\<^verbatim>\<open>str = Field(min_length=1)\<close>.\<close>

definition required_text :: "json dict \<Rightarrow> string \<Rightarrow> string res" where
  "required_text d k =
     (case map_of d k of
        Some (JStr s) \<Rightarrow> if s = [] then Inl (Exc ValidationError k) else Inr s
      | _ \<Rightarrow> Inl (Exc ValidationError k))"

text \<open>\<^verbatim>\<open>SignedEnvelope\<close> from a request body; unknown keys are ignored.\<close>

definition validate_envelope :: "json dict \<Rightarrow> signed_envelope res" where
  "validate_envelope d =
     bind_res (required_text d ''prompt'') (\<lambda>p. bind_res (required_text d ''user_id'') (\<lambda>u.
     bind_res (required_text d ''session_id'') (\<lambda>s. bind_res (required_text d ''timestamp'') (\<lambda>t.
     bind_res (required_text d ''nonce'') (\<lambda>n. bind_res (required_text d ''signature'') (\<lambda>g.
     bind_res (required_text d ''pubkey_id'') (\<lambda>k.
       let env = \<lparr>env_prompt = p, env_user_id = u, env_session_id = s, env_timestamp = t, env_nonce = n,
                  env_signature = g, env_pubkey_id = k, env_signature_algorithm = ''ECDSA-P256-SHA256''\<rparr> in
       case map_of d ''signature_algorithm'' of
         None \<Rightarrow> Inr env
       | Some (JStr a) \<Rightarrow> Inr (env\<lparr>env_signature_algorithm := a\<rparr>)
       | Some _ \<Rightarrow> Inl (Exc ValidationError ''signature_algorithm''))))))))"

text \<open>\<^verbatim>\<open>envelope.model_dump()\<close>.\<close>

definition envelope_dump :: "signed_envelope \<Rightarrow> json dict" where
  "envelope_dump env = [(''prompt'', JStr (env_prompt env)), (''user_id'', JStr (env_user_id env)),
     (''session_id'', JStr (env_session_id env)), (''timestamp'', JStr (env_timestamp env)),
     (''nonce'', JStr (env_nonce env)), (''signature'', JStr (env_signature env)),
     (''pubkey_id'', JStr (env_pubkey_id env)),
     (''signature_algorithm'', JStr (env_signature_algorithm env))]"

record pubkey_registration =
  pr_pubkey_id :: string
  pr_public_key_b64 :: "string option"
  pr_public_key_jwk :: "json dict option"

definition make_pubkey_registration ::
  "string \<Rightarrow> string option \<Rightarrow> json dict option \<Rightarrow> pubkey_registration res" where
  "make_pubkey_registration k b64 jwk =
     (if k = [] then Inl (Exc ValidationError ''String should have at least 1 character'')
      else if (b64 = None) = (jwk = None)
      then Inl (Exc ValidationError ''provide exactly one of public_key_b64 or public_key_jwk'')
      else Inr \<lparr>pr_pubkey_id = k, pr_public_key_b64 = b64, pr_public_key_jwk = jwk\<rparr>)"

section \<open>\<^verbatim>\<open>NonceStore\<close>\<close>

record nonce_store =
  ttl_seconds :: int
  ns_seen :: "(string \<times> time) list"

definition new_nonce_store :: "int \<Rightarrow> nonce_store res" where
  "new_nonce_store ttl =
     (if ttl \<le> 0 then Inl (Exc ValueError ''ttl_seconds must be positive'')
      else Inr \<lparr>ttl_seconds = ttl, ns_seen = []\<rparr>)"

definition sweep_expired :: "time \<Rightarrow> nonce_store \<Rightarrow> nonce_store" where
  "sweep_expired now ns = ns\<lparr>ns_seen := filter (\<lambda>(n, t). now - t \<le> ttl_seconds ns * second) (ns_seen ns)\<rparr>"

definition has_seen :: "time \<Rightarrow> string \<Rightarrow> nonce_store \<Rightarrow> bool \<times> nonce_store" where
  "has_seen now n ns = (let ns' = sweep_expired now ns in (map_of (ns_seen ns') n \<noteq> None, ns'))"

text \<open>The sweep and the stored time are two clock readings.\<close>

definition mark_seen :: "time \<Rightarrow> time \<Rightarrow> string \<Rightarrow> nonce_store \<Rightarrow> nonce_store" where
  "mark_seen now now' n ns =
     (let ns' = sweep_expired now ns in ns'\<lparr>ns_seen := dict_set n now' (ns_seen ns')\<rparr>)"

section \<open>\<^verbatim>\<open>PubkeyStore\<close>\<close>

type_synonym pubkey_store = "(string \<times> public_key) list"

definition store_register_pubkey :: "crypto_libs \<Rightarrow> string \<Rightarrow> bytes \<Rightarrow> pubkey_store \<Rightarrow> pubkey_store res" where
  "store_register_pubkey L k b st =
     (if k = [] then Inl (Exc ValueError ''pubkey_id must be a non-empty string'')
      else bind_res (load_der_public_key L b) (\<lambda>pk.
        if \<not> is_supported pk then Inl (Exc ValueError ''unsupported public key type'')
        else Inr (dict_set k pk st)))"

definition store_get_pubkey :: "string \<Rightarrow> pubkey_store \<Rightarrow> public_key option" where
  "store_get_pubkey k st = map_of st k"

section \<open>\<^verbatim>\<open>SignatureVerifier\<close>\<close>

text \<open>What \<^verbatim>\<open>get_pubkey\<close> of a key store may return: key bytes or a parsed key.\<close>

datatype stored_key = StoredBytes bytes | StoredKey public_key

definition load_registered_public_key :: "crypto_libs \<Rightarrow> stored_key \<Rightarrow> public_key res" where
  "load_registered_public_key L sk =
     (case sk of
        StoredKey pk \<Rightarrow> if is_supported pk then Inr pk else Inl (Exc TypeError ''argument must be bytes'')
      | StoredBytes b \<Rightarrow>
          (case load_der_public_key L b of
             Inl e \<Rightarrow> if caught_by [ValueError] e \<and> length b = 32 then ed25519_from_public_bytes L b else Inl e
           | Inr pk \<Rightarrow>
               if \<not> is_supported pk then Inl (Exc ValueError ''unsupported registered public key'') else Inr pk))"

record verification_result =
  vr_valid :: bool
  vr_reason :: "string option"

abbreviation accepted :: verification_result where
  "accepted \<equiv> \<lparr>vr_valid = True, vr_reason = None\<rparr>"

abbreviation rejected :: "string \<Rightarrow> verification_result" where
  "rejected r \<equiv> \<lparr>vr_valid = False, vr_reason = Some r\<rparr>"

definition timestamp_is_fresh :: "int \<Rightarrow> time \<Rightarrow> string \<Rightarrow> bool res" where
  "timestamp_is_fresh freshness now ts =
     map_res (\<lambda>p. case p of None \<Rightarrow> False | Some t \<Rightarrow> \<bar>now - t\<bar> \<le> freshness * second) (parse_timestamp ts)"

text \<open>The clock readings of one attempt: wall clock, then the monotonic clock in \<^verbatim>\<open>has_seen\<close> and
  twice in \<^verbatim>\<open>mark_seen\<close>.\<close>

record attempt_clocks =
  wall_clock :: time
  seen_clock :: time
  sweep_clock :: time
  mark_clock :: time

text \<open>The checks after the nonce has been consumed.\<close>

definition check_signature ::
  "crypto_libs \<Rightarrow> (string \<Rightarrow> stored_key option) \<Rightarrow> signed_envelope \<Rightarrow> verification_result res" where
  "check_signature L lookup env =
     (case lookup (env_pubkey_id env) of
        None \<Rightarrow> Inr (rejected ''unknown_pubkey'')
      | Some sk \<Rightarrow>
          (case load_registered_public_key L sk of
             Inl e \<Rightarrow> if caught_by [TypeError, ValueError] e then Inr (rejected ''unknown_pubkey'') else Inl e
           | Inr pk \<Rightarrow>
               if env_signature_algorithm env \<noteq> ''ECDSA-P256-SHA256'' then Inr (rejected ''signature_mismatch'')
               else
                 (case b64decode True (env_signature env) of
                    Inl e \<Rightarrow>
                      if caught_by [ValueError, BinasciiError] e then Inr (rejected ''signature_mismatch'') else Inl e
                  | Inr sig \<Rightarrow>
                      bind_res (hash_payload L (signing_payload env)) (\<lambda>h.
                        bind_res (verify L pk sig h) (\<lambda>ok.
                          if \<not> ok then Inr (rejected ''signature_mismatch'') else Inr accepted)))))"

text \<open>The nonce store is changed even when the result is a rejection or an exception.\<close>

definition verify_envelope ::
  "crypto_libs \<Rightarrow> int \<Rightarrow> attempt_clocks \<Rightarrow> (string \<Rightarrow> stored_key option) \<Rightarrow> signed_envelope \<Rightarrow> nonce_store
   \<Rightarrow> verification_result res \<times> nonce_store"
where
  "verify_envelope L freshness c lookup env ns =
     (case timestamp_is_fresh freshness (wall_clock c) (env_timestamp env) of
        Inl e \<Rightarrow> (Inl e, ns)
      | Inr False \<Rightarrow> (Inr (rejected ''timestamp_stale''), ns)
      | Inr True \<Rightarrow>
          (let (seen, ns1) = has_seen (seen_clock c) (env_nonce env) ns in
           if seen then (Inr (rejected ''nonce_reused''), ns1)
           else (check_signature L lookup env, mark_seen (sweep_clock c) (mark_clock c) (env_nonce env) ns1)))"

text \<open>The two key stores as lookups.\<close>

definition registry_lookup :: "time \<Rightarrow> key_table \<Rightarrow> string \<Rightarrow> stored_key option" where
  "registry_lookup now st k = map_option StoredBytes (get_pubkey now k st)"

definition store_lookup :: "pubkey_store \<Rightarrow> string \<Rightarrow> stored_key option" where
  "store_lookup st k = map_option StoredKey (store_get_pubkey k st)"

text \<open>A sequence of attempts against one verifier.\<close>

record attempt =
  at_clocks :: attempt_clocks
  at_lookup :: "string \<Rightarrow> stored_key option"
  at_envelope :: signed_envelope

fun verify_all ::
  "crypto_libs \<Rightarrow> int \<Rightarrow> attempt list \<Rightarrow> nonce_store \<Rightarrow> verification_result res list \<times> nonce_store" where
  "verify_all L f [] ns = ([], ns)"
| "verify_all L f (a # as) ns =
     (let (r, ns1) = verify_envelope L f (at_clocks a) (at_lookup a) (at_envelope a) ns;
          (rs, ns2) = verify_all L f as ns1
      in (r # rs, ns2))"

section \<open>Replay guards\<close>

text \<open>
  The interface between the verifier and its nonce store. \<open>remembers s n t\<close>: the store holds \<open>n\<close>
  with a time not before \<open>t\<close>. A remembered nonce is reported as long as no operation reads a clock
  beyond \<open>t + ttl\<close>. The gate is the way the verifier uses the store: check, then mark.
\<close>

locale replay_guard =
  fixes check :: "time \<Rightarrow> 'n \<Rightarrow> 's \<Rightarrow> bool \<times> 's"
    and mark :: "time \<Rightarrow> time \<Rightarrow> 'n \<Rightarrow> 's \<Rightarrow> 's"
    and remembers :: "'s \<Rightarrow> 'n \<Rightarrow> time \<Rightarrow> bool"
    and ttl :: "'s \<Rightarrow> int"
  assumes check_ttl: "check now n s = (b, s') \<Longrightarrow> ttl s' = ttl s"
    and mark_ttl: "ttl (mark now now' n s) = ttl s"
    and check_reports: "check now n s = (b, s') \<Longrightarrow> remembers s n t \<Longrightarrow> now \<le> t + ttl s \<Longrightarrow> b"
    and check_keeps: "check now n s = (b, s') \<Longrightarrow> remembers s m t \<Longrightarrow> now \<le> t + ttl s \<Longrightarrow> remembers s' m t"
    and mark_keeps: "remembers s m t \<Longrightarrow> now \<le> t + ttl s \<Longrightarrow> t \<le> now' \<Longrightarrow> remembers (mark now now' n s) m t"
    and mark_remembers: "remembers (mark now now' n s) n now'"
begin

definition gate :: "time \<times> time \<times> time \<Rightarrow> 'n \<Rightarrow> 's \<Rightarrow> bool \<times> 's" where
  "gate c n s = (let (b, s1) = check (fst c) n s in if b then (False, s1) else (True, mark (fst (snd c)) (snd (snd c)) n s1))"

lemma gate_ttl: "gate c n s = (b, s') \<Longrightarrow> ttl s' = ttl s"
  by (auto simp: gate_def mark_ttl dest: check_ttl split: prod.splits if_splits)

lemma gate_keeps:
  assumes "gate (t1, t2, t3) n s = (b, s')" "remembers s m t"
    and "t1 \<le> t + ttl s" "t2 \<le> t + ttl s" "t \<le> t3"
  shows "remembers s' m t"
proof -
  obtain b1 s1 where c: "check t1 n s = (b1, s1)" by fastforce
  then have "remembers s1 m t" "ttl s1 = ttl s" using assms(2,3) check_keeps check_ttl by blast+
  with assms c show ?thesis by (auto simp: gate_def mark_keeps split: if_splits)
qed

lemma gate_admits_remembers:
  assumes "gate (t1, t2, t3) n s = (True, s')"
  shows "remembers s' n t3"
  using assms by (auto simp: gate_def mark_remembers split: prod.splits if_splits)

lemma gate_blocks:
  assumes "gate (t1, t2, t3) n s = (b, s')" "remembers s n t" "t1 \<le> t + ttl s"
  shows "\<not> b"
proof -
  obtain b1 s1 where c: "check t1 n s = (b1, s1)" by fastforce
  with assms check_reports have b1 by blast
  with assms(1) c show ?thesis by (simp add: gate_def)
qed

end

definition nonce_remembered :: "nonce_store \<Rightarrow> string \<Rightarrow> time \<Rightarrow> bool" where
  "nonce_remembered ns n t \<longleftrightarrow> (\<exists>t'. map_of (ns_seen ns) n = Some t' \<and> t \<le> t')"

lemma map_of_filter_keeps: "map_of xs n = Some v \<Longrightarrow> P (n, v) \<Longrightarrow> map_of (filter P xs) n = Some v"
  by (induction xs) (auto split: if_splits)

lemma sweep_keeps:
  "nonce_remembered ns n t \<Longrightarrow> now \<le> t + ttl_seconds ns * second \<Longrightarrow> nonce_remembered (sweep_expired now ns) n t"
  by (fastforce simp: nonce_remembered_def sweep_expired_def dest: map_of_filter_keeps
      [where P = "\<lambda>(n, t). now - t \<le> ttl_seconds ns * second"])

lemma sweep_ttl [simp]: "ttl_seconds (sweep_expired now ns) = ttl_seconds ns"
  by (simp add: sweep_expired_def)

interpretation nonces: replay_guard has_seen mark_seen nonce_remembered "\<lambda>ns. ttl_seconds ns * second"
proof unfold_locales
  show "has_seen now n s = (b, s') \<Longrightarrow> nonce_remembered s n t \<Longrightarrow> now \<le> t + ttl_seconds s * second \<Longrightarrow> b"
    for now n s b s' t
    using sweep_keeps [of s n t now] by (auto simp: has_seen_def nonce_remembered_def Let_def)
  show "nonce_remembered s m t \<Longrightarrow> now \<le> t + ttl_seconds s * second \<Longrightarrow> t \<le> now' \<Longrightarrow>
      nonce_remembered (mark_seen now now' n s) m t" for s m t now now' n
    using sweep_keeps [of s m t now] by (auto simp: mark_seen_def nonce_remembered_def Let_def)
qed (auto simp: has_seen_def mark_seen_def Let_def nonce_remembered_def intro: sweep_keeps [unfolded nonce_remembered_def])

section \<open>Sequences of attempts\<close>

abbreviation ttl_us :: "nonce_store \<Rightarrow> int" where
  "ttl_us ns \<equiv> ttl_seconds ns * second"

text \<open>The nonce store is either left alone or passed through the gate.\<close>

lemma verify_envelope_store:
  "snd (verify_envelope L f c lookup env ns) =
     (if timestamp_is_fresh f (wall_clock c) (env_timestamp env) = Inr True
      then snd (nonces.gate (seen_clock c, sweep_clock c, mark_clock c) (env_nonce env) ns) else ns)"
  by (auto simp: verify_envelope_def nonces.gate_def split: sum.splits bool.splits prod.splits)

lemma verify_envelope_cases:
  "fst (verify_envelope L f c lookup env ns) =
     (case timestamp_is_fresh f (wall_clock c) (env_timestamp env) of
        Inl e \<Rightarrow> Inl e
      | Inr False \<Rightarrow> Inr (rejected ''timestamp_stale'')
      | Inr True \<Rightarrow>
          if fst (nonces.gate (seen_clock c, sweep_clock c, mark_clock c) (env_nonce env) ns)
          then check_signature L lookup env else Inr (rejected ''nonce_reused''))"
  by (auto simp: verify_envelope_def nonces.gate_def split: sum.splits bool.splits prod.splits)

text \<open>
  The clocks during a sequence of attempts: the monotonic clock never goes back, and it and the wall
  clock differ by a constant \<open>off\<close>, up to the \<open>d\<close> microseconds that one attempt takes at most.
\<close>

definition clocks_coherent :: "int \<Rightarrow> int \<Rightarrow> attempt_clocks \<Rightarrow> bool" where
  "clocks_coherent off d c \<longleftrightarrow>
     wall_clock c - off \<le> seen_clock c \<and> seen_clock c \<le> sweep_clock c \<and> sweep_clock c \<le> mark_clock c
     \<and> mark_clock c \<le> wall_clock c - off + d"

definition chronological :: "attempt list \<Rightarrow> bool" where
  "chronological as \<longleftrightarrow> sorted_wrt (\<lambda>a b. mark_clock (at_clocks a) \<le> seen_clock (at_clocks b)) as"

abbreviation attempt_result :: "crypto_libs \<Rightarrow> int \<Rightarrow> attempt \<Rightarrow> nonce_store \<Rightarrow> verification_result res \<times> nonce_store" where
  "attempt_result L f a ns \<equiv> verify_envelope L f (at_clocks a) (at_lookup a) (at_envelope a) ns"

lemma verify_all_Cons [simp]:
  "fst (verify_all L f (a # as) ns) = fst (attempt_result L f a ns) # fst (verify_all L f as (snd (attempt_result L f a ns)))"
  "snd (verify_all L f (a # as) ns) = snd (verify_all L f as (snd (attempt_result L f a ns)))"
  by (simp_all add: Let_def split_beta)

declare verify_all.simps(2) [simp del]

lemma verify_all_nth:
  "i < length as \<Longrightarrow> fst (verify_all L f as ns) ! i =
     fst (attempt_result L f (as ! i) (snd (verify_all L f (take i as) ns)))"
proof (induction as arbitrary: i ns)
  case (Cons a as)
  then show ?case by (cases i) auto
qed simp

lemma length_verify_all [simp]: "length (fst (verify_all L f as ns)) = length as"
  by (induction as arbitrary: ns) auto

lemma verify_all_append:
  "snd (verify_all L f (as @ bs) ns) = snd (verify_all L f bs (snd (verify_all L f as ns)))"
  by (induction as arbitrary: ns) auto

lemma verify_all_ttl [simp]: "ttl_seconds (snd (verify_all L f as ns)) = ttl_seconds ns"
proof (induction as arbitrary: ns)
  case (Cons a as)
  have "ttl_seconds (snd (verify_envelope L f c lk e ns)) = ttl_seconds ns" for c lk e
    using nonces.gate_ttl [OF prod.collapse [symmetric]] by (auto simp: verify_envelope_store)
  with Cons show ?case by simp
qed simp

lemma verify_envelope_keeps:
  assumes "nonce_remembered ns n t" "mark_clock c \<le> t + ttl_us ns" "t \<le> seen_clock c" "clocks_coherent off d c"
  shows "nonce_remembered (snd (verify_envelope L f c lookup env ns)) n t"
  using assms nonces.gate_keeps [OF prod.collapse [symmetric], of ns n t]
  by (auto simp: verify_envelope_store clocks_coherent_def)

lemma verify_all_keeps:
  assumes "nonce_remembered ns n t"
    and "\<forall>a \<in> set as. clocks_coherent off d (at_clocks a) \<and> t \<le> seen_clock (at_clocks a)
      \<and> mark_clock (at_clocks a) \<le> t + ttl_us ns"
  shows "nonce_remembered (snd (verify_all L f as ns)) n t"
  using assms
proof (induction as arbitrary: ns)
  case (Cons a as)
  let ?ns = "snd (attempt_result L f a ns)"
  have "ttl_seconds ?ns = ttl_seconds ns"
    using verify_all_ttl [of L f "[a]" ns] by simp
  moreover have "nonce_remembered ?ns n t" using Cons.prems by (intro verify_envelope_keeps) auto
  ultimately show ?case using Cons.IH [of ?ns] Cons.prems(2) by simp
qed simp

section \<open>Key directories\<close>

text \<open>
  What the verifier relies on when it asks a key store: the keys it hands out load and are of a
  supported type. Both stores of the program provide it.
\<close>

locale key_directory =
  fixes L :: crypto_libs and dir_inv :: "'s \<Rightarrow> bool" and lookup :: "'s \<Rightarrow> string \<Rightarrow> stored_key option"
  assumes lookup_loads:
    "dir_inv s \<Longrightarrow> lookup s k = Some sk \<Longrightarrow> \<exists>pk. load_registered_public_key L sk = Inr pk \<and> is_supported pk"
begin

lemma check_signature_raises:
  assumes "dir_inv s" "check_signature L (lookup s) env = Inl e"
  shows "hash_payload L (signing_payload env) = Inl e"
proof (cases "lookup s (env_pubkey_id env)")
  case None
  with assms show ?thesis by (simp add: check_signature_def)
next
  case (Some sk)
  with lookup_loads assms(1) obtain pk where pk: "load_registered_public_key L sk = Inr pk" "is_supported pk"
    by blast
  from assms(2) Some pk(1) have alg: "env_signature_algorithm env = ''ECDSA-P256-SHA256''"
    by (auto simp: check_signature_def split: if_splits)
  show ?thesis
  proof (cases "b64decode True (env_signature env)")
    case (Inl e')
    then have "caught_by [ValueError, BinasciiError] e'" by (rule b64decode_error)
    with assms(2) Some pk(1) alg Inl show ?thesis by (simp add: check_signature_def)
  next
    case (Inr sig)
    from verify_total [OF pk(2), of L sig] show ?thesis
      using assms(2) Some pk(1) alg Inr
      by (auto simp: check_signature_def bind_res_eq_Inl split: if_splits) (metis Inl_Inr_False)
  qed
qed

lemma unknown_key_iff:
  assumes "dir_inv s"
  shows "check_signature L (lookup s) env = Inr (rejected ''unknown_pubkey'') \<longleftrightarrow> lookup s (env_pubkey_id env) = None"
proof (cases "lookup s (env_pubkey_id env)")
  case (Some sk)
  with lookup_loads assms obtain pk where "load_registered_public_key L sk = Inr pk" by blast
  with Some show ?thesis
    by (auto simp: check_signature_def bind_res_eq_Inr split: sum.splits if_splits)
qed (simp add: check_signature_def)

end

lemma load_supported_imp_registered:
  "load_supported_public_key L b = Inr pk \<Longrightarrow> load_registered_public_key L (StoredBytes b) = Inr pk"
  by (auto simp: load_supported_public_key_def load_registered_public_key_def split: sum.splits if_splits)

lemma algorithm_for_key_supported:
  "algorithm_for_key L b = Inr a \<Longrightarrow> \<exists>pk. load_supported_public_key L b = Inr pk \<and> is_supported pk"
proof -
  assume a: "algorithm_for_key L b = Inr a"
  then obtain pk where "load_supported_public_key L b = Inr pk" by (auto simp: algorithm_for_key_def bind_res_eq_Inr)
  with a show ?thesis by (cases pk) (auto simp: algorithm_for_key_def)
qed

interpretation registry_dir: key_directory L "registry_inv L" "registry_lookup now" for L now
proof
  fix st k sk
  assume inv: "registry_inv L st" and "registry_lookup now st k = Some sk"
  then obtain r where "r \<in> set st" and sk: "sk = StoredBytes (public_key_bytes r)"
    by (auto simp: registry_lookup_def get_pubkey_eq get_key_record_eq_Some get_key_by_id_eq_Some)
  then have "algorithm_for_key L (public_key_bytes r) = Inr (algorithm r)"
    using inv by (auto simp: registry_inv_def list_all_iff key_record_ok_def)
  with sk show "\<exists>pk. load_registered_public_key L sk = Inr pk \<and> is_supported pk"
    using algorithm_for_key_supported load_supported_imp_registered by blast
qed

definition store_inv :: "pubkey_store \<Rightarrow> bool" where
  "store_inv st \<longleftrightarrow> (\<forall>pk \<in> ran (map_of st). is_supported pk)"

lemma store_inv_register: "store_register_pubkey L k b st = Inr st' \<Longrightarrow> store_inv st \<Longrightarrow> store_inv st'"
  by (fastforce simp: store_register_pubkey_def store_inv_def ran_def bind_res_eq_Inr split: if_splits)

interpretation store_dir: key_directory L store_inv store_lookup for L
  by unfold_locales
     (auto simp: store_lookup_def store_get_pubkey_def store_inv_def load_registered_public_key_def ranI)

section \<open>A concrete envelope\<close>

definition demo_envelope_for :: "string \<Rightarrow> signed_envelope" where
  "demo_envelope_for sig = \<lparr>env_prompt = ''send it'', env_user_id = ''u1'', env_session_id = ''s1'',
     env_timestamp = ''2024-03-01T12:30:15.250Z'', env_nonce = ''n1'', env_signature = sig,
     env_pubkey_id = ''k1'', env_signature_algorithm = ''ECDSA-P256-SHA256''\<rparr>"

definition demo_envelope_digest :: bytes where
  "demo_envelope_digest = (case hash_payload demo_libs (signing_payload (demo_envelope_for ''A'')) of Inl _ \<Rightarrow> [] | Inr h \<Rightarrow> h)"

definition demo_envelope :: signed_envelope where
  "demo_envelope = demo_envelope_for
     (b64encode (to_bytes_big 32 (unat (hd demo_envelope_digest)) @ to_bytes_big 32 5))"

definition demo_store :: pubkey_store where
  "demo_store = [(''k1'', EllipticCurvePublicKey SECP256R1 5 6)]"

definition demo_clocks :: "int \<Rightarrow> attempt_clocks" where
  "demo_clocks t = \<lparr>wall_clock = 63844893016000000 + t, seen_clock = t, sweep_clock = t + 1, mark_clock = t + 2\<rparr>"

definition demo_nonces :: nonce_store where
  "demo_nonces = \<lparr>ttl_seconds = 300, ns_seen = []\<rparr>"

definition demo_attempt :: "int \<Rightarrow> attempt" where
  "demo_attempt t = \<lparr>at_clocks = demo_clocks t, at_lookup = store_lookup demo_store, at_envelope = demo_envelope\<rparr>"

section \<open>Properties\<close>

lemma fresh_iff:
  "timestamp_is_fresh f now ts = Inr True \<longleftrightarrow> (\<exists>t. parse_timestamp ts = Inr (Some t) \<and> \<bar>now - t\<bar> \<le> f * second)"
  by (auto simp: timestamp_is_fresh_def map_res_eq_Inr split: option.splits)

lemma map_of_filter_None: "map_of (filter P xs) n = None \<longleftrightarrow> n \<notin> fst ` {p \<in> set xs. P p}"
  by (induction xs) (auto simp: image_iff)

lemma gate_fst:
  "fst (nonces.gate (t1, t2, t3) n ns) \<longleftrightarrow> n \<notin> fst ` {p \<in> set (ns_seen ns). t1 - snd p \<le> ttl_us ns}"
proof -
  have "fst (nonces.gate (t1, t2, t3) n ns) \<longleftrightarrow> map_of (ns_seen (sweep_expired t1 ns)) n = None"
    by (auto simp: nonces.gate_def has_seen_def Let_def)
  then show ?thesis by (simp add: sweep_expired_def map_of_filter_None case_prod_beta)
qed

lemma check_signature_accepts:
  "check_signature L lookup env = Inr accepted \<longleftrightarrow>
     env_signature_algorithm env = ''ECDSA-P256-SHA256''
     \<and> (\<exists>sk pk sig h. lookup (env_pubkey_id env) = Some sk \<and> load_registered_public_key L sk = Inr pk
         \<and> b64decode True (env_signature env) = Inr sig
         \<and> hash_payload L (signing_payload env) = Inr h \<and> verify L pk sig h = Inr True)"
  by (auto simp: check_signature_def bind_res_eq_Inr split: option.splits sum.splits if_splits)

lemma verify_envelope_accepts:
  "fst (verify_envelope L f c lookup env ns) = Inr accepted \<longleftrightarrow>
     timestamp_is_fresh f (wall_clock c) (env_timestamp env) = Inr True
     \<and> fst (nonces.gate (seen_clock c, sweep_clock c, mark_clock c) (env_nonce env) ns)
     \<and> check_signature L lookup env = Inr accepted"
  by (auto simp: verify_envelope_cases split: sum.splits bool.splits if_splits)

text \<open>
  C2: exactly which envelopes are accepted: the timestamp parses, has a timezone and is within the
  freshness window of the wall clock; the nonce was not recorded within the retention window; the key
  identifier is known and its key loads; the declared algorithm is \<^verbatim>\<open>ECDSA-P256-SHA256\<close>; and the
  base64-decoded signature verifies over the recomputed digest of the five signed fields.
\<close>

theorem acceptance_exact:
  "fst (verify_envelope L f c lookup env ns) = Inr accepted \<longleftrightarrow>
     (\<exists>t. parse_timestamp (env_timestamp env) = Inr (Some t) \<and> \<bar>wall_clock c - t\<bar> \<le> f * second)
     \<and> env_nonce env \<notin> fst ` {p \<in> set (ns_seen ns). seen_clock c - snd p \<le> ttl_us ns}
     \<and> env_signature_algorithm env = ''ECDSA-P256-SHA256''
     \<and> (\<exists>sk pk sig h. lookup (env_pubkey_id env) = Some sk \<and> load_registered_public_key L sk = Inr pk
         \<and> b64decode True (env_signature env) = Inr sig
         \<and> hash_payload L (signing_payload env) = Inr h \<and> verify L pk sig h = Inr True)"
  unfolding verify_envelope_accepts fresh_iff gate_fst check_signature_accepts by blast

text \<open>A nonce marked by attempt \<open>i\<close> is still remembered at attempt \<open>j\<close>, if \<open>j\<close> ends within the retention window.\<close>

lemma remembered_until:
  assumes "chronological as" "\<forall>a \<in> set as. clocks_coherent off d (at_clocks a)" "i < j" "j < length as"
    and "nonce_remembered (snd (verify_all L f (take (Suc i) as) ns)) n (mark_clock (at_clocks (as ! i)))"
    and "mark_clock (at_clocks (as ! j)) \<le> mark_clock (at_clocks (as ! i)) + ttl_us ns"
  shows "nonce_remembered (snd (verify_all L f (take j as) ns)) n (mark_clock (at_clocks (as ! i)))"
proof -
  let ?m = "mark_clock (at_clocks (as ! i))" and ?ns = "snd (verify_all L f (take (Suc i) as) ns)"
  let ?mid = "drop (Suc i) (take j as)"
  have order: "mark_clock (at_clocks (as ! k)) \<le> seen_clock (at_clocks (as ! l))" if "k < l" "l < length as" for k l
    using assms(1) that unfolding chronological_def by (simp add: sorted_wrt_iff_nth_less)
  have coj: "seen_clock (at_clocks (as ! j)) \<le> mark_clock (at_clocks (as ! j))"
    using bspec [OF assms(2) nth_mem [OF assms(4)]] by (simp add: clocks_coherent_def)
  have "\<forall>x \<in> set ?mid. clocks_coherent off d (at_clocks x) \<and> ?m \<le> seen_clock (at_clocks x)
      \<and> mark_clock (at_clocks x) \<le> ?m + ttl_us ?ns"
  proof
    fix x assume "x \<in> set ?mid"
    then obtain k where k: "i < k" "k < j" "x = as ! k"
      using assms(3,4) by (auto simp: in_set_conv_nth) (metis add.commute add_Suc_right less_add_Suc1 less_diff_conv)
    with assms(2,4) have "clocks_coherent off d (at_clocks x)" by simp
    then show "clocks_coherent off d (at_clocks x) \<and> ?m \<le> seen_clock (at_clocks x)
        \<and> mark_clock (at_clocks x) \<le> ?m + ttl_us ?ns"
      using k order [of i k] order [of k j] assms(4,6) coj by simp
  qed
  from verify_all_keeps [OF assms(5) this] have "nonce_remembered (snd (verify_all L f ?mid ?ns)) n ?m" .
  moreover have "take j as = take (Suc i) as @ ?mid"
    using assms(3) by (metis append_take_drop_id min.absorb2 Suc_leI take_take min.commute)
  ultimately show ?thesis using verify_all_append [of L f "take (Suc i) as" ?mid ns] by simp
qed

text \<open>
  C1: no replay. In any sequence of attempts against one verifier whose clocks advance together
  (monotonic readings ordered, wall clock and monotonic clock differing by a constant, one attempt
  taking at most \<open>d\<close>), if the retention window of the nonce store covers twice the freshness window
  plus \<open>d\<close>, then once an envelope was accepted, every later attempt with the same nonce and
  timestamp is rejected as stale or as reused, whatever happened in between.
\<close>

theorem accepted_not_replayed:
  assumes "chronological as" "\<forall>a \<in> set as. clocks_coherent off d (at_clocks a)"
    and "2 * f * second + d \<le> ttl_us ns" "i < j" "j < length as"
    and "env_nonce (at_envelope (as ! j)) = env_nonce (at_envelope (as ! i))"
    and "env_timestamp (at_envelope (as ! j)) = env_timestamp (at_envelope (as ! i))"
    and "fst (verify_all L f as ns) ! i = Inr accepted"
  shows "fst (verify_all L f as ns) ! j \<in> {Inr (rejected ''timestamp_stale''), Inr (rejected ''nonce_reused'')}"
proof -
  let ?a = "as ! i" and ?b = "as ! j" and ?ns = "\<lambda>k. snd (verify_all L f (take k as) ns)"
  let ?ca = "at_clocks ?a" and ?cb = "at_clocks ?b" and ?n = "env_nonce (at_envelope ?a)"
  let ?m = "mark_clock ?ca" and ?ts = "env_timestamp (at_envelope ?a)"
  from assms(8) assms(4,5) have acc: "fst (attempt_result L f ?a (?ns i)) = Inr accepted"
    by (simp add: verify_all_nth)
  then obtain t where fresh: "parse_timestamp ?ts = Inr (Some t)" "\<bar>wall_clock ?ca - t\<bar> \<le> f * second"
    and g: "fst (nonces.gate (seen_clock ?ca, sweep_clock ?ca, mark_clock ?ca) ?n (?ns i))"
    unfolding verify_envelope_accepts fresh_iff by blast
  have step: "?ns (Suc i) = snd (attempt_result L f ?a (?ns i))"
    using assms(4,5) by (simp add: take_Suc_conv_app_nth verify_all_append)
  have "nonce_remembered (?ns (Suc i)) ?n ?m"
    using g fresh nonces.gate_admits_remembers [of "seen_clock ?ca" "sweep_clock ?ca" ?m ?n "?ns i"]
    unfolding step verify_envelope_store by (auto simp: fresh_iff prod_eq_iff)
  show ?thesis
  proof (cases "\<bar>wall_clock ?cb - t\<bar> \<le> f * second")
    case False
    then show ?thesis
      using fresh(1) assms(4,5,7) by (simp add: verify_all_nth verify_envelope_cases timestamp_is_fresh_def)
  next
    case True
    have "?a \<in> set as" "?b \<in> set as" using assms(4,5) by simp_all
    with assms(2) have co: "clocks_coherent off d ?ca" "clocks_coherent off d ?cb" by blast+
    with True fresh(2) assms(3) have win: "mark_clock ?cb \<le> ?m + ttl_us ns"
      unfolding clocks_coherent_def by linarith
    from remembered_until [OF assms(1,2,4,5) \<open>nonce_remembered (?ns (Suc i)) ?n ?m\<close> win]
    have rem: "nonce_remembered (?ns j) ?n ?m" .
    have "seen_clock ?cb \<le> ?m + ttl_us (?ns j)" using win co(2) by (simp add: clocks_coherent_def)
    with nonces.gate_blocks [OF prod.collapse [symmetric] rem]
    have "\<not> fst (nonces.gate (seen_clock ?cb, sweep_clock ?cb, mark_clock ?cb) ?n (?ns j))" by blast
    then show ?thesis
      using fresh(1) True assms(5,6,7)
      by (simp add: verify_all_nth verify_envelope_cases timestamp_is_fresh_def)
  qed
qed

lemma demo_accepted: "fst (verify_envelope demo_libs 60 (demo_clocks 0) (store_lookup demo_store) demo_envelope demo_nonces) = Inr accepted"
  by code_simp

theorem accepted_not_replayed_witness:
  "fst (verify_all demo_libs 60 [demo_attempt 0, demo_attempt 1000000] demo_nonces) ! 1
     \<in> {Inr (rejected ''timestamp_stale''), Inr (rejected ''nonce_reused'')}"
proof (rule accepted_not_replayed [where i = 0 and off = 63844893016000000 and d = 10])
  show "fst (verify_all demo_libs 60 [demo_attempt 0, demo_attempt 1000000] demo_nonces) ! 0 = Inr accepted"
    using demo_accepted by (simp add: demo_attempt_def)
qed (simp_all add: chronological_def demo_attempt_def demo_clocks_def clocks_coherent_def demo_nonces_def)

text \<open>
  A nonce is consumed by the first fresh attempt that presents it, even if that attempt fails:
  after any attempt with a fresh timestamp, whatever its outcome, a second attempt with the same
  nonce is answered \<^verbatim>\<open>nonce_reused\<close> as long as the monotonic clock has not moved past the
  retention window of the first one.
\<close>

theorem nonce_consumed_by_failed_attempt:
  assumes "timestamp_is_fresh f (wall_clock c) (env_timestamp env) = Inr True"
    and "timestamp_is_fresh f' (wall_clock c') (env_timestamp env') = Inr True"
    and "fst (verify_envelope L f c lookup env ns) \<noteq> Inr (rejected ''nonce_reused'')"
    and "env_nonce env' = env_nonce env" "seen_clock c' - mark_clock c \<le> ttl_us ns"
  shows "fst (verify_envelope L' f' c' lookup' env' (snd (verify_envelope L f c lookup env ns))) =
    Inr (rejected ''nonce_reused'')"
proof -
  let ?g = "nonces.gate (seen_clock c, sweep_clock c, mark_clock c) (env_nonce env) ns"
  have g: "fst ?g" using assms(1,3) by (auto simp: verify_envelope_cases split: if_splits)
  then have gt: "?g = (True, snd ?g)" by (simp add: prod_eq_iff)
  have "nonce_remembered (snd ?g) (env_nonce env) (mark_clock c)"
    by (rule nonces.gate_admits_remembers [OF gt])
  moreover have "ttl_us (snd ?g) = ttl_us ns" by (rule nonces.gate_ttl [OF gt])
  ultimately have "\<not> fst (nonces.gate (seen_clock c', sweep_clock c', mark_clock c') (env_nonce env) (snd ?g))"
    using nonces.gate_blocks [OF prod.collapse [symmetric]] assms(5) by (simp add: algebra_simps)
  with assms(1,2,4) show ?thesis by (simp add: verify_envelope_cases verify_envelope_store)
qed

theorem nonce_consumed_by_failed_attempt_witness:
  "fst (verify_envelope demo_libs 60 (demo_clocks 0) Map.empty demo_envelope demo_nonces) = Inr (rejected ''unknown_pubkey'')
    \<and> fst (verify_envelope demo_libs 60 (demo_clocks 9) (store_lookup demo_store) demo_envelope
        (snd (verify_envelope demo_libs 60 (demo_clocks 0) Map.empty demo_envelope demo_nonces))) =
      Inr (rejected ''nonce_reused'')"
proof -
  have f: "timestamp_is_fresh 60 (wall_clock (demo_clocks 0)) (env_timestamp demo_envelope) = Inr True"
    "timestamp_is_fresh 60 (wall_clock (demo_clocks 9)) (env_timestamp demo_envelope) = Inr True"
    by code_simp+
  then have u: "fst (verify_envelope demo_libs 60 (demo_clocks 0) Map.empty demo_envelope demo_nonces) =
      Inr (rejected ''unknown_pubkey'')"
    by (simp add: verify_envelope_cases gate_fst demo_nonces_def check_signature_def)
  then show ?thesis
    using nonce_consumed_by_failed_attempt [OF f, of demo_libs Map.empty demo_nonces]
    by (simp add: demo_clocks_def demo_nonces_def)
qed

text \<open>
  C3: acceptance authenticates the five signed fields. Let \<open>S\<close> be the envelopes whose payloads the holder of the
  private key has signed. An envelope that is accepted has the prompt, user, session, timestamp and nonce of
  one envelope of \<open>S\<close>, or it is itself a forgery (its signature verifies, under the key that was looked up, on
  the digest of its five fields, and that is the digest of no payload of \<open>S\<close>), or its payload collides with
  the payload of an envelope of \<open>S\<close>. Nothing is assumed of the signature scheme.
\<close>

theorem acceptance_authenticates:
  assumes "fst (verify_envelope L f c lookup env ns) = Inr accepted"
  shows "\<exists>sk pk sig h. lookup (env_pubkey_id env) = Some sk \<and> load_registered_public_key L sk = Inr pk
    \<and> b64decode True (env_signature env) = Inr sig \<and> hash_payload L (signing_payload env) = Inr h
    \<and> ((\<exists>e \<in> S. env_prompt env = env_prompt e \<and> env_user_id env = env_user_id e \<and> env_session_id env = env_session_id e
           \<and> env_timestamp env = env_timestamp e \<and> env_nonce env = env_nonce e)
       \<or> forgery L pk (signing_payload ` S) sig h
       \<or> (\<exists>e \<in> S. payloads_collide L (signing_payload env) (signing_payload e)))"
proof -
  from assms obtain sk pk sig h where a: "lookup (env_pubkey_id env) = Some sk" "load_registered_public_key L sk = Inr pk"
      "b64decode True (env_signature env) = Inr sig" "hash_payload L (signing_payload env) = Inr h" "verify L pk sig h = Inr True"
    unfolding verify_envelope_accepts check_signature_accepts by blast
  from signed_or_broken [OF a(5,4), of "signing_payload ` S"] a(1-4) show ?thesis
    by (auto simp: signing_payload_def image_iff)
qed

lemma demo_signed_payload: "signing_payload demo_envelope = signing_payload (demo_envelope_for ''A'')"
  by (simp add: demo_envelope_def demo_envelope_for_def signing_payload_def)

lemma demo_signed_digest: "hash_payload demo_libs (signing_payload (demo_envelope_for ''A'')) = Inr demo_envelope_digest"
  by (simp add: demo_envelope_digest_def hash_payload_def canonicalize_def signing_payload_def demo_libs_def demo_dumps_def)

theorem acceptance_authenticates_witness:
  "\<exists>e \<in> {demo_envelope_for ''A''}. env_prompt demo_envelope = env_prompt e \<and> env_nonce demo_envelope = env_nonce e"
  using acceptance_authenticates [OF demo_accepted, of "{demo_envelope_for ''A''}"]
  by (auto simp: demo_signed_payload demo_signed_digest forgery_def payloads_collide_def)

text \<open>
  Which exceptions escape. With keys from a reachable key registry, \<^verbatim>\<open>verify_envelope\<close> only
  raises what parsing the timestamp raises or what canonicalizing the signed payload raises; in
  particular no registered key and no signature text makes it raise.
\<close>

theorem verifier_exceptions:
  assumes "registry_reach L st"
    and "fst (verify_envelope L f c (registry_lookup now st) env ns) = Inl e"
  shows "parse_timestamp (env_timestamp env) = Inl e \<or> hash_payload L (signing_payload env) = Inl e"
proof -
  from assms(2) have "timestamp_is_fresh f (wall_clock c) (env_timestamp env) = Inl e
      \<or> check_signature L (registry_lookup now st) env = Inl e"
    by (auto simp: verify_envelope_cases split: sum.splits bool.splits if_splits)
  then show ?thesis
    using registry_dir.check_signature_raises [OF registry_reach_inv [OF assms(1)]]
    by (auto simp: timestamp_is_fresh_def)
qed

definition demo_early_envelope :: signed_envelope where
  "demo_early_envelope = demo_envelope\<lparr>env_timestamp := ''0001-01-01T00:00:00+01:00''\<rparr>"

lemma early_timestamp_overflows:
  "parse_timestamp ''0001-01-01T00:00:00+01:00'' = Inl (Exc OverflowError ''date value out of range'')"
  by code_simp

theorem verifier_exceptions_witness:
  "parse_timestamp (env_timestamp demo_early_envelope) = Inl (Exc OverflowError ''date value out of range'')
   \<or> hash_payload demo_libs (signing_payload demo_early_envelope) = Inl (Exc OverflowError ''date value out of range'')"
proof (rule verifier_exceptions [OF demo_table_reach])
  show "fst (verify_envelope demo_libs 60 (demo_clocks 0) (registry_lookup 0 demo_table) demo_early_envelope demo_nonces) =
      Inl (Exc OverflowError ''date value out of range'')"
    using early_timestamp_overflows
    by (simp add: verify_envelope_cases timestamp_is_fresh_def demo_early_envelope_def)
qed

text \<open>
  An envelope whose timestamp is early on 1 January of the year 1 with a positive UTC offset is not
  answered \<^verbatim>\<open>timestamp_stale\<close>: the conversion to UTC raises \<^verbatim>\<open>OverflowError\<close>, which no handler
  catches, whatever the keys, the clocks and the nonces.
\<close>

theorem early_timestamp_raises:
  "fst (verify_envelope L f c lookup (env\<lparr>env_timestamp := ''0001-01-01T00:00:00+01:00''\<rparr>) ns) =
     Inl (Exc OverflowError ''date value out of range'')"
  using early_timestamp_overflows by (simp add: verify_envelope_cases timestamp_is_fresh_def)

end
