(* ===== verification/Proof_Of_Intent.thy ===== *)
theory Proof_Of_Intent
  imports Merkle_Tree Key_Registry
begin

text \<open>
  \<^verbatim>\<open>poi_generator/\<close>: the Proof of Intent, a signed commitment to an action and its context made before
  the action runs (\<^verbatim>\<open>models.py\<close>, \<^verbatim>\<open>poi.py\<close>), the agent's key custody (\<^verbatim>\<open>agent_keys.py\<close>) and the
  pre-tool callback (\<^verbatim>\<open>callback_handler.py\<close>). The clock, the fresh UUID and the fresh key seed are
  arguments. \<^verbatim>\<open>json.loads\<close> of the callback is the argument \<open>loads\<close> (\<open>None\<close>: \<^verbatim>\<open>JSONDecodeError\<close>). The theory
  proves that building and signing succeeds on every context the ledger can hold and yields a PoI
  that verifies and commits prompt, context and action, that a verifying PoI is one the agent signed,
  that a tool call is blocked without a verified session, and how agent keys persist.
\<close>

section \<open>\<^verbatim>\<open>models.py\<close>\<close>

record proof_of_intent =
  poi_user_prompt_hash :: string
  poi_system_prompt_hash :: string
  poi_context_root :: string
  poi_action_payload_hash :: string
  poi_model_id :: string
  poi_timestamp :: string
  poi_nonce :: string
  poi_agent_type :: "string option"
  poi_agent_id :: "string option"
  poi_action_type :: "string option"
  poi_policy_decision :: "string option"
  poi_agent_signature :: "string option"
  poi_agent_pubkey_id :: "string option"

text \<open>The field constraints of the pydantic model.\<close>

definition poi_valid :: "proof_of_intent \<Rightarrow> bool" where
  "poi_valid p \<longleftrightarrow>
     length (poi_user_prompt_hash p) = 64 \<and> length (poi_system_prompt_hash p) = 64
     \<and> length (poi_context_root p) = 64 \<and> length (poi_action_payload_hash p) = 64
     \<and> poi_model_id p \<noteq> [] \<and> poi_timestamp p \<noteq> [] \<and> poi_nonce p \<noteq> []
     \<and> poi_agent_type p \<noteq> Some [] \<and> poi_agent_id p \<noteq> Some [] \<and> poi_action_type p \<noteq> Some []
     \<and> poi_policy_decision p \<noteq> Some []"

definition validate_poi :: "proof_of_intent \<Rightarrow> proof_of_intent res" where
  "validate_poi p = (if poi_valid p then Inr p else Inl (Exc ValidationError ''ProofOfIntent''))"

text \<open>\<^verbatim>\<open>poi.model_dump()\<close>.\<close>

definition poi_dump :: "proof_of_intent \<Rightarrow> json dict" where
  "poi_dump p =
     [(''user_prompt_hash'', JStr (poi_user_prompt_hash p)),
      (''system_prompt_hash'', JStr (poi_system_prompt_hash p)),
      (''context_root'', JStr (poi_context_root p)),
      (''action_payload_hash'', JStr (poi_action_payload_hash p)),
      (''model_id'', JStr (poi_model_id p)), (''timestamp'', JStr (poi_timestamp p)),
      (''nonce'', JStr (poi_nonce p)), (''agent_type'', opt_json (poi_agent_type p)),
      (''agent_id'', opt_json (poi_agent_id p)), (''action_type'', opt_json (poi_action_type p)),
      (''policy_decision'', opt_json (poi_policy_decision p)),
      (''agent_signature'', opt_json (poi_agent_signature p)),
      (''agent_pubkey_id'', opt_json (poi_agent_pubkey_id p))]"

definition poi_signing_payload :: "proof_of_intent \<Rightarrow> json" where
  "poi_signing_payload p = JObj (filter (\<lambda>(k, v). k \<noteq> ''agent_signature'') (poi_dump p))"

section \<open>\<^verbatim>\<open>agent_keys.py\<close>\<close>

text \<open>The key directory: file names with their contents.\<close>

type_synonym key_files = "(string \<times> bytes) list"

definition key_file :: "crypto_libs \<Rightarrow> string \<Rightarrow> string res" where
  "key_file L aid =
     (if aid = [] then Inl (Exc ValueError ''agent_id must be a non-empty string'')
      else Inr (bytes_hex (hash_sha3_256 L (str_encode aid)) @ ''.pem''))"

text \<open>
  \<open>seed\<close> is the fresh key material; \<open>race\<close> is what another worker wrote to the file between
  \<^verbatim>\<open>exists()\<close> and the exclusive \<^verbatim>\<open>open\<close>, if any did.
\<close>

definition load_agent_keypair ::
  "crypto_libs \<Rightarrow> bytes \<Rightarrow> bytes option \<Rightarrow> string \<Rightarrow> key_files \<Rightarrow> ((private_key \<times> public_key) \<times> key_files) res"
where
  "load_agent_keypair L seed race aid fs =
     bind_res (key_file L aid) (\<lambda>path.
       case map_of fs path of
         Some pem \<Rightarrow> map_res (\<lambda>k. ((k, public_key_of L k), fs)) (deserialize_private_key_pem L pem)
       | None \<Rightarrow>
           (case race of
              Some pem \<Rightarrow>
                map_res (\<lambda>k. ((k, public_key_of L k), dict_set path pem fs)) (deserialize_private_key_pem L pem)
            | None \<Rightarrow>
                let (k, pk) = generate_keypair L seed in
                map_res (\<lambda>pem. ((k, pk), dict_set path pem fs)) (serialize_private_key_pem L k)))"

definition agent_pubkey_id :: "crypto_libs \<Rightarrow> private_key \<Rightarrow> string res" where
  "agent_pubkey_id L k =
     map_res (\<lambda>raw. ''agent-ed25519-'' @ bytes_hex (hash_sha3_256 L raw))
       (serialize_public_key_raw L (public_key_of L k))"

text \<open>The three clock readings: the lookup, \<^verbatim>\<open>valid_from\<close> and \<^verbatim>\<open>created_at\<close>.\<close>

definition register_agent_public_key ::
  "crypto_libs \<Rightarrow> time \<Rightarrow> time \<Rightarrow> time \<Rightarrow> string \<Rightarrow> private_key \<Rightarrow> key_table \<Rightarrow> (string \<times> key_table) res"
where
  "register_agent_public_key L now from created aid k st =
     bind_res (agent_pubkey_id L k) (\<lambda>kid.
       bind_res (serialize_public_key_raw L (public_key_of L k)) (\<lambda>b.
         if get_pubkey now kid st = Some b then Inr (kid, st)
         else
           (case register_key L created aid kid b ''Ed25519'' (Aware from 0) None None st of
              Inr (_, st') \<Rightarrow> Inr (kid, st')
            | Inl e \<Rightarrow>
                if caught_by [ValueError] e \<and> str_contains (exc_msg e) ''already registered''
                then Inr (kid, st) else Inl e)))"

section \<open>\<^verbatim>\<open>poi.py\<close>\<close>

definition poi_signing_hash :: "crypto_libs \<Rightarrow> proof_of_intent \<Rightarrow> bytes res" where
  "poi_signing_hash L p = map_res (hash_sha3_256 L) (canonicalize L (poi_signing_payload p))"

text \<open>\<open>opts\<close>: agent type, agent id, action type, policy decision.\<close>

type_synonym poi_options = "string option \<times> string option \<times> string option \<times> string option"

definition build_poi ::
  "crypto_libs \<Rightarrow> string \<Rightarrow> string \<Rightarrow> string \<Rightarrow> string \<Rightarrow> ledger \<Rightarrow> json \<Rightarrow> string \<Rightarrow> poi_options \<Rightarrow> proof_of_intent res"
where
  "build_poi L ts uuid user_prompt system_prompt led action_payload model_id opts =
     (if user_prompt = [] \<or> system_prompt = [] \<or> model_id = []
      then Inl (Exc ValueError ''user_prompt, system_prompt, and model_id are required'')
      else if \<not> is_dict action_payload then Inl (Exc TypeError ''action_payload must be a dictionary'')
      else bind_res (build_merkle_tree L (all_entries led)) (\<lambda>t.
        bind_res (hash_payload L (JObj [(''prompt'', JStr user_prompt)])) (\<lambda>uh.
        bind_res (hash_payload L (JObj [(''system_prompt'', JStr system_prompt)])) (\<lambda>sh.
        bind_res (hash_payload L action_payload) (\<lambda>ah.
          case opts of (aty, aid, act, pol) \<Rightarrow>
            validate_poi \<lparr>poi_user_prompt_hash = bytes_hex uh, poi_system_prompt_hash = bytes_hex sh,
              poi_context_root = bytes_hex (mt_root t), poi_action_payload_hash = bytes_hex ah,
              poi_model_id = model_id, poi_timestamp = ts, poi_nonce = uuid, poi_agent_type = aty,
              poi_agent_id = aid, poi_action_type = act, poi_policy_decision = pol,
              poi_agent_signature = None, poi_agent_pubkey_id = None\<rparr>)))))"

definition sign_poi :: "crypto_libs \<Rightarrow> proof_of_intent \<Rightarrow> private_key \<Rightarrow> proof_of_intent res" where
  "sign_poi L p k =
     bind_res (agent_pubkey_id L k) (\<lambda>kid.
       let with_key_id = p\<lparr>poi_agent_pubkey_id := Some kid, poi_agent_signature := None\<rparr> in
       bind_res (poi_signing_hash L with_key_id) (\<lambda>h.
         bind_res (sign L k h) (\<lambda>s. Inr (with_key_id\<lparr>poi_agent_signature := Some (bytes_hex s)\<rparr>))))"

definition verify_poi_signature :: "crypto_libs \<Rightarrow> proof_of_intent \<Rightarrow> public_key \<Rightarrow> bool res" where
  "verify_poi_signature L p pk =
     (case (poi_agent_signature p, poi_agent_pubkey_id p) of
        (Some s, Some _) \<Rightarrow>
          (case bytes_fromhex s of
             Inl e \<Rightarrow> if caught_by [ValueError] e then Inr False else Inl e
           | Inr sig \<Rightarrow> bind_res (poi_signing_hash L p) (\<lambda>h. verify L pk sig h))
      | _ \<Rightarrow> Inr False)"

section \<open>\<^verbatim>\<open>callback_handler.py\<close>\<close>

text \<open>
  Sessions hold a reference to a ledger that other code holds too, so ledgers live in a store indexed
  by references.
\<close>

record verified_session_context =
  vs_session_id :: string
  vs_user_prompt :: string
  vs_system_prompt :: string
  vs_ledger :: nat
  vs_model_id :: string

type_synonym ledger_store = "nat \<Rightarrow> ledger"

record poi_callback_handler =
  cb_sessions :: "(string \<times> verified_session_context) list"
  cb_private_key :: private_key
  cb_pois :: "(string \<times> proof_of_intent) list"

text \<open>The constructor: \<open>ko = None\<close> loads the agent's key from the key directory \<open>fs\<close>.\<close>

definition new_callback_handler ::
  "crypto_libs \<Rightarrow> bytes \<Rightarrow> bytes option \<Rightarrow> time \<Rightarrow> time \<Rightarrow> time \<Rightarrow> (string \<times> verified_session_context) list
   \<Rightarrow> private_key option \<Rightarrow> string option \<Rightarrow> key_table option \<Rightarrow> key_files
   \<Rightarrow> (poi_callback_handler \<times> key_table option \<times> key_files) res"
where
  "new_callback_handler L seed race now from created sessions ko aid reg fs =
     (let h = (\<lambda>k. \<lparr>cb_sessions = sessions, cb_private_key = k, cb_pois = []\<rparr>) in
      case ko of
        None \<Rightarrow>
          (case (aid, reg) of
             (Some a, Some st) \<Rightarrow>
               if a = [] then Inl (Exc ValueError ''agent_id and registry are required when loading an agent key'')
               else bind_res (load_agent_keypair L seed race a fs) (\<lambda>((k, _), fs').
                 map_res (\<lambda>(_, st'). (h k, Some st', fs')) (register_agent_public_key L now from created a k st))
           | _ \<Rightarrow> Inl (Exc ValueError ''agent_id and registry are required when loading an agent key''))
      | Some k \<Rightarrow>
          (case (aid, reg) of
             (Some a, Some st) \<Rightarrow>
               if a = [] then Inr (h k, reg, fs)
               else map_res (\<lambda>(_, st'). (h k, Some st', fs)) (register_agent_public_key L now from created a k st)
           | _ \<Rightarrow> Inr (h k, reg, fs)))"

definition register_verified_session ::
  "verified_session_context \<Rightarrow> poi_callback_handler \<Rightarrow> poi_callback_handler" where
  "register_verified_session c h = h\<lparr>cb_sessions := dict_set (vs_session_id c) c (cb_sessions h)\<rparr>"

definition get_poi :: "string \<Rightarrow> poi_callback_handler \<Rightarrow> proof_of_intent res" where
  "get_poi run h = (case map_of (cb_pois h) run of None \<Rightarrow> Inl (Exc KeyError run) | Some p \<Rightarrow> Inr p)"

definition action_payload_of :: "(string \<Rightarrow> json option) \<Rightarrow> string \<Rightarrow> json" where
  "action_payload_of loads s =
     (case loads s of Some j \<Rightarrow> if is_dict j then j else JObj [(''input'', JStr s)]
      | None \<Rightarrow> JObj [(''input'', JStr s)])"

definition first_truthy :: "json \<Rightarrow> json \<Rightarrow> json" where
  "first_truthy a b = (if truthy a then a else b)"

definition session_context :: "json dict option \<Rightarrow> poi_callback_handler \<Rightarrow> verified_session_context option" where
  "session_context metadata h =
     (case metadata of None \<Rightarrow> None
      | Some d \<Rightarrow> (case map_of d ''session_id'' of Some (JStr s) \<Rightarrow> map_of (cb_sessions h) s | _ \<Rightarrow> None))"

text \<open>
  \<^verbatim>\<open>on_tool_start\<close>: the handler and the ledgers afterwards are returned with the outcome, because the PoI
  is stored before the ledger append that may raise.
\<close>

definition on_tool_start ::
  "crypto_libs \<Rightarrow> (string \<Rightarrow> json option) \<Rightarrow> string \<Rightarrow> string \<Rightarrow> string \<Rightarrow> json dict \<Rightarrow> string \<Rightarrow> string
   \<Rightarrow> json dict option \<Rightarrow> poi_callback_handler \<Rightarrow> ledger_store
   \<Rightarrow> unit res \<times> poi_callback_handler \<times> ledger_store"
where
  "on_tool_start L loads ts uuid ts' serialized input_str run metadata h ls =
     (case session_context metadata h of
        None \<Rightarrow> (Inl (Exc MissingVerifiedSessionContext
                   ''tool execution blocked: no verified session context in callback metadata''), h, ls)
      | Some c \<Rightarrow>
          let payload = action_payload_of loads input_str in
          (case bind_res (build_poi L ts uuid (vs_user_prompt c) (vs_system_prompt c) (ls (vs_ledger c)) payload
                  (vs_model_id c) (None, None, None, None)) (\<lambda>p. sign_poi L p (cb_private_key h)) of
             Inl e \<Rightarrow> (Inl e, h, ls)
           | Inr p \<Rightarrow>
               let h' = h\<lparr>cb_pois := dict_set run p (cb_pois h)\<rparr>;
                   name = first_truthy (get_or_null serialized ''name'')
                     (first_truthy (get_or_null serialized ''id'') (JStr ''unknown_tool''))
               in
               (case ledger_append L ts' ''tool_call''
                   (JObj [(''tool_name'', name), (''input'', payload), (''run_id'', JStr run)]) (ls (vs_ledger c)) of
                  Inl e \<Rightarrow> (Inl e, h', ls)
                | Inr (_, l') \<Rightarrow> (Inr (), h', ls(vs_ledger c := l')))))"

section \<open>What the code relies on\<close>

text \<open>RFC 8785 serialization of an object whose values are text or null does not fail.\<close>

definition dumps_text :: "crypto_libs \<Rightarrow> bool" where
  "dumps_text L \<longleftrightarrow> (\<forall>d. list_all (\<lambda>(k, v). v = JNull \<or> is_str v) d \<longrightarrow> (\<exists>b. rfc8785_dumps L (JObj d) = Inr b))"

text \<open>PEM serialization of an Ed25519 private key loads back.\<close>

definition pem_roundtrip :: "crypto_libs \<Rightarrow> bool" where
  "pem_roundtrip L \<longleftrightarrow> (\<forall>s. load_pem_private_key L (private_pem L (Ed25519PrivateKey s)) = Inr (Ed25519PrivateKey s))"

lemma demo_dumps_text: "dumps_text demo_libs"
  by (simp add: dumps_text_def demo_libs_def demo_dumps_def)

lemma demo_public_key [simp]: "public_key_of demo_libs (Ed25519PrivateKey s) = Ed25519PublicKey s"
  by (simp add: public_key_of_def demo_libs_def)

lemma demo_pem_roundtrip: "pem_roundtrip demo_libs"
  by (simp add: pem_roundtrip_def demo_libs_def demo_private_from_def)

section \<open>Building, signing, verifying\<close>

lemma opt_json_text [simp]: "opt_json v = JNull \<or> is_str (opt_json v)"
  by (cases v) (simp_all add: opt_json_def)

lemma opt_json_eq_iff [simp]: "opt_json a = opt_json b \<longleftrightarrow> a = b"
  by (cases a; cases b) (simp_all add: opt_json_def)

lemma is_dict_poi_payload [simp]: "is_dict (poi_signing_payload p)"
  by (simp add: poi_signing_payload_def)

lemma poi_signing_hash_payload: "poi_signing_hash L p = hash_payload L (poi_signing_payload p)"
  by (simp add: poi_signing_hash_def hash_payload_def)

lemma poi_signing_hash_total: "dumps_text L \<Longrightarrow> \<exists>h. poi_signing_hash L p = Inr h"
  by (force simp: dumps_text_def poi_signing_hash_payload hash_payload_eq_Inr poi_signing_payload_def poi_dump_def)

lemma hash_text_total: "dumps_text L \<Longrightarrow> \<exists>h. hash_payload L (JObj [(k, JStr v)]) = Inr h"
  by (force simp: dumps_text_def hash_payload_eq_Inr)

text \<open>The signed payload determines every field but the signature.\<close>

lemma poi_signing_payload_eq_iff:
  "poi_signing_payload p = poi_signing_payload q \<longleftrightarrow>
     p\<lparr>poi_agent_signature := None\<rparr> = q\<lparr>poi_agent_signature := None\<rparr>"
  by (cases p; cases q) (auto simp: poi_signing_payload_def poi_dump_def)

lemma poi_signing_payload_signature [simp]:
  "poi_signing_payload (p\<lparr>poi_agent_signature := s\<rparr>) = poi_signing_payload p"
  by (simp add: poi_signing_payload_def poi_dump_def)

lemma poi_signing_hash_signature [simp]: "poi_signing_hash L (p\<lparr>poi_agent_signature := s\<rparr>) = poi_signing_hash L p"
  by (simp add: poi_signing_hash_payload)

lemma agent_pubkey_id_ed25519 [simp]:
  "agent_pubkey_id L (Ed25519PrivateKey s) =
     Inr (''agent-ed25519-'' @ bytes_hex (hash_sha3_256 L (public_raw_bytes L (Ed25519PublicKey (ed25519_public L s)))))"
  by (simp add: agent_pubkey_id_def serialize_public_key_raw_def public_key_of_def)

lemma sign_poi_eq_Inr:
  "sign_poi L p k = Inr q \<longleftrightarrow>
     (\<exists>kid h s. agent_pubkey_id L k = Inr kid \<and> poi_signing_hash L (p\<lparr>poi_agent_pubkey_id := Some kid\<rparr>) = Inr h
        \<and> sign L k h = Inr s
        \<and> q = p\<lparr>poi_agent_pubkey_id := Some kid, poi_agent_signature := Some (bytes_hex s)\<rparr>)"
  by (auto simp: sign_poi_def Let_def bind_res_eq_Inr)

lemma signed_poi_verifies:
  assumes "ed25519_correct L" "sign_poi L p k = Inr q"
  shows "verify_poi_signature L q (public_key_of L k) = Inr True"
proof -
  from assms(2) obtain kid h s where q: "poi_signing_hash L (p\<lparr>poi_agent_pubkey_id := Some kid\<rparr>) = Inr h"
      "sign L k h = Inr s" "q = p\<lparr>poi_agent_pubkey_id := Some kid, poi_agent_signature := Some (bytes_hex s)\<rparr>"
    unfolding sign_poi_eq_Inr by blast
  then have "poi_signing_hash L q = Inr h" by simp
  with q sign_verify_ed25519 [OF assms(1) q(2)] show ?thesis
    by (simp add: verify_poi_signature_def hex.dec_enc)
qed

lemma build_poi_eq_Inr:
  "build_poi L ts uuid up sp led ap mid (aty, aid, act, pol) = Inr p \<longleftrightarrow>
     up \<noteq> [] \<and> sp \<noteq> [] \<and> mid \<noteq> [] \<and> is_dict ap \<and> poi_valid p \<and>
     (\<exists>t uh sh ah. build_merkle_tree L (all_entries led) = Inr t
        \<and> hash_payload L (JObj [(''prompt'', JStr up)]) = Inr uh
        \<and> hash_payload L (JObj [(''system_prompt'', JStr sp)]) = Inr sh \<and> hash_payload L ap = Inr ah
        \<and> p = \<lparr>poi_user_prompt_hash = bytes_hex uh, poi_system_prompt_hash = bytes_hex sh,
              poi_context_root = bytes_hex (mt_root t), poi_action_payload_hash = bytes_hex ah,
              poi_model_id = mid, poi_timestamp = ts, poi_nonce = uuid, poi_agent_type = aty,
              poi_agent_id = aid, poi_action_type = act, poi_policy_decision = pol,
              poi_agent_signature = None, poi_agent_pubkey_id = None\<rparr>)"
  unfolding build_poi_def validate_poi_def by (auto simp: bind_res_eq_Inr split: if_splits)

lemma reachable_tree:
  assumes "sha3_len L" "ledger_reach L l" "all_entries l \<noteq> []"
  obtains t where "build_merkle_tree L (all_entries l) = Inr t" "length (mt_root t) = 32"
proof -
  let ?xs = "map leaf_hash (led_entries l)"
  have inv: "ledger_inv L l" using assms(2) by (rule ledger_reach_inv)
  have hs: "all_hashes ?xs" using assms(1) inv by (auto simp: ledger_inv_def intro: reach_all_hashes)
  then obtain t where t: "build_merkle_tree L (all_entries l) = Inr t"
    using build_merkle_tree_eq_Inr reach_distinct_ids [OF inv] assms(3) unfolding all_entries_def by blast
  moreover have "length (mt_root t) = 32"
    using length_tree_root [OF assms(1) hs] assms(3) mt_root_build [OF t]
    by (simp add: all_entries_def hash_size_def)
  ultimately show thesis by (rule that)
qed

definition options_valid :: "poi_options \<Rightarrow> bool" where
  "options_valid opts = (case opts of (aty, aid, act, pol) \<Rightarrow>
     aty \<noteq> Some [] \<and> aid \<noteq> Some [] \<and> act \<noteq> Some [] \<and> pol \<noteq> Some [])"

lemma build_poi_succeeds:
  assumes "sha3_len L" "dumps_text L" "ledger_reach L led" "all_entries led \<noteq> []"
    and "up \<noteq> []" "sp \<noteq> []" "mid \<noteq> []" "ts \<noteq> []" "uuid \<noteq> []" "options_valid opts"
    and "hash_payload L ap = Inr ah"
  shows "\<exists>p t uh sh. build_poi L ts uuid up sp led ap mid opts = Inr p
    \<and> build_merkle_tree L (all_entries led) = Inr t \<and> poi_context_root p = bytes_hex (mt_root t)
    \<and> poi_action_payload_hash p = bytes_hex ah \<and> hash_payload L (JObj [(''prompt'', JStr up)]) = Inr uh
    \<and> poi_user_prompt_hash p = bytes_hex uh \<and> hash_payload L (JObj [(''system_prompt'', JStr sp)]) = Inr sh
    \<and> poi_system_prompt_hash p = bytes_hex sh \<and> poi_nonce p = uuid \<and> poi_valid p"
proof -
  obtain t where t: "build_merkle_tree L (all_entries led) = Inr t" "length (mt_root t) = 32"
    using reachable_tree [OF assms(1,3,4)] .
  obtain uh sh where h: "hash_payload L (JObj [(''prompt'', JStr up)]) = Inr uh"
      "hash_payload L (JObj [(''system_prompt'', JStr sp)]) = Inr sh"
    using hash_text_total [OF assms(2)] by blast
  note len = length_hash_payload [OF assms(1)]
  obtain aty aid act pol where o: "opts = (aty, aid, act, pol)" by (cases opts)
  have "is_dict ap" using assms(11) by (simp add: hash_payload_eq_Inr)
  with assms(5-11) t h len [OF h(1)] len [OF h(2)] len [OF assms(11)] show ?thesis
    by (auto simp: o build_poi_eq_Inr options_valid_def poi_valid_def)
qed

section \<open>Properties\<close>

text \<open>
  C15: for every non-empty ledger built through the interface, and any non-empty prompts and any
  action payload that canonicalizes, \<^verbatim>\<open>build_poi\<close> followed by \<^verbatim>\<open>sign_poi\<close> succeeds; the signed PoI commits
  the hex digests of the user prompt, the system prompt and the action payload and the Merkle root of
  the ledger as it is, satisfies the model's field constraints, and verifies under the agent's
  public key.
\<close>

theorem poi_commits_and_verifies:
  assumes "sha3_len L" "ed25519_correct L" "dumps_text L" "ledger_reach L led" "all_entries led \<noteq> []"
    and "up \<noteq> []" "sp \<noteq> []" "mid \<noteq> []" "ts \<noteq> []" "uuid \<noteq> []" "options_valid opts"
    and "hash_payload L ap = Inr ah" "is_ed25519_private k"
  shows "\<exists>p q t uh sh. build_poi L ts uuid up sp led ap mid opts = Inr p \<and> sign_poi L p k = Inr q
    \<and> verify_poi_signature L q (public_key_of L k) = Inr True \<and> poi_valid q
    \<and> build_merkle_tree L (all_entries led) = Inr t \<and> poi_context_root q = bytes_hex (mt_root t)
    \<and> poi_action_payload_hash q = bytes_hex ah
    \<and> hash_payload L (JObj [(''prompt'', JStr up)]) = Inr uh \<and> poi_user_prompt_hash q = bytes_hex uh
    \<and> hash_payload L (JObj [(''system_prompt'', JStr sp)]) = Inr sh \<and> poi_system_prompt_hash q = bytes_hex sh"
proof -
  from build_poi_succeeds [OF assms(1,3,4,5,6,7,8,9,10,11,12)] obtain p t uh sh where
    p: "build_poi L ts uuid up sp led ap mid opts = Inr p" "poi_valid p"
    and c: "build_merkle_tree L (all_entries led) = Inr t" "poi_context_root p = bytes_hex (mt_root t)"
      "poi_action_payload_hash p = bytes_hex ah" "hash_payload L (JObj [(''prompt'', JStr up)]) = Inr uh"
      "poi_user_prompt_hash p = bytes_hex uh" "hash_payload L (JObj [(''system_prompt'', JStr sp)]) = Inr sh"
      "poi_system_prompt_hash p = bytes_hex sh" by blast
  from assms(13) obtain s where k: "k = Ed25519PrivateKey s" by (cases k) auto
  obtain kid where kid: "agent_pubkey_id L k = Inr kid" by (simp add: k)
  obtain h where "poi_signing_hash L (p\<lparr>poi_agent_pubkey_id := Some kid\<rparr>) = Inr h"
    using poi_signing_hash_total [OF assms(3)] by blast
  then obtain q where q: "sign_poi L p k = Inr q" using kid by (auto simp: sign_poi_def k sign_def)
  then have "poi_context_root q = poi_context_root p \<and> poi_action_payload_hash q = poi_action_payload_hash p
      \<and> poi_user_prompt_hash q = poi_user_prompt_hash p \<and> poi_system_prompt_hash q = poi_system_prompt_hash p
      \<and> poi_valid q = poi_valid p"
    by (auto simp: sign_poi_eq_Inr poi_valid_def)
  with p q c signed_poi_verifies [OF assms(2) q] show ?thesis by metis
qed

definition demo_action :: json where
  "demo_action = JObj [(''to'', JStr ''bob'')]"

theorem poi_commits_and_verifies_witness:
  "\<exists>p q. build_poi demo_libs ''t'' ''u'' ''hi'' ''sys'' demo_ledger demo_action ''m'' (None, None, None, None) = Inr p
     \<and> sign_poi demo_libs p (Ed25519PrivateKey demo_key) = Inr q
     \<and> verify_poi_signature demo_libs q (Ed25519PublicKey demo_key) = Inr True"
proof -
  obtain ah where ah: "hash_payload demo_libs demo_action = Inr ah"
    by (simp add: hash_payload_def canonicalize_def demo_action_def demo_libs_def demo_dumps_def)
  have "length (all_entries demo_ledger) = 2" by code_simp
  then have ne: "all_entries demo_ledger \<noteq> []" by auto
  have pk: "public_key_of demo_libs (Ed25519PrivateKey demo_key) = Ed25519PublicKey demo_key"
    by (simp add: public_key_of_def demo_libs_def)
  from poi_commits_and_verifies [OF demo_sha3_len demo_ed25519_correct demo_dumps_text demo_ledger_reach ne,
      of "''hi''" "''sys''" "''m''" "''t''" "''u''" "(None, None, None, None)" demo_action ah "Ed25519PrivateKey demo_key"]
  show ?thesis using ah pk by (auto simp: options_valid_def)
qed

text \<open>
  C16: a PoI that verifies is one the agent signed. Let \<open>S\<close> be the PoIs whose signing payloads the holder of the
  private key has signed. A PoI that \<^verbatim>\<open>verify_poi_signature\<close> accepts agrees with a PoI of \<open>S\<close> in every field
  except the signature text (no hash, root, model, timestamp, nonce, agent, action type, policy decision
  or key id can be changed), or its own signature is a forgery, or its signing payload collides with the one
  of a PoI of \<open>S\<close>. Nothing is assumed of the signature scheme.
\<close>

theorem verified_poi_was_signed:
  assumes "verify_poi_signature L p pk = Inr True"
  shows "\<exists>s sig h. poi_agent_signature p = Some s \<and> bytes_fromhex s = Inr sig \<and> hash_payload L (poi_signing_payload p) = Inr h
    \<and> ((\<exists>q \<in> S. p = q\<lparr>poi_agent_signature := poi_agent_signature p\<rparr>)
       \<or> forgery L pk (poi_signing_payload ` S) sig h
       \<or> (\<exists>q \<in> S. payloads_collide L (poi_signing_payload p) (poi_signing_payload q)))"
proof -
  from assms obtain s sig h where a: "poi_agent_signature p = Some s" "bytes_fromhex s = Inr sig"
      "hash_payload L (poi_signing_payload p) = Inr h" "verify L pk sig h = Inr True"
    by (auto simp: verify_poi_signature_def poi_signing_hash_payload bind_res_eq_Inr
        split: option.splits sum.splits if_splits)
  have "p = q\<lparr>poi_agent_signature := poi_agent_signature p\<rparr>" if "poi_signing_payload p = poi_signing_payload q" for q
    using that unfolding poi_signing_payload_eq_iff by (cases p; cases q) auto
  with signed_or_broken [OF a(4,3), of "poi_signing_payload ` S"] a(1-3) show ?thesis by blast
qed

text \<open>A PoI and its signature.\<close>

definition demo_unsigned_poi :: proof_of_intent where
  "demo_unsigned_poi = \<lparr>poi_user_prompt_hash = replicate 64 CHR ''a'', poi_system_prompt_hash = replicate 64 CHR ''b'',
     poi_context_root = replicate 64 CHR ''c'', poi_action_payload_hash = replicate 64 CHR ''d'', poi_model_id = ''m'',
     poi_timestamp = ''t'', poi_nonce = ''n'', poi_agent_type = Some ''email'', poi_agent_id = None,
     poi_action_type = None, poi_policy_decision = None, poi_agent_signature = None, poi_agent_pubkey_id = Some ''k''\<rparr>"

definition demo_poi_digest :: bytes where
  "demo_poi_digest = (case hash_payload demo_libs (poi_signing_payload demo_unsigned_poi) of Inl _ \<Rightarrow> [] | Inr h \<Rightarrow> h)"

definition demo_signed_poi :: proof_of_intent where
  "demo_signed_poi = demo_unsigned_poi\<lparr>poi_agent_signature := Some (bytes_hex (demo_key @ demo_poi_digest))\<rparr>"

theorem verified_poi_was_signed_witness:
  "\<exists>q \<in> {demo_unsigned_poi}. demo_signed_poi = q\<lparr>poi_agent_signature := poi_agent_signature demo_signed_poi\<rparr>"
proof -
  have h: "hash_payload demo_libs (poi_signing_payload demo_unsigned_poi) = Inr demo_poi_digest"
    using poi_signing_hash_total [OF demo_dumps_text, of demo_unsigned_poi] by (auto simp: poi_signing_hash_payload demo_poi_digest_def)
  have pl: "poi_signing_payload demo_signed_poi = poi_signing_payload demo_unsigned_poi"
    by (simp add: demo_signed_poi_def)
  have f: "poi_agent_signature demo_signed_poi = Some (bytes_hex (demo_key @ demo_poi_digest))" "poi_agent_pubkey_id demo_signed_poi = Some ''k''"
    by (simp_all add: demo_signed_poi_def demo_unsigned_poi_def)
  have "ed25519_check demo_libs demo_key (demo_key @ demo_poi_digest) demo_poi_digest" by (simp add: demo_libs_def demo_check_def)
  then have "verify_poi_signature demo_libs demo_signed_poi (Ed25519PublicKey demo_key) = Inr True"
    by (simp add: verify_poi_signature_def poi_signing_hash_payload pl h f hex.dec_enc)
  from verified_poi_was_signed [OF this, of "{demo_unsigned_poi}"] show ?thesis
    by (auto simp: pl h forgery_def payloads_collide_def)
qed

text \<open>
  C17: a successful pre-tool callback ran in a verified session; the PoI it stored under the run id
  verifies under the handler's key and commits the tool input and the root of the session's ledger
  as it was before the call; the session's ledger afterwards is that ledger plus one
  \<^verbatim>\<open>tool_call\<close> entry, and no other ledger changed.
\<close>

theorem tool_start_commits_context:
  assumes "ed25519_correct L"
    and "on_tool_start L loads ts uuid ts' serialized input_str run metadata h ls = (Inr (), h', ls')"
  shows "\<exists>c p t ah e. session_context metadata h = Some c \<and> get_poi run h' = Inr p
    \<and> verify_poi_signature L p (public_key_of L (cb_private_key h)) = Inr True
    \<and> build_merkle_tree L (all_entries (ls (vs_ledger c))) = Inr t \<and> poi_context_root p = bytes_hex (mt_root t)
    \<and> hash_payload L (action_payload_of loads input_str) = Inr ah \<and> poi_action_payload_hash p = bytes_hex ah
    \<and> all_entries (ls' (vs_ledger c)) = all_entries (ls (vs_ledger c)) @ [e] \<and> entry_type e = ''tool_call''
    \<and> ls' = ls(vs_ledger c := ls' (vs_ledger c))"
proof -
  from assms(2) obtain c where c: "session_context metadata h = Some c"
    by (auto simp: on_tool_start_def split: option.splits)
  let ?ap = "action_payload_of loads input_str" and ?l = "ls (vs_ledger c)"
  let ?build = "build_poi L ts uuid (vs_user_prompt c) (vs_system_prompt c) ?l ?ap (vs_model_id c) (None, None, None, None)"
  from assms(2) c obtain p where bp: "bind_res ?build (\<lambda>p. sign_poi L p (cb_private_key h)) = Inr p"
    by (cases "bind_res ?build (\<lambda>p. sign_poi L p (cb_private_key h))") (auto simp: on_tool_start_def Let_def)
  then obtain p0 where p0: "?build = Inr p0" and ps: "sign_poi L p0 (cb_private_key h) = Inr p"
    by (auto simp: bind_res_eq_Inr)
  from assms(2) c bp obtain e l' content where
    l: "ledger_append L ts' ''tool_call'' content ?l = Inr (e, l')" "ls' = ls(vs_ledger c := l')"
    and h': "h' = h\<lparr>cb_pois := dict_set run p (cb_pois h)\<rparr>"
    by (auto simp: on_tool_start_def Let_def split: sum.splits)
  from p0 obtain t ah where t: "build_merkle_tree L (all_entries (ls (vs_ledger c))) = Inr t"
      "poi_context_root p0 = bytes_hex (mt_root t)" "hash_payload L (action_payload_of loads input_str) = Inr ah"
      "poi_action_payload_hash p0 = bytes_hex ah"
    by (auto simp: build_poi_eq_Inr)
  have "poi_context_root p = poi_context_root p0" "poi_action_payload_hash p = poi_action_payload_hash p0"
    using ps by (auto simp: sign_poi_eq_Inr)
  moreover have "all_entries l' = all_entries (ls (vs_ledger c)) @ [e]" "entry_type e = ''tool_call''"
    using l(1) by (auto simp: ledger_append_eq_Inr all_entries_def)
  moreover have "get_poi run h' = Inr p" by (simp add: get_poi_def h')
  ultimately show ?thesis using c t l(2) signed_poi_verifies [OF assms(1) ps] by auto
qed

definition demo_handler :: poi_callback_handler where
  "demo_handler = \<lparr>cb_sessions = [(''s1'', \<lparr>vs_session_id = ''s1'', vs_user_prompt = ''hi'', vs_system_prompt = ''sys'',
     vs_ledger = 0, vs_model_id = ''m''\<rparr>)], cb_private_key = Ed25519PrivateKey demo_key, cb_pois = []\<rparr>"

definition demo_tool_start :: "unit res \<times> poi_callback_handler \<times> ledger_store" where
  "demo_tool_start = on_tool_start demo_libs Map.empty ''t'' ''u'' ''t3'' [(''name'', JStr ''send'')] ''x'' ''r1''
     (Some [(''session_id'', JStr ''s1'')]) demo_handler (\<lambda>_. demo_ledger)"

theorem tool_start_commits_context_witness:
  "\<exists>p t. get_poi ''r1'' (fst (snd demo_tool_start)) = Inr p
     \<and> verify_poi_signature demo_libs p (Ed25519PublicKey demo_key) = Inr True
     \<and> build_merkle_tree demo_libs (all_entries demo_ledger) = Inr t \<and> poi_context_root p = bytes_hex (mt_root t)"
proof -
  have r: "isl (fst demo_tool_start) = False" by code_simp
  then obtain h' ls' where d: "demo_tool_start = (Inr (), h', ls')"
    by (metis prod.collapse sum.collapse(2) sum.disc_eq_case(2) old.unit.exhaust)
  have k: "cb_private_key demo_handler = Ed25519PrivateKey demo_key" by (simp add: demo_handler_def)
  from tool_start_commits_context [OF demo_ed25519_correct d [unfolded demo_tool_start_def]]
  show ?thesis by (auto simp: d k)
qed

text \<open>
  A tool call is blocked, with neither a PoI stored nor a ledger changed, when the callback
  metadata name no verified session, or when the session's ledger has no entry to commit.
\<close>

theorem tool_start_blocked:
  assumes "case session_context metadata h of None \<Rightarrow> True | Some c \<Rightarrow> all_entries (ls (vs_ledger c)) = []"
  shows "\<exists>e. on_tool_start L loads ts uuid ts' serialized input_str run metadata h ls = (Inl e, h, ls)"
proof (cases "session_context metadata h")
  case (Some c)
  then have "\<exists>e. build_poi L ts uuid up sp (ls (vs_ledger c)) ap mid opts = Inl e" for up sp ap mid opts
    using assms by (simp add: build_poi_def build_merkle_tree_def)
  then obtain e where "build_poi L ts uuid (vs_user_prompt c) (vs_system_prompt c) (ls (vs_ledger c))
      (action_payload_of loads input_str) (vs_model_id c) (None, None, None, None) = Inl e" by blast
  with Some show ?thesis by (simp add: on_tool_start_def Let_def)
qed (simp add: on_tool_start_def)

theorem tool_start_blocked_witness:
  "\<exists>e. on_tool_start demo_libs Map.empty ''t'' ''u'' ''t3'' [] ''x'' ''r1'' (Some [(''session_id'', JStr ''s2'')])
     demo_handler (\<lambda>_. demo_ledger) = (Inl e, demo_handler, \<lambda>_. demo_ledger)"
  by (rule tool_start_blocked) (simp add: session_context_def demo_handler_def)

section \<open>Agent keys\<close>

lemma load_agent_keypair_path: "load_agent_keypair L seed race aid fs = Inr (kp, fs') \<Longrightarrow> \<exists>path. key_file L aid = Inr path"
  by (auto simp: load_agent_keypair_def bind_res_eq_Inr)

text \<open>
  Agent keys persist. Once \<^verbatim>\<open>load_agent_keypair\<close> returned a key pair for an agent (loaded, freshly
  generated, or lost in the creation race), every later call on the resulting key directory returns
  the same pair and leaves the directory as it is, and the files of agents with another file name
  are untouched.
\<close>

theorem agent_keys_persist:
  assumes "pem_roundtrip L" "load_agent_keypair L seed race aid fs = Inr (kp, fs')"
  shows "load_agent_keypair L seed' race' aid fs' = Inr (kp, fs')
    \<and> (\<forall>path. key_file L aid \<noteq> Inr path \<longrightarrow> map_of fs' path = map_of fs path)"
proof -
  obtain path where path: "key_file L aid = Inr path" using load_agent_keypair_path [OF assms(2)] by blast
  obtain pem k where "map_of fs' path = Some pem" "deserialize_private_key_pem L pem = Inr k" "kp = (k, public_key_of L k)"
      "\<forall>p. p \<noteq> path \<longrightarrow> map_of fs' p = map_of fs p"
    using assms path
    by (auto simp: load_agent_keypair_def map_res_eq_Inr generate_keypair_def Let_def serialize_private_key_pem_def
        deserialize_private_key_pem_def pem_roundtrip_def split: option.splits)
  with path show ?thesis by (auto simp: load_agent_keypair_def)
qed

theorem agent_keys_persist_witness:
  "\<exists>kp fs. load_agent_keypair demo_libs demo_key None ''email-agent'' [] = Inr (kp, fs)
     \<and> load_agent_keypair demo_libs [1] None ''email-agent'' fs = Inr (kp, fs)"
proof -
  obtain kp fs where "load_agent_keypair demo_libs demo_key None ''email-agent'' [] = Inr (kp, fs)"
    by (auto simp: load_agent_keypair_def key_file_def generate_keypair_def Let_def serialize_private_key_pem_def)
  with agent_keys_persist [OF demo_pem_roundtrip this] show ?thesis by blast
qed

text \<open>
  \<^verbatim>\<open>register_agent_public_key\<close> does not notice a revocation: when the agent's key is registered
  under its identifier but revoked, the call returns the identifier as if the key were usable
  (the registry answers \<^verbatim>\<open>None\<close> for it and is left unchanged).
\<close>

theorem revoked_agent_key_reused:
  assumes "registry_reach L st" "agent_pubkey_id L k = Inr kid" "get_key_by_id kid st = Some r" "revoked r"
    and "serialize_public_key_raw L (public_key_of L k) = Inr (public_key_bytes r)" "aid \<noteq> []" "algorithm r = ''Ed25519''"
  shows "register_agent_public_key L now from created aid k st = Inr (kid, st) \<and> get_pubkey now kid st = None"
proof -
  have inv: "registry_inv L st" using assms(1) by (rule registry_reach_inv)
  then have r: "r \<in> set st" "pubkey_id r = kid" "key_record_ok L r"
    using assms(3) by (auto simp: get_key_by_id_eq_Some registry_inv_def list_all_iff)
  have none: "get_pubkey now kid st = None" using assms(3,4) by (simp add: get_pubkey_def is_active_def)
  have ty: "agent_type_for_id aid \<noteq> Some []" by (auto simp: agent_type_for_id_def)
  obtain r' where r': "make_agent_key_record aid (agent_type_for_id aid) kid (public_key_bytes r) ''Ed25519'' (Aware from 0)
      None created = Inr r'" "pubkey_id r' = kid"
    using r assms(6) ty
    by (auto simp: make_agent_key_record_def key_record_ok_def validator_def as_utc_def astimezone_utc_def
        optional_as_utc_def)
  have "insert_key r' st = Inl (Exc ValueError (''pubkey_id already registered: '' @ kid))"
    using r r'(2) by (auto simp: insert_key_def)
  then have "register_key L created aid kid (public_key_bytes r) ''Ed25519'' (Aware from 0) None None st =
      Inl (Exc ValueError (''pubkey_id already registered: '' @ kid))"
    using r(3) assms(7) r'(1) by (simp add: register_key_def key_record_ok_def accepted_algorithm_ids_def Let_def)
  moreover have "str_contains (''pubkey_id already registered: '' @ kid) ''already registered''"
    unfolding str_contains_iff by (rule exI [of _ "''pubkey_id ''"]) simp
  ultimately show ?thesis
    using none assms(2,5) by (simp add: register_agent_public_key_def caught_by_def del: str_contains.simps)
qed

definition demo_agent_table :: key_table where
  "demo_agent_table = (case register_agent_public_key demo_libs 0 5 5 ''email-agent'' (Ed25519PrivateKey demo_key) [] of
     Inl _ \<Rightarrow> [] | Inr (kid, st) \<Rightarrow> snd (revoke_key kid st))"

lemma register_agent_public_key_steps:
  "register_agent_public_key L now from created aid k st = Inr (kid, st') \<Longrightarrow> (registry_step L)\<^sup>*\<^sup>* st st'"
  by (auto simp: register_agent_public_key_def bind_res_eq_Inr
      intro: r_into_rtranclp registry_step.register split: if_splits sum.splits)

lemma demo_agent_table_reach: "registry_reach demo_libs demo_agent_table"
proof -
  have "registry_reach demo_libs (snd (revoke_key kid st))"
    if "register_agent_public_key demo_libs 0 5 5 ''email-agent'' (Ed25519PrivateKey demo_key) [] = Inr (kid, st)" for kid st
    using register_agent_public_key_steps [OF that] registry_step.revoke [OF prod.collapse [symmetric]]
    by (rule rtranclp.rtrancl_into_rtrancl)
  then show ?thesis by (auto simp: demo_agent_table_def split: sum.split)
qed

theorem revoked_agent_key_reused_witness:
  "\<exists>kid. register_agent_public_key demo_libs 50 50 50 ''email-agent'' (Ed25519PrivateKey demo_key) demo_agent_table =
      Inr (kid, demo_agent_table) \<and> get_pubkey 50 kid demo_agent_table = None"
proof -
  obtain kid where kid: "agent_pubkey_id demo_libs (Ed25519PrivateKey demo_key) = Inr kid" by simp
  have "map_res (\<lambda>kid. case get_key_by_id kid demo_agent_table of None \<Rightarrow> False | Some r \<Rightarrow>
      revoked r \<and> algorithm r = ''Ed25519''
      \<and> serialize_public_key_raw demo_libs (public_key_of demo_libs (Ed25519PrivateKey demo_key)) = Inr (public_key_bytes r))
    (agent_pubkey_id demo_libs (Ed25519PrivateKey demo_key)) = Inr True" by code_simp
  with kid obtain r where "get_key_by_id kid demo_agent_table = Some r" "revoked r" "algorithm r = ''Ed25519''"
      "serialize_public_key_raw demo_libs (public_key_of demo_libs (Ed25519PrivateKey demo_key)) = Inr (public_key_bytes r)"
    by (auto split: option.splits)
  with revoked_agent_key_reused [OF demo_agent_table_reach kid, of r "''email-agent''"] show ?thesis by auto
qed

end
