(* ===== verification/Tsa_Anchor.thy ===== *)
theory Tsa_Anchor
  imports Merkle_Tree
begin

text \<open>
  \<^verbatim>\<open>tsa_anchor/\<close>: anchoring of ledger roots at an RFC 3161 time-stamping authority. The HTTP exchange
  and the RFC 3161 package are arguments: \<open>post i\<close> is the outcome of the \<open>i\<close>-th request of one call.
  The theory proves that a request is tried exactly once more after a failure, that anchoring an
  unchanged root is idempotent, that the anchor store only grows and holds at most one anchored
  record per root, and what a verified token means.
\<close>

section \<open>The RFC 3161 package and \<^verbatim>\<open>models.py\<close>\<close>

record ts_response =
  rs_status :: int
  rs_status_string :: "string list"
  rs_gen_time :: time
  rs_serial_number :: int
  rs_hashed_message :: bytes
  rs_hash_algorithm_oid :: string

datatype certificate = Certificate bytes

record tsa_libs =
  hash_algorithms :: "string list"
  ts_request :: "string \<Rightarrow> bytes \<Rightarrow> bytes"
  decode_timestamp_response :: "bytes \<Rightarrow> ts_response res"
  verify_message :: "certificate \<Rightarrow> ts_response \<Rightarrow> bytes \<Rightarrow> unit res"
  load_pem_certificate :: "bytes \<Rightarrow> certificate res"
  load_der_certificate :: "bytes \<Rightarrow> certificate res"
  sha256_hexdigest :: "bytes \<Rightarrow> string"

record timestamp_token =
  tok_response_bytes :: bytes
  tok_gen_time :: time
  tok_serial_number :: int
  tok_hashed_message :: bytes
  tok_hash_algorithm_oid :: string

record timestamp_verification_result =
  tvr_verified :: bool
  tvr_gen_time :: "time option"
  tvr_detail :: string
  tvr_hashed_message :: "bytes option"

datatype anchor_status = Anchored | Pending | Failed

record anchor_record =
  ar_ledger_root :: bytes
  ar_token_bytes :: "bytes option"
  ar_gen_time :: "time option"
  ar_anchored_at :: time
  ar_status :: anchor_status
  ar_detail :: string

section \<open>\<^verbatim>\<open>config.py\<close>\<close>

record tsa_config =
  cfg_endpoint :: string
  cfg_root_ca_url :: string
  cfg_root_ca_sha256 :: string
  cfg_request_hash_algorithm :: string
  cfg_timeout_seconds :: int

text \<open>The dictionary read from the configuration file; fractional timeouts are not represented.\<close>

definition text_item :: "json dict \<Rightarrow> string \<Rightarrow> string res" where
  "text_item raw k =
     (case map_of raw k of None \<Rightarrow> Inl (Exc KeyError k) | Some (JStr s) \<Rightarrow> Inr s
      | Some _ \<Rightarrow> Inl (Exc AttributeError ''lower''))"

definition load_tsa_config :: "json dict \<Rightarrow> tsa_config res" where
  "load_tsa_config raw =
     bind_res (text_item raw ''endpoint'') (\<lambda>e. bind_res (text_item raw ''root_ca_url'') (\<lambda>u.
     bind_res (text_item raw ''root_ca_sha256'') (\<lambda>d.
       let mk = (\<lambda>a t. \<lparr>cfg_endpoint = e, cfg_root_ca_url = u, cfg_root_ca_sha256 = str_lower d,
                   cfg_request_hash_algorithm = a, cfg_timeout_seconds = t\<rparr>);
           a = (case map_of raw ''request_hash_algorithm'' of Some (JStr s) \<Rightarrow> s | _ \<Rightarrow> ''SHA256'') in
       case map_of raw ''timeout_seconds'' of
         None \<Rightarrow> Inr (mk a 20)
       | Some (JInt t) \<Rightarrow> Inr (mk a t)
       | Some _ \<Rightarrow> Inl (Exc ValueError ''could not convert to float''))))"

text \<open>The two-format certificate loader of \<^verbatim>\<open>config.py\<close> and \<^verbatim>\<open>tsa_verify.py\<close>.\<close>

definition load_certificate :: "tsa_libs \<Rightarrow> bytes \<Rightarrow> certificate res" where
  "load_certificate T b =
     (case load_pem_certificate T b of
        Inr c \<Rightarrow> Inr c
      | Inl e \<Rightarrow> if caught_by [ValueError] e then load_der_certificate T b else Inl e)"

text \<open>A root certificate is given parsed, or as bytes (the content of a path).\<close>

datatype root_cert = ParsedCertificate certificate | CertificateBytes bytes

definition load_root_certificate :: "tsa_libs \<Rightarrow> root_cert \<Rightarrow> certificate res" where
  "load_root_certificate T v =
     (case v of ParsedCertificate c \<Rightarrow> Inr c | CertificateBytes b \<Rightarrow> load_certificate T b)"

text \<open>\<open>get\<close> is the HTTPS download.\<close>

definition fetch_pinned_root_certificate :: "tsa_libs \<Rightarrow> (string \<Rightarrow> bytes res) \<Rightarrow> tsa_config \<Rightarrow> certificate res" where
  "fetch_pinned_root_certificate T get cfg =
     bind_res (get (cfg_root_ca_url cfg)) (\<lambda>b.
       if sha256_hexdigest T b \<noteq> cfg_root_ca_sha256 cfg
       then Inl (Exc ValueError ''configured TSA root CA SHA-256 pin does not match download'')
       else load_certificate T b)"

section \<open>\<^verbatim>\<open>tsa_client.py\<close>\<close>

definition build_request :: "tsa_libs \<Rightarrow> tsa_config \<Rightarrow> bytes \<Rightarrow> bytes res" where
  "build_request T cfg data_hash =
     (if length data_hash \<noteq> 32 then Inl (Exc ValueError ''ledger root must be a 32-byte SHA3-256 digest'')
      else if cfg_request_hash_algorithm cfg \<notin> set (hash_algorithms T)
      then Inl (Exc ValueError ''configured RFC 3161 request hash is unsupported'')
      else Inr (ts_request T (cfg_request_hash_algorithm cfg) data_hash))"

text \<open>\<^verbatim>\<open>PKIStatus(status)\<close> raises \<^verbatim>\<open>ValueError\<close> for an unknown code; \<^verbatim>\<open>GRANTED\<close> is 0.\<close>

definition parse_response :: "tsa_libs \<Rightarrow> bytes \<Rightarrow> timestamp_token res" where
  "parse_response T b =
     bind_res (decode_timestamp_response T b) (\<lambda>r.
       if rs_status r < 0 \<or> 5 < rs_status r then Inl (Exc ValueError ''not a valid PKIStatus'')
       else if rs_status r \<noteq> 0
       then Inl (Exc TSARequestError (''TSA did not grant the request: '' @ str_join ''; '' (rs_status_string r)))
       else Inr \<lparr>tok_response_bytes = b, tok_gen_time = rs_gen_time r, tok_serial_number = rs_serial_number r,
                 tok_hashed_message = rs_hashed_message r, tok_hash_algorithm_oid = rs_hash_algorithm_oid r\<rparr>)"

definition retryable :: "py_error \<Rightarrow> bool" where
  "retryable e = caught_by [HTTPXError, ValueError, TSARequestError] e"

text \<open>
  The loop \<^verbatim>\<open>for _attempt in range(2)\<close>: \<open>n\<close> attempts remain, \<open>i\<close> is the number of the next one. The
  second component of the result counts the requests sent.
\<close>

fun request_attempts ::
  "tsa_libs \<Rightarrow> (nat \<Rightarrow> bytes \<Rightarrow> bytes res) \<Rightarrow> bytes \<Rightarrow> nat \<Rightarrow> nat \<Rightarrow> py_error option \<Rightarrow> timestamp_token res \<times> nat" where
  "request_attempts T post req i 0 err =
     (Inl (Exc TSARequestError (''TSA request failed after one retry: '' @
        (case err of None \<Rightarrow> ''None'' | Some e \<Rightarrow> exc_msg e))), i)"
| "request_attempts T post req i (Suc n) err =
     (case bind_res (post i req) (parse_response T) of
        Inr tok \<Rightarrow> (Inr tok, i + 1)
      | Inl e \<Rightarrow> if retryable e then request_attempts T post req (i + 1) n (Some e) else (Inl e, i + 1))"

definition request_timestamp ::
  "tsa_libs \<Rightarrow> (nat \<Rightarrow> bytes \<Rightarrow> bytes res) \<Rightarrow> tsa_config \<Rightarrow> bytes \<Rightarrow> timestamp_token res \<times> nat" where
  "request_timestamp T post cfg data_hash =
     (case build_request T cfg data_hash of
        Inl e \<Rightarrow> (Inl e, 0)
      | Inr req \<Rightarrow> request_attempts T post req 0 2 None)"

section \<open>\<^verbatim>\<open>tsa_verify.py\<close>\<close>

definition verify_timestamp_token ::
  "tsa_libs \<Rightarrow> bytes \<Rightarrow> bytes \<Rightarrow> root_cert \<Rightarrow> timestamp_verification_result res" where
  "verify_timestamp_token T token_bytes expected_hash root =
     (let refuse = (\<lambda>d. \<lparr>tvr_verified = False, tvr_gen_time = None, tvr_detail = d, tvr_hashed_message = None\<rparr>) in
      if length expected_hash \<noteq> 32 then Inr (refuse ''expected ledger root must be 32 bytes'')
      else
        (case bind_res (load_root_certificate T root) (\<lambda>c.
                bind_res (decode_timestamp_response T token_bytes) (\<lambda>r.
                  bind_res (verify_message T c r expected_hash) (\<lambda>_. Inr r))) of
           Inr r \<Rightarrow> Inr \<lparr>tvr_verified = True, tvr_gen_time = Some (rs_gen_time r),
             tvr_detail = ''RFC 3161 signature chain and ledger-root message imprint verified'',
             tvr_hashed_message = Some (rs_hashed_message r)\<rparr>
         | Inl e \<Rightarrow>
             if caught_by [VerificationError, ValueError, TypeError] e
             then Inr (refuse (''RFC 3161 verification failed: '' @ exc_msg e)) else Inl e))"

section \<open>\<^verbatim>\<open>anchor_scheduler.py\<close>\<close>

record anchor_store =
  as_records :: "anchor_record list"

definition new_anchor_store :: anchor_store where
  "new_anchor_store = \<lparr>as_records = []\<rparr>"

definition anchor_add :: "anchor_record \<Rightarrow> anchor_store \<Rightarrow> anchor_record \<times> anchor_store" where
  "anchor_add r s = (r, s\<lparr>as_records := as_records s @ [r]\<rparr>)"

definition for_root :: "bytes \<Rightarrow> anchor_store \<Rightarrow> anchor_record list" where
  "for_root root s = filter (\<lambda>r. ar_ledger_root r = root) (as_records s)"

definition latest_anchored :: "bytes \<Rightarrow> anchor_store \<Rightarrow> anchor_record option" where
  "latest_anchored root s = find (\<lambda>r. ar_status r = Anchored) (rev (for_root root s))"

text \<open>\<open>now\<close> is the clock reading of the record that is added.\<close>

definition anchor_current_root ::
  "crypto_libs \<Rightarrow> tsa_libs \<Rightarrow> (nat \<Rightarrow> bytes \<Rightarrow> bytes res) \<Rightarrow> tsa_config \<Rightarrow> time \<Rightarrow> ledger \<Rightarrow> anchor_store
   \<Rightarrow> (anchor_record \<times> anchor_store) res"
where
  "anchor_current_root L T post cfg now led s =
     (case build_merkle_tree L (all_entries led) of
        Inl e \<Rightarrow>
          if caught_by [ValueError] e
          then Inr (anchor_add \<lparr>ar_ledger_root = [], ar_token_bytes = None, ar_gen_time = None, ar_anchored_at = now,
                      ar_status = Failed, ar_detail = exc_msg e\<rparr> s)
          else Inl e
      | Inr t \<Rightarrow>
          let root = mt_root t in
          (case latest_anchored root s of
             Some r \<Rightarrow> Inr (r, s)
           | None \<Rightarrow>
               (case fst (request_timestamp T post cfg root) of
                  Inl e \<Rightarrow>
                    if caught_by [TSARequestError] e
                    then Inr (anchor_add \<lparr>ar_ledger_root = root, ar_token_bytes = None, ar_gen_time = None,
                                ar_anchored_at = now, ar_status = Failed, ar_detail = exc_msg e\<rparr> s)
                    else Inl e
                | Inr tok \<Rightarrow>
                    Inr (anchor_add \<lparr>ar_ledger_root = root, ar_token_bytes = Some (tok_response_bytes tok),
                           ar_gen_time = Some (tok_gen_time tok), ar_anchored_at = now, ar_status = Anchored,
                           ar_detail = []\<rparr> s))))"

record anchor_scheduler =
  sch_interval_seconds :: int
  sch_store :: anchor_store

definition new_anchor_scheduler :: "anchor_store \<Rightarrow> int \<Rightarrow> anchor_scheduler res" where
  "new_anchor_scheduler s interval =
     (if interval \<le> 0 then Inl (Exc ValueError ''interval_seconds must be positive'')
      else Inr \<lparr>sch_interval_seconds = interval, sch_store = s\<rparr>)"

definition run_once ::
  "crypto_libs \<Rightarrow> tsa_libs \<Rightarrow> (nat \<Rightarrow> bytes \<Rightarrow> bytes res) \<Rightarrow> tsa_config \<Rightarrow> time \<Rightarrow> ledger \<Rightarrow> anchor_scheduler
   \<Rightarrow> (anchor_record \<times> anchor_scheduler) res"
where
  "run_once L T post cfg now led sch =
     map_res (\<lambda>(r, s). (r, sch\<lparr>sch_store := s\<rparr>)) (anchor_current_root L T post cfg now led (sch_store sch))"

text \<open>
  \<^verbatim>\<open>run_periodically\<close>: one element per interval that passes before the stop event is set, with the
  ledger, the clock and the network of that moment.
\<close>

type_synonym tick = "ledger \<times> time \<times> (nat \<Rightarrow> bytes \<Rightarrow> bytes res)"

fun run_periodically :: "crypto_libs \<Rightarrow> tsa_libs \<Rightarrow> tsa_config \<Rightarrow> tick list \<Rightarrow> anchor_scheduler \<Rightarrow> anchor_scheduler res" where
  "run_periodically L T cfg [] sch = Inr sch"
| "run_periodically L T cfg ((led, now, post) # ticks) sch =
     bind_res (run_once L T post cfg now led sch) (\<lambda>(_, sch'). run_periodically L T cfg ticks sch')"

section \<open>Requests\<close>

lemma request_attempts_sent: "snd (request_attempts T post req i n err) \<le> i + n"
proof (induction n arbitrary: i err)
  case (Suc n)
  have "snd (request_attempts T post req (Suc i) n e) \<le> Suc i + n" for e by (rule Suc.IH)
  then show ?case by (auto split: sum.splits)
qed simp

lemma request_timestamp_cases:
  "request_timestamp T post cfg h =
     (case build_request T cfg h of
        Inl e \<Rightarrow> (Inl e, 0)
      | Inr req \<Rightarrow>
          (case bind_res (post 0 req) (parse_response T) of
             Inr tok \<Rightarrow> (Inr tok, 1)
           | Inl e \<Rightarrow>
               if \<not> retryable e then (Inl e, 1)
               else (case bind_res (post 1 req) (parse_response T) of
                       Inr tok \<Rightarrow> (Inr tok, 2)
                     | Inl e' \<Rightarrow>
                         if retryable e'
                         then (Inl (Exc TSARequestError (''TSA request failed after one retry: '' @ exc_msg e')), 2)
                         else (Inl e', 2))))"
  by (auto simp: request_timestamp_def numeral_2_eq_2 split: sum.splits)

section \<open>The anchor store\<close>

lemma find_SomeD: "find P xs = Some x \<Longrightarrow> x \<in> set xs \<and> P x"
  by (induction xs) (auto split: if_splits)

lemma find_anchored_None: "latest_anchored root s = None \<longleftrightarrow> (\<forall>r \<in> set (as_records s). ar_ledger_root r = root \<longrightarrow> ar_status r \<noteq> Anchored)"
  by (auto simp: latest_anchored_def for_root_def find_None_iff)

lemma latest_anchored_Some:
  assumes "latest_anchored root s = Some r"
  shows "r \<in> set (as_records s)" "ar_ledger_root r = root" "ar_status r = Anchored"
  using assms by (auto simp: latest_anchored_def for_root_def dest!: find_SomeD)

lemma latest_anchored_new:
  "ar_status r = Anchored \<Longrightarrow> latest_anchored (ar_ledger_root r) (s\<lparr>as_records := as_records s @ [r]\<rparr>) = Some r"
  by (simp add: latest_anchored_def for_root_def)

text \<open>The outcomes of one run: nothing to do, or one record added.\<close>

lemma anchor_current_root_cases:
  assumes "anchor_current_root L T post cfg now led s = Inr (r, s')"
  obtains (known) t where "build_merkle_tree L (all_entries led) = Inr t" "latest_anchored (mt_root t) s = Some r" "s' = s"
    | (failed) "s' = s\<lparr>as_records := as_records s @ [r]\<rparr>" "ar_status r = Failed"
    | (anchored) t tok where "build_merkle_tree L (all_entries led) = Inr t" "latest_anchored (mt_root t) s = None"
        "fst (request_timestamp T post cfg (mt_root t)) = Inr tok" "ar_status r = Anchored"
        "ar_ledger_root r = mt_root t" "ar_token_bytes r = Some (tok_response_bytes tok)"
        "ar_gen_time r = Some (tok_gen_time tok)" "s' = s\<lparr>as_records := as_records s @ [r]\<rparr>"
proof (cases "build_merkle_tree L (all_entries led)")
  case (Inl e)
  then have "s' = s\<lparr>as_records := as_records s @ [r]\<rparr>" "ar_status r = Failed"
    using assms by (auto simp: anchor_current_root_def anchor_add_def split: if_splits)
  then show thesis by (rule failed)
next
  case t: (Inr t)
  show thesis
  proof (cases "latest_anchored (mt_root t) s")
    case (Some r')
    then have "latest_anchored (mt_root t) s = Some r" "s' = s"
      using assms t by (simp_all add: anchor_current_root_def Let_def)
    with t show thesis by (rule known)
  next
    case None
    show thesis
    proof (cases "fst (request_timestamp T post cfg (mt_root t))")
      case (Inl e)
      then have "s' = s\<lparr>as_records := as_records s @ [r]\<rparr>" "ar_status r = Failed"
        using assms t None by (auto simp: anchor_current_root_def anchor_add_def Let_def split: if_splits)
      then show thesis by (rule failed)
    next
      case (Inr tok)
      then have "ar_status r = Anchored" "ar_ledger_root r = mt_root t"
          "ar_token_bytes r = Some (tok_response_bytes tok)" "ar_gen_time r = Some (tok_gen_time tok)"
          "s' = s\<lparr>as_records := as_records s @ [r]\<rparr>"
        using assms t None by (auto simp: anchor_current_root_def anchor_add_def Let_def)
      with t None Inr show thesis by (rule anchored)
    qed
  qed
qed

definition anchor_step ::
  "crypto_libs \<Rightarrow> tsa_libs \<Rightarrow> tsa_config \<Rightarrow> anchor_store \<Rightarrow> anchor_store \<Rightarrow> bool" where
  "anchor_step L T cfg s s' \<longleftrightarrow>
     s' \<noteq> s \<and> (\<exists>post now led r. anchor_current_root L T post cfg now led s = Inr (r, s'))"

interpretation anchor_log: append_only as_records "anchor_step L T cfg" for L T cfg
  by unfold_locales (auto simp: anchor_step_def elim!: anchor_current_root_cases)

definition anchor_inv :: "anchor_store \<Rightarrow> bool" where
  "anchor_inv s \<longleftrightarrow>
     distinct (map ar_ledger_root (filter (\<lambda>r. ar_status r = Anchored) (as_records s)))
     \<and> list_all (\<lambda>r. if ar_status r = Anchored then ar_token_bytes r \<noteq> None \<and> ar_gen_time r \<noteq> None
                      else ar_status r = Failed) (as_records s)"

lemma anchor_inv_add:
  "anchor_inv (s\<lparr>as_records := as_records s @ [r]\<rparr>) \<longleftrightarrow> anchor_inv s \<and>
     (if ar_status r = Anchored
      then latest_anchored (ar_ledger_root r) s = None \<and> ar_token_bytes r \<noteq> None \<and> ar_gen_time r \<noteq> None
      else ar_status r = Failed)"
  by (auto simp: anchor_inv_def find_anchored_None image_iff)

lemma anchor_inv_run: "anchor_current_root L T post cfg now led s = Inr (r, s') \<Longrightarrow> anchor_inv s \<Longrightarrow> anchor_inv s'"
  by (erule anchor_current_root_cases) (simp_all add: anchor_inv_add)

lemma run_once_eq_Inr:
  "run_once L T post cfg now led sch = Inr (r, sch') \<longleftrightarrow>
     (\<exists>s. anchor_current_root L T post cfg now led (sch_store sch) = Inr (r, s) \<and> sch' = sch\<lparr>sch_store := s\<rparr>)"
  by (auto simp: run_once_def map_res_eq_Inr)

lemma run_periodically_inv:
  "run_periodically L T cfg ticks sch = Inr sch' \<Longrightarrow> anchor_inv (sch_store sch) \<Longrightarrow> anchor_inv (sch_store sch')"
proof (induction L T cfg ticks sch rule: run_periodically.induct)
  case (2 L T cfg led now post ticks sch)
  from "2.prems"(1) obtain r sch1 where o: "run_once L T post cfg now led sch = Inr (r, sch1)"
      "run_periodically L T cfg ticks sch1 = Inr sch'"
    by (auto simp: bind_res_eq_Inr)
  then have "anchor_inv (sch_store sch1)"
    using "2.prems"(2) anchor_inv_run by (auto simp: run_once_eq_Inr)
  with "2.IH" [OF o(1)] o(2) show ?case by blast
qed simp

lemma run_periodically_steps:
  "run_periodically L T cfg ticks sch = Inr sch' \<Longrightarrow> (anchor_step L T cfg)\<^sup>*\<^sup>* (sch_store sch) (sch_store sch')"
proof (induction L T cfg ticks sch rule: run_periodically.induct)
  case (2 L T cfg led now post ticks sch)
  from "2.prems"(1) obtain r sch1 where o: "run_once L T post cfg now led sch = Inr (r, sch1)"
      "run_periodically L T cfg ticks sch1 = Inr sch'"
    by (auto simp: bind_res_eq_Inr)
  from o(1) have "sch_store sch1 = sch_store sch \<or> anchor_step L T cfg (sch_store sch) (sch_store sch1)"
    unfolding run_once_eq_Inr anchor_step_def by fastforce
  with "2.IH" [OF o(1)] o(2) show ?case by (auto intro: converse_rtranclp_into_rtranclp)
qed simp

section \<open>A concrete authority\<close>

definition demo_response :: ts_response where
  "demo_response = \<lparr>rs_status = 0, rs_status_string = [], rs_gen_time = 77, rs_serial_number = 1,
     rs_hashed_message = [9], rs_hash_algorithm_oid = ''2.16.840.1.101.3.4.2.1''\<rparr>"

definition demo_decode :: "bytes \<Rightarrow> ts_response res" where
  "demo_decode b = (if b = [1] then Inr demo_response else Inl (Exc ValueError ''not a response''))"

definition demo_verify_message :: "certificate \<Rightarrow> ts_response \<Rightarrow> bytes \<Rightarrow> unit res" where
  "demo_verify_message c r h = (if length h = 32 \<and> hd h = 5 then Inr () else Inl (Exc VerificationError ''imprint''))"

definition demo_tsa :: tsa_libs where
  "demo_tsa = \<lparr>hash_algorithms = [''SHA256'', ''SHA512''], ts_request = (\<lambda>a b. b), decode_timestamp_response = demo_decode,
     verify_message = demo_verify_message, load_pem_certificate = (\<lambda>b. Inl (Exc ValueError ''not PEM'')),
     load_der_certificate = (\<lambda>b. Inr (Certificate b)), sha256_hexdigest = bytes_hex\<rparr>"

definition demo_cfg :: tsa_config where
  "demo_cfg = \<lparr>cfg_endpoint = ''https://tsa'', cfg_root_ca_url = ''https://ca'', cfg_root_ca_sha256 = ''0a'',
     cfg_request_hash_algorithm = ''SHA256'', cfg_timeout_seconds = 20\<rparr>"

text \<open>The first request times out, the second is answered.\<close>

definition demo_post :: "nat \<Rightarrow> bytes \<Rightarrow> bytes res" where
  "demo_post i req = (if i = 0 then Inl (Exc HTTPXError ''timeout'') else Inr [1])"

section \<open>Properties\<close>

text \<open>
  A timestamp request is sent at most twice and never after a granted response. The call returns
  a token exactly if the first response is granted, or the first exchange failed with a retryable
  error and the second response is granted; if both exchanges fail with retryable errors the
  outcome is \<^verbatim>\<open>TSARequestError\<close>.
\<close>

theorem timestamp_retried_once:
  "snd (request_timestamp T post cfg h) \<le> 2
   \<and> (fst (request_timestamp T post cfg h) = Inr tok \<longleftrightarrow>
        (\<exists>req. build_request T cfg h = Inr req \<and>
           (bind_res (post 0 req) (parse_response T) = Inr tok
            \<or> (\<exists>e. bind_res (post 0 req) (parse_response T) = Inl e \<and> retryable e
                 \<and> bind_res (post 1 req) (parse_response T) = Inr tok))))
   \<and> (\<forall>req e e'. build_request T cfg h = Inr req \<and> bind_res (post 0 req) (parse_response T) = Inl e \<and> retryable e
        \<and> bind_res (post 1 req) (parse_response T) = Inl e' \<and> retryable e' \<longrightarrow>
        fst (request_timestamp T post cfg h) =
          Inl (Exc TSARequestError (''TSA request failed after one retry: '' @ exc_msg e')))"
  unfolding request_timestamp_cases by (auto split: sum.splits if_splits)

theorem timestamp_retried_once_witness:
  "\<exists>tok. fst (request_timestamp demo_tsa demo_post demo_cfg (replicate 32 5)) = Inr tok"
proof -
  obtain tok where tok: "parse_response demo_tsa [1] = Inr tok"
    by (simp add: parse_response_def demo_tsa_def demo_decode_def demo_response_def)
  then have "\<exists>req. build_request demo_tsa demo_cfg (replicate 32 5) = Inr req \<and>
      (bind_res (demo_post 0 req) (parse_response demo_tsa) = Inr tok
       \<or> (\<exists>e. bind_res (demo_post 0 req) (parse_response demo_tsa) = Inl e \<and> retryable e
            \<and> bind_res (demo_post 1 req) (parse_response demo_tsa) = Inr tok))"
    by (simp add: build_request_def demo_tsa_def demo_cfg_def demo_post_def retryable_def caught_by_def)
  with timestamp_retried_once [of demo_tsa demo_post demo_cfg "replicate 32 5" tok] show ?thesis by blast
qed

text \<open>
  Anchoring is idempotent per root and its log only grows. After a run that ends with an
  \<^verbatim>\<open>anchored\<close> record for the ledger's current root, any number of periodic runs over the same ledger,
  with any network behaviour and any clock, sends nothing and adds nothing: the store stays exactly
  as it is.
\<close>

theorem anchoring_idempotent:
  assumes "anchor_current_root L T post cfg now led s = Inr (r, s')" "ar_status r = Anchored"
    and "sch_store sch = s'" "\<forall>tick \<in> set ticks. fst tick = led"
  shows "run_periodically L T cfg ticks sch = Inr sch"
proof -
  from assms(1,2) obtain t where t: "build_merkle_tree L (all_entries led) = Inr t"
    and known: "latest_anchored (mt_root t) s' = Some r"
    by (cases rule: anchor_current_root_cases) (use latest_anchored_new [of r s] in auto)
  have "run_once L T p cfg n led sch = Inr (r, sch)" for p n
    using t known assms(3) by (simp add: run_once_eq_Inr anchor_current_root_def)
  with assms(4) show ?thesis by (induction ticks) auto
qed

definition demo_scheduler :: anchor_scheduler where
  "demo_scheduler = \<lparr>sch_interval_seconds = 300, sch_store =
     (case anchor_current_root demo_libs demo_tsa demo_post demo_cfg 10 demo_ledger new_anchor_store of
        Inl _ \<Rightarrow> new_anchor_store | Inr (_, s) \<Rightarrow> s)\<rparr>"

lemma demo_anchored:
  obtains r where "anchor_current_root demo_libs demo_tsa demo_post demo_cfg 10 demo_ledger new_anchor_store =
      Inr (r, sch_store demo_scheduler)" "ar_status r = Anchored"
proof -
  have "map_res (\<lambda>(r, _). ar_status r = Anchored)
      (anchor_current_root demo_libs demo_tsa demo_post demo_cfg 10 demo_ledger new_anchor_store) = Inr True" by code_simp
  with that show thesis by (auto simp: map_res_eq_Inr demo_scheduler_def)
qed

theorem anchoring_idempotent_witness:
  "run_periodically demo_libs demo_tsa demo_cfg [(demo_ledger, 20, demo_post), (demo_ledger, 30, demo_post)] demo_scheduler =
     Inr demo_scheduler"
proof -
  obtain r where r: "anchor_current_root demo_libs demo_tsa demo_post demo_cfg 10 demo_ledger new_anchor_store =
      Inr (r, sch_store demo_scheduler)" "ar_status r = Anchored" by (rule demo_anchored)
  show ?thesis by (rule anchoring_idempotent [OF r]) auto
qed

text \<open>
  C39: whatever ledgers, clocks and network answers a scheduler sees, its store keeps every record at
  its position, holds at most one \<^verbatim>\<open>anchored\<close> record per root, and every record is either anchored
  with a token and a time or failed.
\<close>

theorem anchor_log_sound:
  assumes "run_periodically L T cfg ticks sch = Inr sch'" "anchor_inv (sch_store sch)"
  shows "take (length (as_records (sch_store sch))) (as_records (sch_store sch')) = as_records (sch_store sch)
    \<and> distinct (map ar_ledger_root (filter (\<lambda>r. ar_status r = Anchored) (as_records (sch_store sch'))))
    \<and> (\<forall>r \<in> set (as_records (sch_store sch')).
         ar_status r = Failed \<or> (ar_status r = Anchored \<and> ar_token_bytes r \<noteq> None \<and> ar_gen_time r \<noteq> None))"
  using anchor_log.prefix_stable [OF run_periodically_steps [OF assms(1)]] run_periodically_inv [OF assms]
  by (auto simp: anchor_inv_def list_all_iff split: if_splits)

theorem anchor_log_sound_witness:
  "take (length (as_records (sch_store demo_scheduler))) (as_records (sch_store demo_scheduler)) =
     as_records (sch_store demo_scheduler)
   \<and> (\<exists>r \<in> set (as_records (sch_store demo_scheduler)). ar_status r = Anchored \<and> ar_token_bytes r \<noteq> None)"
proof -
  obtain r where r: "anchor_current_root demo_libs demo_tsa demo_post demo_cfg 10 demo_ledger new_anchor_store =
      Inr (r, sch_store demo_scheduler)" "ar_status r = Anchored" by (rule demo_anchored)
  have "anchor_inv new_anchor_store" by (simp add: anchor_inv_def new_anchor_store_def)
  with anchor_inv_run [OF r(1)] have inv: "anchor_inv (sch_store demo_scheduler)" by simp
  have "r \<in> set (as_records (sch_store demo_scheduler))"
    using r(1) by (rule anchor_current_root_cases) (auto dest: latest_anchored_Some)
  with r(2) anchor_log_sound [OF run_periodically.simps(1) inv] show ?thesis by fastforce
qed

text \<open>
  A positive verification means all of it: the certificate loads, the token decodes and the
  package verified it against exactly the 32-byte root that was asked for; the reported time is the
  token's own. A token that fails for one of the anticipated reasons gives a negative result instead
  of an exception.
\<close>

theorem verified_token_meaning:
  "verify_timestamp_token T token root cert = Inr v \<and> tvr_verified v \<longleftrightarrow>
     length root = 32 \<and> (\<exists>c r. load_root_certificate T cert = Inr c \<and> decode_timestamp_response T token = Inr r
       \<and> verify_message T c r root = Inr ()
       \<and> v = \<lparr>tvr_verified = True, tvr_gen_time = Some (rs_gen_time r),
             tvr_detail = ''RFC 3161 signature chain and ledger-root message imprint verified'',
             tvr_hashed_message = Some (rs_hashed_message r)\<rparr>)"
  unfolding verify_timestamp_token_def Let_def
  by (auto simp: bind_res_eq_Inr split: sum.splits if_splits)

lemma fetched_certificate_pinned:
  "fetch_pinned_root_certificate T get cfg = Inr c \<Longrightarrow>
     \<exists>b. get (cfg_root_ca_url cfg) = Inr b \<and> sha256_hexdigest T b = cfg_root_ca_sha256 cfg \<and> load_certificate T b = Inr c"
  by (auto simp: fetch_pinned_root_certificate_def bind_res_eq_Inr split: if_splits)

end
