(* ===== verification/Account_Database.thy ===== *)
theory Account_Database
  imports Envelope_Verifier
begin

text \<open>
  \<^verbatim>\<open>verifier_service/database.py\<close>: the SQLite store for accounts, sessions, prompt records and action
  evidence. Each table is the list of its rows; timestamp columns hold instants; random tokens, salts
  and clock readings are arguments; the digests of \<^verbatim>\<open>hashlib\<close> are the functions of \<open>auth_libs\<close>. The
  theory proves the uniqueness and reference invariants of the tables, the lifecycle of a session, and
  the persistence contract the evidence store relies on.
\<close>

section \<open>Tables\<close>

record auth_libs =
  pbkdf2_sha256 :: "string \<Rightarrow> bytes \<Rightarrow> bytes"
  sha256_token :: "string \<Rightarrow> string"

record user_row =
  u_id :: string
  u_name :: string
  u_email :: string
  u_password_salt :: bytes
  u_password_hash :: bytes
  u_role :: string
  u_created_at :: time

record session_row =
  s_token_hash :: string
  s_user_id :: string
  s_created_at :: time
  s_expires_at :: time

record prompt_row =
  p_id :: nat
  p_user_id :: string
  p_session_id :: string
  p_prompt :: string
  p_envelope :: signed_envelope
  p_action_id :: "string option"
  p_eml_path :: "string option"
  p_verification :: "json option"
  p_created_at :: time

record database =
  db_users :: "user_row list"
  db_sessions :: "session_row list"
  db_prompts :: "prompt_row list"
  db_next_prompt :: nat
  db_evidence :: "(string \<times> string) list"

definition empty_database :: database where
  "empty_database = \<lparr>db_users = [], db_sessions = [], db_prompts = [], db_next_prompt = 1, db_evidence = []\<rparr>"

record public_user =
  pu_id :: string
  pu_name :: string
  pu_email :: string
  pu_role :: string
  pu_created_at :: time

definition to_public_user :: "user_row \<Rightarrow> public_user" where
  "to_public_user r = \<lparr>pu_id = u_id r, pu_name = u_name r, pu_email = u_email r, pu_role = u_role r,
     pu_created_at = u_created_at r\<rparr>"

section \<open>Accounts\<close>

text \<open>The column is \<^verbatim>\<open>UNIQUE COLLATE NOCASE\<close>: emails are compared without case.\<close>

definition same_email :: "string \<Rightarrow> string \<Rightarrow> bool" where
  "same_email a b \<longleftrightarrow> str_lower a = str_lower b"

definition create_user ::
  "auth_libs \<Rightarrow> string \<Rightarrow> bytes \<Rightarrow> time \<Rightarrow> string \<Rightarrow> string \<Rightarrow> string \<Rightarrow> database \<Rightarrow> (public_user \<times> database) res" where
  "create_user A token salt now name email password db =
     (let normalized = str_lower (strip email) in
      if strip name = [] \<or> CHR 0x40 \<notin> set normalized
      then Inl (Exc ValueError ''Name and a valid email address are required.'')
      else if length password < 6 then Inl (Exc ValueError ''Password must be at least 6 characters long.'')
      else
        let r = \<lparr>u_id = ''usr_'' @ token, u_name = strip name, u_email = normalized, u_password_salt = salt,
                 u_password_hash = pbkdf2_sha256 A password salt, u_role = ''Member'', u_created_at = now\<rparr> in
        if (\<exists>u \<in> set (db_users db). u_id u = u_id r \<or> same_email (u_email u) (u_email r))
        then Inl (Exc ValueError ''An account with this email already exists.'')
        else Inr (to_public_user r, db\<lparr>db_users := db_users db @ [r]\<rparr>))"

text \<open>\<^verbatim>\<open>_seed_demo_accounts\<close>: two accounts in an empty table.\<close>

definition seed_demo_accounts ::
  "auth_libs \<Rightarrow> string \<Rightarrow> bytes \<Rightarrow> time \<Rightarrow> string \<Rightarrow> bytes \<Rightarrow> time \<Rightarrow> database \<Rightarrow> database res" where
  "seed_demo_accounts A t1 salt1 now1 t2 salt2 now2 db =
     (if db_users db \<noteq> [] then Inr db
      else bind_res (create_user A t1 salt1 now1 ''Alex Morgan'' ''alex@example.com'' ''Password123!'' db) (\<lambda>(_, db1).
        map_res snd (create_user A t2 salt2 now2 ''Jane Doe'' ''user@example.com'' ''password123'' db1)))"

definition authenticate :: "auth_libs \<Rightarrow> string \<Rightarrow> string \<Rightarrow> database \<Rightarrow> public_user option" where
  "authenticate A email password db =
     (case find (\<lambda>u. same_email (u_email u) (str_lower (strip email))) (db_users db) of
        None \<Rightarrow> None
      | Some u \<Rightarrow>
          if pbkdf2_sha256 A password (u_password_salt u) \<noteq> u_password_hash u then None
          else Some (to_public_user u))"

definition user_by_id :: "string \<Rightarrow> database \<Rightarrow> public_user option" where
  "user_by_id i db = map_option to_public_user (find (\<lambda>u. u_id u = i) (db_users db))"

section \<open>Sessions\<close>

text \<open>The foreign key and the primary key of the table raise \<^verbatim>\<open>sqlite3.IntegrityError\<close>.\<close>

definition create_session ::
  "auth_libs \<Rightarrow> string \<Rightarrow> time \<Rightarrow> int \<Rightarrow> string \<Rightarrow> database \<Rightarrow> (string \<times> database) res" where
  "create_session A token now ttl_days user_id db =
     (let h = sha256_token A token in
      if user_id \<notin> u_id ` set (db_users db) \<or> h \<in> s_token_hash ` set (db_sessions db)
      then Inl (Exc SQLiteError ''IntegrityError'')
      else Inr (token, db\<lparr>db_sessions := db_sessions db @
        [\<lparr>s_token_hash = h, s_user_id = user_id, s_created_at = now, s_expires_at = now + ttl_days * day_us\<rparr>]\<rparr>))"

definition user_from_token :: "auth_libs \<Rightarrow> time \<Rightarrow> string option \<Rightarrow> database \<Rightarrow> public_user option" where
  "user_from_token A now token db =
     (case token of
        None \<Rightarrow> None
      | Some tk \<Rightarrow>
          if tk = [] then None
          else
            (case find (\<lambda>s. s_token_hash s = sha256_token A tk) (db_sessions db) of
               None \<Rightarrow> None
             | Some s \<Rightarrow>
                 (case find (\<lambda>u. u_id u = s_user_id s) (db_users db) of
                    None \<Rightarrow> None
                  | Some u \<Rightarrow> if s_expires_at s \<le> now then None else Some (to_public_user u))))"

definition revoke_session :: "auth_libs \<Rightarrow> string option \<Rightarrow> database \<Rightarrow> database" where
  "revoke_session A token db =
     (case token of
        None \<Rightarrow> db
      | Some tk \<Rightarrow>
          if tk = [] then db
          else db\<lparr>db_sessions := filter (\<lambda>s. s_token_hash s \<noteq> sha256_token A tk) (db_sessions db)\<rparr>)"

section \<open>Prompt records\<close>

definition save_prompt ::
  "time \<Rightarrow> signed_envelope \<Rightarrow> string \<Rightarrow> string option \<Rightarrow> string option \<Rightarrow> json option \<Rightarrow> database
   \<Rightarrow> (nat \<times> database) res" where
  "save_prompt now env user_id action_id eml_path verification db =
     (if action_id \<noteq> None \<and> action_id \<in> p_action_id ` set (db_prompts db)
      then Inl (Exc SQLiteError ''IntegrityError'')
      else
        let i = db_next_prompt db;
            r = \<lparr>p_id = i, p_user_id = user_id, p_session_id = env_session_id env, p_prompt = env_prompt env,
                 p_envelope = env, p_action_id = action_id, p_eml_path = eml_path, p_verification = verification,
                 p_created_at = now\<rparr>
        in Inr (i, db\<lparr>db_prompts := db_prompts db @ [r], db_next_prompt := i + 1\<rparr>))"

definition update_prompt_action :: "string \<Rightarrow> string \<Rightarrow> json option \<Rightarrow> database \<Rightarrow> database" where
  "update_prompt_action action_id eml_path verification db =
     db\<lparr>db_prompts := map (\<lambda>r. if p_action_id r = Some action_id
        then r\<lparr>p_eml_path := Some eml_path,
               p_verification := (if verification = None then p_verification r else verification)\<rparr>
        else r) (db_prompts db)\<rparr>"

definition update_verification :: "string \<Rightarrow> json \<Rightarrow> database \<Rightarrow> database" where
  "update_verification action_id verification db =
     db\<lparr>db_prompts := map (\<lambda>r. if p_action_id r = Some action_id
        then r\<lparr>p_verification := Some verification\<rparr> else r) (db_prompts db)\<rparr>"

definition list_prompts :: "string \<Rightarrow> nat \<Rightarrow> database \<Rightarrow> prompt_row list" where
  "list_prompts user_id limit db =
     take limit (sort_key (\<lambda>r. - p_created_at r) (filter (\<lambda>r. p_user_id r = user_id) (db_prompts db)))"

section \<open>Action evidence\<close>

definition save_action_evidence :: "string \<Rightarrow> string \<Rightarrow> database \<Rightarrow> database" where
  "save_action_evidence action_id evidence_json db =
     db\<lparr>db_evidence := dict_set action_id evidence_json (db_evidence db)\<rparr>"

definition get_action_evidence :: "string \<Rightarrow> database \<Rightarrow> string option" where
  "get_action_evidence action_id db = map_of (db_evidence db) action_id"

text \<open>One successful state-changing call.\<close>

inductive database_step :: "auth_libs \<Rightarrow> database \<Rightarrow> database \<Rightarrow> bool" for A where
  create_user: "create_user A token salt now name email password db = Inr (u, db') \<Longrightarrow> database_step A db db'"
| create_session: "create_session A token now ttl user_id db = Inr (t, db') \<Longrightarrow> database_step A db db'"
| revoke_session: "database_step A db (revoke_session A token db)"
| save_prompt: "save_prompt now env user_id action_id eml_path verification db = Inr (i, db') \<Longrightarrow> database_step A db db'"
| update_prompt_action: "database_step A db (update_prompt_action action_id eml_path verification db)"
| update_verification: "database_step A db (update_verification action_id v db)"
| save_evidence: "database_step A db (save_action_evidence action_id j db)"

text \<open>The state-changing calls; one that raises leaves the database as it was.\<close>

datatype database_call =
  CreateUser string bytes time string string string
| CreateSession string time int string
| RevokeSession "string option"
| SavePrompt time signed_envelope string "string option" "string option" "json option"
| UpdatePromptAction string string "json option"
| UpdateVerification string json
| SaveActionEvidence string string

fun run_call :: "auth_libs \<Rightarrow> database_call \<Rightarrow> database \<Rightarrow> database" where
  "run_call A (CreateUser token salt now name email password) db =
     (case create_user A token salt now name email password db of Inl _ \<Rightarrow> db | Inr (_, db') \<Rightarrow> db')"
| "run_call A (CreateSession token now ttl user_id) db =
     (case create_session A token now ttl user_id db of Inl _ \<Rightarrow> db | Inr (_, db') \<Rightarrow> db')"
| "run_call A (RevokeSession token) db = revoke_session A token db"
| "run_call A (SavePrompt now env user_id action_id eml_path verification) db =
     (case save_prompt now env user_id action_id eml_path verification db of Inl _ \<Rightarrow> db | Inr (_, db') \<Rightarrow> db')"
| "run_call A (UpdatePromptAction action_id eml_path verification) db = update_prompt_action action_id eml_path verification db"
| "run_call A (UpdateVerification action_id verification) db = update_verification action_id verification db"
| "run_call A (SaveActionEvidence action_id j) db = save_action_evidence action_id j db"

definition run_calls :: "auth_libs \<Rightarrow> database_call list \<Rightarrow> database \<Rightarrow> database" where
  "run_calls A cs db = fold (run_call A) cs db"

section \<open>Invariants\<close>

definition database_inv :: "database \<Rightarrow> bool" where
  "database_inv db \<longleftrightarrow>
     distinct (map u_id (db_users db)) \<and> distinct (map (str_lower \<circ> u_email) (db_users db))
     \<and> distinct (map s_token_hash (db_sessions db))
     \<and> (\<forall>s \<in> set (db_sessions db). s_user_id s \<in> u_id ` set (db_users db))
     \<and> distinct (map p_id (db_prompts db)) \<and> (\<forall>r \<in> set (db_prompts db). p_id r < db_next_prompt db)
     \<and> distinct (filter (\<lambda>a. a \<noteq> None) (map p_action_id (db_prompts db)))"

lemma database_inv_empty [simp]: "database_inv empty_database"
  by (simp add: database_inv_def empty_database_def)

lemma map_update_same: "(\<And>r. f (g r) = f r) \<Longrightarrow> map f (map g xs) = map f xs"
  by (induction xs) auto

lemma create_user_row:
  assumes "create_user A token salt now name email password db = Inr (u, db')"
  obtains r where "db' = db\<lparr>db_users := db_users db @ [r]\<rparr>" "u = to_public_user r"
    "u_id r \<notin> u_id ` set (db_users db)" "(str_lower \<circ> u_email) r \<notin> (str_lower \<circ> u_email) ` set (db_users db)"
    "u_email r = str_lower (strip email)" "u_password_hash r = pbkdf2_sha256 A password (u_password_salt r)"
proof -
  let ?r = "\<lparr>u_id = ''usr_'' @ token, u_name = strip name, u_email = str_lower (strip email), u_password_salt = salt,
      u_password_hash = pbkdf2_sha256 A password salt, u_role = ''Member'', u_created_at = now\<rparr>"
  have "db' = db\<lparr>db_users := db_users db @ [?r]\<rparr>" "u = to_public_user ?r"
    "\<forall>x \<in> set (db_users db). u_id x \<noteq> u_id ?r \<and> \<not> same_email (u_email x) (u_email ?r)"
    using assms by (auto simp: create_user_def Let_def split: if_splits)
  moreover from this(3) have "u_id ?r \<notin> u_id ` set (db_users db)"
    "(str_lower \<circ> u_email) ?r \<notin> (str_lower \<circ> u_email) ` set (db_users db)"
    unfolding same_email_def by auto
  ultimately show thesis by (intro that [of ?r]) simp_all
qed

lemma database_inv_step: "database_step A db db' \<Longrightarrow> database_inv db \<Longrightarrow> database_inv db'"
proof (induction rule: database_step.induct)
  case (create_user token salt now name email password db u db')
  obtain r where r: "db' = db\<lparr>db_users := db_users db @ [r]\<rparr>" "u_id r \<notin> u_id ` set (db_users db)"
    "(str_lower \<circ> u_email) r \<notin> (str_lower \<circ> u_email) ` set (db_users db)"
    using create_user_row [OF create_user.hyps] by metis
  with create_user.prems show ?case by (simp add: database_inv_def)
next
  case (create_session token now ttl user_id db t db')
  then show ?case by (auto simp: create_session_def Let_def database_inv_def split: if_splits)
next
  case (revoke_session db token)
  then show ?case
    by (auto simp: revoke_session_def database_inv_def distinct_map_filter split: option.split)
next
  case (save_prompt now env user_id action_id eml_path verification db i db')
  then show ?case by (fastforce simp: save_prompt_def Let_def database_inv_def split: if_splits)
next
  case (update_prompt_action db action_id eml_path verification)
  let ?g = "\<lambda>r. if p_action_id r = Some action_id then r\<lparr>p_eml_path := Some eml_path,
      p_verification := (if verification = None then p_verification r else verification)\<rparr> else r"
  have "map p_id (map ?g (db_prompts db)) = map p_id (db_prompts db)"
    "map p_action_id (map ?g (db_prompts db)) = map p_action_id (db_prompts db)"
    by (rule map_update_same, simp)+
  with update_prompt_action show ?case
    by (auto simp: update_prompt_action_def database_inv_def simp del: map_map)
next
  case (update_verification db action_id v)
  let ?g = "\<lambda>r. if p_action_id r = Some action_id then r\<lparr>p_verification := Some v\<rparr> else r"
  have "map p_id (map ?g (db_prompts db)) = map p_id (db_prompts db)"
    "map p_action_id (map ?g (db_prompts db)) = map p_action_id (db_prompts db)"
    by (rule map_update_same, simp)+
  with update_verification show ?case
    by (auto simp: update_verification_def database_inv_def simp del: map_map)
next
  case (save_evidence db action_id j)
  then show ?case by (simp add: save_action_evidence_def database_inv_def)
qed

lemma database_reach_inv: "(database_step A)\<^sup>*\<^sup>* empty_database db \<Longrightarrow> database_inv db"
  by (induction rule: rtranclp_induct) (auto intro: database_inv_step)

section \<open>The persistence interface of the evidence store\<close>

locale evidence_persistence =
  fixes save :: "string \<Rightarrow> string \<Rightarrow> 'p \<Rightarrow> 'p" and load :: "string \<Rightarrow> 'p \<Rightarrow> string option"
  assumes load_saved: "load k (save k v p) = Some v"
    and load_other: "k' \<noteq> k \<Longrightarrow> load k' (save k v p) = load k' p"
begin

lemma load_save: "load k' (save k v p) = (if k' = k then Some v else load k' p)"
  by (simp add: load_saved load_other)

text \<open>After a sequence of saves the last one of each key is found.\<close>

lemma load_saves: "load k (fold (\<lambda>(k, v). save k v) kvs p) = (case map_of (rev kvs) k of None \<Rightarrow> load k p | Some v \<Rightarrow> Some v)"
  by (induction kvs rule: rev_induct) (auto simp: load_save map_add_def split: option.split)

end

interpretation evidence_rows: evidence_persistence save_action_evidence get_action_evidence
  by unfold_locales (simp_all add: save_action_evidence_def get_action_evidence_def)

section \<open>Lookups\<close>

lemma find_unique:
  "distinct (map f xs) \<Longrightarrow> x \<in> set xs \<Longrightarrow> f x = k \<Longrightarrow> find (\<lambda>y. f y = k) xs = Some x"
  by (induction xs) auto

lemma find_none_fun: "find (\<lambda>y. f y = k) xs = None \<longleftrightarrow> k \<notin> f ` set xs"
  by (auto simp: find_None_iff)

lemma find_snoc: "find P (xs @ [y]) = (case find P xs of None \<Rightarrow> if P y then Some y else None | Some x \<Rightarrow> Some x)"
  by (induction xs) auto

lemma find_filter_other: "(\<And>x. P x \<Longrightarrow> Q x) \<Longrightarrow> find P (filter Q xs) = find P xs"
  by (induction xs) auto

lemma find_filter_none: "find P (filter (\<lambda>x. \<not> P x) xs) = None"
  by (induction xs) auto

section \<open>Properties\<close>

lemma run_call_step: "run_call A c db = db \<or> database_step A db (run_call A c db)"
  by (cases c) (auto intro: database_step.intros split: sum.splits)

lemma run_call_inv: "database_inv db \<Longrightarrow> database_inv (run_call A c db)"
  using run_call_step [of A c db] database_inv_step by auto

text \<open>An invariant of the single calls of a sequence.\<close>

lemma run_calls_induct:
  assumes "P db" "\<And>c d. c \<in> set cs \<Longrightarrow> P d \<Longrightarrow> P (run_call A c d)"
  shows "P (run_calls A cs db)"
  using assms unfolding run_calls_def by (induction cs arbitrary: db) auto

text \<open>Only a revocation of its token removes a session, only a session for its token adds one; users stay.\<close>

lemma run_call_users: "u \<in> set (db_users db) \<Longrightarrow> u \<in> set (db_users (run_call A c db))"
  by (cases c) (auto simp: create_user_def create_session_def revoke_session_def save_prompt_def update_prompt_action_def
      update_verification_def save_action_evidence_def Let_def split: option.split)

lemma run_call_sessions:
  "s \<in> set (db_sessions db) \<Longrightarrow> (\<And>tk. c = RevokeSession (Some tk) \<Longrightarrow> sha256_token A tk \<noteq> s_token_hash s)
     \<Longrightarrow> s \<in> set (db_sessions (run_call A c db))"
  "h \<notin> s_token_hash ` set (db_sessions db) \<Longrightarrow> (\<And>tk now ttl uid. c = CreateSession tk now ttl uid \<Longrightarrow> sha256_token A tk \<noteq> h)
     \<Longrightarrow> h \<notin> s_token_hash ` set (db_sessions (run_call A c db))"
  by (cases c; auto simp: create_user_def create_session_def revoke_session_def save_prompt_def update_prompt_action_def
      update_verification_def save_action_evidence_def Let_def split: option.split)+

lemma user_from_stored_token:
  assumes "database_inv db" "s \<in> set (db_sessions db)" "s_token_hash s = sha256_token A token" "token \<noteq> []"
    and "u \<in> set (db_users db)" "u_id u = s_user_id s"
  shows "user_from_token A now (Some token) db = (if now < s_expires_at s then Some (to_public_user u) else None)"
proof -
  have "find (\<lambda>x. s_token_hash x = sha256_token A token) (db_sessions db) = Some s"
    using assms(1-3) by (intro find_unique) (auto simp: database_inv_def)
  moreover have "find (\<lambda>v. u_id v = s_user_id s) (db_users db) = Some u"
    using assms(1,5,6) by (intro find_unique) (auto simp: database_inv_def)
  ultimately show ?thesis using assms(4) by (auto simp: user_from_token_def)
qed

lemma user_from_absent_token:
  "sha256_token A token \<notin> s_token_hash ` set (db_sessions db) \<Longrightarrow> user_from_token A now (Some token) db = None"
  by (simp add: user_from_token_def find_none_fun [THEN iffD2])

text \<open>
  C40: the lifecycle of a session, in a database with intact keys and with any calls in between. After
  \<^verbatim>\<open>create_session\<close> the token resolves to its user exactly until the expiry time, whatever calls follow, unless
  one of them revokes a token with the same digest. After \<^verbatim>\<open>revoke_session\<close>, whenever it comes, the token
  resolves to nobody, at any time and whatever calls follow, unless one of them creates a session for a
  token with the same digest. Revoking a token never changes what tokens with other digests resolve to.
\<close>

theorem session_lifecycle:
  assumes "database_inv db" "create_session A token now ttl_days uid db = Inr (t, db')" "token \<noteq> []"
  shows "\<exists>u \<in> set (db_users db). u_id u = uid
    \<and> (\<forall>calls now'. (\<forall>tk. RevokeSession (Some tk) \<in> set calls \<longrightarrow> sha256_token A tk \<noteq> sha256_token A token) \<longrightarrow>
        user_from_token A now' (Some t) (run_calls A calls db') =
          (if now' < now + ttl_days * day_us then Some (to_public_user u) else None))
    \<and> (\<forall>calls later now'. (\<forall>tk n d i. CreateSession tk n d i \<in> set later \<longrightarrow> sha256_token A tk \<noteq> sha256_token A token) \<longrightarrow>
        user_from_token A now' (Some t) (run_calls A later (revoke_session A (Some t) (run_calls A calls db'))) = None)
    \<and> (\<forall>calls other now'. sha256_token A other \<noteq> sha256_token A token \<longrightarrow>
        user_from_token A now' (Some other) (revoke_session A (Some t) (run_calls A calls db')) =
          user_from_token A now' (Some other) (run_calls A calls db'))"
proof -
  let ?s = "\<lparr>s_token_hash = sha256_token A token, s_user_id = uid, s_created_at = now, s_expires_at = now + ttl_days * day_us\<rparr>"
  from assms(2) have t: "t = token" and db': "db' = db\<lparr>db_sessions := db_sessions db @ [?s]\<rparr>"
    and uid: "uid \<in> u_id ` set (db_users db)"
    by (auto simp: create_session_def Let_def split: if_splits)
  from uid obtain u where u: "u \<in> set (db_users db)" "u_id u = uid" by auto
  have inv: "database_inv db'" using database_inv_step [OF database_step.create_session [OF assms(2)] assms(1)] .
  have "user_from_token A now' (Some t) (run_calls A calls db') = (if now' < now + ttl_days * day_us then Some (to_public_user u) else None)"
    if "\<forall>tk. RevokeSession (Some tk) \<in> set calls \<longrightarrow> sha256_token A tk \<noteq> sha256_token A token" for calls now'
  proof -
    have "database_inv (run_calls A calls db') \<and> u \<in> set (db_users (run_calls A calls db')) \<and> ?s \<in> set (db_sessions (run_calls A calls db'))"
    proof (rule run_calls_induct)
      show "database_inv db' \<and> u \<in> set (db_users db') \<and> ?s \<in> set (db_sessions db')" using inv u(1) by (simp add: db')
      fix c d assume c: "c \<in> set calls" and d: "database_inv d \<and> u \<in> set (db_users d) \<and> ?s \<in> set (db_sessions d)"
      have "?s \<in> set (db_sessions (run_call A c d))" using c d that by (intro run_call_sessions(1)) auto
      with d show "database_inv (run_call A c d) \<and> u \<in> set (db_users (run_call A c d)) \<and> ?s \<in> set (db_sessions (run_call A c d))"
        by (simp add: run_call_inv run_call_users)
    qed
    then show ?thesis using user_from_stored_token [of "run_calls A calls db'" ?s A token u now'] assms(3) u(2) by (simp add: t)
  qed
  moreover have "user_from_token A now' (Some t) (run_calls A later (revoke_session A (Some t) d)) = None"
    if "\<forall>tk n d i. CreateSession tk n d i \<in> set later \<longrightarrow> sha256_token A tk \<noteq> sha256_token A token" for later d now'
  proof -
    have "sha256_token A token \<notin> s_token_hash ` set (db_sessions (run_calls A later (revoke_session A (Some t) d)))"
    proof (rule run_calls_induct)
      show "sha256_token A token \<notin> s_token_hash ` set (db_sessions (revoke_session A (Some t) d))"
        using assms(3) by (auto simp: revoke_session_def t)
      fix c and d :: database assume "c \<in> set later" "sha256_token A token \<notin> s_token_hash ` set (db_sessions d)"
      then show "sha256_token A token \<notin> s_token_hash ` set (db_sessions (run_call A c d))" using that by (intro run_call_sessions(2)) blast+
    qed
    then show ?thesis unfolding t by (rule user_from_absent_token)
  qed
  moreover have "user_from_token A now' (Some other) (revoke_session A (Some t) d) = user_from_token A now' (Some other) d"
    if "sha256_token A other \<noteq> sha256_token A token" for other d now'
  proof -
    have "find (\<lambda>s. s_token_hash s = sha256_token A other) (filter (\<lambda>s. s_token_hash s \<noteq> sha256_token A token) xs) =
        find (\<lambda>s. s_token_hash s = sha256_token A other) xs" for xs :: "session_row list"
      using that by (intro find_filter_other) auto
    then show ?thesis using assms(3) by (simp add: user_from_token_def revoke_session_def t cong: option.case_cong)
  qed
  ultimately show ?thesis using u by blast
qed

definition demo_pbkdf2 :: "string \<Rightarrow> bytes \<Rightarrow> bytes" where
  "demo_pbkdf2 p salt = salt @ str_encode p"

definition demo_auth :: auth_libs where
  "demo_auth = \<lparr>pbkdf2_sha256 = demo_pbkdf2, sha256_token = id\<rparr>"

definition demo_database :: database where
  "demo_database = (case create_user demo_auth ''x'' [1] 5 ''Ann'' ''Ann@Example.com '' ''secret1'' empty_database of
     Inl _ \<Rightarrow> empty_database | Inr (_, db) \<Rightarrow> db)"

lemma demo_database_created: "\<exists>u. create_user demo_auth ''x'' [1] 5 ''Ann'' ''Ann@Example.com '' ''secret1'' empty_database = Inr (u, demo_database)"
proof -
  have "isl (create_user demo_auth ''x'' [1] 5 ''Ann'' ''Ann@Example.com '' ''secret1'' empty_database) = False" by code_simp
  then show ?thesis
    by (cases "create_user demo_auth ''x'' [1] 5 ''Ann'' ''Ann@Example.com '' ''secret1'' empty_database")
       (auto simp: demo_database_def)
qed

lemma demo_database_reach: "(database_step demo_auth)\<^sup>*\<^sup>* empty_database demo_database"
  using demo_database_created by (auto intro: r_into_rtranclp database_step.create_user)

theorem session_lifecycle_witness:
  "\<exists>db' u. create_session demo_auth ''tok'' 10 7 ''usr_x'' demo_database = Inr (''tok'', db')
     \<and> user_from_token demo_auth 11 (Some ''tok'') (run_calls demo_auth [RevokeSession (Some ''other'')] db') = Some u
     \<and> user_from_token demo_auth 11 (Some ''tok'')
         (run_calls demo_auth [CreateSession ''new'' 11 7 ''usr_x''] (revoke_session demo_auth (Some ''tok'') (run_calls demo_auth [] db'))) = None"
proof -
  have "map_res fst (create_session demo_auth ''tok'' 10 7 ''usr_x'' demo_database) = Inr ''tok''" by code_simp
  then obtain db' where c: "create_session demo_auth ''tok'' 10 7 ''usr_x'' demo_database = Inr (''tok'', db')"
    by (auto simp: map_res_eq_Inr)
  have d: "sha256_token demo_auth x \<noteq> sha256_token demo_auth ''tok''" if "x \<noteq> ''tok''" for x using that by (simp add: demo_auth_def)
  obtain u where u: "\<forall>calls now'. (\<forall>tk. RevokeSession (Some tk) \<in> set calls \<longrightarrow> sha256_token demo_auth tk \<noteq> sha256_token demo_auth ''tok'') \<longrightarrow>
        user_from_token demo_auth now' (Some ''tok'') (run_calls demo_auth calls db') =
          (if now' < 10 + 7 * day_us then Some (to_public_user u) else None)"
      "\<forall>calls later now'. (\<forall>tk n d i. CreateSession tk n d i \<in> set later \<longrightarrow> sha256_token demo_auth tk \<noteq> sha256_token demo_auth ''tok'') \<longrightarrow>
        user_from_token demo_auth now' (Some ''tok'') (run_calls demo_auth later (revoke_session demo_auth (Some ''tok'') (run_calls demo_auth calls db'))) = None"
    using session_lifecycle [OF database_reach_inv [OF demo_database_reach] c] by auto
  have "user_from_token demo_auth 11 (Some ''tok'') (run_calls demo_auth [RevokeSession (Some ''other'')] db') = Some (to_public_user u)"
    using u(1) [rule_format, of "[RevokeSession (Some ''other'')]" 11] d by simp
  moreover have "user_from_token demo_auth 11 (Some ''tok'')
      (run_calls demo_auth [CreateSession ''new'' 11 7 ''usr_x''] (revoke_session demo_auth (Some ''tok'') (run_calls demo_auth [] db'))) = None"
    using d by (intro u(2) [rule_format]) simp
  ultimately show ?thesis using c by blast
qed

text \<open>
  Accounts. In any database a created account can be signed in to with any
  spelling of its email (case and surrounding blanks aside) and exactly the passwords whose digest
  under the stored salt equals the stored digest; and a second sign-up with such an email raises.
\<close>

theorem account_authentication:
  assumes "create_user A token salt now name email password db = Inr (u, db')"
    and "str_lower (strip email') = str_lower (strip email)"
  shows "authenticate A email' password' db' =
      (if pbkdf2_sha256 A password' salt = pbkdf2_sha256 A password salt then Some u else None)
    \<and> (\<exists>e. create_user A token' salt' now' name' email' password' db' = Inl e)"
proof -
  let ?r = "\<lparr>u_id = ''usr_'' @ token, u_name = strip name, u_email = str_lower (strip email), u_password_salt = salt,
      u_password_hash = pbkdf2_sha256 A password salt, u_role = ''Member'', u_created_at = now\<rparr>"
  have c: "db' = db\<lparr>db_users := db_users db @ [?r]\<rparr>" "u = to_public_user ?r"
    "\<forall>x \<in> set (db_users db). \<not> same_email (u_email x) (str_lower (strip email))"
    using assms(1) by (auto simp: create_user_def Let_def split: if_splits)
  then have "find (\<lambda>x. same_email (u_email x) (str_lower (strip email))) (db_users db) = None"
    by (simp add: find_None_iff)
  then have "find (\<lambda>x. same_email (u_email x) (str_lower (strip email'))) (db_users db') = Some ?r"
    by (simp add: c(1) find_snoc assms(2) same_email_def)
  then have "authenticate A email' password' db' =
      (if pbkdf2_sha256 A password' salt = pbkdf2_sha256 A password salt then Some u else None)"
    by (simp add: authenticate_def c(2))
  moreover have "\<exists>e. create_user A token' salt' now' name' email' password' db' = Inl e"
    by (simp add: create_user_def Let_def c(1) assms(2) same_email_def)
  ultimately show ?thesis by blast
qed

theorem account_authentication_witness:
  "\<exists>u. authenticate demo_auth ''ANN@example.com'' ''secret1'' demo_database = Some u
     \<and> authenticate demo_auth ''ANN@example.com'' ''secret2'' demo_database = None"
proof -
  obtain u where u: "create_user demo_auth ''x'' [1] 5 ''Ann'' ''Ann@Example.com '' ''secret1'' empty_database = Inr (u, demo_database)"
    using demo_database_created by blast
  have e: "str_lower (strip ''ANN@example.com'') = str_lower (strip ''Ann@Example.com '')" by code_simp
  have "pbkdf2_sha256 demo_auth ''secret2'' [1] \<noteq> pbkdf2_sha256 demo_auth ''secret1'' [1]" by code_simp
  with account_authentication [OF u e] show ?thesis by auto
qed

end
