(* ===== verification/Poi_Encoding.thy ===== *)
theory Poi_Encoding
  imports Proof_Of_Intent Envelope_Verifier
begin

text \<open>
  \<^verbatim>\<open>action_executor/poi_encoding.py\<close>: the e-mail headers that carry a signed PoI, and the parsing of JSON
  and MIME text that evidence and headers go through. The parsers and printers of the standard
  library's \<^verbatim>\<open>json\<close> and \<^verbatim>\<open>email\<close> packages and of pydantic are the functions of \<open>text_libs\<close>; the field
  validation of the PoI model is a definition here. The theory proves the header round trip.
\<close>

section \<open>Text libraries\<close>

text \<open>
  A parsed MIME message: header lookup, and the outcome of reading the body (\<^verbatim>\<open>get_body\<close> and
  \<^verbatim>\<open>get_content\<close>) of a multipart and of a plain message.
\<close>

record mime_message =
  mm_headers :: "(string \<times> string) list"
  mm_multipart :: bool
  mm_plain_part :: "string res option"
  mm_content :: "string res"

record text_libs =
  json_loads :: "string \<Rightarrow> json res"
  json_dumps :: "json \<Rightarrow> string"
  json_loads_bytes :: "bytes \<Rightarrow> json res"
  parse_message :: "bytes \<Rightarrow> mime_message res"
  message_bytes :: "mime_message \<Rightarrow> bytes"

section \<open>The PoI model from a dictionary\<close>

definition optional_text :: "json dict \<Rightarrow> string \<Rightarrow> string option res" where
  "optional_text d k =
     (case map_of d k of
        None \<Rightarrow> Inr None
      | Some JNull \<Rightarrow> Inr None
      | Some (JStr s) \<Rightarrow> Inr (Some s)
      | Some _ \<Rightarrow> Inl (Exc ValidationError k))"

text \<open>\<^verbatim>\<open>ProofOfIntent.model_validate\<close>.\<close>

definition poi_of_dict :: "json dict \<Rightarrow> proof_of_intent res" where
  "poi_of_dict d =
     bind_res (required_text d ''user_prompt_hash'') (\<lambda>uh. bind_res (required_text d ''system_prompt_hash'') (\<lambda>sh.
     bind_res (required_text d ''context_root'') (\<lambda>cr. bind_res (required_text d ''action_payload_hash'') (\<lambda>ah.
     bind_res (required_text d ''model_id'') (\<lambda>m. bind_res (required_text d ''timestamp'') (\<lambda>ts.
     bind_res (required_text d ''nonce'') (\<lambda>n. bind_res (optional_text d ''agent_type'') (\<lambda>aty.
     bind_res (optional_text d ''agent_id'') (\<lambda>aid. bind_res (optional_text d ''action_type'') (\<lambda>act.
     bind_res (optional_text d ''policy_decision'') (\<lambda>pol. bind_res (optional_text d ''agent_signature'') (\<lambda>sig.
     bind_res (optional_text d ''agent_pubkey_id'') (\<lambda>kid.
       validate_poi \<lparr>poi_user_prompt_hash = uh, poi_system_prompt_hash = sh, poi_context_root = cr,
         poi_action_payload_hash = ah, poi_model_id = m, poi_timestamp = ts, poi_nonce = n,
         poi_agent_type = aty, poi_agent_id = aid, poi_action_type = act, poi_policy_decision = pol,
         poi_agent_signature = sig, poi_agent_pubkey_id = kid\<rparr>)))))))))))))"

section \<open>Headers\<close>

definition encode_poi_header :: "crypto_libs \<Rightarrow> proof_of_intent \<Rightarrow> string res" where
  "encode_poi_header L p = map_res urlsafe_base64_encode (canonicalize L (JObj (poi_dump p)))"

definition decode_poi_header :: "text_libs \<Rightarrow> string \<Rightarrow> proof_of_intent res" where
  "decode_poi_header X s =
     bind_res (urlsafe_base64_decode s) (\<lambda>b. bind_res (json_loads_bytes X b) (\<lambda>j.
       case j of JObj d \<Rightarrow> poi_of_dict d | _ \<Rightarrow> Inl (Exc ValidationError ''ProofOfIntent'')))"

definition build_signature_header :: "proof_of_intent \<Rightarrow> string res" where
  "build_signature_header p =
     (case poi_agent_signature p of
        None \<Rightarrow> Inl (Exc ValueError ''a signed PoI is required for an action header'')
      | Some s \<Rightarrow> map_res urlsafe_base64_encode (bytes_fromhex s))"

definition build_agent_cert_header :: "string option \<Rightarrow> string res" where
  "build_agent_cert_header kid =
     (case kid of
        None \<Rightarrow> Inl (Exc ValueError ''agent_pubkey_id is required for an action header'')
      | Some k \<Rightarrow> if k = [] then Inl (Exc ValueError ''agent_pubkey_id is required for an action header'') else Inr k)"

section \<open>What the code relies on\<close>

text \<open>
  Parsing the RFC 8785 text of \<open>d\<close> gives an object with the same keys and values (RFC 8785 sorts the
  keys); \<^verbatim>\<open>json.loads(json.dumps(j))\<close> is \<open>j\<close>.
\<close>

definition canonical_parses :: "crypto_libs \<Rightarrow> text_libs \<Rightarrow> json dict \<Rightarrow> bool" where
  "canonical_parses L X d \<longleftrightarrow>
     (\<forall>b. rfc8785_dumps L (JObj d) = Inr b \<longrightarrow> (\<exists>d'. json_loads_bytes X b = Inr (JObj d') \<and> map_of d' = map_of d))"

definition json_text_roundtrip :: "text_libs \<Rightarrow> json \<Rightarrow> bool" where
  "json_text_roundtrip X j \<longleftrightarrow> json_loads X (json_dumps X j) = Inr j"

section \<open>The header round trip\<close>

lemma optional_text_opt_json: "map_of d k = Some (opt_json v) \<Longrightarrow> optional_text d k = Inr v"
  by (cases v) (simp_all add: optional_text_def opt_json_def)

lemma required_text_str: "map_of d k = Some (JStr s) \<Longrightarrow> s \<noteq> [] \<Longrightarrow> required_text d k = Inr s"
  by (simp add: required_text_def)

lemma poi_of_dict_dump:
  assumes "map_of d = map_of (poi_dump p)" "poi_valid p"
  shows "poi_of_dict d = Inr p"
proof -
  have g: "map_of d k = map_of (poi_dump p) k" for k using assms(1) by simp
  have t: "required_text d ''user_prompt_hash'' = Inr (poi_user_prompt_hash p)"
    "required_text d ''system_prompt_hash'' = Inr (poi_system_prompt_hash p)"
    "required_text d ''context_root'' = Inr (poi_context_root p)"
    "required_text d ''action_payload_hash'' = Inr (poi_action_payload_hash p)"
    "required_text d ''model_id'' = Inr (poi_model_id p)" "required_text d ''timestamp'' = Inr (poi_timestamp p)"
    "required_text d ''nonce'' = Inr (poi_nonce p)"
    using assms(2) by (auto simp: g poi_dump_def poi_valid_def intro!: required_text_str)
  have o: "optional_text d ''agent_type'' = Inr (poi_agent_type p)" "optional_text d ''agent_id'' = Inr (poi_agent_id p)"
    "optional_text d ''action_type'' = Inr (poi_action_type p)"
    "optional_text d ''policy_decision'' = Inr (poi_policy_decision p)"
    "optional_text d ''agent_signature'' = Inr (poi_agent_signature p)"
    "optional_text d ''agent_pubkey_id'' = Inr (poi_agent_pubkey_id p)"
    by (simp_all add: g poi_dump_def optional_text_opt_json)
  have "poi_of_dict d = validate_poi p" by (cases p) (simp add: poi_of_dict_def t o)
  with assms(2) show ?thesis by (simp add: validate_poi_def)
qed

lemma poi_of_dict_valid: "poi_of_dict d = Inr p \<Longrightarrow> poi_valid p"
  by (auto simp: poi_of_dict_def validate_poi_def bind_res_eq_Inr split: if_splits)

lemma distinct_poi_dump: "distinct (map fst (poi_dump p))"
  by (simp add: poi_dump_def)

lemma poi_dump_text: "list_all (\<lambda>(k, v). v = JNull \<or> is_str v) (poi_dump p)"
  by (simp add: poi_dump_def)

lemma decode_encode_poi_header:
  assumes "canonical_parses L X (poi_dump p)" "poi_valid p" "encode_poi_header L p = Inr s"
  shows "decode_poi_header X s = Inr p"
proof -
  from assms(3) obtain b where b: "rfc8785_dumps L (JObj (poi_dump p)) = Inr b" "s = urlsafe_base64_encode b"
    by (auto simp: encode_poi_header_def canonicalize_def map_res_eq_Inr)
  with assms(1) obtain d where
    "json_loads_bytes X b = Inr (JObj d)" "map_of d = map_of (poi_dump p)"
    unfolding canonical_parses_def by blast
  with poi_of_dict_dump assms(2) show ?thesis by (simp add: decode_poi_header_def b(2) urlsafe.dec_enc)
qed

lemma encode_poi_header_total: "dumps_text L \<Longrightarrow> \<exists>s. encode_poi_header L p = Inr s"
  using poi_dump_text [of p] by (force simp: encode_poi_header_def canonicalize_def dumps_text_def)

section \<open>Properties\<close>

text \<open>
  C31: the header round trip of a signed PoI: a PoI signed by \<^verbatim>\<open>sign_poi\<close> gets a proof header, a
  signature header and a certificate header; folding the proof header with any whitespace leaves it
  decodable to exactly the same PoI, the signature header decodes to the signature bytes of the PoI,
  and the certificate header is its key identifier.
\<close>

theorem poi_headers_round_trip:
  assumes "sign_poi L p k = Inr q" "poi_valid p" "dumps_text L" "canonical_parses L X (poi_dump q)"
  shows "\<exists>hdr sig raw kid. encode_poi_header L q = Inr hdr
    \<and> (\<forall>folded. filter (\<lambda>c. \<not> py_isspace c) folded = hdr \<longrightarrow> decode_poi_header X folded = Inr q)
    \<and> build_signature_header q = Inr sig \<and> urlsafe_base64_decode sig = Inr raw
    \<and> poi_agent_signature q = Some (bytes_hex raw)
    \<and> build_agent_cert_header (poi_agent_pubkey_id q) = Inr kid \<and> poi_agent_pubkey_id q = Some kid"
proof -
  from assms(1) obtain kid raw where kid: "agent_pubkey_id L k = Inr kid"
      "q = p\<lparr>poi_agent_pubkey_id := Some kid, poi_agent_signature := Some (bytes_hex raw)\<rparr>"
    unfolding sign_poi_eq_Inr by blast
  with assms(2) have v: "poi_valid q" by (simp add: poi_valid_def)
  obtain hdr where e: "encode_poi_header L q = Inr hdr" using encode_poi_header_total [OF assms(3)] by blast
  have d: "decode_poi_header X hdr = Inr q" using decode_encode_poi_header [OF assms(4) v e] .
  have "decode_poi_header X folded = Inr q" if "filter (\<lambda>c. \<not> py_isspace c) folded = hdr" for folded
  proof -
    have "compact_header folded = compact_header hdr" using that by (auto simp: compact_header_def)
    with d show ?thesis by (simp add: decode_poi_header_def urlsafe_base64_decode_def)
  qed
  moreover have "kid \<noteq> []" using kid(1) by (auto simp: agent_pubkey_id_def map_res_eq_Inr)
  ultimately show ?thesis
    using e kid(2) by (auto simp: build_signature_header_def build_agent_cert_header_def hex.dec_enc urlsafe.dec_enc)
qed

text \<open>A text library that knows the one header of \<open>demo_signed_poi\<close>.\<close>

definition demo_sign_key :: private_key where
  "demo_sign_key = Ed25519PrivateKey demo_key"

definition demo_header_poi :: proof_of_intent where
  "demo_header_poi = (case sign_poi demo_libs demo_unsigned_poi demo_sign_key of Inl _ \<Rightarrow> demo_unsigned_poi | Inr q \<Rightarrow> q)"

definition demo_text_libs :: text_libs where
  "demo_text_libs = \<lparr>json_loads = (\<lambda>s. Inl (Exc ValueError ''json'')), json_dumps = demo_text,
     json_loads_bytes = (\<lambda>b. if Inr b = rfc8785_dumps demo_libs (JObj (poi_dump demo_header_poi))
        then Inr (JObj (poi_dump demo_header_poi)) else Inl (Exc ValidationError ''json'')),
     parse_message = (\<lambda>b. Inl (Exc ValueError ''mime'')), message_bytes = (\<lambda>m. [])\<rparr>"

lemma demo_header_signed: "sign_poi demo_libs demo_unsigned_poi demo_sign_key = Inr demo_header_poi"
proof -
  obtain kid where kid: "agent_pubkey_id demo_libs demo_sign_key = Inr kid" by (simp add: demo_sign_key_def)
  obtain h where "poi_signing_hash demo_libs (demo_unsigned_poi\<lparr>poi_agent_pubkey_id := Some kid, poi_agent_signature := None\<rparr>) = Inr h"
    using poi_signing_hash_total [OF demo_dumps_text] by blast
  then obtain q where "sign_poi demo_libs demo_unsigned_poi demo_sign_key = Inr q"
    using kid by (auto simp: sign_poi_def Let_def sign_def demo_sign_key_def)
  then show ?thesis by (simp add: demo_header_poi_def)
qed

theorem poi_headers_round_trip_witness:
  "\<exists>hdr. encode_poi_header demo_libs demo_header_poi = Inr hdr \<and> decode_poi_header demo_text_libs hdr = Inr demo_header_poi"
proof -
  have v: "poi_valid demo_unsigned_poi" by (simp add: poi_valid_def demo_unsigned_poi_def)
  have c: "canonical_parses demo_libs demo_text_libs (poi_dump demo_header_poi)"
    by (simp add: canonical_parses_def demo_text_libs_def)
  from poi_headers_round_trip [OF demo_header_signed v demo_dumps_text c] obtain hdr where
    h: "encode_poi_header demo_libs demo_header_poi = Inr hdr"
      "\<forall>folded. filter (\<lambda>c. \<not> py_isspace c) folded = hdr \<longrightarrow> decode_poi_header demo_text_libs folded = Inr demo_header_poi"
    by blast
  then have "filter (\<lambda>c. \<not> py_isspace c) hdr = hdr"
    using compact_urlsafe by (auto simp: encode_poi_header_def map_res_eq_Inr urlsafe_base64_encode_def compact_header_def)
  with h show ?thesis by blast
qed

end
