(* ===== verification/Evidence_Store.thy ===== *)
theory Evidence_Store
  imports Poi_Encoding Account_Database
begin

text \<open>
  \<^verbatim>\<open>verification_portal/backend/eml_parser.py\<close> and \<^verbatim>\<open>evidence_store.py\<close>: extraction of the action from
  an e-mail artifact, and the evidence captured at action time with its optional persistence. An
  evidence object refers to a ledger that the code may go on appending to, so ledgers live in a heap
  and evidence holds a reference. The theory proves that evidence survives a restart: what a fresh
  store reloads is the registered evidence with the ledger cut to the entries of the action.
\<close>

section \<open>\<^verbatim>\<open>eml_parser.py\<close>\<close>

record parsed_eml =
  pe_action_id :: "string option"
  pe_to :: string
  pe_subject :: string
  pe_body :: string
  pe_poi_header :: "string option"
  pe_signature_header :: "string option"
  pe_agent_cert_header :: "string option"
  pe_action_payload :: json

text \<open>\<^verbatim>\<open>message.get(name)\<close>: header names are compared without case.\<close>

definition mime_header :: "mime_message \<Rightarrow> string \<Rightarrow> string option" where
  "mime_header m name =
     map_option snd (find (\<lambda>(k, v). str_lower k = str_lower name) (mm_headers m))"

definition header_text :: "mime_message \<Rightarrow> string \<Rightarrow> string" where
  "header_text m name = (case mime_header m name of None \<Rightarrow> [] | Some s \<Rightarrow> s)"

definition strip_final_newline :: "string \<Rightarrow> string" where
  "strip_final_newline body =
     (if endswith body [CHR 0x0D, CHR 0x0A] then take (length body - 2) body
      else if endswith body [CHR 0x0A] then take (length body - 1) body
      else body)"

definition body_from_message :: "mime_message \<Rightarrow> string res" where
  "body_from_message m =
     (if mm_multipart m
      then (case mm_plain_part m of None \<Rightarrow> Inr [] | Some r \<Rightarrow> map_res strip_final_newline r)
      else map_res strip_final_newline (mm_content m))"

definition parse_eml :: "text_libs \<Rightarrow> bytes \<Rightarrow> parsed_eml res" where
  "parse_eml X b =
     bind_res (parse_message X b) (\<lambda>m.
       let to = header_text m ''To''; subject = header_text m ''Subject'' in
       map_res (\<lambda>body. \<lparr>pe_action_id = (if header_text m ''Message-ID'' = [] then None else Some (header_text m ''Message-ID'')),
           pe_to = to, pe_subject = subject, pe_body = body,
           pe_poi_header = mime_header m ''X-AoR-Proof-of-Intent'',
           pe_signature_header = mime_header m ''X-AoR-Signature'',
           pe_agent_cert_header = mime_header m ''X-AoR-Agent-Cert'',
           pe_action_payload = JObj [(''to'', JStr to), (''subject'', JStr subject), (''body'', JStr body)]\<rparr>)
         (body_from_message m))"

section \<open>\<^verbatim>\<open>evidence_store.py\<close>\<close>

type_synonym ledger_heap = "ledger list"

text \<open>\<open>ae_ledger\<close> is the reference of the ledger. \<^verbatim>\<open>None\<close> payloads are \<open>None\<close>.\<close>

record action_evidence =
  ae_action_id :: string
  ae_user_envelope :: signed_envelope
  ae_system_prompt :: string
  ae_ledger :: nat
  ae_ledger_entry_count :: int
  ae_eml_bytes :: "bytes option"
  ae_poi :: "proof_of_intent option"
  ae_action_type :: "string option"
  ae_action_payload :: "json option"
  ae_observed_effect :: "json option"
  ae_timestamp_token :: "bytes option"

text \<open>\<^verbatim>\<open>xs[:n]\<close>; a negative bound counts from the end.\<close>

definition slice_to :: "int \<Rightarrow> 'a list \<Rightarrow> 'a list" where
  "slice_to n xs = (if n < 0 then take (length xs - nat (- n)) xs else take (nat n) xs)"

definition action_entries :: "ledger_heap \<Rightarrow> action_evidence \<Rightarrow> ledger_entry list" where
  "action_entries H ev = slice_to (ae_ledger_entry_count ev) (all_entries (H ! ae_ledger ev))"

definition entry_dump :: "ledger_entry \<Rightarrow> json" where
  "entry_dump e = JObj [(''entry_id'', JInt (entry_id e)), (''entry_type'', JStr (entry_type e)),
     (''content'', content e), (''timestamp'', JStr (entry_timestamp e)),
     (''prev_hash'', JStr (bytes_hex (prev_hash e))), (''leaf_hash'', JStr (bytes_hex (leaf_hash e)))]"

definition json_option :: "json option \<Rightarrow> json" where
  "json_option v = (case v of None \<Rightarrow> JNull | Some j \<Rightarrow> j)"

definition evidence_dump :: "ledger_heap \<Rightarrow> action_evidence \<Rightarrow> json" where
  "evidence_dump H ev = JObj
     [(''user_envelope'', JObj (envelope_dump (ae_user_envelope ev))),
      (''system_prompt'', JStr (ae_system_prompt ev)),
      (''ledger_entry_count_at_action'', JInt (ae_ledger_entry_count ev)),
      (''ledger_entries'', JList (map entry_dump (action_entries H ev))),
      (''eml_bytes'', opt_json (map_option b64encode (ae_eml_bytes ev))),
      (''poi'', json_option (map_option (\<lambda>p. JObj (poi_dump p)) (ae_poi ev))),
      (''action_type'', opt_json (ae_action_type ev)),
      (''action_payload'', json_option (ae_action_payload ev)),
      (''observed_effect'', json_option (ae_observed_effect ev)),
      (''timestamp_token'', opt_json (map_option b64encode (ae_timestamp_token ev)))]"

definition serialize_evidence :: "text_libs \<Rightarrow> ledger_heap \<Rightarrow> action_evidence \<Rightarrow> string" where
  "serialize_evidence X H ev = json_dumps X (evidence_dump H ev)"

text \<open>
  Reading the stored object. \<^verbatim>\<open>payload[k]\<close> raises \<^verbatim>\<open>KeyError\<close> and \<^verbatim>\<open>payload.get(k)\<close> does not. A value of another
  type than the field's, which \<^verbatim>\<open>_serialize\<close> never writes, is a \<^verbatim>\<open>TypeError\<close> here (the dataclass would
  hold it unchecked).
\<close>

definition json_item :: "json dict \<Rightarrow> string \<Rightarrow> json res" where
  "json_item d k = (case map_of d k of None \<Rightarrow> Inl (Exc KeyError k) | Some j \<Rightarrow> Inr j)"

definition wrong_type :: "'a res" where
  "wrong_type = Inl (Exc TypeError ''unexpected JSON type'')"

definition as_text :: "json \<Rightarrow> string res" where
  "as_text j = (case j of JStr s \<Rightarrow> Inr s | _ \<Rightarrow> wrong_type)"

definition as_int :: "json \<Rightarrow> int res" where
  "as_int j = (case j of JInt i \<Rightarrow> Inr i | _ \<Rightarrow> wrong_type)"

definition as_items :: "json \<Rightarrow> json list res" where
  "as_items j = (case j of JList xs \<Rightarrow> Inr xs | _ \<Rightarrow> wrong_type)"

definition as_dict :: "json \<Rightarrow> json dict res" where
  "as_dict j = (case j of JObj d \<Rightarrow> Inr d | _ \<Rightarrow> wrong_type)"

definition optional_json :: "json \<Rightarrow> json option" where
  "optional_json j = (if j = JNull then None else Some j)"

definition opt_res :: "(json \<Rightarrow> 'a res) \<Rightarrow> json \<Rightarrow> 'a option res" where
  "opt_res f j = (if j = JNull then Inr None else map_res Some (f j))"

definition entry_of_json :: "json \<Rightarrow> ledger_entry res" where
  "entry_of_json j =
     bind_res (as_dict j) (\<lambda>d.
     bind_res (bind_res (json_item d ''entry_id'') as_int) (\<lambda>i.
     bind_res (bind_res (json_item d ''entry_type'') as_text) (\<lambda>ty.
     bind_res (json_item d ''content'') (\<lambda>c.
     bind_res (bind_res (json_item d ''timestamp'') as_text) (\<lambda>ts.
     bind_res (bind_res (bind_res (json_item d ''prev_hash'') as_text) bytes_fromhex) (\<lambda>p.
     bind_res (bind_res (bind_res (json_item d ''leaf_hash'') as_text) bytes_fromhex) (\<lambda>h.
       Inr \<lparr>entry_id = i, entry_type = ty, content = c, entry_timestamp = ts, prev_hash = p, leaf_hash = h\<rparr>)))))))"

definition deserialize_evidence ::
  "text_libs \<Rightarrow> string \<Rightarrow> string \<Rightarrow> ledger_heap \<Rightarrow> (action_evidence \<times> ledger_heap) res" where
  "deserialize_evidence X aid s H =
     bind_res (bind_res (json_loads X s) as_dict) (\<lambda>d.
     bind_res (bind_res (bind_res (json_item d ''ledger_entries'') as_items) (traverse entry_of_json)) (\<lambda>es.
     bind_res (bind_res (bind_res (json_item d ''user_envelope'') as_dict) validate_envelope) (\<lambda>env.
     bind_res (bind_res (json_item d ''system_prompt'') as_text) (\<lambda>sp.
     bind_res (bind_res (json_item d ''ledger_entry_count_at_action'') as_int) (\<lambda>n.
     bind_res (bind_res (json_item d ''eml_bytes'') (opt_res (\<lambda>j. bind_res (as_text j) (b64decode False)))) (\<lambda>eml.
     bind_res (opt_res (\<lambda>j. bind_res (as_dict j) poi_of_dict) (get_or_null d ''poi'')) (\<lambda>poi.
     bind_res (opt_res as_text (get_or_null d ''action_type'')) (\<lambda>act.
     bind_res (bind_res (json_item d ''timestamp_token'') (opt_res (\<lambda>j. bind_res (as_text j) (b64decode False)))) (\<lambda>tok.
       Inr (\<lparr>ae_action_id = aid, ae_user_envelope = env, ae_system_prompt = sp, ae_ledger = length H,
               ae_ledger_entry_count = n, ae_eml_bytes = eml, ae_poi = poi, ae_action_type = act,
               ae_action_payload = optional_json (get_or_null d ''action_payload''),
               ae_observed_effect = optional_json (get_or_null d ''observed_effect''),
               ae_timestamp_token = tok\<rparr>,
            H @ [from_entries es]))))))))))"

text \<open>The store: the loaded evidence, and whether a persistence was given.\<close>

record evidence_store =
  es_evidence :: "(string \<times> action_evidence) list"
  es_persistent :: bool

definition new_evidence_store :: "bool \<Rightarrow> evidence_store" where
  "new_evidence_store persistent = \<lparr>es_evidence = [], es_persistent = persistent\<rparr>"

definition register_evidence ::
  "text_libs \<Rightarrow> ledger_heap \<Rightarrow> action_evidence \<Rightarrow> evidence_store \<times> database \<Rightarrow> evidence_store \<times> database" where
  "register_evidence X H ev s =
     (case s of (st, db) \<Rightarrow>
        (st\<lparr>es_evidence := dict_set (ae_action_id ev) ev (es_evidence st)\<rparr>,
         if es_persistent st then save_action_evidence (ae_action_id ev) (serialize_evidence X H ev) db else db))"

definition get_evidence ::
  "text_libs \<Rightarrow> database \<Rightarrow> string \<Rightarrow> evidence_store \<times> ledger_heap
   \<Rightarrow> (action_evidence option \<times> evidence_store \<times> ledger_heap) res" where
  "get_evidence X db aid s =
     (case s of (st, H) \<Rightarrow>
        (case map_of (es_evidence st) aid of
           Some ev \<Rightarrow> Inr (Some ev, st, H)
         | None \<Rightarrow>
             if \<not> es_persistent st then Inr (None, st, H)
             else
               (case get_action_evidence aid db of
                  None \<Rightarrow> Inr (None, st, H)
                | Some j \<Rightarrow>
                    map_res (\<lambda>(ev, H'). (Some ev, st\<lparr>es_evidence := dict_set aid ev (es_evidence st)\<rparr>, H'))
                      (deserialize_evidence X aid j H))))"

definition all_evidence :: "evidence_store \<Rightarrow> action_evidence list" where
  "all_evidence st = map snd (es_evidence st)"

section \<open>Serialization round trip\<close>

definition env_valid :: "signed_envelope \<Rightarrow> bool" where
  "env_valid env \<longleftrightarrow> env_prompt env \<noteq> [] \<and> env_user_id env \<noteq> [] \<and> env_session_id env \<noteq> []
     \<and> env_timestamp env \<noteq> [] \<and> env_nonce env \<noteq> [] \<and> env_signature env \<noteq> [] \<and> env_pubkey_id env \<noteq> []"

lemma required_text_nonempty: "required_text d k = Inr s \<Longrightarrow> s \<noteq> []"
  by (auto simp: required_text_def split: option.splits json.splits if_splits)

lemma validate_envelope_valid:
  assumes "validate_envelope d = Inr env"
  shows "env_valid env"
proof -
  obtain p u ses t n g k where t: "required_text d ''prompt'' = Inr p" "required_text d ''user_id'' = Inr u"
      "required_text d ''session_id'' = Inr ses" "required_text d ''timestamp'' = Inr t" "required_text d ''nonce'' = Inr n"
      "required_text d ''signature'' = Inr g" "required_text d ''pubkey_id'' = Inr k"
    and e: "(case map_of d ''signature_algorithm'' of None \<Rightarrow> Inr \<lparr>env_prompt = p, env_user_id = u, env_session_id = ses,
        env_timestamp = t, env_nonce = n, env_signature = g, env_pubkey_id = k, env_signature_algorithm = ''ECDSA-P256-SHA256''\<rparr>
      | Some (JStr a) \<Rightarrow> Inr \<lparr>env_prompt = p, env_user_id = u, env_session_id = ses,
        env_timestamp = t, env_nonce = n, env_signature = g, env_pubkey_id = k, env_signature_algorithm = a\<rparr>
      | Some _ \<Rightarrow> Inl (Exc ValidationError ''signature_algorithm'')) = (Inr env :: signed_envelope res)"
    using assms unfolding validate_envelope_def bind_res_eq_Inr Let_def signed_envelope.simps
    by (elim exE conjE) (rule that)
  from e have "env \<in> range (\<lambda>a. \<lparr>env_prompt = p, env_user_id = u, env_session_id = ses,
      env_timestamp = t, env_nonce = n, env_signature = g, env_pubkey_id = k, env_signature_algorithm = a\<rparr>)"
  proof (cases "map_of d ''signature_algorithm''")
    case (Some j) then show ?thesis using e by (cases j) auto
  qed auto
  with t [THEN required_text_nonempty] show ?thesis by (auto simp: env_valid_def)
qed

lemma validate_envelope_dump: "env_valid env \<Longrightarrow> validate_envelope (envelope_dump env) = Inr env"
  by (cases env) (simp add: validate_envelope_def envelope_dump_def required_text_def env_valid_def)

lemma as_json_simps [simp]:
  "as_text (JStr s) = Inr s" "as_int (JInt i) = Inr i" "as_items (JList xs) = Inr xs" "as_dict (JObj d) = Inr d"
  by (simp_all add: as_text_def as_int_def as_items_def as_dict_def)

lemma opt_res_opt_json: "opt_res f (opt_json v) = (case v of None \<Rightarrow> Inr None | Some s \<Rightarrow> map_res Some (f (JStr s)))"
  by (simp add: opt_res_def opt_json_def split: option.split)

lemma entry_of_json_dump [simp]: "entry_of_json (entry_dump e) = Inr e"
  by (simp add: entry_of_json_def entry_dump_def json_item_def hex.dec_enc)

lemma traverse_entries [simp]: "traverse entry_of_json (map entry_dump es) = Inr es"
  by (induction es) simp_all

text \<open>Evidence the code can build: validated envelope and PoI, payloads that are dictionaries.\<close>

definition evidence_wf :: "action_evidence \<Rightarrow> bool" where
  "evidence_wf ev \<longleftrightarrow> env_valid (ae_user_envelope ev)
     \<and> (case ae_poi ev of None \<Rightarrow> True | Some p \<Rightarrow> poi_valid p)
     \<and> ae_action_payload ev \<noteq> Some JNull \<and> ae_observed_effect ev \<noteq> Some JNull"

lemma optional_json_option: "v \<noteq> Some JNull \<Longrightarrow> optional_json (json_option v) = v"
  by (cases v) (auto simp: optional_json_def json_option_def)

lemma opt_bytes_roundtrip:
  "opt_res (\<lambda>j. bind_res (as_text j) (b64decode False)) (opt_json (map_option b64encode v)) = Inr v"
  by (cases v) (simp_all add: opt_res_opt_json b64.dec_enc)

lemma opt_text_roundtrip: "opt_res as_text (opt_json v) = Inr v"
  by (cases v) (simp_all add: opt_res_opt_json)

lemma opt_poi_roundtrip:
  assumes "case v of None \<Rightarrow> True | Some p \<Rightarrow> poi_valid p"
  shows "opt_res (\<lambda>j. bind_res (as_dict j) poi_of_dict) (json_option (map_option (\<lambda>p. JObj (poi_dump p)) v)) = Inr v"
  using assms by (cases v) (simp_all add: opt_res_def json_option_def poi_of_dict_dump)

lemma from_entries_eq: "from_entries es = \<lparr>led_entries = es\<rparr>"
  using from_all_entries [of "\<lparr>led_entries = es\<rparr>"] by (simp add: all_entries_def)

lemma deserialize_serialize:
  assumes "json_text_roundtrip X (evidence_dump H ev)" "evidence_wf ev"
  shows "deserialize_evidence X (ae_action_id ev) (serialize_evidence X H ev) H' =
    Inr (ev\<lparr>ae_ledger := length H'\<rparr>, H' @ [\<lparr>led_entries = action_entries H ev\<rparr>])"
proof -
  from assms(2) have w: "validate_envelope (envelope_dump (ae_user_envelope ev)) = Inr (ae_user_envelope ev)"
    "opt_res (\<lambda>j. bind_res (as_dict j) poi_of_dict) (json_option (map_option (\<lambda>p. JObj (poi_dump p)) (ae_poi ev))) = Inr (ae_poi ev)"
    "optional_json (json_option (ae_action_payload ev)) = ae_action_payload ev"
    "optional_json (json_option (ae_observed_effect ev)) = ae_observed_effect ev"
    by (simp_all add: evidence_wf_def validate_envelope_dump opt_poi_roundtrip optional_json_option)
  have "json_loads X (serialize_evidence X H ev) = Inr (evidence_dump H ev)"
    using assms(1) by (simp add: serialize_evidence_def json_text_roundtrip_def)
  then show ?thesis
    by (simp add: deserialize_evidence_def evidence_dump_def json_item_def get_or_null_def w
        opt_bytes_roundtrip opt_text_roundtrip from_entries_eq)
qed

text \<open>The action's entries are the ones a later append leaves alone.\<close>

lemma slice_to_append:
  assumes "0 \<le> n" "n \<le> int (length xs)"
  shows "slice_to n (xs @ ys) = slice_to n xs"
  using assms by (simp add: slice_to_def nat_le_iff)

lemma action_entries_slice [simp]: "slice_to n (slice_to n xs) = slice_to n xs" if "0 \<le> n"
  using that by (simp add: slice_to_def)

section \<open>Properties\<close>

lemma get_registered:
  "get_evidence X db (ae_action_id ev) (fst (register_evidence X H ev (st, db')), H2) =
     Inr (Some ev, fst (register_evidence X H ev (st, db')), H2)"
  by (simp add: get_evidence_def register_evidence_def)

lemma persisted_evidence:
  assumes "es_persistent st" "\<forall>kv \<in> set later. fst kv \<noteq> ae_action_id ev"
  shows "get_action_evidence (ae_action_id ev)
      (fold (\<lambda>(k, v). save_action_evidence k v) later (snd (register_evidence X H ev (st, db)))) =
    Some (serialize_evidence X H ev)"
proof -
  have "map_of (rev later) (ae_action_id ev) = None" using assms(2) by (auto simp: map_of_eq_None_iff)
  then show ?thesis using assms(1) by (simp add: evidence_rows.load_saves register_evidence_def evidence_rows.load_saved)
qed

lemma reload_evidence:
  assumes "json_text_roundtrip X (evidence_dump H ev)" "evidence_wf ev"
    and "get_action_evidence (ae_action_id ev) db = Some (serialize_evidence X H ev)"
  shows "get_evidence X db (ae_action_id ev) (new_evidence_store True, H2) =
    Inr (Some (ev\<lparr>ae_ledger := length H2\<rparr>),
      \<lparr>es_evidence = [(ae_action_id ev, ev\<lparr>ae_ledger := length H2\<rparr>)], es_persistent = True\<rparr>,
      H2 @ [\<lparr>led_entries = action_entries H ev\<rparr>])"
  using assms(3) deserialize_serialize [OF assms(1,2)] by (simp add: get_evidence_def new_evidence_store_def)

text \<open>
  Evidence survives a restart. After \<^verbatim>\<open>register\<close> on a store with persistence, and any number of
  later saves for other actions, a fresh store on the same database returns the registered evidence,
  field by field, its ledger being a new ledger that holds exactly the first
  \<^verbatim>\<open>ledger_entry_count_at_action\<close> entries of the original one; the original store returns the evidence
  object itself.
\<close>

theorem evidence_survives_restart:
  assumes "json_text_roundtrip X (evidence_dump H ev)" "evidence_wf ev" "es_persistent st"
    and "register_evidence X H ev (st, db) = (st', db')" "\<forall>kv \<in> set later. fst kv \<noteq> ae_action_id ev"
  shows "\<exists>st2 H3 ev'. get_evidence X (fold (\<lambda>(k, v). save_action_evidence k v) later db') (ae_action_id ev)
        (new_evidence_store True, H2) = Inr (Some ev', st2, H3)
    \<and> ev' = ev\<lparr>ae_ledger := length H2\<rparr> \<and> H3 = H2 @ [\<lparr>led_entries = action_entries H ev\<rparr>]
    \<and> get_evidence X db' (ae_action_id ev) (st', H) = Inr (Some ev, st', H)"
proof -
  have d: "st' = fst (register_evidence X H ev (st, db))" "db' = snd (register_evidence X H ev (st, db))"
    using assms(4) by simp_all
  note p = persisted_evidence [OF assms(3,5), of X H db]
  show ?thesis
    using reload_evidence [OF assms(1,2) p, of H2] get_registered [of X db' ev H st db H]
    unfolding d by blast
qed

definition demo_evidence :: action_evidence where
  "demo_evidence = \<lparr>ae_action_id = ''a1'', ae_user_envelope = demo_envelope_for ''sig'', ae_system_prompt = ''sys'', ae_ledger = 0,
     ae_ledger_entry_count = 1, ae_eml_bytes = Some [1, 2], ae_poi = Some demo_signed_poi, ae_action_type = Some ''email'',
     ae_action_payload = None, ae_observed_effect = None, ae_timestamp_token = None\<rparr>"

definition demo_evidence_libs :: text_libs where
  "demo_evidence_libs = demo_text_libs\<lparr>json_loads := (\<lambda>_. Inr (evidence_dump [demo_ledger] demo_evidence))\<rparr>"

lemma demo_evidence_wf: "evidence_wf demo_evidence"
  by (simp add: evidence_wf_def demo_evidence_def env_valid_def demo_envelope_for_def poi_valid_def
      demo_signed_poi_def demo_unsigned_poi_def)

theorem evidence_survives_restart_witness:
  "\<exists>db'. snd (register_evidence demo_evidence_libs [demo_ledger] demo_evidence (new_evidence_store True, empty_database)) = db'
    \<and> (\<exists>st2. get_evidence demo_evidence_libs db' ''a1'' (new_evidence_store True, []) =
         Inr (Some demo_evidence, st2, [\<lparr>led_entries = take 1 (led_entries demo_ledger)\<rparr>]))"
proof -
  have j: "json_text_roundtrip demo_evidence_libs (evidence_dump [demo_ledger] demo_evidence)"
    by (simp add: json_text_roundtrip_def demo_evidence_libs_def)
  have p: "es_persistent (new_evidence_store True)" by (simp add: new_evidence_store_def)
  have i: "ae_action_id demo_evidence = ''a1''" "demo_evidence\<lparr>ae_ledger := 0\<rparr> = demo_evidence"
    "action_entries [demo_ledger] demo_evidence = take 1 (led_entries demo_ledger)"
    by (simp_all add: demo_evidence_def action_entries_def slice_to_def all_entries_def)
  from evidence_survives_restart [OF j demo_evidence_wf p prod.collapse [symmetric], of "[]" empty_database "[]"]
  show ?thesis by (auto simp: i)
qed

end
