(* ===== verification/Verify_Pipeline.thy ===== *)
theory Verify_Pipeline
  imports Evidence_Store Tsa_Anchor
begin

text \<open>
  \<^verbatim>\<open>verification_portal/backend/verify_pipeline.py\<close> with \<^verbatim>\<open>models.py\<close>, \<^verbatim>\<open>tsa_verify.py\<close> and the handlers of
  \<^verbatim>\<open>main.py\<close>: the six-link forensic verification of an action. One definition per step of
  \<^verbatim>\<open>run_verification\<close>; what the steps before set is passed on explicitly. Evidence lookups may load
  evidence from the database, so the evidence store and the ledger heap are returned.
 
\<close>

section \<open>\<^verbatim>\<open>models.py\<close>\<close>

record link_result =
  lr_name :: string
  lr_passed :: bool
  lr_detail :: string
  lr_status :: string

definition link :: "string \<Rightarrow> bool \<Rightarrow> string \<Rightarrow> string \<Rightarrow> link_result" where
  "link name passed status detail = \<lparr>lr_name = name, lr_passed = passed, lr_detail = detail, lr_status = status\<rparr>"

record merkle_node_view =
  mn_hash :: string
  mn_entry_id :: "int option"
  mn_duplicated :: bool

record merkle_level_view =
  ml_level :: nat
  ml_label :: string
  ml_nodes :: "merkle_node_view list"

record merkle_tree_view =
  mv_root :: string
  mv_signed_root :: "string option"
  mv_root_matches_signed :: "bool option"
  mv_leaf_count :: nat
  mv_proof_entry_id :: "int option"
  mv_proof_valid :: "bool option"
  mv_levels :: "merkle_level_view list"

record verification_trace =
  vt_action_id :: "string option"
  vt_agent_type :: "string option"
  vt_agent_id :: "string option"
  vt_action_type :: "string option"
  vt_policy_decision :: "string option"
  vt_overall_valid :: bool
  vt_links :: "link_result list"
  vt_timestamp_verified :: bool
  vt_merkle_tree :: "merkle_tree_view option"

section \<open>Helpers\<close>

definition repr_option :: "string option \<Rightarrow> string" where
  "repr_option v = (case v of None \<Rightarrow> ''None'' | Some s \<Rightarrow> py_repr s)"

definition load_public_key :: "crypto_libs \<Rightarrow> bytes \<Rightarrow> public_key res" where
  "load_public_key L b =
     (case load_der_public_key L b of
        Inl e \<Rightarrow> if caught_by [ValueError] e \<and> length b = 32 then ed25519_from_public_bytes L b else Inl e
      | Inr pk \<Rightarrow> if \<not> is_supported pk then Inl (Exc ValueError ''unsupported registered public key'') else Inr pk)"

fun recomputed_from :: "crypto_libs \<Rightarrow> bytes \<Rightarrow> ledger_entry list \<Rightarrow> ledger_entry list res" where
  "recomputed_from L previous [] = Inr []"
| "recomputed_from L previous (e # es) =
     bind_res (compute_leaf_hash L (content e) previous) (\<lambda>h.
       map_res (\<lambda>es'. e\<lparr>prev_hash := previous, leaf_hash := h\<rparr> # es') (recomputed_from L h es))"

definition recomputed_entries :: "crypto_libs \<Rightarrow> ledger_entry list \<Rightarrow> ledger_entry list res" where
  "recomputed_entries L es = recomputed_from L [] es"

definition unavailable :: "string \<Rightarrow> string \<Rightarrow> link_result" where
  "unavailable name detail = link name False ''unavailable'' detail"

definition level_view :: "nat \<Rightarrow> int list \<Rightarrow> nat \<Rightarrow> bytes list \<Rightarrow> merkle_level_view" where
  "level_view n entry_ids level hashes =
     (let odd_level = level + 1 < n \<and> length hashes mod 2 \<noteq> 0;
          display = (if odd_level then hashes @ [last hashes] else hashes) in
      \<lparr>ml_level = level,
       ml_label = (if level = 0 then ''Leaves'' else if level + 1 = n then ''Root'' else ''Level '' @ show_int (int level)),
       ml_nodes = map (\<lambda>(index, digest).
          \<lparr>mn_hash = bytes_hex digest,
           mn_entry_id = (if level = 0 then Some (entry_ids ! min index (length entry_ids - 1)) else None),
           mn_duplicated = (odd_level \<and> index = length hashes)\<rparr>) (enumerate 0 display)\<rparr>)"

definition tree_view ::
  "merkle_tree \<Rightarrow> ledger_entry list \<Rightarrow> string option \<Rightarrow> int option \<Rightarrow> bool option \<Rightarrow> merkle_tree_view" where
  "tree_view t es signed_root proof_entry_id proof_valid =
     (let root = bytes_hex (mt_root t) in
      \<lparr>mv_root = root, mv_signed_root = signed_root,
       mv_root_matches_signed =
         (case signed_root of None \<Rightarrow> None | Some s \<Rightarrow> if s = [] then None else Some (root = s)),
       mv_leaf_count = length es, mv_proof_entry_id = proof_entry_id, mv_proof_valid = proof_valid,
       mv_levels = map (\<lambda>(i, hashes). level_view (length (mt_levels t)) (map entry_id es) i hashes)
         (enumerate 0 (mt_levels t))\<rparr>)"

section \<open>\<^verbatim>\<open>tsa_verify.py\<close>\<close>

record timestamp_anchor_result =
  tar_verified :: bool
  tar_pending :: bool
  tar_detail :: string

text \<open>What the pipeline reads from outside: the TSA configuration file, the HTTPS download, the database.\<close>

record outside =
  out_tsa_config :: "json dict res"
  out_get :: "string \<Rightarrow> bytes res"
  out_database :: database

definition verify_anchor_token ::
  "tsa_libs \<Rightarrow> outside \<Rightarrow> bytes option \<Rightarrow> bytes \<Rightarrow> timestamp_anchor_result res" where
  "verify_anchor_token T out token root =
     (case token of
        None \<Rightarrow> Inr \<lparr>tar_verified = False, tar_pending = True, tar_detail = ''pending: no RFC 3161 timestamp token recorded''\<rparr>
      | Some tok \<Rightarrow>
          (case bind_res (bind_res (out_tsa_config out) load_tsa_config) (\<lambda>cfg.
                  bind_res (fetch_pinned_root_certificate T (out_get out) cfg) (\<lambda>c.
                    verify_timestamp_token T tok root (ParsedCertificate c))) of
             Inl e \<Rightarrow> Inr \<lparr>tar_verified = False, tar_pending = False,
                          tar_detail = ''RFC 3161 verification unavailable: '' @ exc_str e\<rparr>
           | Inr v \<Rightarrow>
               if \<not> tvr_verified v
               then Inr \<lparr>tar_verified = False, tar_pending = False, tar_detail = tvr_detail v\<rparr>
               else
                 (case tvr_gen_time v of
                    None \<Rightarrow> Inl (Exc AssertionError [])
                  | Some t \<Rightarrow> Inr \<lparr>tar_verified = True, tar_pending = False,
                                 tar_detail = ''verified, anchored at '' @ isoformat_utc t\<rparr>)))"

section \<open>Step 1: extraction\<close>

definition falsy :: "string option \<Rightarrow> bool" where
  "falsy v \<longleftrightarrow> v = None \<or> v = Some []"

definition lookup_if ::
  "text_libs \<Rightarrow> database \<Rightarrow> string option \<Rightarrow> action_evidence option \<Rightarrow> evidence_store \<times> ledger_heap
   \<Rightarrow> (action_evidence option \<times> evidence_store \<times> ledger_heap) res" where
  "lookup_if X db aid current s =
     (case aid of None \<Rightarrow> Inr (current, s) | Some a \<Rightarrow> if a = [] then Inr (current, s) else get_evidence X db a s)"

definition read_artifact :: "text_libs \<Rightarrow> string \<Rightarrow> bytes \<Rightarrow> link_result list \<times> parsed_eml option" where
  "read_artifact X prefix b =
     (case parse_eml X b of
        Inl e \<Rightarrow> ([link ''poi_extraction'' False ''failed'' (prefix @ exc_str e)], None)
      | Inr p \<Rightarrow> ([], Some p))"

text \<open>
  The links so far and the extracted PoI. (The assignment to \<^verbatim>\<open>parsed["action_payload"]\<close> for stored PoIs
  is never read again, because no artifact was uploaded then.)
\<close>

definition extract_poi ::
  "text_libs \<Rightarrow> bytes option \<Rightarrow> action_evidence option \<Rightarrow> link_result list \<Rightarrow> parsed_eml option
   \<Rightarrow> link_result list \<times> proof_of_intent option" where
  "extract_poi X eml ev links parsed =
     (case (if links = [] \<and> eml = None then Option.bind ev ae_poi else None) of
        Some p \<Rightarrow>
          (links @ [link ''poi_extraction'' True ''passed'' ''signed PoI loaded from structured action evidence''], Some p)
      | None \<Rightarrow>
          if links = [] then
            (case Option.bind parsed pe_poi_header of
               None \<Rightarrow> ([link ''poi_extraction'' False ''failed'' ''X-AoR-Proof-of-Intent header is missing''], None)
             | Some h \<Rightarrow>
                 if h = [] then ([link ''poi_extraction'' False ''failed'' ''X-AoR-Proof-of-Intent header is missing''], None)
                 else
                   (case decode_poi_header X h of
                      Inr p \<Rightarrow> ([link ''poi_extraction'' True ''passed'' ''signed PoI decoded from email header''], Some p)
                    | Inl e \<Rightarrow> ([link ''poi_extraction'' False ''failed'' (''malformed PoI header: '' @ exc_str e)], None)))
          else (links, None))"

record intake =
  in_links :: "link_result list"
  in_parsed :: "parsed_eml option"
  in_poi :: "proof_of_intent option"
  in_evidence :: "action_evidence option"
  in_action_id :: "string option"

definition take_in ::
  "text_libs \<Rightarrow> database \<Rightarrow> bytes option \<Rightarrow> string option \<Rightarrow> evidence_store \<times> ledger_heap
   \<Rightarrow> intake res \<times> evidence_store \<times> ledger_heap" where
  "take_in X db eml aid s =
     (case lookup_if X db aid None s of
        Inl e \<Rightarrow> (Inl e, s)
      | Inr (ev0, s1) \<Rightarrow>
          (let (links1, parsed1) = (case eml of None \<Rightarrow> ([], None) | Some b \<Rightarrow> read_artifact X ''invalid .eml: '' b);
               aid1 = (case parsed1 of None \<Rightarrow> aid | Some p \<Rightarrow> if falsy aid then pe_action_id p else aid) in
           case lookup_if X db aid1 ev0 s1 of
             Inl e \<Rightarrow> (Inl e, s1)
           | Inr (ev, s2) \<Rightarrow>
               (let (links2, parsed2) =
                      (case (if eml = None then Option.bind ev ae_eml_bytes else None) of
                         None \<Rightarrow> (links1, parsed1)
                       | Some b \<Rightarrow> read_artifact X ''stored .eml is invalid: '' b);
                    (links3, poi) = extract_poi X eml ev links2 parsed2 in
                (Inr \<lparr>in_links = links3, in_parsed = parsed2, in_poi = poi, in_evidence = ev, in_action_id = aid1\<rparr>, s2))))"

section \<open>Step 2: hash recomputation\<close>

definition hash_matches :: "crypto_libs \<Rightarrow> json \<Rightarrow> string \<Rightarrow> bool res" where
  "hash_matches L j expected = map_res (\<lambda>h. bytes_hex h = expected) (hash_payload L j)"

definition mismatch_unless :: "string \<Rightarrow> bool \<Rightarrow> string list" where
  "mismatch_unless name ok = (if ok then [] else [name])"

definition action_mismatches ::
  "crypto_libs \<Rightarrow> text_libs \<Rightarrow> bytes option \<Rightarrow> parsed_eml option \<Rightarrow> action_evidence \<Rightarrow> proof_of_intent \<Rightarrow> string list res" where
  "action_mismatches L X eml parsed ev p =
     (let check = (\<lambda>j. map_res (mismatch_unless ''action_payload_hash'') (hash_matches L j (poi_action_payload_hash p))) in
      if eml \<noteq> None then
        (case parsed of None \<Rightarrow> Inr [''action_payload_hash''] | Some pe \<Rightarrow> check (pe_action_payload pe))
      else
        (case ae_action_payload ev of
           Some j \<Rightarrow> check j
         | None \<Rightarrow>
             (case ae_eml_bytes ev of
                None \<Rightarrow> Inr [''action_payload_hash (no stored .eml)'']
              | Some b \<Rightarrow>
                  (case bind_res (parse_eml X b) (\<lambda>pe. check (pe_action_payload pe)) of
                     Inl _ \<Rightarrow> Inr [''action_payload_hash''] | Inr ms \<Rightarrow> Inr ms))))"

type_synonym rebuilt = "ledger_entry list \<times> merkle_tree"

definition rebuild_context :: "crypto_libs \<Rightarrow> ledger_entry list \<Rightarrow> rebuilt res" where
  "rebuild_context L es =
     bind_res (recomputed_entries L es) (\<lambda>es'. map_res (\<lambda>t. (es', t)) (build_merkle_tree L es'))"

definition context_mismatches :: "rebuilt res \<Rightarrow> proof_of_intent \<Rightarrow> string list" where
  "context_mismatches r p =
     (case r of
        Inl e \<Rightarrow> [''context_root ('' @ exc_str e @ '')'']
      | Inr (_, t) \<Rightarrow> mismatch_unless ''context_root'' (bytes_hex (mt_root t) = poi_context_root p))"

definition res_option :: "'a res \<Rightarrow> 'a option" where
  "res_option r = (case r of Inl _ \<Rightarrow> None | Inr x \<Rightarrow> Some x)"

definition hash_verdict :: "string list \<Rightarrow> link_result" where
  "hash_verdict ms =
     (if ms \<noteq> [] then link ''hash_recomputation'' False ''failed'' (''mismatched: '' @ str_join '', '' ms)
      else link ''hash_recomputation'' True ''passed'' ''user, system, context, and action hashes all match PoI'')"

definition hash_step ::
  "crypto_libs \<Rightarrow> text_libs \<Rightarrow> ledger_heap \<Rightarrow> bytes option \<Rightarrow> intake \<Rightarrow> (link_result \<times> rebuilt option) res" where
  "hash_step L X H eml i =
     (case (in_poi i, in_evidence i) of
        (Some p, Some ev) \<Rightarrow>
          bind_res (hash_matches L (JObj [(''prompt'', JStr (env_prompt (ae_user_envelope ev)))]) (poi_user_prompt_hash p)) (\<lambda>u.
          bind_res (hash_matches L (JObj [(''system_prompt'', JStr (ae_system_prompt ev))]) (poi_system_prompt_hash p)) (\<lambda>sy.
          bind_res (action_mismatches L X eml (in_parsed i) ev p) (\<lambda>am.
            let r = rebuild_context L (action_entries H ev) in
            Inr (hash_verdict (mismatch_unless ''user_prompt_hash'' u @ mismatch_unless ''system_prompt_hash'' sy @ am
                   @ context_mismatches r p), res_option r))))
      | (None, _) \<Rightarrow> Inr (unavailable ''hash_recomputation'' ''unable to recompute hashes: PoI unavailable'', None)
      | (Some _, None) \<Rightarrow>
          Inr (unavailable ''hash_recomputation'' ''unable to recompute hashes: captured action evidence unavailable'', None))"

section \<open>Step 3: the agent's signature and identity\<close>

text \<open>The clock readings of the three registry lookups: agent key, agent key record, user key.\<close>

record lookup_clocks =
  agent_key_clock :: time
  agent_record_clock :: time
  user_key_clock :: time

definition or_empty :: "string option \<Rightarrow> string" where
  "or_empty v = (case v of None \<Rightarrow> [] | Some s \<Rightarrow> s)"

definition owner_errors :: "agent_key_record option \<Rightarrow> proof_of_intent \<Rightarrow> string list" where
  "owner_errors r p =
     (case r of
        None \<Rightarrow> []
      | Some r \<Rightarrow>
          (case poi_agent_id p of
             None \<Rightarrow> []
           | Some a \<Rightarrow> if agent_id r \<noteq> a
               then [''agent_id_mismatch (PoI claims '' @ py_repr a @ '', key belongs to '' @ py_repr (agent_id r) @ '')'']
               else [])
          @ (case poi_agent_type p of
               None \<Rightarrow> []
             | Some ty \<Rightarrow> if agent_type r \<noteq> Some ty
                 then [''agent_type_mismatch (PoI claims '' @ py_repr ty @ '', key belongs to ''
                       @ repr_option (agent_type r) @ '')'']
                 else []))"

text \<open>Without evidence a PoI that names an action type makes the attribute access raise.\<close>

definition action_type_errors :: "bytes option \<Rightarrow> action_evidence option \<Rightarrow> proof_of_intent \<Rightarrow> string list res" where
  "action_type_errors eml ev p =
     (case poi_action_type p of
        None \<Rightarrow> Inr []
      | Some a \<Rightarrow>
          (case ev of
             None \<Rightarrow> Inl (Exc AttributeError ''NoneType object has no attribute action_type'')
           | Some ev \<Rightarrow>
               (case ae_action_type ev of
                  Some b \<Rightarrow> Inr (if a \<noteq> b
                    then [''action_type_mismatch (PoI claims '' @ py_repr a @ '', evidence claims '' @ py_repr b @ '')'']
                    else [])
                | None \<Rightarrow> Inr (if (eml \<noteq> None \<or> ae_eml_bytes ev \<noteq> None) \<and> a \<noteq> ''email''
                    then [''action_type_mismatch (email artifact cannot claim '' @ py_repr a @ '')'']
                    else []))))"

definition policy_errors :: "proof_of_intent \<Rightarrow> string list" where
  "policy_errors p =
     (case poi_policy_decision p of
        None \<Rightarrow> []
      | Some d \<Rightarrow> if d \<noteq> ''allow'' then [''policy_decision_rejected (PoI contains '' @ py_repr d @ '')''] else [])"

definition agent_step ::
  "crypto_libs \<Rightarrow> lookup_clocks \<Rightarrow> key_table \<Rightarrow> bytes option \<Rightarrow> proof_of_intent option \<Rightarrow> action_evidence option
   \<Rightarrow> link_result res" where
  "agent_step L c st eml poi ev =
     (case poi of
        None \<Rightarrow> Inr (unavailable ''agent_signature'' ''unable to check: PoI unavailable'')
      | Some p \<Rightarrow>
          (let kid = or_empty (poi_agent_pubkey_id p) in
           case get_pubkey (agent_key_clock c) kid st of
             None \<Rightarrow> Inr (link ''agent_signature'' False ''failed''
               ''agent public key is unknown, expired, or currently revoked; this current trust failure alone does not prove the historical action was fraudulent'')
           | Some b \<Rightarrow>
               bind_res (action_type_errors eml ev p) (\<lambda>aerrs.
                 let errs = owner_errors (get_key_record (agent_record_clock c) kid st) p @ aerrs @ policy_errors p;
                     (valid, err) = (case bind_res (load_public_key L b) (verify_poi_signature L p) of
                        Inl e \<Rightarrow> (False, exc_str e) | Inr v \<Rightarrow> (v, []));
                     ok = (valid \<and> errs = []) in
                 Inr (link ''agent_signature'' ok (if ok then ''passed'' else ''failed'')
                   (if errs \<noteq> [] then str_join ''; '' errs
                    else if \<not> valid then strip (''agent signature did not verify '' @ err)
                    else ''agent signature and identity binding verified'')))))"

section \<open>Step 4: the user's signature\<close>

definition user_step ::
  "crypto_libs \<Rightarrow> lookup_clocks \<Rightarrow> key_table \<Rightarrow> proof_of_intent option \<Rightarrow> action_evidence option \<Rightarrow> link_result res" where
  "user_step L c st poi ev =
     (case (poi, ev) of
        (Some _, Some ev) \<Rightarrow>
          (let env = ae_user_envelope ev in
           case get_pubkey (user_key_clock c) (env_pubkey_id env) st of
             None \<Rightarrow> Inr (link ''user_signature'' False ''failed'' ''user public key is unknown, expired, or revoked'')
           | Some b \<Rightarrow>
               (let result = (\<lambda>v. Inr (link ''user_signature'' v (if v then ''passed'' else ''failed'')
                      (if v then ''original user prompt signature verified''
                       else ''original user prompt signature did not verify''))) in
                case bind_res (b64decode True (env_signature env)) (\<lambda>sig.
                       bind_res (load_public_key L b) (\<lambda>pk.
                         bind_res (hash_payload L (signing_payload env)) (verify L pk sig))) of
                  Inr v \<Rightarrow> result v
                | Inl e \<Rightarrow> if caught_by [ValueError, TypeError, BinasciiError] e then result False else Inl e))
      | _ \<Rightarrow> Inr (unavailable ''user_signature'' ''unable to check: original signed envelope unavailable''))"

section \<open>Step 5: the ledger root\<close>

text \<open>The link, and \<^verbatim>\<open>proof_valid\<close> when it was computed.\<close>

definition merkle_step ::
  "crypto_libs \<Rightarrow> ledger_heap \<Rightarrow> proof_of_intent option \<Rightarrow> action_evidence option \<Rightarrow> rebuilt option
   \<Rightarrow> link_result \<times> bool option" where
  "merkle_step L H poi ev r =
     (case (poi, ev, r) of
        (Some p, Some ev, Some (e # es, t)) \<Rightarrow>
          (let failed = (\<lambda>exc. link ''merkle_root_match'' False ''failed'' (''unable to verify Merkle proof: '' @ exc_str exc)) in
           case get_proof t (entry_id e) of
             Inl exc \<Rightarrow> (failed exc, None)
           | Inr items \<Rightarrow>
               (let valid_proof = verify_merkle_proof L (leaf_hash e) items (mt_root t) in
                case first_invalid_entry_id L (H ! ae_ledger ev) of
                  Inl exc \<Rightarrow> (failed exc, Some valid_proof)
                | Inr chain_break \<Rightarrow>
                    (let root = bytes_hex (mt_root t);
                         ok = (valid_proof \<and> chain_break = None \<and> root = poi_context_root p) in
                     (link ''merkle_root_match'' ok (if ok then ''passed'' else ''failed'')
                        (if ok then ''recomputed root matches signed PoI and ledger chain''
                         else if root \<noteq> poi_context_root p
                           then ''recomputed context root '' @ root @ '' != signed root '' @ poi_context_root p
                           else ''ledger hash chain invalid at entry_id ''
                             @ (case chain_break of None \<Rightarrow> ''None'' | Some i \<Rightarrow> show_int i)),
                      Some valid_proof))))
      | _ \<Rightarrow> (unavailable ''merkle_root_match'' ''unable to check: ledger evidence unavailable'', None))"

section \<open>Step 6: the timestamp\<close>

definition recorded_token :: "anchor_store option \<Rightarrow> proof_of_intent option \<Rightarrow> action_evidence \<Rightarrow> bytes option" where
  "recorded_token anchors poi ev =
     (case (ae_timestamp_token ev, anchors, poi) of
        (None, Some s, Some p) \<Rightarrow>
          (case bytes_fromhex (poi_context_root p) of
             Inl _ \<Rightarrow> None
           | Inr root \<Rightarrow> Option.bind (latest_anchored root s) ar_token_bytes)
      | (tok, _, _) \<Rightarrow> tok)"

definition timestamp_step ::
  "tsa_libs \<Rightarrow> outside \<Rightarrow> anchor_store option \<Rightarrow> proof_of_intent option \<Rightarrow> action_evidence option \<Rightarrow> rebuilt option
   \<Rightarrow> link_result res" where
  "timestamp_step T out anchors poi ev r =
     (case (ev, r) of
        (Some ev, Some (_, t)) \<Rightarrow>
          map_res (\<lambda>res. link ''timestamp_anchor'' (tar_pending res \<or> tar_verified res)
              (if tar_pending res then ''pending'' else if tar_verified res then ''passed'' else ''failed'') (tar_detail res))
            (verify_anchor_token T out (recorded_token anchors poi ev) (mt_root t))
      | _ \<Rightarrow> Inr (unavailable ''timestamp_anchor'' ''unable to check: ledger root unavailable''))"

section \<open>\<^verbatim>\<open>run_verification\<close>\<close>

record pipeline =
  vp_registry :: key_table
  vp_anchors :: "anchor_store option"

text \<open>The returned trace, from the intake, the five later links, the rebuilt context and \<^verbatim>\<open>proof_valid\<close>.\<close>

definition assemble_trace :: "intake \<Rightarrow> link_result list \<Rightarrow> rebuilt option \<Rightarrow> bool option \<Rightarrow> verification_trace" where
  "assemble_trace i later r proof_valid =
     (let poi = in_poi i; links = in_links i @ later in
      \<lparr>vt_action_id = in_action_id i,
       vt_agent_type = Option.bind poi poi_agent_type, vt_agent_id = Option.bind poi poi_agent_id,
       vt_action_type = Option.bind poi poi_action_type,
       vt_policy_decision = Option.bind poi poi_policy_decision,
       vt_overall_valid = list_all lr_passed links, vt_links = links,
       vt_timestamp_verified = (links \<noteq> [] \<and> lr_status (last links) = ''passed''),
       vt_merkle_tree =
         (case r of
            Some (e # es, t) \<Rightarrow>
              Some (tree_view t (e # es) (map_option poi_context_root poi) (Some (entry_id e)) proof_valid)
          | _ \<Rightarrow> None)\<rparr>)"

text \<open>All steps after the intake.\<close>

definition check_links ::
  "crypto_libs \<Rightarrow> text_libs \<Rightarrow> tsa_libs \<Rightarrow> outside \<Rightarrow> lookup_clocks \<Rightarrow> pipeline \<Rightarrow> ledger_heap \<Rightarrow> bytes option \<Rightarrow> intake
   \<Rightarrow> verification_trace res" where
  "check_links L X T out c vp H eml i =
     (let poi = in_poi i; ev = in_evidence i in
      bind_res (hash_step L X H eml i) (\<lambda>(l2, r).
      bind_res (agent_step L c (vp_registry vp) eml poi ev) (\<lambda>l3.
      bind_res (user_step L c (vp_registry vp) poi ev) (\<lambda>l4.
      let (l5, proof_valid) = merkle_step L H poi ev r in
      bind_res (timestamp_step T out (vp_anchors vp) poi ev r) (\<lambda>l6.
        Inr (assemble_trace i [l2, l3, l4, l5, l6] r proof_valid))))))"

definition run_verification ::
  "crypto_libs \<Rightarrow> text_libs \<Rightarrow> tsa_libs \<Rightarrow> outside \<Rightarrow> lookup_clocks \<Rightarrow> pipeline \<Rightarrow> bytes option \<Rightarrow> string option
   \<Rightarrow> evidence_store \<times> ledger_heap \<Rightarrow> verification_trace res \<times> evidence_store \<times> ledger_heap" where
  "run_verification L X T out c vp eml aid s =
     (case take_in X (out_database out) eml aid s of
        (Inl e, s') \<Rightarrow> (Inl e, s')
      | (Inr i, st, H) \<Rightarrow> (check_links L X T out c vp H eml i, st, H))"

section \<open>\<^verbatim>\<open>main.py\<close>\<close>

text \<open>
  The body of \<^verbatim>\<open>POST /verify\<close>: a multipart form (with the uploaded file, if the field holds one) or
  another body, parsed as JSON.
\<close>

datatype request_body = Multipart "bytes option" | OtherBody "json res"

definition verify_by_action_id ::
  "crypto_libs \<Rightarrow> text_libs \<Rightarrow> tsa_libs \<Rightarrow> outside \<Rightarrow> lookup_clocks \<Rightarrow> pipeline \<Rightarrow> string
   \<Rightarrow> evidence_store \<times> ledger_heap \<Rightarrow> verification_trace res \<times> evidence_store \<times> ledger_heap" where
  "verify_by_action_id L X T out c vp aid s = run_verification L X T out c vp None (Some aid) s"

definition post_verify ::
  "crypto_libs \<Rightarrow> text_libs \<Rightarrow> tsa_libs \<Rightarrow> outside \<Rightarrow> lookup_clocks \<Rightarrow> pipeline \<Rightarrow> request_body
   \<Rightarrow> evidence_store \<times> ledger_heap \<Rightarrow> verification_trace res \<times> evidence_store \<times> ledger_heap" where
  "post_verify L X T out c vp body s =
     (case body of
        Multipart None \<Rightarrow> (Inl (Exc (HTTPException 422) ''provide an .eml file''), s)
      | Multipart (Some b) \<Rightarrow> run_verification L X T out c vp (Some b) None s
      | OtherBody r \<Rightarrow>
          (case bind_res (bind_res r as_dict) (\<lambda>d. bind_res (json_item d ''action_id'') as_text) of
             Inl _ \<Rightarrow> (Inl (Exc (HTTPException 422) ''provide JSON {action_id: ...} or an .eml upload''), s)
           | Inr aid \<Rightarrow> run_verification L X T out c vp None (Some aid) s))"

section \<open>Recomputation\<close>

lemma recomputed_chain: "chain L p es \<Longrightarrow> recomputed_from L p es = Inr es"
  by (induction es arbitrary: p) auto

lemma recomputed_from_sound:
  "recomputed_from L p es = Inr es' \<Longrightarrow>
     chain L p es' \<and> map content es' = map content es \<and> map entry_id es' = map entry_id es"
proof (induction es arbitrary: p es')
  case (Cons e es)
  then obtain h es2 where "compute_leaf_hash L (content e) p = Inr h" "recomputed_from L h es = Inr es2"
    "es' = e\<lparr>prev_hash := p, leaf_hash := h\<rparr> # es2"
    by (auto simp: bind_res_eq_Inr map_res_eq_Inr)
  with Cons.IH [of h es2] show ?case by simp
qed simp

lemma rebuild_context_eq_Inr:
  "rebuild_context L es = Inr (es', t) \<longleftrightarrow>
     recomputed_entries L es = Inr es' \<and> build_merkle_tree L es' = Inr t"
  by (auto simp: rebuild_context_def bind_res_eq_Inr map_res_eq_Inr)

lemma rebuild_nonempty: "rebuild_context L es = Inr (es', t) \<Longrightarrow> es' \<noteq> []"
  by (auto simp: rebuild_context_eq_Inr build_merkle_tree_def)

section \<open>The links of a trace\<close>

definition six_links :: "string list" where
  "six_links = [''poi_extraction'', ''hash_recomputation'', ''agent_signature'', ''user_signature'',
     ''merkle_root_match'', ''timestamp_anchor'']"

definition link_ok :: "link_result \<Rightarrow> bool" where
  "link_ok l \<longleftrightarrow> (lr_passed l \<longleftrightarrow> lr_status l \<in> {''passed'', ''pending''})
     \<and> (lr_status l = ''pending'' \<longrightarrow> lr_name l = ''timestamp_anchor'')"

lemma link_simps [simp]:
  "lr_name (link n p s d) = n" "lr_passed (link n p s d) = p" "lr_status (link n p s d) = s" "lr_detail (link n p s d) = d"
  by (simp_all add: link_def)

lemma link_ok_link: "p = (s = ''passed'') \<Longrightarrow> s \<noteq> ''pending'' \<Longrightarrow> link_ok (link n p s d)"
  by (auto simp: link_ok_def)

lemma link_ok_unavailable [simp]: "link_ok (unavailable n d)" "lr_name (unavailable n d) = n" "\<not> lr_passed (unavailable n d)"
  by (simp_all add: unavailable_def link_ok_def)

definition extracted :: "link_result list \<Rightarrow> proof_of_intent option \<Rightarrow> bool" where
  "extracted links poi \<longleftrightarrow>
     (\<exists>l. links = [l] \<and> lr_name l = ''poi_extraction'' \<and> link_ok l \<and> (lr_passed l \<longleftrightarrow> poi \<noteq> None))"

lemma extract_poi_links:
  assumes "extract_poi X eml ev links parsed = (links', poi)" "links = [] \<or> extracted links None"
  shows "extracted links' poi"
  using assms
  by (auto simp: extract_poi_def extracted_def intro!: link_ok_link split: option.splits if_splits sum.splits)

lemma read_artifact_links: "read_artifact X prefix b = (links, parsed) \<Longrightarrow> links = [] \<or> extracted links None"
  by (auto simp: read_artifact_def extracted_def intro!: link_ok_link split: sum.splits)

lemma take_in_InrE:
  assumes "take_in X db eml aid s = (Inr i, s')"
  obtains ev0 s1 links1 parsed1 aid1 ev links2 parsed2 links3 poi where
    "lookup_if X db aid None s = Inr (ev0, s1)"
    "(case eml of None \<Rightarrow> ([], None) | Some b \<Rightarrow> read_artifact X ''invalid .eml: '' b) = (links1, parsed1)"
    "aid1 = (case parsed1 of None \<Rightarrow> aid | Some p \<Rightarrow> if falsy aid then pe_action_id p else aid)"
    "lookup_if X db aid1 ev0 s1 = Inr (ev, s')"
    "(case (if eml = None then Option.bind ev ae_eml_bytes else None) of
        None \<Rightarrow> (links1, parsed1) | Some b \<Rightarrow> read_artifact X ''stored .eml is invalid: '' b) = (links2, parsed2)"
    "extract_poi X eml ev links2 parsed2 = (links3, poi)"
    "i = \<lparr>in_links = links3, in_parsed = parsed2, in_poi = poi, in_evidence = ev, in_action_id = aid1\<rparr>"
proof -
  let ?s1 = "case eml of None \<Rightarrow> ([], None) | Some b \<Rightarrow> read_artifact X ''invalid .eml: '' b"
  obtain links1 parsed1 where 1: "?s1 = (links1, parsed1)" by (cases ?s1)
  let ?aid1 = "case parsed1 of None \<Rightarrow> aid | Some p \<Rightarrow> if falsy aid then pe_action_id p else aid"
  from assms obtain ev0 s1 where 0: "lookup_if X db aid None s = Inr (ev0, s1)"
    by (auto simp: take_in_def split: sum.splits)
  from assms 0 1 obtain ev s2 where e: "lookup_if X db ?aid1 ev0 s1 = Inr (ev, s2)"
    by (cases "lookup_if X db ?aid1 ev0 s1") (auto simp: take_in_def Let_def)
  let ?s2 = "case (if eml = None then Option.bind ev ae_eml_bytes else None) of
      None \<Rightarrow> (links1, parsed1) | Some b \<Rightarrow> read_artifact X ''stored .eml is invalid: '' b"
  obtain links2 parsed2 where 2: "?s2 = (links2, parsed2)" by (cases ?s2)
  obtain links3 poi where 3: "extract_poi X eml ev links2 parsed2 = (links3, poi)"
    by (cases "extract_poi X eml ev links2 parsed2")
  from assms have "s' = s2" "i = \<lparr>in_links = links3, in_parsed = parsed2, in_poi = poi, in_evidence = ev, in_action_id = ?aid1\<rparr>"
    by (simp_all only: take_in_def 0 1 e 2 3 Let_def sum.case prod.case prod.inject sum.inject)
  with that 0 1 e 2 3 show thesis by blast
qed

lemma take_in_extracted:
  assumes "take_in X db eml aid s = (Inr i, s')"
  shows "extracted (in_links i) (in_poi i)"
proof -
  from assms show ?thesis
  proof (rule take_in_InrE)
    fix ev0 s1 links1 parsed1 aid1 ev links2 parsed2 links3 poi
    assume 1: "(case eml of None \<Rightarrow> ([], None) | Some b \<Rightarrow> read_artifact X ''invalid .eml: '' b) = (links1, parsed1)"
      and 2: "(case (if eml = None then Option.bind ev ae_eml_bytes else None) of
        None \<Rightarrow> (links1, parsed1) | Some b \<Rightarrow> read_artifact X ''stored .eml is invalid: '' b) = (links2, parsed2)"
      and 3: "extract_poi X eml ev links2 parsed2 = (links3, poi)"
      and i: "i = \<lparr>in_links = links3, in_parsed = parsed2, in_poi = poi, in_evidence = ev, in_action_id = aid1\<rparr>"
    have "links1 = [] \<or> extracted links1 None" using 1 by (auto dest: read_artifact_links split: option.splits)
    then have "links2 = [] \<or> extracted links2 None" using 2 by (auto dest: read_artifact_links split: option.splits)
    from extract_poi_links [OF 3 this] show ?thesis by (simp add: i)
  qed
qed

text \<open>The parsed artifact is a result of the e-mail parser.\<close>

lemma read_artifact_parsed: "read_artifact X prefix b = (links, Some pe) \<Longrightarrow> parse_eml X b = Inr pe"
  by (auto simp: read_artifact_def split: sum.splits)

lemma take_in_parsed:
  assumes "take_in X db eml aid s = (Inr i, s')" "in_parsed i = Some pe"
  shows "\<exists>b. parse_eml X b = Inr pe"
  using assms(1)
proof (rule take_in_InrE)
  fix ev0 s1 links1 parsed1 aid1 ev links2 parsed2 links3 poi
  assume 1: "(case eml of None \<Rightarrow> ([], None) | Some b \<Rightarrow> read_artifact X ''invalid .eml: '' b) = (links1, parsed1)"
    and 2: "(case (if eml = None then Option.bind ev ae_eml_bytes else None) of
      None \<Rightarrow> (links1, parsed1) | Some b \<Rightarrow> read_artifact X ''stored .eml is invalid: '' b) = (links2, parsed2)"
    and i: "i = \<lparr>in_links = links3, in_parsed = parsed2, in_poi = poi, in_evidence = ev, in_action_id = aid1\<rparr>"
  have p: "parsed2 = Some pe" using assms(2) by (simp add: i)
  from 1 2 show ?thesis unfolding p by (auto dest: read_artifact_parsed split: option.splits)
qed

lemma parse_eml_payload:
  "parse_eml X b = Inr pe \<Longrightarrow>
     pe_action_payload pe = JObj [(''to'', JStr (pe_to pe)), (''subject'', JStr (pe_subject pe)), (''body'', JStr (pe_body pe))]"
  by (auto simp: parse_eml_def bind_res_eq_Inr map_res_eq_Inr Let_def)

lemma verdict_link: "link_ok (link n v (if v then ''passed'' else ''failed'') d)"
  by (simp add: link_ok_link)

lemma hash_verdict_simps [simp]:
  "lr_name (hash_verdict ms) = ''hash_recomputation''" "link_ok (hash_verdict ms)"
  "lr_passed (hash_verdict ms) \<longleftrightarrow> ms = []"
  by (simp_all add: hash_verdict_def link_ok_link)

lemma hash_step_found:
  assumes "in_poi i = Some p" "in_evidence i = Some ev"
  shows "hash_step L X H eml i = Inr (l, r) \<longleftrightarrow>
    (\<exists>u sy am. hash_matches L (JObj [(''prompt'', JStr (env_prompt (ae_user_envelope ev)))]) (poi_user_prompt_hash p) = Inr u
      \<and> hash_matches L (JObj [(''system_prompt'', JStr (ae_system_prompt ev))]) (poi_system_prompt_hash p) = Inr sy
      \<and> action_mismatches L X eml (in_parsed i) ev p = Inr am
      \<and> r = res_option (rebuild_context L (action_entries H ev))
      \<and> l = hash_verdict (mismatch_unless ''user_prompt_hash'' u @ mismatch_unless ''system_prompt_hash'' sy @ am
               @ context_mismatches (rebuild_context L (action_entries H ev)) p))"
  using assms by (auto simp: hash_step_def bind_res_eq_Inr Let_def)

lemma hash_step_missing:
  assumes "in_poi i = None \<or> in_evidence i = None"
  shows "\<exists>d. hash_step L X H eml i = Inr (unavailable ''hash_recomputation'' d, None)"
  using assms by (auto simp: hash_step_def split: option.split)

lemma hash_step_link:
  assumes "hash_step L X H eml i = Inr (l, r)"
  shows "lr_name l = ''hash_recomputation'' \<and> link_ok l"
proof (cases "in_poi i = None \<or> in_evidence i = None")
  case True
  from hash_step_missing [OF True, of L X H eml] assms show ?thesis by auto
next
  case False
  then obtain p ev where "in_poi i = Some p" "in_evidence i = Some ev" by auto
  with assms show ?thesis by (auto simp: hash_step_found)
qed

definition agent_ok ::
  "crypto_libs \<Rightarrow> lookup_clocks \<Rightarrow> key_table \<Rightarrow> bytes \<Rightarrow> string list \<Rightarrow> proof_of_intent \<Rightarrow> bool" where
  "agent_ok L c st b aerrs p \<longleftrightarrow> bind_res (load_public_key L b) (verify_poi_signature L p) = Inr True
     \<and> owner_errors (get_key_record (agent_record_clock c) (or_empty (poi_agent_pubkey_id p)) st) p = []
     \<and> aerrs = [] \<and> policy_errors p = []"

lemma agent_step_active:
  assumes "get_pubkey (agent_key_clock c) (or_empty (poi_agent_pubkey_id p)) st = Some b"
    and "action_type_errors eml ev p = Inr aerrs"
  shows "\<exists>d. agent_step L c st eml (Some p) ev = Inr (link ''agent_signature'' (agent_ok L c st b aerrs p)
    (if agent_ok L c st b aerrs p then ''passed'' else ''failed'') d)"
proof -
  let ?v = "bind_res (load_public_key L b) (verify_poi_signature L p)"
  obtain valid err where v: "(case ?v of Inl e \<Rightarrow> (False, exc_str e) | Inr v \<Rightarrow> (v, [])) = (valid, err)" by fastforce
  let ?errs = "owner_errors (get_key_record (agent_record_clock c) (or_empty (poi_agent_pubkey_id p)) st) p @ aerrs @ policy_errors p"
  have "valid = (?v = Inr True)" using v by (auto split: sum.splits)
  then have ok: "agent_ok L c st b aerrs p = (valid \<and> ?errs = [])" by (simp add: agent_ok_def)
  show ?thesis
    unfolding ok by (simp only: agent_step_def assms Let_def v option.case bind_res_simps prod.case) (rule exI, rule refl)
qed

lemma agent_step_found:
  assumes "agent_step L c st eml (Some p) ev = Inr l"
    and "get_pubkey (agent_key_clock c) (or_empty (poi_agent_pubkey_id p)) st = Some b"
  obtains aerrs d where "action_type_errors eml ev p = Inr aerrs"
    "l = link ''agent_signature'' (agent_ok L c st b aerrs p) (if agent_ok L c st b aerrs p then ''passed'' else ''failed'') d"
proof -
  have "agent_step L c st eml (Some p) ev = Inl e" if "action_type_errors eml ev p = Inl e" for e
    by (simp add: agent_step_def assms(2) Let_def that)
  with assms(1) obtain aerrs where a: "action_type_errors eml ev p = Inr aerrs"
    by (cases "action_type_errors eml ev p") auto
  with agent_step_active [OF assms(2) a, of L] assms(1) that show thesis by auto
qed

lemma agent_step_unknown:
  assumes "get_pubkey (agent_key_clock c) (or_empty (poi_agent_pubkey_id p)) st = None"
  shows "\<exists>d. agent_step L c st eml (Some p) ev = Inr (link ''agent_signature'' False ''failed'' d)"
  by (simp add: agent_step_def assms Let_def) (rule exI, rule refl)

lemma agent_step_link:
  assumes "agent_step L c st eml poi ev = Inr l"
  shows "lr_name l = ''agent_signature'' \<and> link_ok l"
proof (cases poi)
  case None
  with assms show ?thesis by (auto simp: agent_step_def)
next
  case (Some p)
  show ?thesis
  proof (cases "get_pubkey (agent_key_clock c) (or_empty (poi_agent_pubkey_id p)) st")
    case None
    with agent_step_unknown [OF None, of L eml ev] assms Some show ?thesis by (auto simp: link_ok_link)
  next
    case (Some b)
    from agent_step_found [OF assms [unfolded \<open>poi = Some p\<close>] Some] show ?thesis by (metis link_simps(1) verdict_link)
  qed
qed

lemma user_step_link: "user_step L c st poi ev = Inr l \<Longrightarrow> lr_name l = ''user_signature'' \<and> link_ok l"
  by (auto simp: user_step_def Let_def link_ok_link split: option.splits sum.splits if_splits)

lemma merkle_step_link: "merkle_step L H poi ev r = (l, v) \<Longrightarrow> lr_name l = ''merkle_root_match'' \<and> link_ok l"
  by (auto simp: merkle_step_def Let_def link_ok_link split: option.splits prod.splits list.splits sum.splits)

lemma link_ok_timestamp:
  "link_ok (link ''timestamp_anchor'' (p \<or> v) (if p then ''pending'' else if v then ''passed'' else ''failed'') d)"
  by (cases p; cases v) (simp_all add: link_ok_def)

lemma timestamp_step_link: "timestamp_step T out anchors poi ev r = Inr l \<Longrightarrow> lr_name l = ''timestamp_anchor'' \<and> link_ok l"
  by (auto simp: timestamp_step_def map_res_eq_Inr link_ok_timestamp split: option.splits)

lemma check_links_eq_Inr:
  "check_links L X T out c vp H eml i = Inr tr \<longleftrightarrow>
     (\<exists>l2 r l3 l4 l5 v l6. hash_step L X H eml i = Inr (l2, r)
       \<and> agent_step L c (vp_registry vp) eml (in_poi i) (in_evidence i) = Inr l3
       \<and> user_step L c (vp_registry vp) (in_poi i) (in_evidence i) = Inr l4
       \<and> merkle_step L H (in_poi i) (in_evidence i) r = (l5, v)
       \<and> timestamp_step T out (vp_anchors vp) (in_poi i) (in_evidence i) r = Inr l6
       \<and> tr = assemble_trace i [l2, l3, l4, l5, l6] r v)"
proof (cases "hash_step L X H eml i")
  case (Inr lr)
  obtain l2 r where lr: "lr = (l2, r)" by (cases lr)
  obtain l5 v where "merkle_step L H (in_poi i) (in_evidence i) r = (l5, v)" by fastforce
  with Inr lr show ?thesis by (auto simp: check_links_def Let_def bind_res_eq_Inr)
qed (simp add: check_links_def)

lemma assemble_trace_simps [simp]:
  "vt_links (assemble_trace i ls r v) = in_links i @ ls"
  "vt_overall_valid (assemble_trace i ls r v) \<longleftrightarrow> list_all lr_passed (in_links i) \<and> list_all lr_passed ls"
  by (simp_all add: assemble_trace_def Let_def)

lemma run_verification_eq:
  "take_in X (out_database out) eml aid s = (Inr i, st, H) \<Longrightarrow>
     run_verification L X T out c vp eml aid s = (check_links L X T out c vp H eml i, st, H)"
  by (simp add: run_verification_def)

lemma run_verification_Inr:
  "run_verification L X T out c vp eml aid s = (Inr tr, st, H) \<longleftrightarrow>
     (\<exists>i. take_in X (out_database out) eml aid s = (Inr i, st, H) \<and> check_links L X T out c vp H eml i = Inr tr)"
  by (auto simp: run_verification_def split: prod.splits sum.splits)

lemma trace_shape:
  assumes "extracted (in_links i) (in_poi i)" "check_links L X T out c vp H eml i = Inr tr"
  shows "map lr_name (vt_links tr) = six_links \<and> list_all link_ok (vt_links tr)
    \<and> (vt_overall_valid tr \<longleftrightarrow> list_all lr_passed (vt_links tr))"
proof -
  from assms(1) obtain l1 where l1: "in_links i = [l1]" "lr_name l1 = ''poi_extraction''" "link_ok l1"
    by (auto simp: extracted_def)
  from assms(2) show ?thesis
    unfolding check_links_eq_Inr using l1
    by (auto simp: six_links_def dest: hash_step_link agent_step_link user_step_link merkle_step_link timestamp_step_link)
qed

section \<open>A trace is produced\<close>

lemma load_public_key_registered: "load_public_key L b = load_registered_public_key L (StoredBytes b)"
  by (simp add: load_public_key_def load_registered_public_key_def)

lemma registered_key_loads:
  assumes "registry_inv L st" "get_pubkey now k st = Some b"
  obtains pk where "load_public_key L b = Inr pk" "is_supported pk"
  using registry_dir.lookup_loads [OF assms(1), of now k "StoredBytes b"] assms(2)
  by (auto simp: registry_lookup_def load_public_key_registered)

lemma hash_matches_total: "dumps_text L \<Longrightarrow> list_all (\<lambda>(k, v). v = JNull \<or> is_str v) d \<Longrightarrow> \<exists>b. hash_matches L (JObj d) x = Inr b"
  by (fastforce simp: hash_matches_def hash_payload_def canonicalize_def dumps_text_def)

lemma action_mismatches_total:
  assumes "dumps_text L" "\<And>pe. parsed = Some pe \<Longrightarrow> \<exists>b. parse_eml X b = Inr pe"
    and "\<And>j. ae_action_payload ev = Some j \<Longrightarrow> \<exists>h. hash_payload L j = Inr h"
  shows "\<exists>am. action_mismatches L X eml parsed ev p = Inr am"
proof (cases "eml = None")
  case False
  show ?thesis
  proof (cases parsed)
    case (Some pe)
    with assms(2) obtain b where "parse_eml X b = Inr pe" by blast
    with hash_matches_total [OF assms(1)] obtain v where
      "hash_matches L (pe_action_payload pe) (poi_action_payload_hash p) = Inr v"
      by (fastforce dest: parse_eml_payload)
    with False Some show ?thesis by (simp add: action_mismatches_def)
  qed (use False in \<open>simp add: action_mismatches_def\<close>)
next
  case True
  show ?thesis
  proof (cases "ae_action_payload ev")
    case None
    with True show ?thesis by (auto simp: action_mismatches_def split: option.split sum.split)
  next
    case (Some j)
    with assms(3) True show ?thesis by (fastforce simp: action_mismatches_def hash_matches_def)
  qed
qed

lemma hash_step_total:
  assumes "dumps_text L" "\<And>pe. in_parsed i = Some pe \<Longrightarrow> \<exists>b. parse_eml X b = Inr pe"
    and "\<And>ev j. in_evidence i = Some ev \<Longrightarrow> ae_action_payload ev = Some j \<Longrightarrow> \<exists>h. hash_payload L j = Inr h"
  shows "\<exists>l r. hash_step L X H eml i = Inr (l, r)"
proof (cases "in_poi i = None \<or> in_evidence i = None")
  case True
  from hash_step_missing [OF True, of L X H eml] show ?thesis by blast
next
  case False
  then obtain p ev where *: "in_poi i = Some p" "in_evidence i = Some ev" by auto
  have h: "\<exists>b. hash_matches L (JObj [(k, JStr v)]) x = Inr b" for k v x
    by (rule hash_matches_total [OF assms(1)]) simp
  obtain u where u: "hash_matches L (JObj [(''prompt'', JStr (env_prompt (ae_user_envelope ev)))]) (poi_user_prompt_hash p) = Inr u"
    using h by blast
  obtain sy where sy: "hash_matches L (JObj [(''system_prompt'', JStr (ae_system_prompt ev))]) (poi_system_prompt_hash p) = Inr sy"
    using h by blast
  obtain am where am: "action_mismatches L X eml (in_parsed i) ev p = Inr am"
    using assms * action_mismatches_total by blast
  show ?thesis by (simp add: hash_step_def * u sy am Let_def)
qed

lemma agent_step_total:
  assumes "ev \<noteq> None \<or> (\<forall>p. poi = Some p \<longrightarrow> poi_action_type p = None)"
  shows "\<exists>l. agent_step L c st eml poi ev = Inr l"
proof (cases poi)
  case (Some p)
  have "\<exists>aerrs. action_type_errors eml ev p = Inr aerrs"
    using assms Some by (auto simp: action_type_errors_def split: option.split)
  then show ?thesis
    using Some agent_step_active agent_step_unknown by (metis option.exhaust)
qed (simp add: agent_step_def)

lemma user_step_total:
  assumes "registry_inv L st" "dumps_text L"
  shows "\<exists>l. user_step L c st poi ev = Inr l"
proof (cases "\<exists>p e b. poi = Some p \<and> ev = Some e \<and> get_pubkey (user_key_clock c) (env_pubkey_id (ae_user_envelope e)) st = Some b")
  case False
  then show ?thesis by (auto simp: user_step_def split: option.split)
next
  case True
  then obtain p e b where e: "poi = Some p" "ev = Some e"
      "get_pubkey (user_key_clock c) (env_pubkey_id (ae_user_envelope e)) st = Some b" by blast
  obtain pk where pk: "load_public_key L b = Inr pk" "is_supported pk" using registered_key_loads [OF assms(1) e(3)] .
  obtain h where h: "hash_payload L (signing_payload (ae_user_envelope e)) = Inr h"
    using hash_matches_total [OF assms(2), of "[(_, JStr _), (_, JStr _), (_, JStr _), (_, JStr _), (_, JStr _)]"]
    by (fastforce simp: hash_matches_def signing_payload_def map_res_eq_Inr)
  show ?thesis
  proof (cases "b64decode True (env_signature (ae_user_envelope e))")
    case (Inl x)
    then have "caught_by [ValueError, TypeError, BinasciiError] x" by (rule b64decode_error)
    with e Inl show ?thesis by (simp add: user_step_def)
  next
    case (Inr sig)
    with verify_total [OF pk(2), of L sig h] e pk(1) h show ?thesis by (auto simp: user_step_def)
  qed
qed

lemma verify_anchor_token_total: "\<exists>r. verify_anchor_token T out token root = Inr r"
proof (cases token)
  case (Some tok)
  let ?v = "bind_res (bind_res (out_tsa_config out) load_tsa_config) (\<lambda>cfg.
      bind_res (fetch_pinned_root_certificate T (out_get out) cfg) (\<lambda>c. verify_timestamp_token T tok root (ParsedCertificate c)))"
  have "tvr_gen_time v \<noteq> None" if "?v = Inr v" "tvr_verified v" for v
    using that by (auto simp: bind_res_eq_Inr verify_timestamp_token_def Let_def split: if_splits sum.splits)
  with Some show ?thesis by (auto simp: verify_anchor_token_def split: sum.split option.split)
qed (simp add: verify_anchor_token_def)

lemma timestamp_step_total: "\<exists>l. timestamp_step T out anchors poi ev r = Inr l"
proof -
  have "\<exists>x. map_res f (verify_anchor_token T out tok root) = Inr x" for f :: "timestamp_anchor_result \<Rightarrow> link_result" and tok root
    using verify_anchor_token_total [of T out tok root] by auto
  then show ?thesis by (auto simp: timestamp_step_def split: option.split)
qed

section \<open>What a positive verdict says\<close>

text \<open>The JSON object whose digest the PoI must carry.\<close>

definition action_object :: "text_libs \<Rightarrow> bytes option \<Rightarrow> parsed_eml option \<Rightarrow> action_evidence \<Rightarrow> json option" where
  "action_object X eml parsed ev =
     (if eml \<noteq> None then map_option pe_action_payload parsed
      else
        (case ae_action_payload ev of
           Some j \<Rightarrow> Some j
         | None \<Rightarrow>
             (case ae_eml_bytes ev of
                None \<Rightarrow> None
              | Some b \<Rightarrow> (case parse_eml X b of Inl _ \<Rightarrow> None | Inr pe \<Rightarrow> Some (pe_action_payload pe)))))"

definition commits :: "crypto_libs \<Rightarrow> json \<Rightarrow> string \<Rightarrow> bool" where
  "commits L j hx \<longleftrightarrow> (\<exists>h. hash_payload L j = Inr h \<and> hx = bytes_hex h)"

definition commitments_hold ::
  "crypto_libs \<Rightarrow> text_libs \<Rightarrow> bytes option \<Rightarrow> parsed_eml option \<Rightarrow> action_evidence \<Rightarrow> proof_of_intent \<Rightarrow> bool" where
  "commitments_hold L X eml parsed ev p \<longleftrightarrow>
     commits L (JObj [(''prompt'', JStr (env_prompt (ae_user_envelope ev)))]) (poi_user_prompt_hash p)
     \<and> commits L (JObj [(''system_prompt'', JStr (ae_system_prompt ev))]) (poi_system_prompt_hash p)
     \<and> (\<exists>j. action_object X eml parsed ev = Some j \<and> commits L j (poi_action_payload_hash p))"

text \<open>The ledger is an unbroken chain whose entries of the action have the root the PoI signed.\<close>

definition context_holds :: "crypto_libs \<Rightarrow> ledger_heap \<Rightarrow> action_evidence \<Rightarrow> proof_of_intent \<Rightarrow> bool" where
  "context_holds L H ev p \<longleftrightarrow> verify_chain L (H ! ae_ledger ev) = Inr True
     \<and> (\<exists>t. build_merkle_tree L (action_entries H ev) = Inr t \<and> poi_context_root p = bytes_hex (mt_root t))"

definition agent_holds ::
  "crypto_libs \<Rightarrow> lookup_clocks \<Rightarrow> key_table \<Rightarrow> bytes option \<Rightarrow> action_evidence \<Rightarrow> proof_of_intent \<Rightarrow> bool" where
  "agent_holds L c st eml ev p \<longleftrightarrow>
     (\<exists>b pk. get_pubkey (agent_key_clock c) (or_empty (poi_agent_pubkey_id p)) st = Some b
        \<and> load_public_key L b = Inr pk \<and> verify_poi_signature L p pk = Inr True)
     \<and> (\<forall>r. get_key_record (agent_record_clock c) (or_empty (poi_agent_pubkey_id p)) st = Some r \<longrightarrow>
          poi_agent_id p \<in> {None, Some (agent_id r)} \<and> poi_agent_type p \<in> {None, agent_type r})
     \<and> (poi_action_type p = None
        \<or> (case ae_action_type ev of Some a \<Rightarrow> poi_action_type p = Some a
           | None \<Rightarrow> (eml = None \<and> ae_eml_bytes ev = None) \<or> poi_action_type p = Some ''email''))
     \<and> poi_policy_decision p \<in> {None, Some ''allow''}"

definition user_holds :: "crypto_libs \<Rightarrow> lookup_clocks \<Rightarrow> key_table \<Rightarrow> signed_envelope \<Rightarrow> bool" where
  "user_holds L c st env \<longleftrightarrow>
     (\<exists>b pk sig h. get_pubkey (user_key_clock c) (env_pubkey_id env) st = Some b \<and> load_public_key L b = Inr pk
        \<and> b64decode True (env_signature env) = Inr sig \<and> hash_payload L (signing_payload env) = Inr h
        \<and> verify L pk sig h = Inr True)"

text \<open>No token is recorded, or it verifies against the pinned root certificate for the context root.\<close>

definition time_holds ::
  "crypto_libs \<Rightarrow> tsa_libs \<Rightarrow> outside \<Rightarrow> anchor_store option \<Rightarrow> ledger_heap \<Rightarrow> action_evidence \<Rightarrow> proof_of_intent \<Rightarrow> bool" where
  "time_holds L T out anchors H ev p \<longleftrightarrow>
     (\<forall>tok t. recorded_token anchors (Some p) ev = Some tok \<longrightarrow> build_merkle_tree L (action_entries H ev) = Inr t \<longrightarrow>
        (\<exists>cfg cert v. bind_res (out_tsa_config out) load_tsa_config = Inr cfg
           \<and> fetch_pinned_root_certificate T (out_get out) cfg = Inr cert
           \<and> verify_timestamp_token T tok (mt_root t) (ParsedCertificate cert) = Inr v \<and> tvr_verified v))"

definition authentic ::
  "crypto_libs \<Rightarrow> text_libs \<Rightarrow> tsa_libs \<Rightarrow> outside \<Rightarrow> lookup_clocks \<Rightarrow> pipeline \<Rightarrow> ledger_heap \<Rightarrow> bytes option
   \<Rightarrow> parsed_eml option \<Rightarrow> action_evidence \<Rightarrow> proof_of_intent \<Rightarrow> bool" where
  "authentic L X T out c vp H eml parsed ev p \<longleftrightarrow>
     commitments_hold L X eml parsed ev p \<and> context_holds L H ev p
     \<and> agent_holds L c (vp_registry vp) eml ev p \<and> user_holds L c (vp_registry vp) (ae_user_envelope ev)
     \<and> time_holds L T out (vp_anchors vp) H ev p"

lemma mismatch_unless_Nil [simp]: "mismatch_unless n ok = [] \<longleftrightarrow> ok"
  by (simp add: mismatch_unless_def)

lemma hash_matches_True: "hash_matches L j hx = Inr True \<longleftrightarrow> commits L j hx"
  by (auto simp: hash_matches_def map_res_eq_Inr commits_def)

lemma action_mismatches_Nil:
  "action_mismatches L X eml parsed ev p = Inr [] \<longleftrightarrow>
     (\<exists>j. action_object X eml parsed ev = Some j \<and> commits L j (poi_action_payload_hash p))"
proof -
  have c: "map_res (mismatch_unless n) (hash_matches L j hx) = Inr [] \<longleftrightarrow> commits L j hx" for n j hx
    using mismatch_unless_Nil [of n] unfolding map_res_eq_Inr hash_matches_True [symmetric]
    by (metis (full_types))
  show ?thesis
    by (auto simp: action_mismatches_def action_object_def c Let_def hash_matches_True [symmetric] mismatch_unless_def
        split: option.splits sum.splits)
qed

lemma slice_to_prefix: "\<exists>ys. xs = slice_to n xs @ ys"
  unfolding slice_to_def by (metis append_take_drop_id)

lemma chain_action_entries: "chain L [] (led_entries (H ! ae_ledger ev)) \<Longrightarrow> chain L [] (action_entries H ev)"
proof -
  assume c: "chain L [] (led_entries (H ! ae_ledger ev))"
  obtain ys where "led_entries (H ! ae_ledger ev) = action_entries H ev @ ys"
    unfolding action_entries_def all_entries_def using slice_to_prefix by metis
  with c show ?thesis by (simp add: chain_append)
qed

lemma rebuild_chain:
  "chain L [] es \<Longrightarrow> rebuild_context L es = map_res (\<lambda>t. (es, t)) (build_merkle_tree L es)"
  by (simp add: rebuild_context_def recomputed_entries_def recomputed_chain)

text \<open>The first leaf's proof of a tree verifies.\<close>

lemma first_proof:
  assumes "sha3_len L" "build_merkle_tree L (e # es) = Inr t"
  obtains items where "get_proof t (entry_id e) = Inr items" "verify_merkle_proof L (leaf_hash e) items (mt_root t)"
proof -
  let ?xs = "map leaf_hash (e # es)"
  have hs: "all_hashes ?xs" using assms(2) by (simp add: build_merkle_tree_eq_Inr)
  have "get_proof t (entry_id e) = Inr (proof_items 0 (butlast (build_levels L ?xs)))"
    using get_proof_build(1) [OF assms(2), of 0] by simp
  moreover have "fold_proof L (leaf_hash e) (proof_items 0 (butlast (build_levels L ?xs))) = Some (mt_root t)"
    using fold_proof_items [OF assms(1) hs, of 0] by (simp add: mt_root_build [OF assms(2)])
  then have "verify_merkle_proof L (leaf_hash e) (proof_items 0 (butlast (build_levels L ?xs))) (mt_root t)"
    using hs length_tree_root [OF assms(1) hs]
    by (simp add: verify_merkle_proof_def mt_root_build [OF assms(2)] all_hashes_def)
  ultimately show thesis by (rule that)
qed

lemma merkle_step_passed:
  assumes "sha3_len L" "rebuild_context L (action_entries H ev) = Inr (es, t)"
  shows "lr_passed (fst (merkle_step L H (Some p) (Some ev) (Some (es, t)))) \<longleftrightarrow>
    verify_chain L (H ! ae_ledger ev) = Inr True \<and> poi_context_root p = bytes_hex (mt_root t)"
proof -
  from assms(2) have t: "build_merkle_tree L es = Inr t" "es \<noteq> []"
    by (auto simp: rebuild_context_eq_Inr build_merkle_tree_def)
  then obtain e es' where es: "es = e # es'" by (cases es) auto
  obtain items where i: "get_proof t (entry_id e) = Inr items" "verify_merkle_proof L (leaf_hash e) items (mt_root t)"
    using first_proof [OF assms(1) t(1) [unfolded es]] .
  show ?thesis
    by (cases "first_invalid_entry_id L (H ! ae_ledger ev)")
       (auto simp: merkle_step_def es i Let_def verify_chain_def)
qed

lemma owner_errors_Nil:
  "owner_errors (get_key_record now kid st) p = [] \<longleftrightarrow>
     (\<forall>r. get_key_record now kid st = Some r \<longrightarrow>
        poi_agent_id p \<in> {None, Some (agent_id r)} \<and> poi_agent_type p \<in> {None, agent_type r})"
  by (auto simp: owner_errors_def split: option.split)

lemma action_type_errors_Nil:
  "action_type_errors eml (Some ev) p = Inr [] \<longleftrightarrow>
     poi_action_type p = None
     \<or> (case ae_action_type ev of Some a \<Rightarrow> poi_action_type p = Some a
        | None \<Rightarrow> (eml = None \<and> ae_eml_bytes ev = None) \<or> poi_action_type p = Some ''email'')"
  by (cases "poi_action_type p") (auto simp: action_type_errors_def split: option.split)

lemma policy_errors_Nil: "policy_errors p = [] \<longleftrightarrow> poi_policy_decision p \<in> {None, Some ''allow''}"
  by (auto simp: policy_errors_def split: option.split)

lemma agent_step_passed:
  assumes "agent_step L c st eml (Some p) (Some ev) = Inr l"
  shows "lr_passed l \<longleftrightarrow> agent_holds L c st eml ev p"
proof (cases "get_pubkey (agent_key_clock c) (or_empty (poi_agent_pubkey_id p)) st")
  case None
  with agent_step_unknown [OF None, of L eml "Some ev"] assms show ?thesis by (auto simp: agent_holds_def)
next
  case (Some b)
  obtain aerrs d where a: "action_type_errors eml (Some ev) p = Inr aerrs"
    "l = link ''agent_signature'' (agent_ok L c st b aerrs p) (if agent_ok L c st b aerrs p then ''passed'' else ''failed'') d"
    by (rule agent_step_found [OF assms Some])
  have "aerrs = [] \<longleftrightarrow> action_type_errors eml (Some ev) p = Inr []" by (simp add: a(1))
  then have e: "aerrs = [] \<longleftrightarrow> poi_action_type p = None
     \<or> (case ae_action_type ev of Some a \<Rightarrow> poi_action_type p = Some a
        | None \<Rightarrow> (eml = None \<and> ae_eml_bytes ev = None) \<or> poi_action_type p = Some ''email'')"
    by (simp only: action_type_errors_Nil)
  show ?thesis
    unfolding a(2) link_simps agent_ok_def agent_holds_def owner_errors_Nil policy_errors_Nil e
    by (simp add: Some bind_res_eq_Inr)
qed

lemma user_step_passed:
  assumes "user_step L c st (Some p) (Some ev) = Inr l"
  shows "lr_passed l \<longleftrightarrow> user_holds L c st (ae_user_envelope ev)"
proof (cases "get_pubkey (user_key_clock c) (env_pubkey_id (ae_user_envelope ev)) st")
  case None
  with assms show ?thesis by (auto simp: user_step_def user_holds_def)
next
  case (Some b)
  let ?v = "bind_res (b64decode True (env_signature (ae_user_envelope ev))) (\<lambda>sig. bind_res (load_public_key L b) (\<lambda>pk.
      bind_res (hash_payload L (signing_payload (ae_user_envelope ev))) (verify L pk sig)))"
  have "?v = Inr True \<longleftrightarrow> user_holds L c st (ae_user_envelope ev)"
    by (auto simp: user_holds_def Some bind_res_eq_Inr)
  moreover have "lr_passed l \<longleftrightarrow> ?v = Inr True"
    using assms Some by (cases ?v) (auto simp: user_step_def Let_def split: if_splits)
  ultimately show ?thesis by simp
qed

lemma timestamp_step_passed:
  assumes "timestamp_step T out anchors (Some p) (Some ev) (Some (es, t)) = Inr l"
  shows "lr_passed l \<longleftrightarrow> (\<forall>tok. recorded_token anchors (Some p) ev = Some tok \<longrightarrow>
        (\<exists>cfg cert v. bind_res (out_tsa_config out) load_tsa_config = Inr cfg
           \<and> fetch_pinned_root_certificate T (out_get out) cfg = Inr cert
           \<and> verify_timestamp_token T tok (mt_root t) (ParsedCertificate cert) = Inr v \<and> tvr_verified v))"
proof (cases "recorded_token anchors (Some p) ev")
  case None
  with assms show ?thesis by (auto simp: timestamp_step_def verify_anchor_token_def map_res_eq_Inr)
next
  case (Some tok)
  let ?v = "bind_res (bind_res (out_tsa_config out) load_tsa_config) (\<lambda>cfg.
      bind_res (fetch_pinned_root_certificate T (out_get out) cfg) (\<lambda>c.
        verify_timestamp_token T tok (mt_root t) (ParsedCertificate c)))"
  have "lr_passed l \<longleftrightarrow> (\<exists>v. ?v = Inr v \<and> tvr_verified v)"
    using assms Some
    by (auto simp: timestamp_step_def verify_anchor_token_def map_res_eq_Inr split: sum.splits if_splits option.splits)
  also have "\<dots> \<longleftrightarrow> (\<exists>cfg cert v. bind_res (out_tsa_config out) load_tsa_config = Inr cfg
           \<and> fetch_pinned_root_certificate T (out_get out) cfg = Inr cert
           \<and> verify_timestamp_token T tok (mt_root t) (ParsedCertificate cert) = Inr v \<and> tvr_verified v)"
    by (fastforce simp: bind_res_eq_Inr)
  finally show ?thesis using Some by auto
qed

lemma context_holds_rebuilt:
  assumes "rebuild_context L (action_entries H ev) = Inr (es, t)" "poi_context_root p = bytes_hex (mt_root t)"
    and "verify_chain L (H ! ae_ledger ev) = Inr True"
  shows "build_merkle_tree L (action_entries H ev) = Inr t"
proof -
  have "chain L [] (action_entries H ev)" using assms(3) by (auto simp: verify_chain_iff intro: chain_action_entries)
  from rebuild_chain [OF this] assms(1) show ?thesis by (cases "build_merkle_tree L (action_entries H ev)") auto
qed

lemma valid_links_authentic:
  assumes "sha3_len L" "in_poi i = Some p" "in_evidence i = Some ev" "lr_passed (hd (in_links i))" "length (in_links i) = 1"
    and "check_links L X T out c vp H eml i = Inr tr"
  shows "vt_overall_valid tr \<longleftrightarrow> authentic L X T out c vp H eml (in_parsed i) ev p"
proof -
  obtain l2 r l3 l4 l5 v l6 where l: "hash_step L X H eml i = Inr (l2, r)"
    "agent_step L c (vp_registry vp) eml (Some p) (Some ev) = Inr l3"
    "user_step L c (vp_registry vp) (Some p) (Some ev) = Inr l4"
    "merkle_step L H (Some p) (Some ev) r = (l5, v)"
    "timestamp_step T out (vp_anchors vp) (Some p) (Some ev) r = Inr l6"
    "tr = assemble_trace i [l2, l3, l4, l5, l6] r v"
    using assms(6) unfolding check_links_eq_Inr assms(2,3) by blast
  obtain l1 where l1: "in_links i = [l1]" "lr_passed l1" using assms(4,5) by (cases "in_links i") auto
  let ?R = "rebuild_context L (action_entries H ev)"
  obtain u sy am where h: "hash_matches L (JObj [(''prompt'', JStr (env_prompt (ae_user_envelope ev)))]) (poi_user_prompt_hash p) = Inr u"
    "hash_matches L (JObj [(''system_prompt'', JStr (ae_system_prompt ev))]) (poi_system_prompt_hash p) = Inr sy"
    "action_mismatches L X eml (in_parsed i) ev p = Inr am" "r = res_option ?R"
    "l2 = hash_verdict (mismatch_unless ''user_prompt_hash'' u @ mismatch_unless ''system_prompt_hash'' sy @ am
               @ context_mismatches ?R p)"
    using l(1) unfolding hash_step_found [OF assms(2,3)] by blast
  have "am = [] \<longleftrightarrow> action_mismatches L X eml (in_parsed i) ev p = Inr []" using h(3) by simp
  then have am: "am = [] \<longleftrightarrow> (\<exists>j. action_object X eml (in_parsed i) ev = Some j \<and> commits L j (poi_action_payload_hash p))"
    by (simp only: action_mismatches_Nil)
  have us: "u \<longleftrightarrow> commits L (JObj [(''prompt'', JStr (env_prompt (ae_user_envelope ev)))]) (poi_user_prompt_hash p)"
    "sy \<longleftrightarrow> commits L (JObj [(''system_prompt'', JStr (ae_system_prompt ev))]) (poi_system_prompt_hash p)"
    using h(1,2) by (simp_all add: hash_matches_True [symmetric])
  have p2: "lr_passed l2 \<longleftrightarrow> commitments_hold L X eml (in_parsed i) ev p \<and> context_mismatches ?R p = []"
    unfolding h(5) commitments_hold_def us [symmetric] am [symmetric] by simp
  note p34 = agent_step_passed [OF l(2)] user_step_passed [OF l(3)]
  have "lr_passed l2 \<and> lr_passed l5 \<and> lr_passed l6 \<longleftrightarrow>
      commitments_hold L X eml (in_parsed i) ev p \<and> context_holds L H ev p \<and> time_holds L T out (vp_anchors vp) H ev p"
  proof (cases ?R)
    case (Inl e)
    have "\<not> context_holds L H ev p"
    proof
      assume "context_holds L H ev p"
      then obtain t where "chain L [] (led_entries (H ! ae_ledger ev))" "build_merkle_tree L (action_entries H ev) = Inr t"
        by (auto simp: context_holds_def verify_chain_iff)
      with rebuild_chain [OF chain_action_entries] Inl show False by auto
    qed
    with p2 Inl show ?thesis by (simp add: context_mismatches_def)
  next
    case (Inr et)
    obtain es t where et: "et = (es, t)" by (cases et)
    then have R: "?R = Inr (es, t)" and r: "r = Some (es, t)" using Inr h(4) by (simp_all add: res_option_def)
    have c2: "context_mismatches ?R p = [] \<longleftrightarrow> poi_context_root p = bytes_hex (mt_root t)"
      by (auto simp: R context_mismatches_def mismatch_unless_def)
    have p5: "lr_passed l5 \<longleftrightarrow> verify_chain L (H ! ae_ledger ev) = Inr True \<and> poi_context_root p = bytes_hex (mt_root t)"
      using merkle_step_passed [OF assms(1) R, of p] l(4) r by simp
    have b: "build_merkle_tree L (action_entries H ev) = Inr t" if "verify_chain L (H ! ae_ledger ev) = Inr True"
        "poi_context_root p = bytes_hex (mt_root t)"
      using context_holds_rebuilt [OF R that(2,1)] .
    have ch: "context_holds L H ev p \<longleftrightarrow> lr_passed l5"
    proof
      assume "context_holds L H ev p"
      then obtain t' where t': "verify_chain L (H ! ae_ledger ev) = Inr True" "build_merkle_tree L (action_entries H ev) = Inr t'"
          "poi_context_root p = bytes_hex (mt_root t')" by (auto simp: context_holds_def)
      then have "t' = t" using rebuild_chain [OF chain_action_entries] R by (auto simp: verify_chain_iff)
      with t' p5 show "lr_passed l5" by simp
    next
      assume "lr_passed l5" with p5 b show "context_holds L H ev p" by (auto simp: context_holds_def)
    qed
    have p6: "lr_passed l6 \<longleftrightarrow> time_holds L T out (vp_anchors vp) H ev p" if "lr_passed l5"
      using timestamp_step_passed [OF l(5) [unfolded r]] b that p5 by (simp add: time_holds_def)
    show ?thesis using p2 c2 p5 ch p6 by blast
  qed
  with p34 l1 show ?thesis by (auto simp: l(6) authentic_def)
qed

end
