(* ===== verification/Pipeline_Contracts.thy ===== *)
theory Pipeline_Contracts
  imports Verify_Pipeline
begin

text \<open>
  The guarantees of the forensic pipeline, end to end: when a trace is produced, what a positive
  verdict means, that an action recorded by the honest code verifies now and after the ledger has
  grown, that a changed context cannot pass, and that the verdict survives a restart.
\<close>

section \<open>A concrete recorded action\<close>

definition demo_agent_sk :: private_key where
  "demo_agent_sk = Ed25519PrivateKey (replicate 32 9)"

definition demo_user_envelope :: signed_envelope where
  "demo_user_envelope = demo_envelope_for (b64encode (demo_key @ demo_envelope_digest))"

definition demo_registry :: key_table where
  "demo_registry = (case register_agent_public_key demo_libs 100 100 100 ''email-agent'' demo_agent_sk demo_table of
     Inl _ \<Rightarrow> [] | Inr (_, st) \<Rightarrow> st)"

definition demo_built_poi :: "proof_of_intent res" where
  "demo_built_poi = build_poi demo_libs ''t'' ''u'' ''send it'' ''sys'' demo_ledger demo_action ''m''
     (Some ''email'', Some ''email-agent'', Some ''email'', Some ''allow'')"

definition demo_case_poi :: proof_of_intent where
  "demo_case_poi = (case bind_res demo_built_poi (\<lambda>p. sign_poi demo_libs p demo_agent_sk) of
     Inl _ \<Rightarrow> demo_unsigned_poi | Inr q \<Rightarrow> q)"

definition demo_case :: action_evidence where
  "demo_case = \<lparr>ae_action_id = ''a1'', ae_user_envelope = demo_user_envelope, ae_system_prompt = ''sys'', ae_ledger = 0,
     ae_ledger_entry_count = 2, ae_eml_bytes = None, ae_poi = Some demo_case_poi, ae_action_type = Some ''email'',
     ae_action_payload = Some demo_action, ae_observed_effect = None, ae_timestamp_token = None\<rparr>"

text \<open>The ledger after the action appended its result.\<close>

definition demo_grown :: ledger where
  "demo_grown = (case ledger_append demo_libs ''t9'' ''action_result'' demo_c1 demo_ledger of
     Inl _ \<Rightarrow> demo_ledger | Inr (_, l) \<Rightarrow> l)"

definition demo_lookups :: lookup_clocks where
  "demo_lookups = \<lparr>agent_key_clock = 200, agent_record_clock = 201, user_key_clock = 202\<rparr>"

definition demo_pipeline :: pipeline where
  "demo_pipeline = \<lparr>vp_registry = demo_registry, vp_anchors = None\<rparr>"

definition demo_outside :: outside where
  "demo_outside = \<lparr>out_tsa_config = Inl (Exc OSError []), out_get = (\<lambda>_. Inl (Exc HTTPXError [])),
     out_database = empty_database\<rparr>"

definition demo_case_store :: evidence_store where
  "demo_case_store = \<lparr>es_evidence = [(''a1'', demo_case)], es_persistent = True\<rparr>"

lemma demo_registry_inv: "registry_inv demo_libs demo_registry"
proof -
  have "registry_inv demo_libs demo_table" using demo_table_reach by (rule registry_reach_inv)
  moreover have "(registry_step demo_libs)\<^sup>*\<^sup>* demo_table st" if
    "register_agent_public_key demo_libs 100 100 100 ''email-agent'' demo_agent_sk demo_table = Inr (kid, st)" for kid st
    using register_agent_public_key_steps [OF that] .
  ultimately show ?thesis
    using demo_table_reach rtranclp_trans [of "registry_step demo_libs"]
    by (auto simp: demo_registry_def intro!: registry_reach_inv split: sum.split)
qed

lemma demo_built: "\<exists>p. demo_built_poi = Inr p \<and> sign_poi demo_libs p demo_agent_sk = Inr demo_case_poi"
proof -
  have "isl (bind_res demo_built_poi (\<lambda>p. sign_poi demo_libs p demo_agent_sk)) = False" by code_simp
  then obtain q where "bind_res demo_built_poi (\<lambda>p. sign_poi demo_libs p demo_agent_sk) = Inr q"
    by (cases "bind_res demo_built_poi (\<lambda>p. sign_poi demo_libs p demo_agent_sk)") auto
  moreover from this have "demo_case_poi = q" by (simp add: demo_case_poi_def)
  ultimately show ?thesis by (auto simp: bind_res_eq_Inr)
qed

lemma demo_user_accepted:
  "check_signature demo_libs (registry_lookup 202 demo_registry) demo_user_envelope = Inr accepted"
  by code_simp

lemma demo_grown_step: "ledger_step demo_libs demo_ledger demo_grown"
proof -
  have "isl (ledger_append demo_libs ''t9'' ''action_result'' demo_c1 demo_ledger) = False" by code_simp
  then show ?thesis
    by (cases "ledger_append demo_libs ''t9'' ''action_result'' demo_c1 demo_ledger") (auto simp: ledger_step_def demo_grown_def)
qed

section \<open>A trace is produced\<close>

text \<open>
  C7: a full forensic trace is always produced. When the evidence lookup succeeds, the registry is
  one its interface can build, and the stored payload canonicalizes, \<^verbatim>\<open>run_verification\<close> returns a
  trace (for a PoI that names an action type: if the evidence of the action exists), whatever the
  artifact, the signatures, the ledger and the timestamp service look like. The trace has exactly the
  six links in their fixed order, each passed or not consistently with its status, only the timestamp
  can be pending, and the overall verdict is the conjunction of the links.
\<close>

theorem verification_always_traces:
  assumes "registry_inv L (vp_registry vp)" "dumps_text L"
    and "take_in X (out_database out) eml aid s = (Inr i, st, H)"
    and "\<forall>ev j. in_evidence i = Some ev \<longrightarrow> ae_action_payload ev = Some j \<longrightarrow> (\<exists>h. hash_payload L j = Inr h)"
    and "in_evidence i \<noteq> None \<or> (\<forall>p. in_poi i = Some p \<longrightarrow> poi_action_type p = None)"
  shows "\<exists>tr. run_verification L X T out c vp eml aid s = (Inr tr, st, H)
    \<and> map lr_name (vt_links tr) = six_links
    \<and> (\<forall>l \<in> set (vt_links tr). (lr_passed l \<longleftrightarrow> lr_status l \<in> {''passed'', ''pending''})
         \<and> (lr_status l = ''pending'' \<longrightarrow> lr_name l = ''timestamp_anchor''))
    \<and> (vt_overall_valid tr \<longleftrightarrow> (\<forall>l \<in> set (vt_links tr). lr_passed l))"
proof -
  have ex: "extracted (in_links i) (in_poi i)" using assms(3) by (rule take_in_extracted)
  obtain l2 r where "hash_step L X H eml i = Inr (l2, r)"
    using hash_step_total [OF assms(2)] take_in_parsed [OF assms(3)] assms(4) by metis
  moreover obtain l3 where "agent_step L c (vp_registry vp) eml (in_poi i) (in_evidence i) = Inr l3"
    using agent_step_total [OF assms(5)] by blast
  moreover obtain l4 where "user_step L c (vp_registry vp) (in_poi i) (in_evidence i) = Inr l4"
    using user_step_total [OF assms(1,2)] by blast
  moreover obtain l5 v where "merkle_step L H (in_poi i) (in_evidence i) r = (l5, v)" by fastforce
  moreover obtain l6 where "timestamp_step T out (vp_anchors vp) (in_poi i) (in_evidence i) r = Inr l6"
    using timestamp_step_total by blast
  ultimately obtain tr where tr: "check_links L X T out c vp H eml i = Inr tr" unfolding check_links_eq_Inr by blast
  from trace_shape [OF ex tr] show ?thesis
    by (intro exI [of _ tr]) (auto simp: run_verification_eq [OF assms(3)] tr list_all_iff link_ok_def)
qed

section \<open>The verdict\<close>

lemma run_verification_verdict:
  assumes "sha3_len L" "take_in X (out_database out) eml aid s = (Inr i, s')"
    and "run_verification L X T out c vp eml aid s = (Inr tr, s')"
  shows "vt_overall_valid tr \<longleftrightarrow> (\<exists>p ev. in_poi i = Some p \<and> in_evidence i = Some ev
    \<and> authentic L X T out c vp (snd s') eml (in_parsed i) ev p)"
proof -
  obtain st H where s': "s' = (st, H)" by (cases s')
  have tr: "check_links L X T out c vp H eml i = Inr tr"
    using assms(2,3) by (simp add: s' run_verification_eq)
  have ex: "extracted (in_links i) (in_poi i)" using assms(2) by (rule take_in_extracted)
  show ?thesis
  proof (cases "in_poi i = None \<or> in_evidence i = None")
    case True
    obtain d where "hash_step L X H eml i = Inr (unavailable ''hash_recomputation'' d, None)"
      using hash_step_missing [OF True] by blast
    with tr True show ?thesis by (auto simp: check_links_eq_Inr)
  next
    case False
    then obtain p ev where *: "in_poi i = Some p" "in_evidence i = Some ev" by auto
    with ex have "lr_passed (hd (in_links i))" "length (in_links i) = 1" by (auto simp: extracted_def)
    from valid_links_authentic [OF assms(1) * this tr] * show ?thesis by (simp add: s')
  qed
qed

lemma run_verification_id:
  assumes "take_in X (out_database out) eml aid s = (Inr i, s')" "run_verification L X T out c vp eml aid s = (Inr tr, s')"
  shows "vt_action_id tr = (if eml = None then aid else in_action_id i)"
proof -
  obtain st H where s': "s' = (st, H)" by (cases s')
  have "check_links L X T out c vp H eml i = Inr tr" using assms by (simp add: s' run_verification_eq)
  then have "vt_action_id tr = in_action_id i" by (auto simp: check_links_eq_Inr assemble_trace_def Let_def)
  moreover have "in_action_id i = aid" if "eml = None"
    using assms(1) that by (auto simp: take_in_def Let_def split: sum.splits prod.splits)
  ultimately show ?thesis by simp
qed

text \<open>
  C4: the verdict is exact: a trace is valid if and only if a PoI was extracted, evidence of the action
  was found, and the record is authentic in the sense of the specification \<open>authentic\<close>: the digests of
  prompt, system prompt and action object are the committed ones, the ledger is an unbroken chain whose
  first entries have the committed root, the agent's key is active, its signature verifies and its
  identity, action type and policy agree, the user's signature verifies under an active key, and a
  recorded timestamp verifies against the pinned certificate.
\<close>

theorem verdict_exact:
  assumes "sha3_len L" "take_in X (out_database out) eml aid s = (Inr i, s')"
    and "run_verification L X T out c vp eml aid s = (Inr tr, s')"
  shows "vt_overall_valid tr \<longleftrightarrow> (\<exists>p ev. in_poi i = Some p \<and> in_evidence i = Some ev
    \<and> authentic L X T out c vp (snd s') eml (in_parsed i) ev p)"
  using assms by (rule run_verification_verdict)

section \<open>Honest actions\<close>

text \<open>The state at verification time of an action that was recorded by the honest code.\<close>

definition recorded_honestly ::
  "crypto_libs \<Rightarrow> lookup_clocks \<Rightarrow> pipeline \<Rightarrow> ledger_heap \<Rightarrow> ledger \<Rightarrow> private_key \<Rightarrow> json \<Rightarrow> action_evidence \<Rightarrow> proof_of_intent \<Rightarrow> bool"
where
  "recorded_honestly L c vp H led k ap ev q \<longleftrightarrow>
     (\<exists>ts uuid mid aty aid act p kid r. ledger_reach L led
       \<and> build_poi L ts uuid (env_prompt (ae_user_envelope ev)) (ae_system_prompt ev) led ap mid
           (aty, aid, act, Some ''allow'') = Inr p
       \<and> sign_poi L p k = Inr q \<and> agent_pubkey_id L k = Inr kid
       \<and> get_key_record (agent_key_clock c) kid (vp_registry vp) = Some r
       \<and> get_key_record (agent_record_clock c) kid (vp_registry vp) = Some r
       \<and> load_public_key L (public_key_bytes r) = Inr (public_key_of L k)
       \<and> aid \<in> {None, Some (agent_id r)} \<and> aty \<in> {None, agent_type r} \<and> act \<in> {None, ae_action_type ev}
       \<and> check_signature L (registry_lookup (user_key_clock c) (vp_registry vp)) (ae_user_envelope ev) = Inr accepted
       \<and> (ledger_step L)\<^sup>*\<^sup>* led (H ! ae_ledger ev) \<and> ae_ledger_entry_count ev = int (length (all_entries led))
       \<and> ae_poi ev = Some q \<and> ae_action_payload ev = Some ap)"

lemma ledger_steps_reach: "(ledger_step L)\<^sup>*\<^sup>* l l' \<Longrightarrow> ledger_reach L l \<Longrightarrow> ledger_reach L l'"
  by (induction rule: rtranclp_induct) (auto simp: ledger_step_def intro: ledger_reach.append)

lemma later_action_entries:
  assumes "(ledger_step L)\<^sup>*\<^sup>* led (H ! ae_ledger ev)" "ae_ledger_entry_count ev = int (length (all_entries led))"
  shows "action_entries H ev = all_entries led"
  using ledger_log.prefix_stable [OF assms(1)] assms(2) by (simp add: action_entries_def slice_to_def all_entries_def)

lemma accepted_user_holds:
  "check_signature L (registry_lookup (user_key_clock c) st) env = Inr accepted \<Longrightarrow> user_holds L c st env"
  by (auto simp: check_signature_accepts registry_lookup_def user_holds_def load_public_key_registered)

lemma honest_authentic:
  assumes "sha3_len L" "ed25519_correct L" "recorded_honestly L c vp H led k ap ev q"
    and "recorded_token (vp_anchors vp) (Some q) ev = None"
  shows "authentic L X T out c vp H None parsed ev q"
proof -
  from assms(3) obtain ts uuid mid aty aid act p kid r where led: "ledger_reach L led"
    and p: "build_poi L ts uuid (env_prompt (ae_user_envelope ev)) (ae_system_prompt ev) led ap mid
           (aty, aid, act, Some ''allow'') = Inr p"
    and q: "sign_poi L p k = Inr q" and kid: "agent_pubkey_id L k = Inr kid"
    and r: "get_key_record (agent_key_clock c) kid (vp_registry vp) = Some r"
      "get_key_record (agent_record_clock c) kid (vp_registry vp) = Some r"
      "load_public_key L (public_key_bytes r) = Inr (public_key_of L k)"
      "aid \<in> {None, Some (agent_id r)}" "aty \<in> {None, agent_type r}" "act \<in> {None, ae_action_type ev}"
    and u: "check_signature L (registry_lookup (user_key_clock c) (vp_registry vp)) (ae_user_envelope ev) = Inr accepted"
    and H: "(ledger_step L)\<^sup>*\<^sup>* led (H ! ae_ledger ev)" "ae_ledger_entry_count ev = int (length (all_entries led))"
    and ev: "ae_poi ev = Some q" "ae_action_payload ev = Some ap"
    unfolding recorded_honestly_def by blast
  from p obtain t uh sh ah where c: "build_merkle_tree L (all_entries led) = Inr t"
      "hash_payload L (JObj [(''prompt'', JStr (env_prompt (ae_user_envelope ev)))]) = Inr uh"
      "hash_payload L (JObj [(''system_prompt'', JStr (ae_system_prompt ev))]) = Inr sh" "hash_payload L ap = Inr ah"
      "poi_user_prompt_hash p = bytes_hex uh" "poi_system_prompt_hash p = bytes_hex sh"
      "poi_context_root p = bytes_hex (mt_root t)" "poi_action_payload_hash p = bytes_hex ah"
      "poi_agent_type p = aty" "poi_agent_id p = aid" "poi_action_type p = act" "poi_policy_decision p = Some ''allow''"
    unfolding build_poi_eq_Inr by force
  obtain sig where qp: "q = p\<lparr>poi_agent_pubkey_id := Some kid, poi_agent_signature := Some sig\<rparr>"
    using q kid unfolding sign_poi_eq_Inr by auto
  have "verify_chain L (H ! ae_ledger ev) = Inr True"
    using ledger_reach_inv [OF ledger_steps_reach [OF H(1) led]] by (simp add: ledger_inv_def verify_chain_iff)
  then have ctx: "context_holds L H ev q"
    using c by (simp add: context_holds_def later_action_entries [OF H] qp)
  have com: "commitments_hold L X None parsed ev q"
    using c ev by (auto simp: commitments_hold_def commits_def action_object_def qp)
  have "get_pubkey (agent_key_clock c) kid (vp_registry vp) = Some (public_key_bytes r)" by (simp add: get_pubkey_eq r(1))
  moreover have "poi_action_type q = None \<or> (case ae_action_type ev of Some a \<Rightarrow> poi_action_type q = Some a
      | None \<Rightarrow> (None = None \<and> ae_eml_bytes ev = None) \<or> poi_action_type q = Some ''email'')"
    using r(6) c(11) by (cases "ae_action_type ev") (auto simp: qp)
  moreover have "or_empty (poi_agent_pubkey_id q) = kid" "poi_agent_id q = aid" "poi_agent_type q = aty"
    "poi_policy_decision q = Some ''allow''"
    by (simp_all add: qp or_empty_def c)
  ultimately have ag: "agent_holds L c (vp_registry vp) None ev q"
    using r(2-5) signed_poi_verifies [OF assms(2) q] by (simp add: agent_holds_def)
  show ?thesis
    using ctx com ag accepted_user_holds [OF u] assms(4) by (simp add: authentic_def time_holds_def)
qed

lemma get_evidence_again:
  "get_evidence X db aid s = Inr (Some ev, s') \<Longrightarrow> get_evidence X db aid s' = Inr (Some ev, s')"
  by (auto simp: get_evidence_def map_res_eq_Inr split: option.splits if_splits prod.splits)

text \<open>The intake of a request by action id, for evidence that holds the PoI.\<close>

definition stored_parsed :: "text_libs \<Rightarrow> action_evidence \<Rightarrow> parsed_eml option" where
  "stored_parsed X ev = Option.bind (ae_eml_bytes ev) (\<lambda>b. res_option (parse_eml X b))"

definition stored_intake :: "text_libs \<Rightarrow> string \<Rightarrow> action_evidence \<Rightarrow> proof_of_intent \<Rightarrow> intake" where
  "stored_intake X aid ev q =
     \<lparr>in_links = [link ''poi_extraction'' True ''passed'' ''signed PoI loaded from structured action evidence''],
      in_parsed = stored_parsed X ev, in_poi = Some q, in_evidence = Some ev, in_action_id = Some aid\<rparr>"

definition artifact_readable :: "text_libs \<Rightarrow> action_evidence \<Rightarrow> bool" where
  "artifact_readable X ev \<longleftrightarrow> (\<forall>b. ae_eml_bytes ev = Some b \<longrightarrow> (\<exists>pe. parse_eml X b = Inr pe))"

lemma take_in_stored:
  assumes "get_evidence X db aid s = Inr (Some ev, s')" "aid \<noteq> []" "ae_poi ev = Some q" "artifact_readable X ev"
  shows "take_in X db None (Some aid) s = (Inr (stored_intake X aid ev q), s')"
proof -
  have "(case ae_eml_bytes ev of None \<Rightarrow> ([], None) | Some b \<Rightarrow> read_artifact X p b) = ([], stored_parsed X ev)" for p
    using assms(4) by (auto simp: artifact_readable_def read_artifact_def stored_parsed_def res_option_def split: option.split)
  then show ?thesis
    using assms(1-3) get_evidence_again [OF assms(1)]
    by (simp add: take_in_def lookup_if_def extract_poi_def stored_intake_def)
qed

lemma demo_agent_record:
  obtains kid r where "agent_pubkey_id demo_libs demo_agent_sk = Inr kid"
    "get_key_record 200 kid demo_registry = Some r" "get_key_record 201 kid demo_registry = Some r"
    "load_public_key demo_libs (public_key_bytes r) = Inr (public_key_of demo_libs demo_agent_sk)"
    "agent_id r = ''email-agent''" "agent_type r = Some ''email''"
proof -
  have "map_res (\<lambda>kid. (case (get_key_record 200 kid demo_registry, get_key_record 201 kid demo_registry) of
      (Some r, Some r') \<Rightarrow> r = r' \<and> load_public_key demo_libs (public_key_bytes r) = Inr (public_key_of demo_libs demo_agent_sk)
        \<and> agent_id r = ''email-agent'' \<and> agent_type r = Some ''email'' | _ \<Rightarrow> False)) (agent_pubkey_id demo_libs demo_agent_sk) = Inr True"
    by code_simp
  then obtain kid where "agent_pubkey_id demo_libs demo_agent_sk = Inr kid"
    "case (get_key_record 200 kid demo_registry, get_key_record 201 kid demo_registry) of
      (Some r, Some r') \<Rightarrow> r = r' \<and> load_public_key demo_libs (public_key_bytes r) = Inr (public_key_of demo_libs demo_agent_sk)
        \<and> agent_id r = ''email-agent'' \<and> agent_type r = Some ''email'' | _ \<Rightarrow> False"
    by (auto simp: map_res_eq_Inr)
  then show thesis by (auto intro: that split: option.splits)
qed

lemma demo_recorded: "recorded_honestly demo_libs demo_lookups demo_pipeline [demo_grown] demo_ledger demo_agent_sk demo_action
    demo_case demo_case_poi"
proof -
  obtain kid r where r: "agent_pubkey_id demo_libs demo_agent_sk = Inr kid"
    "get_key_record 200 kid demo_registry = Some r" "get_key_record 201 kid demo_registry = Some r"
    "load_public_key demo_libs (public_key_bytes r) = Inr (public_key_of demo_libs demo_agent_sk)"
    "agent_id r = ''email-agent''" "agent_type r = Some ''email''" by (rule demo_agent_record)
  obtain p where p: "build_poi demo_libs ''t'' ''u'' ''send it'' ''sys'' demo_ledger demo_action ''m''
      (Some ''email'', Some ''email-agent'', Some ''email'', Some ''allow'') = Inr p"
    "sign_poi demo_libs p demo_agent_sk = Inr demo_case_poi" using demo_built unfolding demo_built_poi_def by blast
  have n: "length (all_entries demo_ledger) = 2" by code_simp
  have e: "env_prompt (ae_user_envelope demo_case) = ''send it''"
    by (simp add: demo_case_def demo_user_envelope_def demo_envelope_for_def)
  have c: "ae_system_prompt demo_case = ''sys''" "ae_ledger demo_case = 0" "ae_ledger_entry_count demo_case = 2"
    "ae_poi demo_case = Some demo_case_poi" "ae_action_payload demo_case = Some demo_action"
    "ae_action_type demo_case = Some ''email''" "ae_user_envelope demo_case = demo_user_envelope"
    by (simp_all add: demo_case_def)
  have v: "vp_registry demo_pipeline = demo_registry" "agent_key_clock demo_lookups = 200"
    "agent_record_clock demo_lookups = 201" "user_key_clock demo_lookups = 202"
    by (simp_all add: demo_pipeline_def demo_lookups_def)
  have g: "(ledger_step demo_libs)\<^sup>*\<^sup>* demo_ledger ([demo_grown] ! ae_ledger demo_case)"
    using demo_grown_step by (simp add: c r_into_rtranclp)
  show ?thesis
    unfolding recorded_honestly_def v e c(1)
    using p r g n c demo_ledger_reach demo_user_accepted
    by (intro exI [of _ "''t''"] exI [of _ "''u''"] exI [of _ "''m''"] exI [of _ "Some ''email''"]
        exI [of _ "Some ''email-agent''"] exI [of _ "Some ''email''"] exI [of _ p] exI [of _ kid] exI [of _ r]) simp
qed

lemma demo_case_found:
  "get_evidence demo_text_libs (out_database demo_outside) ''a1'' (demo_case_store, [demo_grown]) = Inr (Some demo_case, demo_case_store, [demo_grown])"
  by (simp add: get_evidence_def demo_case_store_def)

lemma demo_no_token: "recorded_token (vp_anchors demo_pipeline) (Some demo_case_poi) demo_case = None"
  by (simp add: recorded_token_def demo_pipeline_def demo_case_def)

lemma demo_case_readable: "artifact_readable X demo_case"
  by (simp add: artifact_readable_def demo_case_def)

lemma honest_trace:
  assumes "sha3_len L" "ed25519_correct L" "dumps_text L" "registry_inv L (vp_registry vp)"
    and "recorded_honestly L c vp H led k ap ev q" "artifact_readable X ev"
    and "get_evidence X (out_database out) aid s = Inr (Some ev, st, H)" "aid \<noteq> []"
    and "recorded_token (vp_anchors vp) (Some q) ev = None"
  shows "\<exists>tr. run_verification L X T out c vp None (Some aid) s = (Inr tr, st, H) \<and> vt_overall_valid tr
    \<and> map lr_passed (vt_links tr) = replicate 6 True
    \<and> lr_status (last (vt_links tr)) = ''pending'' \<and> \<not> vt_timestamp_verified tr"
proof -
  let ?i = "stored_intake X aid ev q"
  have ev: "ae_poi ev = Some q" "ae_action_payload ev = Some ap" using assms(5) by (auto simp: recorded_honestly_def)
  have ti: "take_in X (out_database out) None (Some aid) s = (Inr ?i, st, H)"
    using take_in_stored [OF assms(7,8) ev(1) assms(6)] .
  have i: "in_poi ?i = Some q" "in_evidence ?i = Some ev" "lr_passed (hd (in_links ?i))" "length (in_links ?i) = 1"
    "in_links ?i \<noteq> []"
    by (simp_all add: stored_intake_def)
  have auth: "authentic L X T out c vp H None (in_parsed ?i) ev q" by (rule honest_authentic [OF assms(1,2,5,9)])
  then have h: "\<exists>h. hash_payload L ap = Inr h"
    by (auto simp: authentic_def commitments_hold_def action_object_def ev commits_def)
  have "\<exists>l2 r. hash_step L X H None ?i = Inr (l2, r)"
    by (rule hash_step_total [OF assms(3)]) (use take_in_parsed [OF ti] h ev i(2) in auto)
  then obtain l2 r where l2: "hash_step L X H None ?i = Inr (l2, r)" by blast
  obtain l3 where l3: "agent_step L c (vp_registry vp) None (Some q) (Some ev) = Inr l3"
    using agent_step_total [of "Some ev" "Some q"] by blast
  obtain l4 where l4: "user_step L c (vp_registry vp) (Some q) (Some ev) = Inr l4"
    using user_step_total [OF assms(4,3)] by blast
  obtain l5 v where l5: "merkle_step L H (Some q) (Some ev) r = (l5, v)" by fastforce
  have "r = res_option (rebuild_context L (action_entries H ev))" using l2 unfolding hash_step_found [OF i(1,2)] by blast
  moreover have "\<exists>t. rebuild_context L (action_entries H ev) = Inr (action_entries H ev, t)"
    using auth rebuild_chain [OF chain_action_entries] by (auto simp: authentic_def context_holds_def verify_chain_iff)
  ultimately obtain t where r: "r = Some (action_entries H ev, t)" by (auto simp: res_option_def)
  let ?l6 = "link ''timestamp_anchor'' True ''pending'' ''pending: no RFC 3161 timestamp token recorded''"
  have l6: "timestamp_step T out (vp_anchors vp) (Some q) (Some ev) r = Inr ?l6"
    by (simp add: r timestamp_step_def assms(9) verify_anchor_token_def)
  let ?tr = "assemble_trace ?i [l2, l3, l4, l5, ?l6] r v"
  have tr: "check_links L X T out c vp H None ?i = Inr ?tr"
    unfolding check_links_eq_Inr i(1,2) using l2 l3 l4 l5 l6 by blast
  have "vt_overall_valid ?tr" using valid_links_authentic [OF assms(1) i(1-4) tr] auth by blast
  then have "map lr_passed (vt_links ?tr) = replicate 6 True"
    by (auto simp: stored_intake_def eval_nat_numeral)
  moreover have "\<not> vt_timestamp_verified ?tr" "lr_status (last (vt_links ?tr)) = ''pending''"
    by (simp_all add: assemble_trace_def Let_def)
  ultimately show ?thesis
    using \<open>vt_overall_valid ?tr\<close> run_verification_eq [OF ti] tr by (intro exI [of _ ?tr]) simp
qed

text \<open>
  C5: an action recorded by the honest code verifies, immediately and after any further appends to its
  ledger: when the PoI was built and signed over the ledger of that moment by the holder of an active
  agent key, the stored payload and prompts are the ones given to \<^verbatim>\<open>build_poi\<close>, and the envelope is one
  the signature check accepts, verification by action id returns a valid trace. With no timestamp
  recorded yet the timestamp is reported as pending and not as verified.
\<close>

theorem honest_action_verifies:
  assumes "sha3_len L" "ed25519_correct L" "dumps_text L" "registry_inv L (vp_registry vp)"
    and "recorded_honestly L c vp H led k ap ev q" "artifact_readable X ev"
    and "get_evidence X (out_database out) aid s = Inr (Some ev, st, H)" "aid \<noteq> []"
    and "recorded_token (vp_anchors vp) (Some q) ev = None"
  shows "\<exists>tr. run_verification L X T out c vp None (Some aid) s = (Inr tr, st, H) \<and> vt_overall_valid tr
    \<and> map lr_passed (vt_links tr) = replicate 6 True
    \<and> lr_status (last (vt_links tr)) = ''pending'' \<and> \<not> vt_timestamp_verified tr"
  using honest_trace [OF assms] .

theorem honest_action_verifies_witness:
  "\<exists>tr. fst (run_verification demo_libs demo_text_libs demo_tsa demo_outside demo_lookups demo_pipeline None (Some ''a1'')
      (demo_case_store, [demo_grown])) = Inr tr \<and> vt_overall_valid tr \<and> lr_status (last (vt_links tr)) = ''pending''"
proof -
  have "registry_inv demo_libs (vp_registry demo_pipeline)" by (simp add: demo_pipeline_def demo_registry_inv)
  from honest_action_verifies [OF demo_sha3_len demo_ed25519_correct demo_dumps_text this demo_recorded demo_case_readable
      demo_case_found _ demo_no_token, of demo_tsa]
  show ?thesis by auto
qed

section \<open>Changed records\<close>

definition prompt_object :: "string \<Rightarrow> json" where
  "prompt_object s = JObj [(''prompt'', JStr s)]"

definition system_object :: "string \<Rightarrow> json" where
  "system_object s = JObj [(''system_prompt'', JStr s)]"

text \<open>The payloads whose digests are compared when a record is checked against what was signed.\<close>

definition compared_payloads ::
  "ledger_entry list \<Rightarrow> ledger_entry list \<Rightarrow> string \<Rightarrow> string \<Rightarrow> json \<Rightarrow> action_evidence \<Rightarrow> json option \<Rightarrow> json set" where
  "compared_payloads es es' up sp ap ev obj = materials es \<union> materials es'
     \<union> {prompt_object up, prompt_object (env_prompt (ae_user_envelope ev)), system_object sp,
        system_object (ae_system_prompt ev), ap} \<union> set_option obj"

lemma commits_unique:
  assumes "payload_collision_free L S" "j \<in> S" "j' \<in> S" "commits L j hx" "commits L j' hx"
  shows "j = j'"
proof -
  from assms(4,5) have "hash_payload L j = hash_payload L j'" by (auto simp: commits_def hex.enc_eq_iff)
  with assms(1-3) show ?thesis by (auto simp: payload_collision_free_def dest: inj_onD)
qed

text \<open>
  C6: a changed record is never accepted. If a valid verdict is reached for a PoI that the agent built
  and signed over the ledger \<open>led\<close>, then the evidence found, however it came about, holds the same
  contents in the same order, none dropped and none added, and the same user prompt, system prompt and
  action object as were given to \<^verbatim>\<open>build_poi\<close>, unless two of the hashed payloads and tree nodes have the
  same digest.
\<close>

theorem changed_record_rejected:
  assumes "sha3_len L" "ledger_reach L led" "build_poi L ts uuid up sp led ap mid opts = Inr p" "sign_poi L p k = Inr q"
    and "take_in X (out_database out) eml aid s = (Inr i, st, H)" "in_poi i = Some q" "in_evidence i = Some ev"
    and "run_verification L X T out c vp eml aid s = (Inr tr, st, H)" "vt_overall_valid tr"
    and "digests_distinct L
      (compared_payloads (action_entries H ev) (all_entries led) up sp ap ev (action_object X eml (in_parsed i) ev))
      (set (tree_inputs L (map leaf_hash (action_entries H ev))) \<union> set (tree_inputs L (map leaf_hash (all_entries led))))"
  shows "map content (action_entries H ev) = map content (all_entries led)
    \<and> env_prompt (ae_user_envelope ev) = up \<and> ae_system_prompt ev = sp
    \<and> action_object X eml (in_parsed i) ev = Some ap"
proof -
  have tr: "check_links L X T out c vp H eml i = Inr tr" using assms(5,8) by (simp add: run_verification_eq)
  have "lr_passed (hd (in_links i)) \<and> length (in_links i) = 1"
    using take_in_extracted [OF assms(5)] assms(6) by (auto simp: extracted_def)
  with valid_links_authentic [OF assms(1,6,7) _ _ tr] assms(9) have auth:
    "commitments_hold L X eml (in_parsed i) ev q" "context_holds L H ev q" by (auto simp: authentic_def)
  obtain aty aid' act pol where o: "opts = (aty, aid', act, pol)" by (cases opts)
  from assms(3) obtain t where c: "build_merkle_tree L (all_entries led) = Inr t"
    "commits L (prompt_object up) (poi_user_prompt_hash p)" "commits L (system_object sp) (poi_system_prompt_hash p)"
    "commits L ap (poi_action_payload_hash p)" "poi_context_root p = bytes_hex (mt_root t)"
    unfolding o build_poi_eq_Inr commits_def prompt_object_def system_object_def by force
  obtain kid sig where q: "q = p\<lparr>poi_agent_pubkey_id := Some kid, poi_agent_signature := Some sig\<rparr>"
    using assms(4) unfolding sign_poi_eq_Inr by auto
  from auth(2) obtain t' where t': "build_merkle_tree L (action_entries H ev) = Inr t'" "mt_root t' = mt_root t"
    and ch: "chain L [] (led_entries (H ! ae_ledger ev))"
    by (auto simp: context_holds_def q c hex.enc_eq_iff verify_chain_iff)
  let ?S = "compared_payloads (action_entries H ev) (all_entries led) up sp ap ev (action_object X eml (in_parsed i) ev)"
  have led: "chain L [] (all_entries led)"
    using ledger_reach_inv [OF assms(2)] by (simp add: ledger_inv_def all_entries_def)
  note pcf = digests_distinctD(1) [OF assms(10)]
  have "digests_distinct L (materials (action_entries H ev) \<union> materials (all_entries led))
      (set (tree_inputs L (map leaf_hash (action_entries H ev))) \<union> set (tree_inputs L (map leaf_hash (all_entries led))))"
    using assms(10) by (rule digests_distinct_mono) (auto simp: compared_payloads_def)
  from chains_with_roots [OF assms(1) chain_action_entries [OF ch] led this t'(1) c(1) t'(2)]
  have "map content (action_entries H ev) = map content (all_entries led)" .
  moreover from auth(1) obtain j where j: "action_object X eml (in_parsed i) ev = Some j"
      "commits L j (poi_action_payload_hash p)"
      "commits L (prompt_object (env_prompt (ae_user_envelope ev))) (poi_user_prompt_hash p)"
      "commits L (system_object (ae_system_prompt ev)) (poi_system_prompt_hash p)"
    by (auto simp: commitments_hold_def q prompt_object_def system_object_def)
  moreover have "j = ap"
    by (rule commits_unique [OF pcf _ _ j(2) c(4)]) (simp_all add: compared_payloads_def j(1))
  moreover have "prompt_object (env_prompt (ae_user_envelope ev)) = prompt_object up"
    by (rule commits_unique [OF pcf _ _ j(3) c(2)]) (simp_all add: compared_payloads_def)
  moreover have "system_object (ae_system_prompt ev) = system_object sp"
    by (rule commits_unique [OF pcf _ _ j(4) c(3)]) (simp_all add: compared_payloads_def)
  ultimately show ?thesis by (simp add: prompt_object_def system_object_def)
qed

section \<open>Missing evidence\<close>

text \<open>
  An uploaded e-mail whose PoI names an action type and an active agent key, but whose action has no
  stored evidence, does not yield a trace: the attribute access on the missing evidence raises
  \<^verbatim>\<open>AttributeError\<close>, for every such artifact.
\<close>

theorem missing_evidence_raises:
  assumes "take_in X (out_database out) eml aid s = (Inr i, st, H)" "in_poi i = Some p" "in_evidence i = None"
    and "poi_action_type p \<noteq> None" "get_pubkey (agent_key_clock c) (or_empty (poi_agent_pubkey_id p)) (vp_registry vp) \<noteq> None"
  shows "\<exists>m. run_verification L X T out c vp eml aid s = (Inl (Exc AttributeError m), st, H)"
proof -
  from assms(3) obtain d where "hash_step L X H eml i = Inr (unavailable ''hash_recomputation'' d, None)"
    using hash_step_missing by blast
  then show ?thesis
    using assms by (auto simp: run_verification_eq check_links_def agent_step_def action_type_errors_def Let_def)
qed

section \<open>Restart\<close>

text \<open>Two heaps that agree on the action's entries and on where its chain breaks.\<close>

definition same_context :: "crypto_libs \<Rightarrow> ledger_heap \<Rightarrow> action_evidence \<Rightarrow> ledger_heap \<Rightarrow> action_evidence \<Rightarrow> bool" where
  "same_context L H ev H' ev' \<longleftrightarrow> action_entries H' ev' = action_entries H ev
     \<and> first_invalid_entry_id L (H' ! ae_ledger ev') = first_invalid_entry_id L (H ! ae_ledger ev)"

lemma check_links_same_context:
  assumes "ev' = ev\<lparr>ae_ledger := n\<rparr>" "same_context L H ev H' ev'"
  shows "check_links L X T out c vp H' None (stored_intake X aid ev' q) =
    check_links L X T out c vp H None (stored_intake X aid ev q)"
proof -
  have e: "action_entries H' ev' = action_entries H ev"
    "first_invalid_entry_id L (H' ! ae_ledger ev') = first_invalid_entry_id L (H ! ae_ledger ev)"
    using assms(2) by (simp_all add: same_context_def)
  have f: "ae_action_payload ev' = ae_action_payload ev" "ae_eml_bytes ev' = ae_eml_bytes ev" "ae_action_type ev' = ae_action_type ev"
    "ae_user_envelope ev' = ae_user_envelope ev" "ae_system_prompt ev' = ae_system_prompt ev"
    "ae_timestamp_token ev' = ae_timestamp_token ev"
    by (simp_all add: assms(1))
  have am: "action_mismatches L X None pe ev' q = action_mismatches L X None pe ev q" for pe
    unfolding action_mismatches_def f ..
  have h: "hash_step L X H' None (stored_intake X aid ev' q) = hash_step L X H None (stored_intake X aid ev q)"
    using e am f by (simp add: hash_step_def stored_intake_def stored_parsed_def)
  have a: "agent_step L c st None (Some q) (Some ev') = agent_step L c st None (Some q) (Some ev)" for st
  proof -
    have "action_type_errors None (Some ev') q = action_type_errors None (Some ev) q"
      unfolding action_type_errors_def option.case f ..
    then show ?thesis unfolding agent_step_def option.case by presburger
  qed
  have u: "user_step L c st (Some q) (Some ev') = user_step L c st (Some q) (Some ev)" for st
    unfolding user_step_def prod.case option.case f ..
  have m: "merkle_step L H' (Some q) (Some ev') r = merkle_step L H (Some q) (Some ev) r" for r
    unfolding merkle_step_def prod.case option.case e ..
  have t: "timestamp_step T out an (Some q) (Some ev') r = timestamp_step T out an (Some q) (Some ev) r" for an r
    unfolding timestamp_step_def recorded_token_def prod.case option.case f ..
  have tr: "assemble_trace (stored_intake X aid ev' q) ls r v = assemble_trace (stored_intake X aid ev q) ls r v" for ls r v
    by (simp add: assemble_trace_def stored_intake_def)
  have i: "in_poi (stored_intake X aid x q) = Some q" "in_evidence (stored_intake X aid x q) = Some x" for x
    by (simp_all add: stored_intake_def)
  show ?thesis unfolding check_links_def Let_def h i a u m t tr ..
qed

text \<open>
  C29: the verdict survives a restart. Evidence is registered when its ledger is \<open>H0 ! r\<close>, a reachable
  ledger; afterwards the ledger only grows. Then a fresh store on the same database, in a process with
  a heap of its own, gives verification by action id exactly the same outcome, trace included, as the
  store that registered the evidence.
\<close>

theorem verdict_survives_restart:
  assumes "json_text_roundtrip X (evidence_dump H0 ev)" "evidence_wf ev" "ae_action_id ev \<noteq> []" "ae_poi ev = Some q"
    and "artifact_readable X ev" "get_action_evidence (ae_action_id ev) (out_database out) = Some (serialize_evidence X H0 ev)"
    and "map_of (es_evidence st) (ae_action_id ev) = Some ev"
    and "ledger_reach L (H0 ! ae_ledger ev)" "(ledger_step L)\<^sup>*\<^sup>* (H0 ! ae_ledger ev) (H ! ae_ledger ev)"
    and "0 \<le> ae_ledger_entry_count ev" "ae_ledger_entry_count ev \<le> int (length (all_entries (H0 ! ae_ledger ev)))"
  shows "fst (run_verification L X T out c vp None (Some (ae_action_id ev)) (new_evidence_store True, H2)) =
    fst (run_verification L X T out c vp None (Some (ae_action_id ev)) (st, H))"
proof -
  let ?a = "ae_action_id ev" let ?ev' = "ev\<lparr>ae_ledger := length H2\<rparr>" let ?H' = "H2 @ [\<lparr>led_entries = action_entries H0 ev\<rparr>]"
  let ?st2 = "\<lparr>es_evidence = [(?a, ?ev')], es_persistent = True\<rparr>"
  have live: "get_evidence X (out_database out) ?a (st, H) = Inr (Some ev, st, H)"
    using assms(7) by (simp add: get_evidence_def)
  have fresh: "get_evidence X (out_database out) ?a (new_evidence_store True, H2) = Inr (Some ?ev', ?st2, ?H')"
    by (rule reload_evidence [OF assms(1,2,6)])
  have r': "artifact_readable X ?ev'" "ae_poi ?ev' = Some q" using assms(4,5) by (simp_all add: artifact_readable_def)
  note ti = take_in_stored [OF live assms(3,4,5)] take_in_stored [OF fresh assms(3) r'(2,1)]
  obtain es where es: "led_entries (H ! ae_ledger ev) = led_entries (H0 ! ae_ledger ev) @ es"
    using ledger_log.steps_extend [OF assms(9)] by blast
  then have ent: "action_entries H ev = action_entries H0 ev"
    using slice_to_append [OF assms(10,11)] by (simp add: action_entries_def all_entries_def)
  have len: "length (action_entries H0 ev) = nat (ae_ledger_entry_count ev)"
    using assms(10,11) by (simp add: action_entries_def slice_to_def min_absorb2 nat_le_iff)
  have ent': "action_entries ?H' ?ev' = action_entries H0 ev"
    using assms(10) len by (simp add: action_entries_def [of ?H'] slice_to_def all_entries_def nth_append)
  have ch: "chain L [] (led_entries (H ! ae_ledger ev))"
    using ledger_reach_inv [OF ledger_steps_reach [OF assms(9,8)]] by (simp add: ledger_inv_def)
  then have "chain L [] (action_entries H0 ev)" using chain_action_entries [of L H ev] ent by simp
  then have "same_context L H ev ?H' ?ev'"
    using ch ent ent' by (simp add: same_context_def first_invalid_entry_id_def chain_def nth_append)
  from check_links_same_context [OF refl this] show ?thesis by (simp add: run_verification_def ti)
qed

section \<open>The concrete action\<close>

lemma demo_taken_in:
  "take_in demo_text_libs (out_database demo_outside) None (Some ''a1'') (demo_case_store, [demo_grown]) =
     (Inr (stored_intake demo_text_libs ''a1'' demo_case demo_case_poi), demo_case_store, [demo_grown])"
  by (rule take_in_stored [OF demo_case_found]) (simp_all add: demo_case_readable, simp add: demo_case_def)

lemma demo_intake [simp]:
  "in_poi (stored_intake X aid ev q) = Some q" "in_evidence (stored_intake X aid ev q) = Some ev"
  by (simp_all add: stored_intake_def)

lemma demo_trace:
  obtains tr where "run_verification demo_libs demo_text_libs demo_tsa demo_outside demo_lookups demo_pipeline None
      (Some ''a1'') (demo_case_store, [demo_grown]) = (Inr tr, demo_case_store, [demo_grown])" "vt_overall_valid tr"
proof -
  have "registry_inv demo_libs (vp_registry demo_pipeline)" by (simp add: demo_pipeline_def demo_registry_inv)
  from honest_trace [OF demo_sha3_len demo_ed25519_correct demo_dumps_text this demo_recorded demo_case_readable
      demo_case_found _ demo_no_token, of demo_tsa] that
  show thesis by auto
qed

theorem verification_always_traces_witness:
  "\<exists>tr. fst (run_verification demo_libs demo_text_libs demo_tsa demo_outside demo_lookups demo_pipeline None (Some ''a1'')
      (demo_case_store, [demo_grown])) = Inr tr \<and> map lr_name (vt_links tr) = six_links"
proof -
  have r: "registry_inv demo_libs (vp_registry demo_pipeline)" by (simp add: demo_pipeline_def demo_registry_inv)
  have "\<exists>h. hash_payload demo_libs demo_action = Inr h"
    by (simp add: hash_payload_def canonicalize_def demo_action_def demo_libs_def demo_dumps_def)
  then have p: "\<forall>ev j. in_evidence (stored_intake demo_text_libs ''a1'' demo_case demo_case_poi) = Some ev \<longrightarrow>
      ae_action_payload ev = Some j \<longrightarrow> (\<exists>h. hash_payload demo_libs j = Inr h)"
    by (auto simp: demo_case_def)
  have e: "in_evidence (stored_intake demo_text_libs ''a1'' demo_case demo_case_poi) \<noteq> None
      \<or> (\<forall>p. in_poi (stored_intake demo_text_libs ''a1'' demo_case demo_case_poi) = Some p \<longrightarrow> poi_action_type p = None)"
    by simp
  obtain tr where "run_verification demo_libs demo_text_libs demo_tsa demo_outside demo_lookups demo_pipeline None
      (Some ''a1'') (demo_case_store, [demo_grown]) = (Inr tr, demo_case_store, [demo_grown])"
    "map lr_name (vt_links tr) = six_links"
    using verification_always_traces [where T = demo_tsa and c = demo_lookups, OF r demo_dumps_text demo_taken_in p e] by blast
  then show ?thesis by simp
qed

theorem verdict_exact_witness:
  "authentic demo_libs demo_text_libs demo_tsa demo_outside demo_lookups demo_pipeline [demo_grown] None None demo_case demo_case_poi"
proof -
  obtain tr where tr: "run_verification demo_libs demo_text_libs demo_tsa demo_outside demo_lookups demo_pipeline None
      (Some ''a1'') (demo_case_store, [demo_grown]) = (Inr tr, demo_case_store, [demo_grown])" "vt_overall_valid tr"
    by (rule demo_trace)
  have "in_parsed (stored_intake demo_text_libs ''a1'' demo_case demo_case_poi) = None"
    by (simp add: stored_intake_def stored_parsed_def demo_case_def)
  with verdict_exact [OF demo_sha3_len demo_taken_in tr(1)] tr(2) show ?thesis by auto
qed

text \<open>An uploaded artifact that carries the PoI in its header and has no Message-ID.\<close>

definition demo_upload_libs :: text_libs where
  "demo_upload_libs = demo_text_libs\<lparr>parse_message := (\<lambda>_. Inr \<lparr>mm_headers = [(''X-AoR-Proof-of-Intent'', ''AAAA'')],
       mm_multipart = False, mm_plain_part = None, mm_content = Inr []\<rparr>),
     json_loads_bytes := (\<lambda>_. Inr (JObj (poi_dump demo_case_poi)))\<rparr>"

lemma demo_case_poi_facts:
  "poi_valid demo_case_poi" "poi_action_type demo_case_poi = Some ''email''"
  "\<exists>kid. agent_pubkey_id demo_libs demo_agent_sk = Inr kid \<and> poi_agent_pubkey_id demo_case_poi = Some kid"
proof -
  obtain p where p: "demo_built_poi = Inr p" "sign_poi demo_libs p demo_agent_sk = Inr demo_case_poi" using demo_built by blast
  have v: "poi_valid p" "poi_action_type p = Some ''email''"
    using p(1) unfolding demo_built_poi_def build_poi_eq_Inr by auto
  obtain kid sig where q: "agent_pubkey_id demo_libs demo_agent_sk = Inr kid"
      "demo_case_poi = p\<lparr>poi_agent_pubkey_id := Some kid, poi_agent_signature := Some sig\<rparr>"
    using p(2) unfolding sign_poi_eq_Inr by auto
  show "poi_valid demo_case_poi" "poi_action_type demo_case_poi = Some ''email''"
    using v unfolding q(2) by (simp_all add: poi_valid_def)
  show "\<exists>kid. agent_pubkey_id demo_libs demo_agent_sk = Inr kid \<and> poi_agent_pubkey_id demo_case_poi = Some kid"
    unfolding q(2) using q(1) by simp
qed

theorem missing_evidence_raises_witness:
  "\<exists>m. fst (run_verification demo_libs demo_upload_libs demo_tsa demo_outside demo_lookups demo_pipeline (Some [1]) None
      (demo_case_store, [])) = Inl (Exc AttributeError m)"
proof -
  have "urlsafe_base64_decode ''AAAA'' = Inr [0, 0, 0]" by code_simp
  then have d: "decode_poi_header demo_upload_libs ''AAAA'' = Inr demo_case_poi"
    using poi_of_dict_dump [OF refl demo_case_poi_facts(1)] by (simp add: decode_poi_header_def demo_upload_libs_def)
  let ?pe = "\<lparr>pe_action_id = None, pe_to = [], pe_subject = [], pe_body = [], pe_poi_header = Some ''AAAA'',
      pe_signature_header = None, pe_agent_cert_header = None,
      pe_action_payload = JObj [(''to'', JStr []), (''subject'', JStr []), (''body'', JStr [])]\<rparr>"
  have "parse_eml demo_upload_libs [1] = Inr ?pe"
    by (simp add: parse_eml_def demo_upload_libs_def) code_simp
  then have t: "take_in demo_upload_libs (out_database demo_outside) (Some [1]) None (demo_case_store, []) =
      (Inr \<lparr>in_links = [link ''poi_extraction'' True ''passed'' ''signed PoI decoded from email header''],
         in_parsed = Some ?pe, in_poi = Some demo_case_poi, in_evidence = None, in_action_id = None\<rparr>, demo_case_store, [])"
    by (simp add: take_in_def lookup_if_def read_artifact_def extract_poi_def d falsy_def)
  obtain kid r where "agent_pubkey_id demo_libs demo_agent_sk = Inr kid" "get_key_record 200 kid demo_registry = Some r"
    by (rule demo_agent_record)
  then have k: "get_pubkey (agent_key_clock demo_lookups) (or_empty (poi_agent_pubkey_id demo_case_poi)) (vp_registry demo_pipeline) \<noteq> None"
    using demo_case_poi_facts(3) by (auto simp: get_pubkey_eq demo_lookups_def demo_pipeline_def or_empty_def)
  have a: "poi_action_type demo_case_poi \<noteq> None" by (simp add: demo_case_poi_facts(2))
  obtain m where "run_verification demo_libs demo_upload_libs demo_tsa demo_outside demo_lookups demo_pipeline (Some [1]) None
      (demo_case_store, []) = (Inl (Exc AttributeError m), demo_case_store, [])"
    using missing_evidence_raises [OF t _ _ a k] by auto
  then show ?thesis by simp
qed

lemma demo_compared_digests:
  "digests_distinct demo_libs (materials (all_entries demo_ledger) \<union> {prompt_object ''send it'', system_object ''sys'', demo_action})
     (set (tree_inputs demo_libs (map leaf_hash (all_entries demo_ledger))))"
  unfolding digests_distinct_def materials_def all_entries_def by code_simp

theorem changed_record_rejected_witness:
  "map content (action_entries [demo_grown] demo_case) = map content (all_entries demo_ledger)
    \<and> env_prompt (ae_user_envelope demo_case) = ''send it''"
proof -
  obtain tr where tr: "run_verification demo_libs demo_text_libs demo_tsa demo_outside demo_lookups demo_pipeline None
      (Some ''a1'') (demo_case_store, [demo_grown]) = (Inr tr, demo_case_store, [demo_grown])" "vt_overall_valid tr"
    by (rule demo_trace)
  obtain p where p: "build_poi demo_libs ''t'' ''u'' ''send it'' ''sys'' demo_ledger demo_action ''m''
      (Some ''email'', Some ''email-agent'', Some ''email'', Some ''allow'') = Inr p"
    "sign_poi demo_libs p demo_agent_sk = Inr demo_case_poi" using demo_built unfolding demo_built_poi_def by blast
  have n: "length (all_entries demo_ledger) = 2" by code_simp
  have e: "action_entries [demo_grown] demo_case = all_entries demo_ledger"
    using demo_grown_step n later_action_entries [of demo_libs demo_ledger "[demo_grown]" demo_case]
    by (simp add: demo_case_def r_into_rtranclp)
  have o: "action_object demo_text_libs None (in_parsed (stored_intake demo_text_libs ''a1'' demo_case demo_case_poi)) demo_case = Some demo_action"
    by (simp add: action_object_def demo_case_def)
  have s: "compared_payloads (all_entries demo_ledger) (all_entries demo_ledger) ''send it'' ''sys'' demo_action demo_case (Some demo_action)
      = materials (all_entries demo_ledger) \<union> {prompt_object ''send it'', system_object ''sys'', demo_action}"
    by (auto simp: compared_payloads_def demo_case_def demo_user_envelope_def demo_envelope_for_def)
  from changed_record_rejected [OF demo_sha3_len demo_ledger_reach p demo_taken_in demo_intake tr, unfolded e o s]
  show ?thesis using demo_compared_digests by (simp add: e)
qed

definition demo_restart_libs :: text_libs where
  "demo_restart_libs = demo_text_libs\<lparr>json_loads := (\<lambda>_. Inr (evidence_dump [demo_ledger] demo_case))\<rparr>"

definition demo_restart_outside :: outside where
  "demo_restart_outside = demo_outside\<lparr>out_database := empty_database\<lparr>db_evidence :=
     [(''a1'', serialize_evidence demo_restart_libs [demo_ledger] demo_case)]\<rparr>\<rparr>"

lemma b64_nonempty: "b64encode b = [] \<longleftrightarrow> b = []"
  using b64.enc_eq_iff [of b "[]"] by simp

lemma demo_case_poi_stored: "ae_poi demo_case = Some demo_case_poi"
  by (simp add: demo_case_def)

lemma demo_case_count: "ae_ledger_entry_count demo_case = 2"
  by (simp add: demo_case_def)

theorem verdict_survives_restart_witness:
  "fst (run_verification demo_libs demo_restart_libs demo_tsa demo_restart_outside demo_lookups demo_pipeline None
      (Some ''a1'') (new_evidence_store True, [])) =
    fst (run_verification demo_libs demo_restart_libs demo_tsa demo_restart_outside demo_lookups demo_pipeline None
      (Some ''a1'') (demo_case_store, [demo_grown]))"
proof -
  have i: "ae_action_id demo_case = ''a1''" "ae_ledger demo_case = 0" by (simp_all add: demo_case_def)
  have j: "json_text_roundtrip demo_restart_libs (evidence_dump [demo_ledger] demo_case)"
    by (simp add: json_text_roundtrip_def demo_restart_libs_def)
  have w: "evidence_wf demo_case"
    using demo_case_poi_facts(1)
    by (simp add: evidence_wf_def demo_case_def env_valid_def demo_user_envelope_def demo_envelope_for_def demo_action_def
        b64_nonempty demo_key_def)
  have n: "length (all_entries demo_ledger) = 2" by code_simp
  from verdict_survives_restart [OF j w, of demo_case_poi demo_restart_outside demo_case_store demo_libs "[demo_grown]"
      demo_tsa demo_lookups demo_pipeline "[]"]
  show ?thesis
    using demo_grown_step demo_ledger_reach n
    by (simp add: i demo_case_readable demo_restart_outside_def get_action_evidence_def demo_case_store_def r_into_rtranclp
        demo_case_poi_stored demo_case_count)
qed

end
