(* ===== verification/Py_Regex.thy ===== *)
theory Py_Regex
  imports Aor_Prelude
begin

text \<open>
  The part of Python's \<^verbatim>\<open>re\<close> that the agents use: greedy backtracking matching with groups, word
  boundaries and end of text, as a function that lists the possible matches in the order in which the
  engine tries them. Patterns with \<^verbatim>\<open>re.IGNORECASE\<close> are built from \<open>lit\<close>, which compares without case;
  character ranges of the patterns are symmetric in case already. The theory proves that a match
  consumes a text the pattern spells, which is what the validation properties rest on, and that the patterns
  of the routing rules find exactly the whole words.
\<close>

section \<open>Patterns\<close>

datatype rx =
    RChr "char \<Rightarrow> bool"
  | REps
  | RSeq rx rx
  | RAlt rx rx
  | RStar rx
  | RGrp nat rx
  | RBnd
  | REnd

text \<open>The text before the position, the text after it, and the groups captured so far.\<close>

type_synonym cursor = "char option \<times> string \<times> (nat \<times> string) list"

definition word_char :: "char \<Rightarrow> bool" where
  "word_char c \<longleftrightarrow> (let n = of_char c :: nat in
     (48 \<le> n \<and> n \<le> 57) \<or> (65 \<le> n \<and> n \<le> 90) \<or> (97 \<le> n \<and> n \<le> 122) \<or> n = 95)"

definition alpha_char :: "char \<Rightarrow> bool" where
  "alpha_char c \<longleftrightarrow> (let n = of_char c :: nat in (65 \<le> n \<and> n \<le> 90) \<or> (97 \<le> n \<and> n \<le> 122))"

definition digit_char :: "char \<Rightarrow> bool" where
  "digit_char c \<longleftrightarrow> (let n = of_char c :: nat in 48 \<le> n \<and> n \<le> 57)"

definition at_boundary :: "char option \<Rightarrow> string \<Rightarrow> bool" where
  "at_boundary prev rest \<longleftrightarrow>
     (case prev of None \<Rightarrow> False | Some c \<Rightarrow> word_char c) \<noteq> (case rest of [] \<Rightarrow> False | c # _ \<Rightarrow> word_char c)"

function rx_match :: "rx \<Rightarrow> cursor \<Rightarrow> cursor list" where
  "rx_match (RChr P) (p, s, g) = (case s of [] \<Rightarrow> [] | c # cs \<Rightarrow> if P c then [(Some c, cs, g)] else [])"
| "rx_match REps (p, s, g) = [(p, s, g)]"
| "rx_match (RSeq r q) (p, s, g) = concat (map (rx_match q) (rx_match r (p, s, g)))"
| "rx_match (RAlt r q) (p, s, g) = rx_match r (p, s, g) @ rx_match q (p, s, g)"
| "rx_match (RStar r) (p, s, g) =
     concat (map (\<lambda>(p', s', g'). if length s' < length s then rx_match (RStar r) (p', s', g') else [])
       (rx_match r (p, s, g))) @ [(p, s, g)]"
| "rx_match (RGrp n r) (p, s, g) =
     map (\<lambda>(p', s', g'). (p', s', (n, take (length s - length s') s) # g')) (rx_match r (p, s, g))"
| "rx_match RBnd (p, s, g) = (if at_boundary p s then [(p, s, g)] else [])"
| "rx_match REnd (p, s, g) = (if s = [] \<or> s = [CHR 0x0A] then [(p, s, g)] else [])"
  by pat_completeness auto
termination
  by (relation "inv_image (less_than <*lex*> less_than) (\<lambda>(r, p, s, g). (size r, length s))") auto

declare rx_match.simps(5) [simp del]

section \<open>Derived patterns\<close>

abbreviation chr :: "char \<Rightarrow> rx" where
  "chr c \<equiv> RChr (\<lambda>d. d = c)"

definition plus :: "rx \<Rightarrow> rx" where
  "plus r = RSeq r (RStar r)"

definition optional :: "rx \<Rightarrow> rx" where
  "optional r = RAlt r REps"

text \<open>\<^verbatim>\<open>r{0,n}\<close>, greedy.\<close>

fun upto_times :: "nat \<Rightarrow> rx \<Rightarrow> rx" where
  "upto_times 0 r = REps"
| "upto_times (Suc n) r = optional (RSeq r (upto_times n r))"

fun seq :: "rx list \<Rightarrow> rx" where
  "seq [] = REps"
| "seq [r] = r"
| "seq (r # q # rs) = RSeq r (seq (q # rs))"

fun alt :: "rx list \<Rightarrow> rx" where
  "alt [] = RChr (\<lambda>_. False)"
| "alt [r] = r"
| "alt (r # q # rs) = RAlt r (alt (q # rs))"

text \<open>A literal text, compared without case.\<close>

definition lit :: "string \<Rightarrow> rx" where
  "lit w = seq (map (\<lambda>c. RChr (\<lambda>d. lower_char d = lower_char c)) w)"

text \<open>\<^verbatim>\<open>\b(w1|w2|...)\b\<close>.\<close>

definition word_of :: "string list \<Rightarrow> rx" where
  "word_of ws = seq [RBnd, RGrp 1 (alt (map lit ws)), RBnd]"

abbreviation spaces0 :: rx where
  "spaces0 \<equiv> RStar (RChr py_isspace)"

abbreviation spaces1 :: rx where
  "spaces1 \<equiv> plus (RChr py_isspace)"

section \<open>\<^verbatim>\<open>match\<close>, \<^verbatim>\<open>fullmatch\<close>, \<^verbatim>\<open>search\<close>, \<^verbatim>\<open>split\<close>\<close>

text \<open>The matched text (group 0), what follows it, and the groups.\<close>

record match_result =
  mr_text :: string
  mr_rest :: string
  mr_groups :: "(nat \<times> string) list"

definition group :: "match_result \<Rightarrow> nat \<Rightarrow> string" where
  "group m n = (case map_of (mr_groups m) n of None \<Rightarrow> [] | Some s \<Rightarrow> s)"

definition match_at :: "rx \<Rightarrow> char option \<Rightarrow> string \<Rightarrow> match_result option" where
  "match_at r prev s =
     (case rx_match r (prev, s, []) of
        [] \<Rightarrow> None
      | (p, s', g) # _ \<Rightarrow> Some \<lparr>mr_text = take (length s - length s') s, mr_rest = s', mr_groups = g\<rparr>)"

abbreviation re_match :: "rx \<Rightarrow> string \<Rightarrow> match_result option" where
  "re_match r s \<equiv> match_at r None s"

definition re_fullmatch :: "rx \<Rightarrow> string \<Rightarrow> bool" where
  "re_fullmatch r s \<longleftrightarrow> list_ex (\<lambda>(p, s', g). s' = []) (rx_match r (None, s, []))"

fun search_from :: "rx \<Rightarrow> char option \<Rightarrow> string \<Rightarrow> match_result option" where
  "search_from r prev s =
     (case match_at r prev s of
        Some m \<Rightarrow> Some m
      | None \<Rightarrow> (case s of [] \<Rightarrow> None | c # cs \<Rightarrow> search_from r (Some c) cs))"

declare search_from.simps [simp del]

definition re_search :: "rx \<Rightarrow> string \<Rightarrow> match_result option" where
  "re_search r s = search_from r None s"

definition re_found :: "rx \<Rightarrow> string \<Rightarrow> bool" where
  "re_found r s \<longleftrightarrow> re_search r s \<noteq> None"

text \<open>
  \<^verbatim>\<open>re.split\<close> for a pattern without groups that does not match the empty text; \<open>acc\<close> is the current
  piece, reversed.
\<close>

function split_from :: "rx \<Rightarrow> char option \<Rightarrow> string \<Rightarrow> string \<Rightarrow> string list" where
  "split_from r prev acc s =
     (case s of
        [] \<Rightarrow> [rev acc]
      | c # cs \<Rightarrow>
          (case match_at r prev s of
             Some m \<Rightarrow>
               if length (mr_rest m) < length s
               then rev acc # split_from r (Some (last (mr_text m))) [] (mr_rest m)
               else split_from r (Some c) (c # acc) cs
           | None \<Rightarrow> split_from r (Some c) (c # acc) cs))"
  by pat_completeness auto
termination
  by (relation "measure (\<lambda>(r, prev, acc, s). length s)") auto

declare split_from.simps [simp del]

definition re_split :: "rx \<Rightarrow> string \<Rightarrow> string list" where
  "re_split r s = split_from r None [] s"

section \<open>What a match consumes\<close>

text \<open>The texts a pattern spells, its assertions left aside.\<close>

inductive spells :: "rx \<Rightarrow> string \<Rightarrow> bool" where
  chr: "P c \<Longrightarrow> spells (RChr P) [c]"
| eps: "spells REps []"
| seq: "spells r u \<Longrightarrow> spells q v \<Longrightarrow> spells (RSeq r q) (u @ v)"
| left: "spells r u \<Longrightarrow> spells (RAlt r q) u"
| right: "spells q u \<Longrightarrow> spells (RAlt r q) u"
| stop: "spells (RStar r) []"
| more: "spells r u \<Longrightarrow> spells (RStar r) v \<Longrightarrow> spells (RStar r) (u @ v)"
| grp: "spells r u \<Longrightarrow> spells (RGrp n r) u"
| bnd: "spells RBnd []"
| end_of: "spells REnd []"

inductive_simps spells_simps [simp]:
  "spells (RChr P) u" "spells REps u" "spells (RSeq r q) u" "spells (RAlt r q) u" "spells (RGrp n r) u"
  "spells RBnd u" "spells REnd u"

inductive_cases spells_StarE: "spells (RStar r) u"

lemma spells_star_chr: "spells (RStar (RChr P)) u \<longleftrightarrow> list_all P u"
proof
  show "list_all P u" if "spells (RStar (RChr P)) u"
    using that by (induction "RStar (RChr P)" u rule: spells.induct) auto
  show "spells (RStar (RChr P)) u" if "list_all P u"
    using that
  proof (induction u)
    case (Cons c u)
    then have "spells (RStar (RChr P)) ([c] @ u)" by (intro spells.more) simp_all
    then show ?case by simp
  qed (rule spells.stop)
qed

lemma spells_plus_chr: "spells (plus (RChr P)) u \<longleftrightarrow> u \<noteq> [] \<and> list_all P u"
proof
  show "u \<noteq> [] \<and> list_all P u" if "spells (plus (RChr P)) u"
    using that by (auto simp: plus_def spells_star_chr)
  show "spells (plus (RChr P)) u" if "u \<noteq> [] \<and> list_all P u"
  proof -
    from that obtain c w where u: "u = [c] @ w" "P c" "list_all P w" by (cases u) auto
    show ?thesis unfolding u(1) plus_def using u(2,3) by (intro spells.seq) (simp_all add: spells_star_chr)
  qed
qed

lemma spells_optional [simp]: "spells (optional r) u \<longleftrightarrow> spells r u \<or> u = []"
  by (auto simp: optional_def)

lemma spells_upto_chr: "spells (upto_times n (RChr P)) u \<Longrightarrow> length u \<le> n \<and> list_all P u"
  by (induction n arbitrary: u) auto

text \<open>Every match of a pattern consumes a prefix that the pattern spells.\<close>

lemma rx_match_spells:
  "(p', s', g') \<in> set (rx_match r (p, s, g)) \<Longrightarrow> \<exists>u. s = u @ s' \<and> spells r u"
proof (induction r "(p, s, g)" arbitrary: p s g p' s' g' rule: rx_match.induct)
  case (3 r q p s g)
  then obtain p1 s1 g1 where 1: "(p1, s1, g1) \<in> set (rx_match r (p, s, g))" "(p', s', g') \<in> set (rx_match q (p1, s1, g1))"
    by auto
  from "3.hyps"(1) [OF 1(1)] obtain u where u: "s = u @ s1" "spells r u" by blast
  from "3.hyps"(2) [OF 1] obtain v where "s1 = v @ s'" "spells q v" by blast
  with u show ?case by auto
next
  case (5 r p s g)
  show ?case
  proof (cases "(p', s', g') = (p, s, g)")
    case True
    then show ?thesis using spells.stop by auto
  next
    case False
    have m: "(p', s', g') \<in> set (concat (map (\<lambda>(p', s', g'). if length s' < length s then rx_match (RStar r) (p', s', g') else [])
       (rx_match r (p, s, g))) @ [(p, s, g)])"
      using "5.prems" by (simp only: rx_match.simps(5) [of r p s g])
    with False obtain p1 s1 g1 where 1: "(p1, s1, g1) \<in> set (rx_match r (p, s, g))" "length s1 < length s"
        "(p', s', g') \<in> set (rx_match (RStar r) (p1, s1, g1))"
      by (auto split: if_splits)
    from "5.hyps"(1) [OF 1(1)] obtain u where u: "s = u @ s1" "spells r u" by blast
    from "5.hyps"(2) [OF 1(1) refl refl 1(2) 1(3)] obtain v where "s1 = v @ s'" "spells (RStar r) v" by blast
    with u show ?thesis by (auto intro: spells.more)
  qed
next
  case (1 P p s g)
  then show ?case by (cases s) (auto split: if_splits)
next
  case (4 r q p s g)
  then show ?case by (metis (no_types, lifting) Un_iff rx_match.simps(4) set_append spells.left spells.right)
next
  case (6 n r p s g)
  then obtain g1 where "(p', s', g1) \<in> set (rx_match r (p, s, g))" by auto
  with "6.hyps" show ?case by simp
qed (simp_all split: if_splits)

lemma match_at_spells:
  assumes "match_at r prev s = Some m"
  shows "s = mr_text m @ mr_rest m \<and> spells r (mr_text m)"
proof -
  from assms obtain p s' g rest where r: "rx_match r (prev, s, []) = (p, s', g) # rest"
      and m: "m = \<lparr>mr_text = take (length s - length s') s, mr_rest = s', mr_groups = g\<rparr>"
    by (auto simp: match_at_def split: list.splits)
  have "(p, s', g) \<in> set (rx_match r (prev, s, []))" by (simp add: r)
  from rx_match_spells [OF this] obtain u where "s = u @ s'" "spells r u" by blast
  with m show ?thesis by simp
qed

lemma re_fullmatch_spells: "re_fullmatch r s \<Longrightarrow> spells r s"
  by (auto simp: re_fullmatch_def list_ex_iff dest!: rx_match_spells)

lemma search_from_spells:
  "search_from r prev s = Some m \<Longrightarrow> spells r (mr_text m) \<and> (\<exists>u. s = u @ mr_text m @ mr_rest m)"
proof (induction r prev s rule: search_from.induct)
  case (1 r prev s)
  show ?case
  proof (cases "match_at r prev s")
    case (Some m')
    with "1.prems" have "m' = m" by (subst (asm) search_from.simps) simp
    with match_at_spells [OF Some] show ?thesis by auto
  next
    case None
    with "1.prems" obtain c cs where s: "s = c # cs" "search_from r (Some c) cs = Some m"
      by (subst (asm) search_from.simps) (auto split: list.splits)
    with "1.IH" [OF None s(1)] show ?thesis by (metis append_Cons)
  qed
qed

lemma re_search_spells: "re_search r s = Some m \<Longrightarrow> spells r (mr_text m) \<and> (\<exists>u. s = u @ mr_text m @ mr_rest m)"
  unfolding re_search_def by (rule search_from_spells)

section \<open>Every spelled text is matched\<close>

text \<open>For patterns without assertions, matching finds every text that the pattern spells.\<close>

fun no_assertions :: "rx \<Rightarrow> bool" where
  "no_assertions (RSeq r q) = (no_assertions r \<and> no_assertions q)"
| "no_assertions (RAlt r q) = (no_assertions r \<and> no_assertions q)"
| "no_assertions (RStar r) = no_assertions r"
| "no_assertions (RGrp n r) = no_assertions r"
| "no_assertions RBnd = False"
| "no_assertions REnd = False"
| "no_assertions _ = True"

lemma rx_match_complete:
  "spells r u \<Longrightarrow> no_assertions r \<Longrightarrow> \<exists>p' g'. (p', s', g') \<in> set (rx_match r (p, u @ s', g))"
proof (induction r u arbitrary: p s' g rule: spells.induct)
  case (seq r u q v)
  then obtain p1 g1 where 1: "(p1, v @ s', g1) \<in> set (rx_match r (p, u @ v @ s', g))" by fastforce
  from seq obtain p2 g2 where "(p2, s', g2) \<in> set (rx_match q (p1, v @ s', g1))" by fastforce
  with 1 show ?case by auto
next
  case (stop r)
  then show ?case by (subst rx_match.simps(5)) auto
next
  case (more r u v)
  show ?case
  proof (cases "u = []")
    case True
    with more show ?thesis by simp
  next
    case False
    from more obtain p1 g1 where 1: "(p1, v @ s', g1) \<in> set (rx_match r (p, u @ v @ s', g))" by fastforce
    from more obtain p2 g2 where 2: "(p2, s', g2) \<in> set (rx_match (RStar r) (p1, v @ s', g1))" by fastforce
    have "(p2, s', g2) \<in> set (rx_match (RStar r) (p, u @ v @ s', g))"
      using 1 2 False by (subst rx_match.simps(5)) (auto intro!: bexI [OF _ 1])
    then show ?thesis by auto
  qed
next
  case (left r u q)
  then show ?case by fastforce
next
  case (right q u r)
  then show ?case by fastforce
next
  case (grp r u n)
  then obtain p1 g1 where "(p1, s', g1) \<in> set (rx_match r (p, u @ s', g))" by fastforce
  then show ?case by force
qed auto

lemma re_fullmatch_iff: "no_assertions r \<Longrightarrow> re_fullmatch r s \<longleftrightarrow> spells r s"
proof
  assume a: "no_assertions r" and s: "spells r s"
  from rx_match_complete [OF s a, of "[]" None "[]"] show "re_fullmatch r s"
    by (auto simp: re_fullmatch_def list_ex_iff)
qed (rule re_fullmatch_spells)

section \<open>Whole words\<close>

text \<open>
  \<open>mentions ws s\<close>: the text \<open>s\<close> contains one of the words \<open>ws\<close>, in any case, as a whole word. This is what
  \<^verbatim>\<open>\b(w1|w2|...)\b\<close> finds when the words are made of lower case word characters.
\<close>

definition mentions :: "string list \<Rightarrow> string \<Rightarrow> bool" where
  "mentions ws s \<longleftrightarrow> (\<exists>pre w post. s = pre @ w @ post \<and> map lower_char w \<in> set ws
     \<and> (pre = [] \<or> \<not> word_char (last pre)) \<and> (post = [] \<or> \<not> word_char (hd post)))"

definition keyword :: "string \<Rightarrow> bool" where
  "keyword w \<longleftrightarrow> w \<noteq> [] \<and> map lower_char w = w \<and> list_all word_char w"

definition lower_letter :: "char \<Rightarrow> bool" where
  "lower_letter c \<longleftrightarrow> (let n = of_char c :: nat in 97 \<le> n \<and> n \<le> 122)"

lemma letters_keyword: "w \<noteq> [] \<and> list_all lower_letter w \<Longrightarrow> keyword w"
  by (auto simp: keyword_def list_all_iff lower_letter_def lower_char_def word_char_def Let_def intro!: map_idI)

lemma search_from_found:
  "search_from r p s \<noteq> None \<longleftrightarrow>
     (\<exists>pre rest. s = pre @ rest \<and> match_at r (if pre = [] then p else Some (last pre)) rest \<noteq> None)"
proof (induction s arbitrary: p)
  case Nil
  show ?case by (subst search_from.simps) (auto split: option.split)
next
  case (Cons c s)
  have "search_from r p (c # s) \<noteq> None \<longleftrightarrow> match_at r p (c # s) \<noteq> None \<or> search_from r (Some c) s \<noteq> None"
    by (subst search_from.simps) (auto split: option.split)
  also have "\<dots> \<longleftrightarrow> (\<exists>pre rest. c # s = pre @ rest \<and> match_at r (if pre = [] then p else Some (last pre)) rest \<noteq> None)"
    unfolding Cons.IH
  proof (intro iffI; elim disjE exE conjE)
    fix pre rest assume "s = pre @ rest" "match_at r (if pre = [] then Some c else Some (last pre)) rest \<noteq> None"
    then show "\<exists>pre rest. c # s = pre @ rest \<and> match_at r (if pre = [] then p else Some (last pre)) rest \<noteq> None"
      by (intro exI [of _ "c # pre"] exI [of _ rest]) (auto split: if_splits)
  next
    fix pre rest assume a: "c # s = pre @ rest" "match_at r (if pre = [] then p else Some (last pre)) rest \<noteq> None"
    show "match_at r p (c # s) \<noteq> None \<or> (\<exists>pre rest. s = pre @ rest \<and> match_at r (if pre = [] then Some c else Some (last pre)) rest \<noteq> None)"
    proof (cases pre)
      case (Cons d pre')
      with a show ?thesis by (intro disjI2 exI [of _ pre'] exI [of _ rest]) (auto split: if_splits)
    qed (use a in simp)
  qed (auto intro: exI [of _ "[]"])
  finally show ?case .
qed

lemma rx_match_seq_Cons: "rx_match (seq (r # rs)) cur = concat (map (rx_match (seq rs)) (rx_match r cur))"
proof -
  have "rx_match (RSeq r q) cur = concat (map (rx_match q) (rx_match r cur))" for q by (cases cur) simp
  moreover have "concat (map (rx_match REps) xs) = xs" for xs by (induction xs) auto
  ultimately show ?thesis by (cases rs) simp_all
qed

lemma rx_match_lit:
  "rx_match (lit w) (p, s, g) =
     (if length w \<le> length s \<and> map lower_char (take (length w) s) = map lower_char w
      then [(if w = [] then p else Some (s ! (length w - 1)), drop (length w) s, g)] else [])"
proof (induction w arbitrary: p s)
  case Nil
  show ?case by (simp add: lit_def)
next
  case (Cons c w)
  have "rx_match (lit (c # w)) (p, s, g) =
      concat (map (rx_match (lit w)) (rx_match (RChr (\<lambda>d. lower_char d = lower_char c)) (p, s, g)))"
    unfolding lit_def list.map by (rule rx_match_seq_Cons)
  then show ?case by (cases s) (auto simp: Cons.IH nth_Cons')
qed

lemma rx_match_alt: "set (rx_match (alt rs) cur) = (\<Union>r \<in> set rs. set (rx_match r cur))"
proof (induction rs rule: alt.induct)
  case 1
  show ?case by (cases cur) (auto split: list.split)
next
  case (3 r q rs)
  then show ?case by (cases cur) auto
qed simp

lemma match_at_word_of:
  assumes "\<forall>w \<in> set ws. keyword w"
  shows "match_at (word_of ws) p s \<noteq> None \<longleftrightarrow>
     (\<exists>w post. s = w @ post \<and> map lower_char w \<in> set ws \<and> (case p of None \<Rightarrow> True | Some c \<Rightarrow> \<not> word_char c)
        \<and> (post = [] \<or> \<not> word_char (hd post)))"
proof -
  have lower: "word_char (lower_char c) = word_char c" for c
  proof (cases "65 \<le> (of_char c :: nat) \<and> (of_char c :: nat) \<le> 90")
    case True
    then have "(of_char (char_of (of_char c + 32 :: nat) :: char) :: nat) = of_char c + 32" by simp
    with True show ?thesis by (simp add: word_char_def lower_char_def Let_def del: of_char_of)
  qed (auto simp: lower_char_def Let_def)
  have "match_at (word_of ws) p s \<noteq> None \<longleftrightarrow> rx_match (word_of ws) (p, s, []) \<noteq> []"
    by (auto simp: match_at_def split: list.split)
  also have "\<dots> \<longleftrightarrow> (\<exists>w \<in> set ws. at_boundary p s \<and> length w \<le> length s \<and> map lower_char (take (length w) s) = w
      \<and> at_boundary (Some (s ! (length w - 1))) (drop (length w) s))"
  proof -
    have k: "map lower_char w = w" "w \<noteq> []" if "w \<in> set ws" for w using that assms by (simp_all add: keyword_def)
    have "rx_match (word_of ws) (p, s, []) \<noteq> [] \<longleftrightarrow> at_boundary p s
        \<and> (\<exists>x \<in> set (rx_match (alt (map lit ws)) (p, s, [])). at_boundary (fst x) (fst (snd x)))"
      by (auto simp: word_of_def rx_match_alt split_beta)
    also have "\<dots> \<longleftrightarrow> (\<exists>w \<in> set ws. at_boundary p s \<and> length w \<le> length s \<and> map lower_char (take (length w) s) = w
      \<and> at_boundary (Some (s ! (length w - 1))) (drop (length w) s))"
      using k by (auto simp: rx_match_alt rx_match_lit)
    finally show ?thesis .
  qed
  also have "\<dots> \<longleftrightarrow> (\<exists>w post. s = w @ post \<and> map lower_char w \<in> set ws \<and> (case p of None \<Rightarrow> True | Some c \<Rightarrow> \<not> word_char c)
        \<and> (post = [] \<or> \<not> word_char (hd post)))"
  proof -
    have ends: "word_char (hd w)" "word_char (last w)" "w \<noteq> []" if "map lower_char w \<in> set ws" for w
    proof -
      have "keyword (map lower_char w)" using assms that by blast
      then have "w \<noteq> [] \<and> list_all word_char w" by (auto simp: keyword_def list_all_iff lower)
      then show "word_char (hd w)" "word_char (last w)" "w \<noteq> []" by (auto simp: list_all_iff)
    qed
    have b: "at_boundary p s \<and> at_boundary (Some (s ! (length w - 1))) (drop (length w) s) \<longleftrightarrow>
        (case p of None \<Rightarrow> True | Some c \<Rightarrow> \<not> word_char c) \<and> (post = [] \<or> \<not> word_char (hd post))"
      if "s = w @ post" "map lower_char w \<in> set ws" for w post
    proof -
      note e = ends [OF that(2)] and sw = that(1)
      then obtain c cs where s: "s = c # cs" "word_char c" by (cases w) auto
      have l: "s ! (length w - 1) = last w" "drop (length w) s = post" using e(3) sw by (simp_all add: last_conv_nth nth_append)
      have "at_boundary p s \<longleftrightarrow> (case p of None \<Rightarrow> True | Some c \<Rightarrow> \<not> word_char c)"
        using s(2) by (auto simp: at_boundary_def s(1) split: option.split)
      moreover have "at_boundary (Some (last w)) post \<longleftrightarrow> post = [] \<or> \<not> word_char (hd post)"
        using e(2) by (cases post) (auto simp: at_boundary_def)
      ultimately show ?thesis unfolding l by simp
    qed
    show ?thesis
    proof (intro iffI; elim bexE exE conjE)
      fix w assume w: "w \<in> set ws" "at_boundary p s" "length w \<le> length s" "map lower_char (take (length w) s) = w"
        "at_boundary (Some (s ! (length w - 1))) (drop (length w) s)"
      with b [of "take (length w) s" "drop (length w) s"]
      show "\<exists>w post. s = w @ post \<and> map lower_char w \<in> set ws \<and> (case p of None \<Rightarrow> True | Some c \<Rightarrow> \<not> word_char c)
        \<and> (post = [] \<or> \<not> word_char (hd post))"
        by (intro exI [of _ "take (length w) s"] exI [of _ "drop (length w) s"]) (simp add: min_absorb2)
    next
      fix w post assume w: "s = w @ post" "map lower_char w \<in> set ws" "case p of None \<Rightarrow> True | Some c \<Rightarrow> \<not> word_char c"
        "post = [] \<or> \<not> word_char (hd post)"
      with b [of w post] show "\<exists>w \<in> set ws. at_boundary p s \<and> length w \<le> length s \<and> map lower_char (take (length w) s) = w
      \<and> at_boundary (Some (s ! (length w - 1))) (drop (length w) s)"
        by (intro bexI [of _ "map lower_char w"]) simp_all
    qed
  qed
  finally show ?thesis .
qed

lemma re_found_word_of:
  assumes "\<forall>w \<in> set ws. keyword w"
  shows "re_found (word_of ws) s \<longleftrightarrow> mentions ws s"
proof -
  have "re_found (word_of ws) s \<longleftrightarrow> (\<exists>pre rest. s = pre @ rest
      \<and> match_at (word_of ws) (if pre = [] then None else Some (last pre)) rest \<noteq> None)"
    unfolding re_found_def re_search_def by (rule search_from_found)
  also have "\<dots> \<longleftrightarrow> mentions ws s"
  proof -
    have p: "(case (if pre = [] then None else Some (last pre)) of None \<Rightarrow> True | Some c \<Rightarrow> \<not> word_char c) \<longleftrightarrow>
        pre = [] \<or> \<not> word_char (last pre)" for pre by simp
    show ?thesis unfolding match_at_word_of [OF assms] mentions_def p by blast
  qed
  finally show ?thesis .
qed

end
