(* ===== verification/Agent_Base.thy ===== *)
theory Agent_Base
  imports Py_Regex Proof_Of_Intent
begin

text \<open>
  \<^verbatim>\<open>aor/agents/base.py\<close> and \<^verbatim>\<open>router.py\<close>: the plans and results that agents exchange with the service,
  the registry of agents, and the router that splits a request and delegates its parts. An agent is,
  for the router, its type, its id and its two planning methods (closures over the agent's state at
  that moment). The theory also states the contract shared by the agents that execute plans: without
  a PoI for exactly this plan nothing happens.
\<close>

section \<open>\<^verbatim>\<open>base.py\<close>\<close>

record action_plan =
  ap_agent_type :: string
  ap_agent_id :: "string option"
  ap_action_type :: string
  ap_payload :: "json dict"
  ap_requires_confirmation :: bool
  ap_confirmed :: bool
  ap_policy_decision :: string

text \<open>\<^verbatim>\<open>ActionPlan(...)\<close> with its field constraints and validators.\<close>

definition validate_plan :: "action_plan \<Rightarrow> action_plan res" where
  "validate_plan p =
     (if ap_agent_type p = [] \<or> ap_agent_id p = Some [] \<or> ap_action_type p = [] \<or> strip (ap_policy_decision p) = []
      then Inl (Exc ValidationError ''ActionPlan'')
      else Inr (p\<lparr>ap_policy_decision := strip (ap_policy_decision p)\<rparr>))"

text \<open>The plans the agents make: allowed, not confirmed.\<close>

definition make_plan :: "string \<Rightarrow> string \<Rightarrow> string \<Rightarrow> json dict \<Rightarrow> bool \<Rightarrow> action_plan res" where
  "make_plan ty aid act payload confirmation =
     validate_plan \<lparr>ap_agent_type = ty, ap_agent_id = Some aid, ap_action_type = act, ap_payload = payload,
       ap_requires_confirmation = confirmation, ap_confirmed = False, ap_policy_decision = ''allow''\<rparr>"

record action_result =
  res_success :: bool
  res_artifact_ref :: "string option"
  res_details :: "json dict"
  res_observed_effect :: "json dict"

text \<open>The \<^verbatim>\<open>_failure\<close> of the agents.\<close>

definition failure :: "string \<Rightarrow> action_result" where
  "failure detail = \<lparr>res_success = False, res_artifact_ref = None, res_details = [(''error'', JStr detail)],
     res_observed_effect = []\<rparr>"

record agent =
  ag_type :: string
  ag_id :: string
  ag_can_handle :: "string \<Rightarrow> bool"
  ag_plan :: "string \<Rightarrow> json dict option \<Rightarrow> action_plan res"

text \<open>\<^verbatim>\<open>Agent.__init__\<close>: the checks on the given id and on the class's type.\<close>

definition check_agent :: "string option \<Rightarrow> string \<Rightarrow> unit res" where
  "check_agent aid ty =
     (case aid of
        Some a \<Rightarrow> if strip a = [] then Inl (Exc ValueError ''agent_id must be a non-empty string'')
          else if strip ty = [] then Inl (Exc ValueError ''agent_type must be a non-empty string'') else Inr ()
      | None \<Rightarrow> if strip ty = [] then Inl (Exc ValueError ''agent_type must be a non-empty string'') else Inr ())"

definition nonblank :: "string \<Rightarrow> bool" where
  "nonblank s \<longleftrightarrow> s \<noteq> [] \<and> strip s \<noteq> []"

type_synonym agent_registry = "(string \<times> agent) list"

definition register_agent :: "agent \<Rightarrow> agent_registry \<Rightarrow> agent_registry res" where
  "register_agent a reg =
     (if map_of reg (ag_type a) \<noteq> None then Inl (Exc ValueError (''agent_type already registered: '' @ ag_type a))
      else Inr (dict_set (ag_type a) a reg))"

fun new_agent_registry :: "agent list \<Rightarrow> agent_registry \<Rightarrow> agent_registry res" where
  "new_agent_registry [] reg = Inr reg"
| "new_agent_registry (a # as) reg = bind_res (register_agent a reg) (new_agent_registry as)"

definition get_agent :: "agent_registry \<Rightarrow> string \<Rightarrow> agent res" where
  "get_agent reg ty =
     (case map_of reg ty of None \<Rightarrow> Inl (Exc KeyError (''unknown agent_type: '' @ ty)) | Some a \<Rightarrow> Inr a)"

definition list_agents :: "agent_registry \<Rightarrow> agent list" where
  "list_agents reg = map snd reg"

definition agent_types :: "agent_registry \<Rightarrow> string list" where
  "agent_types reg = map fst reg"

section \<open>The guards of the executing agents\<close>

text \<open>
  The checks with which \<^verbatim>\<open>execute\<close> of the file, database and audit agents begins: \<open>plan_refusal\<close> on the
  plan, \<open>poi_refusal\<close> on its PoI (the hash of the payload, and the types \<open>tys\<close> of action the PoI may have).
  The result is the failure detail, if there is one.
\<close>

definition plan_refusal :: "string \<Rightarrow> string \<Rightarrow> string list \<Rightarrow> action_plan \<Rightarrow> string option" where
  "plan_refusal ty aid caps p =
     (if ap_agent_type p \<noteq> ty then Some ''agent_type_mismatch''
      else if ap_agent_id p \<noteq> None \<and> ap_agent_id p \<noteq> Some aid then Some ''agent_id_mismatch''
      else if ap_action_type p \<notin> set caps then Some ''unsupported_action_type''
      else if ap_policy_decision p \<noteq> ''allow'' then Some ''policy_decision_rejected''
      else None)"

definition poi_refusal ::
  "crypto_libs \<Rightarrow> string option list \<Rightarrow> action_plan \<Rightarrow> proof_of_intent option \<Rightarrow> string option res"
where
  "poi_refusal L tys p poi =
     map_res (\<lambda>h.
         if Some (bytes_hex h) \<noteq> map_option poi_action_payload_hash poi then Some ''action_payload_hash_mismatch''
         else if Option.bind poi poi_action_type \<notin> set tys then Some ''action_type_mismatch''
         else None)
       (hash_payload L (JObj (ap_payload p)))"

text \<open>What passing the guards means: the PoI authorises the plan.\<close>

definition authorises :: "crypto_libs \<Rightarrow> proof_of_intent \<Rightarrow> action_plan \<Rightarrow> bool" where
  "authorises L q p \<longleftrightarrow>
     (\<exists>h. hash_payload L (JObj (ap_payload p)) = Inr h \<and> poi_action_payload_hash q = bytes_hex h)"

lemma plan_refusal_None:
  "plan_refusal ty aid caps p = None \<longleftrightarrow>
     ap_agent_type p = ty \<and> (ap_agent_id p = None \<or> ap_agent_id p = Some aid)
     \<and> ap_action_type p \<in> set caps \<and> ap_policy_decision p = ''allow''"
  by (auto simp: plan_refusal_def)

lemma poi_refusal_None:
  "poi_refusal L tys p poi = Inr None \<longleftrightarrow>
     (\<exists>q. poi = Some q \<and> authorises L q p \<and> poi_action_type q \<in> set tys)"
  by (cases poi) (auto simp: poi_refusal_def authorises_def map_res_eq_Inr)

section \<open>The contract of an executing agent\<close>

text \<open>
  An agent bound to the PoI: nothing happens, and nothing is reported as done, unless the PoI it is given
  carries the hash of the payload of the plan. Clients of the contract only use this law.
\<close>

locale poi_bound_agent =
  fixes L :: crypto_libs and execute :: "action_plan \<Rightarrow> proof_of_intent option \<Rightarrow> 's \<Rightarrow> action_result res \<times> 's"
  assumes bound: "execute p poi s = (r, s') \<Longrightarrow> s' \<noteq> s \<or> (\<exists>x. r = Inr x \<and> res_success x) \<Longrightarrow>
    \<exists>q. poi = Some q \<and> authorises L q p"
begin

definition took_effect :: "action_plan \<Rightarrow> proof_of_intent option \<Rightarrow> 's \<Rightarrow> bool" where
  "took_effect p poi s \<longleftrightarrow> snd (execute p poi s) \<noteq> s \<or> (\<exists>x. fst (execute p poi s) = Inr x \<and> res_success x)"

lemma effect_authorised: "took_effect p poi s \<Longrightarrow> \<exists>q. poi = Some q \<and> authorises L q p"
  using bound [of p poi s "fst (execute p poi s)" "snd (execute p poi s)"] by (simp add: took_effect_def)

lemma no_poi_no_effect: "\<not> took_effect p None s"
  using effect_authorised by blast

text \<open>The payload that is executed is the payload that was hashed into the PoI.\<close>

lemma effect_committed:
  assumes "took_effect p (Some q) s" "hash_payload L d = Inr h" "poi_action_payload_hash q = bytes_hex h"
    "payload_collision_free L {JObj (ap_payload p), d}"
  shows "JObj (ap_payload p) = d"
proof -
  from effect_authorised [OF assms(1)] obtain h' where
    h': "hash_payload L (JObj (ap_payload p)) = Inr h'" "poi_action_payload_hash q = bytes_hex h'"
    by (auto simp: authorises_def)
  have "bytes_hex h' = bytes_hex h" using h'(2) assms(3) by (rule subst)
  then have "h' = h" unfolding hex.enc_eq_iff .
  then have "hash_payload L (JObj (ap_payload p)) = hash_payload L d" unfolding h'(1) assms(2) by (rule arg_cong)
  then show ?thesis using assms(4) unfolding payload_collision_free_def by (auto dest: inj_onD)
qed

text \<open>A sequence of executions, each with its own PoI, and the state it ends in.\<close>

fun run_all :: "(action_plan \<times> proof_of_intent option) list \<Rightarrow> 's \<Rightarrow> 's" where
  "run_all [] s = s"
| "run_all ((p, poi) # steps) s = run_all steps (snd (execute p poi s))"

lemma run_all_authorised:
  "run_all steps s \<noteq> s \<Longrightarrow> \<exists>(p, poi) \<in> set steps. \<exists>q. poi = Some q \<and> authorises L q p"
proof (induction steps arbitrary: s)
  case (Cons step steps)
  obtain p poi where st: "step = (p, poi)" by (cases step)
  show ?case
  proof (cases "snd (execute p poi s) = s")
    case True
    then show ?thesis using Cons by (auto simp: st)
  next
    case False
    then have "took_effect p poi s" by (simp add: took_effect_def)
    then show ?thesis using effect_authorised by (auto simp: st)
  qed
qed simp

end

section \<open>\<^verbatim>\<open>router.py\<close>\<close>

record route_step =
  rt_sequence :: nat
  rt_request :: string
  rt_agent_type :: "string option"
  rt_agent_id :: "string option"
  rt_reason :: "string option"

record route_result =
  rr_request :: string
  rr_handled :: bool
  rr_steps :: "route_step list"
  rr_reason :: "string option"

definition router_rules :: "(string \<times> rx) list" where
  "router_rules =
     [(''audit'', word_of [''audit'', ''verify'', ''tamper'', ''replay'', ''proof'', ''ledger'']),
      (''database'', word_of [''database'', ''sqlite'', ''query'', ''records'', ''table'', ''sql'']),
      (''file'', word_of [''file'', ''folder'', ''directory'', ''read'', ''create'', ''write'', ''edit'', ''update'',
                      ''rename'', ''delete'']),
      (''email'', word_of [''send'', ''email'', ''mail'', ''reply'', ''forward''])]"

fun first_agent :: "agent_registry \<Rightarrow> string \<Rightarrow> (string \<times> rx) list \<Rightarrow> agent option" where
  "first_agent reg request [] = None"
| "first_agent reg request ((ty, pat) # rules) =
     (if \<not> re_found pat request then first_agent reg request rules
      else if ty = ''database'' \<and> re_found (word_of [''file'', ''folder'', ''directory'']) request
        then first_agent reg request rules
      else
        (case get_agent reg ty of
           Inl _ \<Rightarrow> first_agent reg request rules
         | Inr a \<Rightarrow> if ag_can_handle a request then Some a else first_agent reg request rules))"

definition agent_for :: "agent_registry \<Rightarrow> string \<Rightarrow> agent option" where
  "agent_for reg request = first_agent reg request router_rules"

definition segments_of :: "string \<Rightarrow> string list" where
  "segments_of request = filter (\<lambda>s. s \<noteq> []) (map strip (re_split (seq [spaces1, lit ''then'', spaces1]) request))"

definition step_of :: "agent_registry \<Rightarrow> nat \<times> string \<Rightarrow> route_step" where
  "step_of reg ns =
     (case ns of (n, segment) \<Rightarrow>
        (case agent_for reg segment of
           None \<Rightarrow> \<lparr>rt_sequence = n, rt_request = segment, rt_agent_type = None, rt_agent_id = None,
                    rt_reason = Some ''no_agent_can_handle_request''\<rparr>
         | Some a \<Rightarrow> \<lparr>rt_sequence = n, rt_request = segment, rt_agent_type = Some (ag_type a),
                      rt_agent_id = Some (ag_id a), rt_reason = None\<rparr>))"

definition route :: "agent_registry \<Rightarrow> string \<Rightarrow> route_result" where
  "route reg request =
     (if \<not> nonblank request
      then \<lparr>rr_request = request, rr_handled = False, rr_steps = [], rr_reason = Some ''request_empty''\<rparr>
      else
        let steps = map (step_of reg) (enumerate 1 (segments_of request));
            handled = (steps \<noteq> [] \<and> list_all (\<lambda>s. rt_agent_type s \<noteq> None) steps) in
        \<lparr>rr_request = request, rr_handled = handled, rr_steps = steps,
         rr_reason = (if handled then None else Some ''no_agent_can_handle_request'')\<rparr>)"

definition router_plan :: "agent_registry \<Rightarrow> string \<Rightarrow> json dict option \<Rightarrow> action_plan list res" where
  "router_plan reg request context =
     (let result = route reg request in
      if \<not> rr_handled result
      then Inl (Exc ValueError (case rr_reason result of None \<Rightarrow> ''no_agent_can_handle_request''
        | Some r \<Rightarrow> if r = [] then ''no_agent_can_handle_request'' else r))
      else traverse (\<lambda>s. bind_res (get_agent reg (case rt_agent_type s of None \<Rightarrow> [] | Some ty \<Rightarrow> ty))
             (\<lambda>a. ag_plan a (rt_request s) context)) (rr_steps result))"

section \<open>Registries\<close>

text \<open>Registered agents are stored under their own type, and each type once.\<close>

definition agents_wf :: "agent_registry \<Rightarrow> bool" where
  "agents_wf reg \<longleftrightarrow> distinct (map fst reg) \<and> (\<forall>(ty, a) \<in> set reg. ag_type a = ty)"

lemma agents_wf_register: "agents_wf reg \<Longrightarrow> register_agent a reg = Inr reg' \<Longrightarrow> agents_wf reg'"
  by (auto simp: agents_wf_def register_agent_def dict_set_fresh map_of_eq_None_iff image_iff split: if_splits)

lemma new_agent_registry_wf: "new_agent_registry as reg = Inr reg' \<Longrightarrow> agents_wf reg \<Longrightarrow> agents_wf reg'"
  by (induction as arbitrary: reg) (auto simp: bind_res_eq_Inr intro: agents_wf_register)

lemma get_agent_type: "agents_wf reg \<Longrightarrow> get_agent reg ty = Inr a \<Longrightarrow> ag_type a = ty"
  by (auto simp: get_agent_def agents_wf_def dest!: map_of_SomeD split: option.splits)

text \<open>The rules as a table of words, in the order of preference, and when a rule applies to a part of a request.\<close>

definition router_words :: "(string \<times> string list) list" where
  "router_words =
     [(''audit'', [''audit'', ''verify'', ''tamper'', ''replay'', ''proof'', ''ledger'']),
      (''database'', [''database'', ''sqlite'', ''query'', ''records'', ''table'', ''sql'']),
      (''file'', [''file'', ''folder'', ''directory'', ''read'', ''create'', ''write'', ''edit'', ''update'', ''rename'', ''delete'']),
      (''email'', [''send'', ''email'', ''mail'', ''reply'', ''forward''])]"

definition suitable :: "agent_registry \<Rightarrow> string \<Rightarrow> string \<times> string list \<Rightarrow> bool" where
  "suitable reg s r \<longleftrightarrow> mentions (snd r) s \<and> (fst r = ''database'' \<longrightarrow> \<not> mentions [''file'', ''folder'', ''directory''] s)
     \<and> (\<exists>a. map_of reg (fst r) = Some a \<and> ag_can_handle a s)"

definition eligible :: "agent_registry \<Rightarrow> string \<Rightarrow> nat \<Rightarrow> bool" where
  "eligible reg s i \<longleftrightarrow> i < length router_words \<and> suitable reg s (router_words ! i)"

lemma router_keywords: "\<forall>(ty, ws) \<in> set router_words. \<forall>w \<in> set ws. keyword w" "\<forall>w \<in> set [''file'', ''folder'', ''directory'']. keyword w"
  unfolding router_words_def by (simp_all add: letters_keyword lower_letter_def)

lemma router_rules_words: "router_rules = map (\<lambda>(ty, ws). (ty, word_of ws)) router_words"
  by (simp add: router_rules_def router_words_def)

lemma first_agent_finds:
  assumes "\<forall>(ty, ws) \<in> set table. \<forall>w \<in> set ws. keyword w"
  shows "first_agent reg s (map (\<lambda>(ty, ws). (ty, word_of ws)) table) =
    (case find (suitable reg s) table of None \<Rightarrow> None | Some r \<Rightarrow> map_of reg (fst r))"
  using assms
proof (induction table)
  case (Cons r table)
  obtain ty ws where r: "r = (ty, ws)" by (cases r)
  have k: "re_found (word_of ws) s = mentions ws s"
    "re_found (word_of [''file'', ''folder'', ''directory'']) s = mentions [''file'', ''folder'', ''directory''] s"
    using Cons.prems r by (intro re_found_word_of; use router_keywords(2) in auto)+
  show ?case using Cons unfolding r
    by (auto simp: k suitable_def get_agent_def split: option.split)
qed simp

lemma find_first: "find P xs = Some x \<longleftrightarrow> (\<exists>i < length xs. P (xs ! i) \<and> (\<forall>j < i. \<not> P (xs ! j)) \<and> x = xs ! i)"
  by (auto simp: find_Some_iff)

lemma agent_for_first:
  "agent_for reg s = Some a \<longleftrightarrow> (\<exists>i. eligible reg s i \<and> (\<forall>j < i. \<not> eligible reg s j) \<and> map_of reg (fst (router_words ! i)) = Some a)"
proof -
  have "agent_for reg s = Some a \<longleftrightarrow> (\<exists>r. find (suitable reg s) router_words = Some r \<and> map_of reg (fst r) = Some a)"
    unfolding agent_for_def router_rules_words first_agent_finds [OF router_keywords(1)] by (auto split: option.split)
  also have "\<dots> \<longleftrightarrow> (\<exists>i < length router_words. suitable reg s (router_words ! i) \<and> (\<forall>j < i. \<not> suitable reg s (router_words ! j))
      \<and> map_of reg (fst (router_words ! i)) = Some a)"
    unfolding find_first by blast
  also have "\<dots> \<longleftrightarrow> (\<exists>i. eligible reg s i \<and> (\<forall>j < i. \<not> eligible reg s j) \<and> map_of reg (fst (router_words ! i)) = Some a)"
    unfolding eligible_def by (meson order.strict_trans)
  finally show ?thesis .
qed

lemma agent_for_exists: "agent_for reg s \<noteq> None \<longleftrightarrow> (\<exists>i. eligible reg s i)"
proof
  assume "\<exists>i. eligible reg s i"
  then obtain i where "eligible reg s i" "\<forall>j < i. \<not> eligible reg s j" using exists_least_iff [of "eligible reg s"] by blast
  moreover from this(1) obtain a where "map_of reg (fst (router_words ! i)) = Some a" by (auto simp: eligible_def suitable_def)
  ultimately have "agent_for reg s = Some a" using agent_for_first by blast
  then show "agent_for reg s \<noteq> None" by simp
qed (use agent_for_first in blast)

lemma step_of_fields [simp]:
  "rt_request (step_of reg (n, s)) = s" "rt_agent_type (step_of reg (n, s)) = map_option ag_type (agent_for reg s)"
  by (simp_all add: step_of_def split: option.split)

lemma list_all_enumerate: "(\<And>n s. P (f (n, s)) = Q s) \<Longrightarrow> list_all P (map f (enumerate n xs)) \<longleftrightarrow> list_all Q xs"
  by (induction xs arbitrary: n) auto

lemma list_all2_enumerate:
  "(\<And>n s y. R (f (n, s)) y = Q s y) \<Longrightarrow> list_all2 R (map f (enumerate n xs)) ys \<longleftrightarrow> list_all2 Q xs ys"
  by (induction xs arbitrary: n ys) (auto simp: list_all2_Cons1)

lemma traverse_list_all2: "traverse f xs = Inr ys \<longleftrightarrow> list_all2 (\<lambda>x y. f x = Inr y) xs ys"
  by (induction xs arbitrary: ys) (auto simp: bind_res_eq_Inr map_res_eq_Inr list_all2_Cons1)

lemma route_handled:
  "rr_handled (route reg request) \<longleftrightarrow>
     nonblank request \<and> segments_of request \<noteq> [] \<and> list_all (\<lambda>s. agent_for reg s \<noteq> None) (segments_of request)"
proof -
  have "list_all (\<lambda>s. rt_agent_type s \<noteq> None) (map (step_of reg) (enumerate 1 (segments_of request))) \<longleftrightarrow>
      list_all (\<lambda>s. agent_for reg s \<noteq> None) (segments_of request)"
    by (rule list_all_enumerate) simp
  moreover have "map (step_of reg) (enumerate 1 (segments_of request)) = [] \<longleftrightarrow> segments_of request = []"
    by (metis enumerate_simps(1) length_0_conv length_enumerate length_map)
  ultimately show ?thesis by (simp add: route_def Let_def)
qed

lemma route_steps: "nonblank request \<Longrightarrow> rr_steps (route reg request) = map (step_of reg) (enumerate 1 (segments_of request))"
  by (simp add: route_def Let_def)


definition demo_agent :: agent where
  "demo_agent = \<lparr>ag_type = ''email'', ag_id = ''email-agent'', ag_can_handle = nonblank,
     ag_plan = (\<lambda>request context. make_plan ''email'' ''email-agent'' ''email'' [(''body'', JStr request)] False)\<rparr>"


text \<open>A PoI that permits a plan, for concrete runs of the agents.\<close>

definition demo_plan_poi :: "action_plan \<Rightarrow> proof_of_intent" where
  "demo_plan_poi p =
     demo_unsigned_poi\<lparr>poi_action_payload_hash := (case hash_payload demo_libs (JObj (ap_payload p)) of Inl _ \<Rightarrow> [] | Inr h \<Rightarrow> bytes_hex h),
       poi_action_type := Some (ap_action_type p)\<rparr>"

lemma demo_plan_poi_passes:
  assumes "list_all (\<lambda>(k, v). v = JNull \<or> is_str v) (ap_payload p)" "Some (ap_action_type p) \<in> set tys"
  shows "poi_refusal demo_libs tys p (Some (demo_plan_poi p)) = Inr None"
proof -
  obtain b where "rfc8785_dumps demo_libs (JObj (ap_payload p)) = Inr b"
    using demo_dumps_text assms(1) unfolding dumps_text_def by blast
  then show ?thesis using assms(2)
    by (simp add: poi_refusal_def demo_plan_poi_def hash_payload_def canonicalize_def)
qed

end
