(* ===== verification/Py_State.thy ===== *)
theory Py_State
  imports Encodings
begin

text \<open>
  Code that changes state and may raise: a state transformer that keeps the state reached when an
  exception is raised, so that effects made before the exception stay. With it, rules for what a run may
  change, which the proofs about the agents and the service use, and the texts that \<^verbatim>\<open>str()\<close> makes of payload values.
\<close>

section \<open>Stateful code\<close>

type_synonym ('s, 'a) act = "'s \<Rightarrow> 'a res \<times> 's"

definition ret :: "'a \<Rightarrow> ('s, 'a) act" where
  "ret x s = (Inr x, s)"

definition raise_exc :: "py_error \<Rightarrow> ('s, 'a) act" where
  "raise_exc e s = (Inl e, s)"

definition bind_act :: "('s, 'a) act \<Rightarrow> ('a \<Rightarrow> ('s, 'b) act) \<Rightarrow> ('s, 'b) act" where
  "bind_act m f s = (case m s of (Inl e, s') \<Rightarrow> (Inl e, s') | (Inr x, s') \<Rightarrow> f x s')"

text \<open>Code that only reads the state and may raise; an assignment.\<close>

definition lift_res :: "'a res \<Rightarrow> ('s, 'a) act" where
  "lift_res r s = (r, s)"

definition reads :: "('s \<Rightarrow> 'a res) \<Rightarrow> ('s, 'a) act" where
  "reads f s = (f s, s)"

definition modify :: "('s \<Rightarrow> 's) \<Rightarrow> ('s, unit) act" where
  "modify f s = (Inr (), f s)"

text \<open>\<^verbatim>\<open>if not condition: raise\<close>.\<close>

definition require :: "bool \<Rightarrow> py_error \<Rightarrow> ('s, unit) act" where
  "require b e s = (if b then Inr () else Inl e, s)"

text \<open>\<^verbatim>\<open>try: m except (cs) as exc: handler\<close>; what \<open>m\<close> did to the state stays.\<close>

definition catching :: "exc_class list \<Rightarrow> (py_error \<Rightarrow> ('s, 'a) act) \<Rightarrow> ('s, 'a) act \<Rightarrow> ('s, 'a) act" where
  "catching cs handler m s =
     (case m s of
        (Inl e, s') \<Rightarrow> if caught_by cs e then handler e s' else (Inl e, s')
      | (Inr x, s') \<Rightarrow> (Inr x, s'))"

text \<open>A component's code run on the field of a larger state.\<close>

definition zoom :: "('t \<Rightarrow> 's) \<Rightarrow> ('s \<Rightarrow> 't \<Rightarrow> 't) \<Rightarrow> ('s, 'a) act \<Rightarrow> ('t, 'a) act" where
  "zoom proj put m t = (case m (proj t) of (r, s') \<Rightarrow> (r, put s' t))"

named_theorems act_defs \<open>the definitions of the combinators\<close>

lemmas act_unfold [act_defs] = ret_def raise_exc_def bind_act_def lift_res_def reads_def modify_def require_def catching_def zoom_def

lemma bind_act_Inr: "m s = (Inr x, s') \<Longrightarrow> bind_act m f s = f x s'"
  and bind_act_Inl: "m s = (Inl e, s') \<Longrightarrow> bind_act m f s = (Inl e, s')"
  by (simp_all add: bind_act_def)

lemma bind_act_eq_Inr: "bind_act m f s = (Inr y, s'') \<longleftrightarrow> (\<exists>x s'. m s = (Inr x, s') \<and> f x s' = (Inr y, s''))"
  by (auto simp: bind_act_def split: prod.splits sum.splits)

lemma bind_act_cong [fundef_cong]:
  "m s = m' s' \<Longrightarrow> s = s' \<Longrightarrow> (\<And>x t. m' s' = (Inr x, t) \<Longrightarrow> f x t = f' x t) \<Longrightarrow> bind_act m f s = bind_act m' f' s'"
  by (auto simp: bind_act_def split: prod.splits sum.splits)

lemma bind_act_simps [simp]:
  "bind_act (ret x) f s = f x s"
  "bind_act (raise_exc e) f s = (Inl e, s)"
  "bind_act (lift_res (Inr x)) f s = f x s"
  "bind_act (lift_res (Inl e)) f s = (Inl e, s)"
  "bind_act (modify g) f' s = f' () (g s)"
  "bind_act (require True e) f' s = f' () s"
  "bind_act (require False e) f' s = (Inl e, s)"
  by (simp_all add: act_defs)

lemma bind_act_ret: "bind_act m (\<lambda>x. ret (f x)) s = (map_res f (fst (m s)), snd (m s))"
  by (auto simp: bind_act_def ret_def map_res_def split: prod.split sum.split)

lemma bind_act_require: "bind_act (require b e) f s = (if b then f () s else (Inl e, s))"
  by (simp add: act_defs)

lemma bind_act_reads: "bind_act (reads g) f s = (case g s of Inl e \<Rightarrow> (Inl e, s) | Inr x \<Rightarrow> f x s)"
  by (simp add: act_defs)

lemma bind_act_lift: "bind_act (lift_res r) f s = (case r of Inl e \<Rightarrow> (Inl e, s) | Inr x \<Rightarrow> f x s)"
  by (simp add: act_defs)

lemmas bind_act_read = bind_act_require bind_act_reads bind_act_lift

section \<open>What a run changes\<close>

text \<open>
  \<open>moves R m\<close>: whatever the outcome of \<open>m\<close>, the state before and after it are related by \<open>R\<close>. For a
  reflexive and transitive \<open>R\<close> the rules follow the structure of the code.
\<close>

definition moves :: "('s \<Rightarrow> 's \<Rightarrow> bool) \<Rightarrow> ('s, 'a) act \<Rightarrow> bool" where
  "moves R m \<longleftrightarrow> (\<forall>s. R s (snd (m s)))"

lemma movesI: "(\<And>s. R s (snd (m s))) \<Longrightarrow> moves R m"
  by (simp add: moves_def)

lemma movesD: "moves R m \<Longrightarrow> R s (snd (m s))"
  by (simp add: moves_def)

lemma moves_bind:
  assumes "transp R" "moves R m" "\<And>x. moves R (f x)"
  shows "moves R (bind_act m f)"
proof (rule movesI)
  fix s
  obtain r s' where m: "m s = (r, s')" by (cases "m s")
  have 1: "R s s'" using movesD [OF assms(2), of s] by (simp add: m)
  show "R s (snd (bind_act m f s))"
  proof (cases r)
    case (Inr x)
    have "R s' (snd (f x s'))" using movesD [OF assms(3)] .
    with 1 assms(1) show ?thesis by (auto simp: bind_act_def m Inr dest: transpD)
  qed (use 1 in \<open>simp add: bind_act_def m\<close>)
qed

lemma moves_catching:
  assumes "transp R" "moves R m" "\<And>e. moves R (h e)"
  shows "moves R (catching cs h m)"
proof (rule movesI)
  fix s
  obtain r s' where m: "m s = (r, s')" by (cases "m s")
  have 1: "R s s'" using movesD [OF assms(2), of s] by (simp add: m)
  show "R s (snd (catching cs h m s))"
  proof (cases r)
    case (Inl e)
    have "R s' (snd (h e s'))" using movesD [OF assms(3)] .
    with 1 assms(1) show ?thesis by (auto simp: catching_def m Inl dest: transpD)
  qed (use 1 in \<open>simp add: catching_def m\<close>)
qed

lemma moves_still:
  assumes "reflp R"
  shows "moves R (ret x)" "moves R (raise_exc e)" "moves R (lift_res r)" "moves R (reads g)" "moves R (require b e)"
  using assms by (auto simp: moves_def act_defs reflp_def)

lemma moves_modify: "(\<And>s. R s (f s)) \<Longrightarrow> moves R (modify f)"
  by (simp add: moves_def act_defs)

text \<open>The rule for one run, where what happened before may be used.\<close>

lemma bind_act_run:
  assumes "transp R" "R s (snd (m s))" "\<And>x s'. m s = (Inr x, s') \<Longrightarrow> R s s' \<Longrightarrow> R s' (snd (f x s'))"
  shows "R s (snd (bind_act m f s))"
proof -
  obtain r s' where m: "m s = (r, s')" by (cases "m s")
  then have 1: "R s s'" using assms(2) by simp
  show ?thesis
  proof (cases r)
    case (Inr x)
    then have "R s' (snd (f x s'))" using assms(3) m 1 by simp
    with 1 assms(1) show ?thesis by (auto simp: bind_act_def m Inr dest: transpD)
  qed (use 1 in \<open>simp add: bind_act_def m\<close>)
qed

text \<open>An invariant of the state is a relation that is reflexive and transitive.\<close>

definition kept :: "('s \<Rightarrow> bool) \<Rightarrow> 's \<Rightarrow> 's \<Rightarrow> bool" where
  "kept P s t \<longleftrightarrow> (P s \<longrightarrow> P t)"

lemma kept_order: "reflp (kept P)" "transp (kept P)"
  by (auto simp: kept_def reflp_def transp_def)

lemma same_order: "reflp (=)" "transp (=)"
  by (auto simp: reflp_def transp_def)

section \<open>Texts of values\<close>

text \<open>\<^verbatim>\<open>repr(v)\<close> and \<^verbatim>\<open>str(v)\<close> of a payload value.\<close>

fun json_repr :: "json \<Rightarrow> string" where
  "json_repr JNull = ''None''"
| "json_repr (JBool b) = (if b then ''True'' else ''False'')"
| "json_repr (JInt i) = show_int i"
| "json_repr (JStr s) = py_repr s"
| "json_repr (JList xs) = ''['' @ str_join '', '' (map json_repr xs) @ '']''"
| "json_repr (JObj d) = ''{'' @ str_join '', '' (map (\<lambda>(k, v). py_repr k @ '': '' @ json_repr v) d) @ ''}''"

definition py_str :: "json \<Rightarrow> string" where
  "py_str v = (case v of JStr s \<Rightarrow> s | _ \<Rightarrow> json_repr v)"

definition upper_char :: "char \<Rightarrow> char" where
  "upper_char c = (let n = of_char c :: nat in if 97 \<le> n \<and> n \<le> 122 then char_of (n - 32) else c)"

definition str_upper :: "string \<Rightarrow> string" where
  "str_upper s = map upper_char s"

text \<open>\<^verbatim>\<open>s.split(c)\<close> for a separator of one character.\<close>

fun split_char :: "char \<Rightarrow> string \<Rightarrow> string list" where
  "split_char c [] = [[]]"
| "split_char c (d # s) =
     (if d = c then [] # split_char c s
      else (case split_char c s of [] \<Rightarrow> [[d]] | w # ws \<Rightarrow> (d # w) # ws))"

text \<open>\<^verbatim>\<open>a or b\<close> for payload values.\<close>

definition json_or :: "json \<Rightarrow> json \<Rightarrow> json" where
  "json_or a b = (if truthy a then a else b)"

lemma split_char_nonempty: "split_char c s \<noteq> []"
  by (induction s) (auto split: list.splits)

lemma split_char_no_sep: "w \<in> set (split_char c s) \<Longrightarrow> c \<notin> set w"
proof (induction s arbitrary: w)
  case (Cons d s)
  then show ?case by (auto split: if_splits list.splits)
qed simp

lemma strip_strip [simp]: "strip (strip s) = strip s"
proof -
  have h: "dropWhile P (rev (dropWhile P (rev u))) = rev (dropWhile P (rev u))" if "u = [] \<or> \<not> P (hd u)" for P and u :: string
  proof -
    let ?v = "rev (dropWhile P (rev u))"
    have u: "u = ?v @ rev (takeWhile P (rev u))" by (metis rev_append rev_rev_ident takeWhile_dropWhile_id)
    then have "?v = [] \<or> \<not> P (hd ?v)" using that by (metis append_is_Nil_conv hd_append2)
    moreover have "dropWhile P w = w" if "w = [] \<or> \<not> P (hd w)" for w using that by (cases w) auto
    ultimately show ?thesis by blast
  qed
  let ?u = "dropWhile py_isspace s"
  have "?u = [] \<or> \<not> py_isspace (hd ?u)" using hd_dropWhile by blast
  then show ?thesis using h [of ?u py_isspace] by (simp add: strip_def dropWhile_idem)
qed

end
