(* ===== verification/File_System.thy ===== *)
theory File_System
  imports Py_State
begin

text \<open>
  The part of the operating system and of \<^verbatim>\<open>pathlib\<close> that the agents use: a file system of files,
  directories and symbolic links, addressed by absolute paths (lists of components), \<^verbatim>\<open>Path.resolve\<close>
  with symbolic links and \<^verbatim>\<open>..\<close>, and the operations on files. Text read from files is represented by
  its UTF-8 encoding. Errors of the device (permissions, space, name lengths) are not represented, and
  no other process changes the file system during an operation. The theory proves that the operations
  keep the tree well-formed, change only the path they name, and that a resolved path has no link in it.
\<close>

section \<open>Files, directories, links\<close>

datatype fnode = FFile bytes | FDir | FLink string

type_synonym path = "string list"
type_synonym file_system = "(path \<times> fnode) list"

definition node_at :: "file_system \<Rightarrow> path \<Rightarrow> fnode option" where
  "node_at fs p = (if p = [] then Some FDir else map_of fs p)"

abbreviation path_sep :: char where
  "path_sep \<equiv> CHR ''/''"

text \<open>The components of a path text; empty components and \<^verbatim>\<open>.\<close> say nothing.\<close>

definition path_parts :: "string \<Rightarrow> path" where
  "path_parts s = filter (\<lambda>n. n \<noteq> [] \<and> n \<noteq> ''.'') (split_char path_sep s)"

definition is_absolute :: "string \<Rightarrow> bool" where
  "is_absolute s \<longleftrightarrow> startswith s ''/''"

text \<open>\<^verbatim>\<open>str(path)\<close> of an absolute path.\<close>

definition path_str :: "path \<Rightarrow> string" where
  "path_str p = path_sep # str_join ''/'' p"

definition path_name :: "path \<Rightarrow> string" where
  "path_name p = (if p = [] then [] else last p)"

text \<open>\<^verbatim>\<open>path.suffix\<close> and \<^verbatim>\<open>path.stem\<close> of the last component.\<close>

definition extension_of :: "string \<Rightarrow> string" where
  "extension_of n = rev (takeWhile (\<lambda>c. c \<noteq> CHR ''.'') (rev n))"

definition name_suffix :: "string \<Rightarrow> string" where
  "name_suffix n =
     (let e = extension_of n in if e \<noteq> [] \<and> length e + 1 < length n then ''.'' @ e else [])"

definition name_stem :: "string \<Rightarrow> string" where
  "name_stem n = take (length n - length (name_suffix n)) n"

section \<open>\<^verbatim>\<open>Path.resolve\<close>\<close>

text \<open>
  \<^verbatim>\<open>os.path.realpath\<close>: \<open>act\<close> are the links being expanded; meeting one of them again is a loop. The
  result is \<open>None\<close> for a loop, which \<^verbatim>\<open>resolve\<close> reports as \<^verbatim>\<open>RuntimeError\<close> and other operations as
  \<^verbatim>\<open>OSError\<close>. Components that do not exist are kept as they are.
\<close>

definition link_at :: "file_system \<Rightarrow> path \<Rightarrow> string option" where
  "link_at fs p = (case map_of fs p of Some (FLink t) \<Rightarrow> Some t | _ \<Rightarrow> None)"

definition links_of :: "file_system \<Rightarrow> path set" where
  "links_of fs = {p. link_at fs p \<noteq> None}"

lemma finite_links_of: "finite (links_of fs)"
  by (rule finite_subset [of _ "fst ` set fs"])
    (auto simp: links_of_def link_at_def dest!: map_of_SomeD intro: rev_image_eqI split: option.splits)

lemma expanding_fewer:
  assumes "link_at fs q = Some t" "q \<notin> set act"
  shows "card (links_of fs - insert q (set act)) < card (links_of fs - set act)"
proof -
  have "links_of fs - insert q (set act) \<subset> links_of fs - set act"
    using assms by (auto simp: links_of_def)
  then show ?thesis using finite_links_of by (meson finite_Diff psubset_card_mono)
qed

function realpath :: "file_system \<Rightarrow> path list \<Rightarrow> path \<Rightarrow> string list \<Rightarrow> path option" where
  "realpath fs act p [] = Some p"
| "realpath fs act p (n # rest) =
     (if n = ''..'' then realpath fs act (butlast p) rest
      else
        (case link_at fs (p @ [n]) of
           None \<Rightarrow> realpath fs act (p @ [n]) rest
         | Some t \<Rightarrow>
             if p @ [n] \<in> set act then None
             else
               (case realpath fs ((p @ [n]) # act) (if is_absolute t then [] else p) (path_parts t) of
                  None \<Rightarrow> None
                | Some q \<Rightarrow> realpath fs act q rest)))"
  by pat_completeness auto
termination
  by (relation "inv_image (less_than <*lex*> less_than) (\<lambda>(fs, act, p, ns). (card (links_of fs - set act), length ns))")
    (auto intro: expanding_fewer)

text \<open>\<^verbatim>\<open>Path(text).resolve()\<close> and \<^verbatim>\<open>(base / text).resolve()\<close>.\<close>

definition resolve_from :: "file_system \<Rightarrow> path \<Rightarrow> string \<Rightarrow> path res" where
  "resolve_from fs base s =
     (if CHR 0x00 \<in> set s then Inl (Exc ValueError ''embedded null byte'')
      else
        (case realpath fs [] [] ((if is_absolute s then [] else base) @ path_parts s) of
           None \<Rightarrow> Inl (Exc RuntimeError ''Symlink loop'')
         | Some p \<Rightarrow> Inr p))"

section \<open>Operations\<close>

definition locate :: "file_system \<Rightarrow> path \<Rightarrow> path option" where
  "locate fs p = realpath fs [] [] p"

text \<open>The node behind the links, if there is one.\<close>

definition stat :: "file_system \<Rightarrow> path \<Rightarrow> fnode option" where
  "stat fs p =
     (case locate fs p of
        None \<Rightarrow> None
      | Some q \<Rightarrow> (case node_at fs q of Some (FLink t) \<Rightarrow> None | r \<Rightarrow> r))"

definition path_exists :: "file_system \<Rightarrow> path \<Rightarrow> bool" where
  "path_exists fs p \<longleftrightarrow> stat fs p \<noteq> None"

definition is_file :: "file_system \<Rightarrow> path \<Rightarrow> bool" where
  "is_file fs p \<longleftrightarrow> (case stat fs p of Some (FFile b) \<Rightarrow> True | _ \<Rightarrow> False)"

definition is_dir :: "file_system \<Rightarrow> path \<Rightarrow> bool" where
  "is_dir fs p \<longleftrightarrow> stat fs p = Some FDir"

definition os_error :: "string \<Rightarrow> path \<Rightarrow> py_error" where
  "os_error what p = Exc OSError (what @ '': '' @ path_str p)"

definition read_bytes :: "path \<Rightarrow> (file_system, bytes) act" where
  "read_bytes p = reads (\<lambda>fs.
     case stat fs p of
       Some (FFile b) \<Rightarrow> Inr b
     | Some _ \<Rightarrow> Inl (os_error ''Is a directory'' p)
     | None \<Rightarrow> Inl (os_error ''No such file or directory'' p))"

text \<open>Opening for writing truncates or creates the file; the directory must exist.\<close>

definition write_bytes :: "path \<Rightarrow> bytes \<Rightarrow> (file_system, unit) act" where
  "write_bytes p b fs =
     (case locate fs p of
        None \<Rightarrow> (Inl (os_error ''Too many levels of symbolic links'' p), fs)
      | Some q \<Rightarrow>
          if node_at fs q = Some FDir then (Inl (os_error ''Is a directory'' p), fs)
          else if node_at fs (butlast q) \<noteq> Some FDir then (Inl (os_error ''No such file or directory'' p), fs)
          else (Inr (), dict_set q (FFile b) fs))"

text \<open>\<^verbatim>\<open>path.mkdir(parents=True, exist_ok=True)\<close>; \<open>q\<close> are the components reached, from the root.\<close>

fun make_dirs_below :: "path \<Rightarrow> string list \<Rightarrow> (file_system, unit) act" where
  "make_dirs_below q [] fs = (Inr (), fs)"
| "make_dirs_below q (n # ns) fs =
     (case node_at fs (q @ [n]) of
        Some FDir \<Rightarrow> make_dirs_below (q @ [n]) ns fs
      | Some _ \<Rightarrow> (Inl (os_error (if ns = [] then ''File exists'' else ''Not a directory'') (q @ n # ns)), fs)
      | None \<Rightarrow> make_dirs_below (q @ [n]) ns (dict_set (q @ [n]) FDir fs))"

definition make_dirs :: "path \<Rightarrow> (file_system, unit) act" where
  "make_dirs p fs =
     (case locate fs p of
        None \<Rightarrow> (Inl (os_error ''Too many levels of symbolic links'' p), fs)
      | Some q \<Rightarrow> make_dirs_below [] q fs)"

definition remove_node :: "path \<Rightarrow> file_system \<Rightarrow> file_system" where
  "remove_node p fs = filter (\<lambda>e. fst e \<noteq> p) fs"

text \<open>\<^verbatim>\<open>path.unlink()\<close> and \<^verbatim>\<open>path.replace(dest)\<close> for paths that \<^verbatim>\<open>resolve\<close> made.\<close>

definition unlink :: "path \<Rightarrow> (file_system, unit) act" where
  "unlink p fs =
     (case node_at fs p of
        None \<Rightarrow> (Inl (os_error ''No such file or directory'' p), fs)
      | Some FDir \<Rightarrow> (Inl (os_error ''Is a directory'' p), fs)
      | Some _ \<Rightarrow> (Inr (), remove_node p fs))"

definition replace_file :: "path \<Rightarrow> path \<Rightarrow> (file_system, unit) act" where
  "replace_file p d fs =
     (case map_of fs p of
        None \<Rightarrow> (Inl (os_error ''No such file or directory'' p), fs)
      | Some nd \<Rightarrow>
          if nd = FDir \<or> node_at fs d = Some FDir then (Inl (os_error ''Is a directory'' d), fs)
          else if node_at fs (butlast d) \<noteq> Some FDir then (Inl (os_error ''No such file or directory'' d), fs)
          else (Inr (), if p = d then fs else dict_set d nd (remove_node p fs)))"

section \<open>Text files\<close>

text \<open>Well-formed UTF-8: the leads and continuations that Python's strict decoder accepts.\<close>

definition byte_in :: "nat \<Rightarrow> nat \<Rightarrow> byte \<Rightarrow> bool" where
  "byte_in a b w \<longleftrightarrow> a \<le> unat w \<and> unat w \<le> b"

fun utf8_ok :: "bytes \<Rightarrow> bool" where
  "utf8_ok [] = True"
| "utf8_ok [a] = byte_in 0 127 a"
| "utf8_ok (a # b # r) =
     (if byte_in 0 127 a then utf8_ok (b # r)
      else if byte_in 194 223 a then byte_in 128 191 b \<and> utf8_ok r
      else
        (case r of
           [] \<Rightarrow> False
         | c # r' \<Rightarrow>
             if byte_in 224 239 a
             then byte_in (if unat a = 224 then 160 else 128) (if unat a = 237 then 159 else 191) b
               \<and> byte_in 128 191 c \<and> utf8_ok r'
             else if byte_in 240 244 a
             then byte_in (if unat a = 240 then 144 else 128) (if unat a = 244 then 143 else 191) b
               \<and> byte_in 128 191 c \<and> (case r' of [] \<Rightarrow> False | d # r'' \<Rightarrow> byte_in 128 191 d \<and> utf8_ok r'')
             else False))"

definition decode_utf8 :: "bytes \<Rightarrow> string res" where
  "decode_utf8 b =
     (if utf8_ok b then Inr (bytes_decode b)
      else Inl (Exc UnicodeDecodeError ''utf-8 codec can't decode bytes''))"

text \<open>Text mode with the default \<^verbatim>\<open>newline\<close>: every line end is read as a line feed.\<close>

fun universal_newlines :: "string \<Rightarrow> string" where
  "universal_newlines [] = []"
| "universal_newlines [c] = (if c = CHR 0x0D then [CHR 0x0A] else [c])"
| "universal_newlines (c # d # s) =
     (if c = CHR 0x0D then CHR 0x0A # universal_newlines (if d = CHR 0x0A then s else d # s)
      else c # universal_newlines (d # s))"

definition read_text :: "path \<Rightarrow> (file_system, string) act" where
  "read_text p = bind_act (read_bytes p) (\<lambda>b. lift_res (map_res universal_newlines (decode_utf8 b)))"

definition write_text :: "path \<Rightarrow> string \<Rightarrow> (file_system, unit) act" where
  "write_text p s = write_bytes p (str_encode s)"

text \<open>\<^verbatim>\<open>s.splitlines(keepends=True)\<close>: the length of the line end at the front of a text, and the lines.\<close>

definition line_end :: "string \<Rightarrow> nat" where
  "line_end s =
     (case s of
        [] \<Rightarrow> 0
      | c # r \<Rightarrow>
          if c = CHR 0x0D then (if startswith r [CHR 0x0A] then 2 else 1)
          else if c \<in> set [CHR 0x0A, CHR 0x0B, CHR 0x0C, CHR 0x1C, CHR 0x1D, CHR 0x1E] then 1
          else if c = CHR 0xC2 \<and> startswith r [CHR 0x85] then 2
          else if c = CHR 0xE2 \<and> (startswith r [CHR 0x80, CHR 0xA8] \<or> startswith r [CHR 0x80, CHR 0xA9]) then 3
          else 0)"

function split_lines_from :: "string \<Rightarrow> string \<Rightarrow> string list" where
  "split_lines_from acc s =
     (case s of
        [] \<Rightarrow> if acc = [] then [] else [rev acc]
      | c # cs \<Rightarrow>
          if line_end s = 0 then split_lines_from (c # acc) cs
          else (rev acc @ take (line_end s) s) # split_lines_from [] (drop (line_end s) s))"
  by pat_completeness auto
termination
  by (relation "measure (\<lambda>(acc, s). length s)") auto

declare split_lines_from.simps [simp del]

definition split_lines :: "string \<Rightarrow> string list" where
  "split_lines s = split_lines_from [] s"

lemma concat_split_lines_from: "concat (split_lines_from acc s) = rev acc @ s"
proof (induction acc s rule: split_lines_from.induct)
  case (1 acc s)
  then show ?case by (subst split_lines_from.simps) (auto split: list.splits)
qed

lemma concat_split_lines [simp]: "concat (split_lines s) = s"
  by (simp add: split_lines_def concat_split_lines_from)

section \<open>Well-formed trees\<close>

text \<open>Every node but the root lies in a directory, and is listed once.\<close>

definition fs_wf :: "file_system \<Rightarrow> bool" where
  "fs_wf fs \<longleftrightarrow>
     distinct (map fst fs) \<and> (\<forall>p \<in> set (map fst fs). p \<noteq> [] \<and> node_at fs (butlast p) = Some FDir)"

text \<open>Paths that \<^verbatim>\<open>resolve\<close> makes: no prefix is a link, no component is \<^verbatim>\<open>..\<close>.\<close>

definition resolved :: "file_system \<Rightarrow> path \<Rightarrow> bool" where
  "resolved fs p \<longleftrightarrow> ''..'' \<notin> set p \<and> (\<forall>k. link_at fs (take k p) = None)"

text \<open>
  What an operation may do that writes only in \<open>W\<close>: links and directories stay, nothing else changes
  outside \<open>W\<close>, the tree stays well-formed.
\<close>

definition stays :: "path set \<Rightarrow> file_system \<Rightarrow> file_system \<Rightarrow> bool" where
  "stays W fs fs' \<longleftrightarrow>
     link_at fs' = link_at fs \<and> (fs_wf fs \<longrightarrow> fs_wf fs')
     \<and> (\<forall>p. map_of fs p = Some FDir \<longrightarrow> map_of fs' p = Some FDir)
     \<and> (\<forall>p. p \<notin> W \<longrightarrow> map_of fs' p = map_of fs p)"

lemma stays_order: "reflp (stays W)" "transp (stays W)"
  by (auto simp: stays_def reflp_def transp_def)

lemmas stays_refl [simp] = reflpD [OF stays_order(1)]

lemma stays_mono: "stays W fs fs' \<Longrightarrow> W \<subseteq> W' \<Longrightarrow> stays W' fs fs'"
  by (auto simp: stays_def)

lemma node_at_Nil [simp]: "node_at fs [] = Some FDir"
  by (simp add: node_at_def)

lemma stays_dir: "stays W fs fs' \<Longrightarrow> node_at fs p = Some FDir \<Longrightarrow> node_at fs' p = Some FDir"
  by (auto simp: stays_def node_at_def)

lemma fs_wf_Nil: "fs_wf fs \<Longrightarrow> map_of fs [] = None"
  by (auto simp: fs_wf_def map_of_eq_None_iff)

lemma fs_wf_parent: "fs_wf fs \<Longrightarrow> map_of fs p = Some n \<Longrightarrow> node_at fs (butlast p) = Some FDir"
  by (force simp: fs_wf_def dest: map_of_SomeD)

lemma fs_wf_no_child: "fs_wf fs \<Longrightarrow> node_at fs p \<noteq> Some FDir \<Longrightarrow> map_of fs (p @ [n]) = None"
  using fs_wf_parent [of fs "p @ [n]"] by (cases "map_of fs (p @ [n])") auto

lemma realpath_link_at: "link_at fs' = link_at fs \<Longrightarrow> realpath fs' act p ns = realpath fs act p ns"
proof (induction fs act p ns rule: realpath.induct)
  case (2 fs act p n rest)
  then show ?case by (simp split: option.split)
qed simp

lemma stays_locate: "stays W fs fs' \<Longrightarrow> locate fs' p = locate fs p"
  unfolding locate_def stays_def using realpath_link_at by blast

lemma resolve_from_stays: "stays W fs fs' \<Longrightarrow> resolve_from fs' = resolve_from fs"
proof -
  assume "stays W fs fs'"
  then have "realpath fs' act p ns = realpath fs act p ns" for act p ns
    unfolding stays_def using realpath_link_at by blast
  then show ?thesis by (simp add: resolve_from_def fun_eq_iff)
qed

lemma stays_resolved: "stays W fs fs' \<Longrightarrow> resolved fs' p = resolved fs p"
  by (simp add: resolved_def stays_def)

section \<open>What \<^verbatim>\<open>resolve\<close> gives\<close>

lemma take_snoc_le: "take k (p @ [n]) = (if k \<le> length p then take k p else p @ [n])"
  by simp

lemma realpath_free:
  "realpath fs act p ns = Some q \<Longrightarrow> (\<forall>k. link_at fs (take k p) = None) \<Longrightarrow> (\<forall>k. link_at fs (take k q) = None)"
proof (induction fs act p ns arbitrary: q rule: realpath.induct)
  case (2 fs act p n rest)
  show ?case
  proof (cases "n = ''..''")
    case True
    have "\<forall>k. link_at fs (take k (butlast p)) = None"
      using "2.prems"(2) by (metis butlast_conv_take take_take)
    with "2.IH"(1) [OF True] "2.prems"(1) True show ?thesis by simp
  next
    case n: False
    show ?thesis
    proof (cases "link_at fs (p @ [n])")
      case None
      with "2.prems"(2) have "\<forall>k. link_at fs (take k (p @ [n])) = None" by (simp add: take_snoc_le del: take_append)
      with "2.IH"(2) [OF n None] "2.prems"(1) n None show ?thesis by simp
    next
      case (Some t)
      with "2.prems"(1) n obtain r where f: "p @ [n] \<notin> set act"
          and r: "realpath fs ((p @ [n]) # act) (if is_absolute t then [] else p) (path_parts t) = Some r"
            "realpath fs act r rest = Some q"
        by (auto split: if_splits option.splits)
      have "link_at fs [] = None" using "2.prems"(2) by (metis take0)
      then have "\<forall>k. link_at fs (take k r) = None"
        using "2.IH"(3) [OF n Some f r(1)] "2.prems"(2) by (simp split: if_splits)
      then show ?thesis using "2.IH"(4) [OF n Some f r(1) r(2)] by simp
    qed
  qed
qed simp

lemma realpath_no_dots: "realpath fs act p ns = Some q \<Longrightarrow> ''..'' \<notin> set p \<Longrightarrow> ''..'' \<notin> set q"
proof (induction fs act p ns arbitrary: q rule: realpath.induct)
  case (2 fs act p n rest)
  then show ?case by (auto dest: in_set_butlastD split: if_splits option.splits)
qed simp

lemma fs_wf_link_Nil: "fs_wf fs \<Longrightarrow> link_at fs [] = None"
  by (simp add: link_at_def fs_wf_Nil)

lemma resolve_from_resolved:
  assumes "fs_wf fs" "resolve_from fs base s = Inr p"
  shows "resolved fs p"
proof -
  from assms(2) obtain ns where "realpath fs [] [] ns = Some p"
    by (auto simp: resolve_from_def split: if_splits option.splits)
  with realpath_free [of fs "[]" "[]" ns p] realpath_no_dots [of fs "[]" "[]" ns p] assms(1) show ?thesis
    by (simp add: resolved_def fs_wf_link_Nil)
qed

lemma realpath_plain:
  "''..'' \<notin> set ns \<Longrightarrow> (\<forall>k. link_at fs (take k (p @ ns)) = None) \<Longrightarrow> realpath fs act p ns = Some (p @ ns)"
proof (induction ns arbitrary: p)
  case (Cons n ns)
  from Cons.prems(2) have "link_at fs (take (Suc (length p)) (p @ n # ns)) = None" by blast
  then have "link_at fs (p @ [n]) = None" by simp
  moreover have "realpath fs act (p @ [n]) ns = Some ((p @ [n]) @ ns)"
    by (rule Cons.IH) (use Cons.prems in auto)
  moreover have "n \<noteq> ''..''" using Cons.prems(1) by auto
  ultimately show ?case by simp
qed simp

lemma locate_resolved: "resolved fs p \<Longrightarrow> locate fs p = Some p"
  unfolding locate_def resolved_def using realpath_plain [of p fs "[]" "[]"] by simp

lemma stat_resolved: "resolved fs p \<Longrightarrow> stat fs p = node_at fs p"
proof -
  assume r: "resolved fs p"
  then have "link_at fs (take (length p) p) = None" unfolding resolved_def by blast
  then have "node_at fs p \<noteq> Some (FLink t)" for t
    by (auto simp: link_at_def node_at_def)
  then show ?thesis by (auto simp: stat_def locate_resolved [OF r] split: option.split fnode.split)
qed

lemma resolved_prefix: "resolved fs p \<Longrightarrow> resolved fs (take k p)"
  by (auto simp: resolved_def dest: in_set_takeD)

lemma resolved_butlast: "resolved fs p \<Longrightarrow> resolved fs (butlast p)"
  by (simp add: butlast_conv_take resolved_prefix)

lemma resolved_link_at: "resolved fs p \<Longrightarrow> link_at fs p = None"
  by (metis resolved_def take_all_iff order_refl)

lemma resolved_not_link: "resolved fs p \<Longrightarrow> map_of fs p \<noteq> Some (FLink t)"
  using resolved_link_at [of fs p] by (auto simp: link_at_def)

section \<open>What the operations change\<close>

lemma fs_wf_set:
  assumes "fs_wf fs" "q \<noteq> []" "node_at fs (butlast q) = Some FDir" "node_at fs q \<noteq> Some FDir \<or> nd = FDir"
  shows "fs_wf (dict_set q nd fs)"
  unfolding fs_wf_def
proof (intro conjI ballI)
  show "distinct (map fst (dict_set q nd fs))" using assms(1) by (simp add: fs_wf_def distinct_dict_set)
  fix p assume "p \<in> set (map fst (dict_set q nd fs))"
  then have "p = q \<or> p \<in> set (map fst fs)" by (simp only: fst_dict_set insert_iff)
  then have p: "p \<noteq> []" "node_at fs (butlast p) = Some FDir" using assms(1-3) by (auto simp: fs_wf_def)
  show "p \<noteq> []" by fact
  show "node_at (dict_set q nd fs) (butlast p) = Some FDir"
    using p(2) assms(4) by (auto simp: node_at_def)
qed

lemma stays_set:
  assumes "q \<in> W" "q \<noteq> []" "node_at fs (butlast q) = Some FDir" "node_at fs q \<noteq> Some FDir"
    "link_at fs q = None" "\<nexists>t. nd = FLink t"
  shows "stays W fs (dict_set q nd fs)"
proof -
  have "link_at (dict_set q nd fs) = link_at fs"
    using assms(5,6) by (auto simp: link_at_def fun_eq_iff split: fnode.split)
  moreover have "map_of fs q \<noteq> Some FDir" using assms(2,4) by (simp add: node_at_def)
  ultimately show ?thesis using assms(1) fs_wf_set [OF _ assms(2,3)] assms(4) by (auto simp: stays_def)
qed

lemma write_bytes_stays:
  assumes "resolved fs p" "p \<in> W"
  shows "stays W fs (snd (write_bytes p b fs))"
proof (cases "node_at fs p = Some FDir \<or> node_at fs (butlast p) \<noteq> Some FDir")
  case False
  then have "p \<noteq> []" by auto
  moreover have "link_at fs p = None" using resolved_link_at [OF assms(1)] .
  ultimately show ?thesis using False assms by (simp add: write_bytes_def locate_resolved stays_set)
qed (auto simp: write_bytes_def locate_resolved [OF assms(1)])

lemma write_text_stays: "resolved fs p \<Longrightarrow> p \<in> W \<Longrightarrow> stays W fs (snd (write_text p s fs))"
  unfolding write_text_def by (rule write_bytes_stays)

lemma read_same [simp]: "snd (read_bytes p fs) = fs" "snd (read_text p fs) = fs"
  by (auto simp: read_bytes_def read_text_def act_defs split: option.split fnode.split sum.split)

lemma make_dirs_below_stays:
  assumes "resolved fs (q @ ns)" "node_at fs q = Some FDir"
    "\<And>k. node_at fs (q @ take (Suc k) ns) = None \<Longrightarrow> q @ take (Suc k) ns \<in> W"
  shows "stays W fs (snd (make_dirs_below q ns fs))"
  using assms
proof (induction q ns fs rule: make_dirs_below.induct)
  case (2 q n ns fs)
  have r: "resolved fs ((q @ [n]) @ ns)" using "2.prems"(1) by simp
  have w: "(q @ [n]) @ take (Suc k) ns \<in> W" if "node_at fs ((q @ [n]) @ take (Suc k) ns) = None" for k
    using "2.prems"(3) [of "Suc k"] that by simp
  show ?case
  proof (cases "node_at fs (q @ [n])")
    case None
    let ?fs = "dict_set (q @ [n]) FDir fs"
    have "q @ [n] \<in> W" using "2.prems"(3) [of 0] None by simp
    moreover have "link_at fs (q @ [n]) = None" using None by (simp add: link_at_def node_at_def)
    ultimately have s: "stays W fs ?fs" using "2.prems"(2) None by (intro stays_set) auto
    have "stays W ?fs (snd (make_dirs_below (q @ [n]) ns ?fs))"
    proof (rule "2.IH"(1) [OF None])
      show "resolved ?fs ((q @ [n]) @ ns)" using stays_resolved [OF s] r by simp
      show "node_at ?fs (q @ [n]) = Some FDir" by (simp add: node_at_def)
      fix k assume "node_at ?fs ((q @ [n]) @ take (Suc k) ns) = None"
      then have "node_at fs ((q @ [n]) @ take (Suc k) ns) = None" by (auto simp: node_at_def split: if_splits)
      then show "(q @ [n]) @ take (Suc k) ns \<in> W" by (rule w)
    qed
    with s have "stays W fs (snd (make_dirs_below (q @ [n]) ns ?fs))" using stays_order(2) by (blast dest: transpD)
    then show ?thesis by (simp add: None)
  next
    case (Some nd)
    show ?thesis
    proof (cases nd)
      case FDir
      with "2.IH"(2) [OF Some FDir r _ w] Some show ?thesis by simp
    qed (simp_all add: Some)
  qed
qed simp

lemma make_dirs_stays:
  assumes "resolved fs p" "\<And>k. node_at fs (take k p) = None \<Longrightarrow> take k p \<in> W"
  shows "stays W fs (snd (make_dirs p fs))"
  using make_dirs_below_stays [of fs "[]" p W] assms by (simp add: make_dirs_def locate_resolved)

lemma map_of_remove: "map_of (remove_node p fs) q = (if q = p then None else map_of fs q)"
  by (induction fs) (auto simp: remove_node_def)

lemma node_at_remove: "node_at (remove_node p fs) q = (if q = p \<and> p \<noteq> [] then None else node_at fs q)"
  by (simp add: node_at_def map_of_remove)

lemma fs_wf_remove:
  assumes "fs_wf fs" "node_at fs p \<noteq> Some FDir"
  shows "fs_wf (remove_node p fs)"
proof -
  have "node_at (remove_node p fs) (butlast q) = Some FDir" if "q \<in> set (map fst fs)" for q
    using that assms by (auto simp: fs_wf_def node_at_remove)
  then show ?thesis using assms(1) by (auto simp: fs_wf_def remove_node_def distinct_map_filter)
qed

lemma remove_node_stays:
  assumes "link_at fs p = None" "node_at fs p \<noteq> Some FDir" "p \<in> W"
  shows "stays W fs (remove_node p fs)"
proof -
  have "link_at (remove_node p fs) = link_at fs"
    using assms(1) by (auto simp: link_at_def map_of_remove fun_eq_iff)
  moreover have "map_of fs p \<noteq> Some FDir" using assms(2) by (auto simp: node_at_def split: if_splits)
  ultimately show ?thesis using assms fs_wf_remove by (auto simp: stays_def map_of_remove)
qed

lemma unlink_stays: "resolved fs p \<Longrightarrow> p \<in> W \<Longrightarrow> stays W fs (snd (unlink p fs))"
  by (auto simp: unlink_def resolved_link_at intro!: remove_node_stays split: option.split fnode.split)

lemma replace_file_stays:
  assumes "resolved fs p" "resolved fs d" "p \<in> W" "d \<in> W" "fs_wf fs"
  shows "stays W fs (snd (replace_file p d fs))"
proof (cases "map_of fs p")
  case (Some nd)
  have nd: "\<nexists>t. nd = FLink t" using resolved_not_link [OF assms(1)] Some by auto
  have pn: "p \<noteq> []" using Some fs_wf_Nil [OF assms(5)] by auto
  show ?thesis
  proof (cases "nd = FDir \<or> node_at fs d = Some FDir \<or> node_at fs (butlast d) \<noteq> Some FDir \<or> p = d")
    case False
    then have d: "d \<noteq> []" by auto
    have 1: "stays W fs (remove_node p fs)"
      using assms False Some pn by (intro remove_node_stays) (auto simp: resolved_link_at node_at_def)
    have "butlast d \<noteq> p" using False Some pn by (auto simp: node_at_def)
    then have "stays W (remove_node p fs) (dict_set d nd (remove_node p fs))"
      using assms(2,4) False d nd stays_resolved [OF 1, of d]
      by (intro stays_set) (auto simp: node_at_remove resolved_link_at)
    with 1 have "stays W fs (dict_set d nd (remove_node p fs))" using stays_order(2) by (blast dest: transpD)
    with False Some show ?thesis by (simp add: replace_file_def)
  qed (auto simp: replace_file_def Some)
qed (simp add: replace_file_def)

end
