(* ===== verification/Sqlite_Connection.thy ===== *)
theory Sqlite_Connection
  imports File_System
begin

text \<open>
  What the code uses of \<^verbatim>\<open>sqlite3\<close>: opening a database file, by its path or by a \<^verbatim>\<open>file:\<close> URI, and running a
  statement on it. The parsing of the URI follows SQLite: percent escapes, the query parameters \<^verbatim>\<open>mode\<close>,
  \<^verbatim>\<open>cache\<close> and \<^verbatim>\<open>vfs\<close>, and the fragment. What statements do to the contents of a database is the record
  \<open>sqlite_libs\<close>, an argument. Parameters that only tune a VFS (\<^verbatim>\<open>immutable\<close>, \<^verbatim>\<open>nolock\<close>, \<^verbatim>\<open>psow\<close>) are not
  represented. The theory proves what a URI of the form \<^verbatim>\<open>file:PATH?mode=ro\<close> opens, and which file a
  connection may change.
\<close>

section \<open>SQLite\<close>

text \<open>
  \<open>has_table\<close> answers the query on \<^verbatim>\<open>sqlite_master\<close>, \<open>run_statement\<close> gives the contents after the statement
  is executed and committed, \<open>run_select\<close> the rows of a query with parameters and the contents after it (the
  first argument says whether the connection is writable), \<open>vfs_storage\<close> the registered VFSs and whether they
  keep databases on disk.
\<close>

record sqlite_libs =
  has_table :: "bytes \<Rightarrow> string \<Rightarrow> bool res"
  run_statement :: "bytes \<Rightarrow> string \<Rightarrow> bytes res"
  run_select :: "bool \<Rightarrow> bytes \<Rightarrow> string \<Rightarrow> json \<Rightarrow> json dict list res \<times> bytes"
  vfs_storage :: "string \<Rightarrow> bool option"

definition sqlite_error :: py_error where
  "sqlite_error = Exc SQLiteError ''unable to open database file''"

text \<open>\<^verbatim>\<open>sqlite3.connect(path)\<close> creates an empty file where there is none.\<close>

definition connect :: "path \<Rightarrow> (file_system, bytes) act" where
  "connect p fs =
     (case stat fs p of
        Some (FFile b) \<Rightarrow> (Inr b, fs)
      | Some _ \<Rightarrow> (Inl sqlite_error, fs)
      | None \<Rightarrow>
          (case write_bytes p [] fs of
             (Inl _, fs') \<Rightarrow> (Inl sqlite_error, fs')
           | (Inr _, fs') \<Rightarrow> (Inr [], fs')))"

definition connect_existing :: "path \<Rightarrow> (file_system, bytes) act" where
  "connect_existing p = reads (\<lambda>fs. case stat fs p of Some (FFile b) \<Rightarrow> Inr b | _ \<Rightarrow> Inl sqlite_error)"

section \<open>URIs\<close>

text \<open>
  The text up to a character that ends it or to the fragment, unescaped, and the rest. An escaped NUL drops what
  is left of the text.
\<close>

definition uri_escape :: "string \<Rightarrow> (nat \<times> string) option" where
  "uri_escape s =
     (case s of
        p # h # l # t \<Rightarrow>
          if p = CHR 0x25 then (case (hex_val h, hex_val l) of (Some a, Some b) \<Rightarrow> Some (16 * a + b, t) | _ \<Rightarrow> None) else None
      | _ \<Rightarrow> None)"

lemma uri_escape_shorter: "uri_escape s = Some (n, t) \<Longrightarrow> length t < length s"
  by (auto simp: uri_escape_def split: list.splits option.splits if_splits)

function uri_text :: "(char \<Rightarrow> bool) \<Rightarrow> string \<Rightarrow> string \<times> string" where
  "uri_text stop [] = ([], [])"
| "uri_text stop (c # s) =
     (if c = CHR ''#'' \<or> stop c then ([], c # s)
      else
        (case uri_escape (c # s) of
           None \<Rightarrow> (case uri_text stop s of (x, r) \<Rightarrow> (c # x, r))
         | Some (n, t) \<Rightarrow>
             if n = 0 then ([], dropWhile (\<lambda>d. d \<noteq> CHR ''#'' \<and> \<not> stop d) t)
             else (case uri_text stop t of (x, r) \<Rightarrow> (char_of n # x, r))))"
  by pat_completeness auto
termination
  by (relation "measure (\<lambda>(stop, s). length s)") (auto dest: uri_escape_shorter)

lemma uri_text_rest: "length (snd (uri_text stop s)) \<le> length s"
proof (induction stop s rule: uri_text.induct)
  case (2 stop c s)
  show ?case
  proof (cases "uri_escape (c # s)")
    case None
    with 2 show ?thesis by (auto split: prod.split)
  next
    case (Some nt)
    obtain n t where nt: "nt = (n, t)" by (cases nt)
    note sh = uri_escape_shorter [OF Some [unfolded nt]]
    have "length (dropWhile (\<lambda>d. d \<noteq> CHR ''#'' \<and> \<not> stop d) t) \<le> length (c # s)"
      using sh length_dropWhile_le by (metis less_le_not_le le_trans)
    moreover have "length (snd (uri_text stop t)) \<le> length (c # s)" if "\<not> (c = CHR ''#'' \<or> stop c)" "n \<noteq> 0"
      using "2.IH"(2) [OF that(1) Some nt [symmetric] that(2)] sh by simp
    ultimately show ?thesis using Some nt by (auto split: prod.split)
  qed
qed simp

lemma uri_text_shorter: "uri_text stop s = (x, c # t) \<Longrightarrow> length t < length s"
  using uri_text_rest [of stop s] by simp

lemma drop_shorter: "dropWhile P s = c # t \<Longrightarrow> length t < length s"
  using length_dropWhile_le [of P s] by simp

text \<open>The query parameters; those without a name are skipped.\<close>

function uri_params :: "string \<Rightarrow> (string \<times> string) list" where
  "uri_params s =
     (case uri_text (\<lambda>c. c = CHR ''&'' \<or> c = CHR ''='') s of
        (name, []) \<Rightarrow> if name = [] then [] else [(name, [])]
      | (name, c # t) \<Rightarrow>
          if c = CHR ''#'' then (if name = [] then [] else [(name, [])])
          else if c = CHR ''&'' then (if name = [] then uri_params t else (name, []) # uri_params t)
          else if name = []
            then (case dropWhile (\<lambda>d. d \<noteq> CHR ''#'' \<and> d \<noteq> CHR ''&'') t of
                    d # u \<Rightarrow> if d = CHR ''&'' then uri_params u else [] | [] \<Rightarrow> [])
          else
            (case uri_text (\<lambda>c. c = CHR ''&'') t of
               (v, d # u) \<Rightarrow> if d = CHR ''&'' then (name, v) # uri_params u else [(name, v)]
             | (v, []) \<Rightarrow> [(name, v)]))"
  by pat_completeness auto
termination
  by (relation "measure length") (auto dest!: sym [of "(_, _)"] dest: uri_text_shorter drop_shorter intro: less_trans)

declare uri_params.simps [simp del]

section \<open>Opening a URI\<close>

datatype access = ReadOnly | ReadWrite | ReadWriteCreate | InMemory

definition access_named :: "string \<Rightarrow> access option" where
  "access_named v = map_of [(''ro'', ReadOnly), (''rw'', ReadWrite), (''rwc'', ReadWriteCreate), (''memory'', InMemory)] v"

text \<open>The open flags, as SQLite compares them: what the flags so far allow, and what a mode asks for.\<close>

fun access_limit :: "access \<Rightarrow> nat" where
  "access_limit ReadOnly = 1"
| "access_limit ReadWrite = 2"
| "access_limit ReadWriteCreate = 6"
| "access_limit InMemory = 128"

fun access_need :: "access \<Rightarrow> nat" where
  "access_need ReadOnly = 1"
| "access_need ReadWrite = 2"
| "access_need ReadWriteCreate = 6"
| "access_need InMemory = 0"

definition apply_param :: "access \<Rightarrow> string \<times> string \<Rightarrow> access res" where
  "apply_param acc kv =
     (case kv of (k, v) \<Rightarrow>
        if k = ''mode'' then
          (case access_named v of
             None \<Rightarrow> Inl (Exc SQLiteError (''no such access mode: '' @ v))
           | Some m \<Rightarrow>
               if access_limit acc < access_need m then Inl (Exc SQLiteError (''access mode not allowed: '' @ v)) else Inr m)
        else if k = ''cache'' \<and> v \<noteq> ''shared'' \<and> v \<noteq> ''private'' then Inl (Exc SQLiteError (''no such cache mode: '' @ v))
        else Inr acc)"

fun uri_access :: "access \<Rightarrow> (string \<times> string) list \<Rightarrow> access res" where
  "uri_access acc [] = Inr acc"
| "uri_access acc (kv # kvs) = bind_res (apply_param acc kv) (\<lambda>acc'. uri_access acc' kvs)"

text \<open>The authority of \<^verbatim>\<open>file://AUTHORITY/...\<close> must be empty or \<^verbatim>\<open>localhost\<close>.\<close>

definition drop_authority :: "string \<Rightarrow> string res" where
  "drop_authority s =
     (if take 2 s = ''//'' then
        let a = takeWhile (\<lambda>c. c \<noteq> path_sep) (drop 2 s) in
        if a = [] \<or> a = ''localhost'' then Inr (drop (2 + length a) s)
        else Inl (Exc SQLiteError (''invalid uri authority: '' @ a))
      else Inr s)"

text \<open>\<^verbatim>\<open>sqlite3.connect(uri, uri=True)\<close> starts with the flags for reading, writing and creating; the name and the access.\<close>

definition open_uri :: "sqlite_libs \<Rightarrow> string \<Rightarrow> (string \<times> access) res" where
  "open_uri Q uri =
     bind_res (drop_authority (drop (length ''file:'') uri)) (\<lambda>s.
       case uri_text (\<lambda>c. c = CHR ''?'') s of (name, rest) \<Rightarrow>
         let params = (case rest of c # t \<Rightarrow> if c = CHR ''?'' then uri_params t else [] | [] \<Rightarrow> []) in
         bind_res (uri_access ReadWriteCreate params) (\<lambda>acc.
           case map_of (rev params) ''vfs'' of
             None \<Rightarrow> Inr (name, acc)
           | Some v \<Rightarrow>
               (case vfs_storage Q v of
                  None \<Rightarrow> Inl (Exc SQLiteError (''no such vfs: '' @ v))
                | Some on_disk \<Rightarrow> Inr (name, if on_disk then acc else InMemory))))"

definition uri_file :: "path \<Rightarrow> string \<Rightarrow> path" where
  "uri_file cwd name = (if is_absolute name then [] else cwd) @ path_parts name"

text \<open>A connection: its access, its file unless it has none, and the contents found.\<close>

type_synonym connection = "access \<times> path option \<times> bytes"

definition connect_uri :: "sqlite_libs \<Rightarrow> path \<Rightarrow> string \<Rightarrow> (file_system, connection) act" where
  "connect_uri Q cwd uri =
     bind_act (lift_res (open_uri Q uri)) (\<lambda>(name, acc).
       if acc = InMemory \<or> name = [] \<or> name = '':memory:'' then ret (acc, None, [])
       else
         let p = uri_file cwd name in
         bind_act (if acc = ReadWriteCreate then connect p else connect_existing p) (\<lambda>b. ret (acc, Some p, b)))"

definition writable :: "access \<Rightarrow> bool" where
  "writable acc \<longleftrightarrow> acc = ReadWrite \<or> acc = ReadWriteCreate"

text \<open>\<^verbatim>\<open>connection.execute(sql, params).fetchall()\<close>: what it changes is stored if the file was opened for writing.\<close>

definition select_on :: "sqlite_libs \<Rightarrow> connection \<Rightarrow> string \<Rightarrow> json \<Rightarrow> (file_system, json dict list) act" where
  "select_on Q con sql params =
     (case con of (acc, file, contents) \<Rightarrow>
        (case run_select Q (acc \<noteq> ReadOnly) contents sql params of (rows, contents') \<Rightarrow>
           bind_act
             (case file of
                None \<Rightarrow> ret ()
              | Some p \<Rightarrow> if writable acc \<and> contents' \<noteq> contents then write_bytes p contents' else ret ())
             (\<lambda>_. lift_res rows)))"

section \<open>What a connection may change\<close>

lemma connect_stays: "resolved fs p \<Longrightarrow> (node_at fs p = None \<Longrightarrow> p \<in> W) \<Longrightarrow> stays W fs (snd (connect p fs))"
  using write_bytes_stays [of fs p W "[]"]
  by (auto simp: connect_def stat_resolved split: option.splits fnode.splits prod.splits sum.splits)

lemma connect_cases:
  "connect p fs = (Inr b, fs') \<Longrightarrow> (fs' = fs \<and> stat fs p = Some (FFile b)) \<or> (stat fs p = None \<and> write_bytes p [] fs = (Inr (), fs') \<and> b = [])"
  by (auto simp: connect_def split: option.splits fnode.splits prod.splits sum.splits)

lemma connect_existing_same [simp]: "snd (connect_existing p fs) = fs"
  by (simp add: connect_existing_def act_defs)

text \<open>Writing through links changes the file behind them.\<close>

lemma write_bytes_located:
  assumes "fs_wf fs" "\<And>q. locate fs p = Some q \<Longrightarrow> q \<in> W"
  shows "stays W fs (snd (write_bytes p b fs))"
proof (cases "locate fs p")
  case (Some q)
  then have "resolved fs q"
    using realpath_free [of fs "[]" "[]" p q] realpath_no_dots [of fs "[]" "[]" p q] fs_wf_link_Nil [OF assms(1)]
    by (simp add: resolved_def locate_def)
  then have "stays W fs (snd (write_bytes q b fs))" using assms(2) [OF Some] by (rule write_bytes_stays)
  then show ?thesis using locate_resolved [OF \<open>resolved fs q\<close>] Some by (simp add: write_bytes_def split: if_splits)
qed (simp add: write_bytes_def)

text \<open>The files that a URI may change.\<close>

definition uri_targets :: "sqlite_libs \<Rightarrow> path \<Rightarrow> file_system \<Rightarrow> string \<Rightarrow> path set" where
  "uri_targets Q cwd fs uri =
     {q. \<exists>name acc. open_uri Q uri = Inr (name, acc) \<and> writable acc \<and> locate fs (uri_file cwd name) = Some q}"

lemma connect_uri_stays:
  assumes "fs_wf fs"
  shows "stays (uri_targets Q cwd fs uri) fs (snd (connect_uri Q cwd uri fs))"
proof (cases "open_uri Q uri")
  case (Inr na)
  obtain name acc where na: "na = (name, acc)" by (cases na)
  have "stays (uri_targets Q cwd fs uri) fs (snd (connect (uri_file cwd name) fs))" if "acc = ReadWriteCreate"
  proof -
    have "stays (uri_targets Q cwd fs uri) fs (snd (write_bytes (uri_file cwd name) [] fs))"
      using assms that by (intro write_bytes_located) (auto simp: uri_targets_def Inr na writable_def)
    then show ?thesis
      by (auto simp: connect_def split: option.splits fnode.splits prod.splits sum.splits)
  qed
  then show ?thesis
    by (auto simp: connect_uri_def Inr na bind_act_ret Let_def ret_def)
qed (simp add: connect_uri_def)

lemma connect_uri_file:
  assumes "connect_uri Q cwd uri fs = (Inr (acc, Some p, b), fs')"
  shows "\<exists>name. open_uri Q uri = Inr (name, acc) \<and> p = uri_file cwd name"
  using assms by (cases "open_uri Q uri") (auto simp: connect_uri_def bind_act_ret map_res_eq_Inr Let_def ret_def split: if_splits)

lemma select_on_stays:
  assumes "fs_wf fs" "\<And>p q. target = Some p \<Longrightarrow> writable acc \<Longrightarrow> locate fs p = Some q \<Longrightarrow> q \<in> W"
  shows "stays W fs (snd (select_on Q (acc, target, b) sql params fs))"
proof -
  have w: "stays W fs (snd (write_bytes p b' fs))" if "target = Some p" "writable acc" for p b'
    using assms that by (intro write_bytes_located) auto
  obtain rows b' where r: "run_select Q (acc \<noteq> ReadOnly) b sql params = (rows, b')" by (metis surj_pair)
  have "snd (bind_act m (\<lambda>_. lift_res rows) fs) = snd (m fs)" for m :: "(file_system, unit) act"
    by (auto simp: bind_act_def lift_res_def split: prod.split sum.split)
  then show ?thesis using w by (auto simp: select_on_def r ret_def split: option.split)
qed

text \<open>A query through a URI, and what it may change.\<close>

definition query_uri :: "sqlite_libs \<Rightarrow> path \<Rightarrow> string \<Rightarrow> string \<Rightarrow> json \<Rightarrow> (file_system, json dict list) act" where
  "query_uri Q cwd uri sql params = bind_act (connect_uri Q cwd uri) (\<lambda>con. select_on Q con sql params)"

lemma query_uri_stays:
  assumes "fs_wf fs"
  shows "stays (uri_targets Q cwd fs uri) fs (snd (query_uri Q cwd uri sql params fs))"
proof -
  let ?W = "uri_targets Q cwd fs uri"
  obtain r fs' where c: "connect_uri Q cwd uri fs = (r, fs')" by (metis surj_pair)
  have 1: "stays ?W fs fs'" using connect_uri_stays [OF assms, of Q cwd uri] by (simp add: c)
  show ?thesis
  proof (cases r)
    case (Inr con)
    obtain acc target b where con: "con = (acc, target, b)" by (cases con)
    have "stays ?W fs' (snd (select_on Q con sql params fs'))"
      unfolding con
    proof (rule select_on_stays)
      show "fs_wf fs'" using 1 assms by (simp add: stays_def)
      show "q \<in> ?W" if "target = Some p" "writable acc" "locate fs' p = Some q" for p q
        using connect_uri_file [of Q cwd uri fs acc p b fs'] that stays_locate [OF 1] c Inr con by (auto simp: uri_targets_def)
    qed
    from transpD [OF stays_order(2) 1 this] show ?thesis by (simp add: query_uri_def bind_act_def c Inr)
  qed (simp add: query_uri_def bind_act_def c 1)
qed

section \<open>Paths that mean themselves\<close>

text \<open>A path text without the characters that a URI interprets.\<close>

definition plain_uri_path :: "string \<Rightarrow> bool" where
  "plain_uri_path s \<longleftrightarrow> CHR ''?'' \<notin> set s \<and> CHR ''#'' \<notin> set s \<and> CHR 0x25 \<notin> set s \<and> take 2 s \<noteq> ''//''"

lemma uri_escape_other: "c \<noteq> CHR 0x25 \<Longrightarrow> uri_escape (c # s) = None"
  by (auto simp: uri_escape_def split: list.split)

lemma uri_text_plain:
  "CHR ''#'' \<notin> set s \<Longrightarrow> CHR 0x25 \<notin> set s \<Longrightarrow> \<forall>c \<in> set s. \<not> stop c \<Longrightarrow> stop d \<Longrightarrow> uri_text stop (s @ d # t) = (s, d # t)"
  by (induction s) (auto simp: uri_escape_other)

lemma read_only_param: "uri_params ''mode=ro'' = [(''mode'', ''ro'')]"
  by code_simp

lemma open_plain_uri:
  assumes "plain_uri_path s"
  shows "open_uri Q (''file:'' @ s @ ''?mode=ro'') = Inr (s, ReadOnly)"
proof -
  have t: "uri_text (\<lambda>c. c = CHR ''?'') (s @ ''?mode=ro'') = (s, ''?mode=ro'')"
    using assms uri_text_plain [of s "\<lambda>c. c = CHR ''?''" "CHR ''?''" "''mode=ro''"] by (auto simp: plain_uri_path_def)
  have "take 2 (s @ ''?mode=ro'') \<noteq> ''//''"
    using assms by (cases s; cases "tl s") (auto simp: plain_uri_path_def)
  then have "drop_authority (s @ ''?mode=ro'') = Inr (s @ ''?mode=ro'')" by (simp only: drop_authority_def if_False)
  then show ?thesis
    by (simp add: open_uri_def t read_only_param apply_param_def access_named_def)
qed

lemma plain_uri_targets: "plain_uri_path s \<Longrightarrow> uri_targets Q cwd fs (''file:'' @ s @ ''?mode=ro'') = {}"
  by (simp add: uri_targets_def open_plain_uri [unfolded append.simps append_assoc] writable_def)

text \<open>A connection that is read-only or has no file leaves the file system exactly as it is.\<close>

lemma connect_read_only:
  assumes "open_uri Q uri = Inr (name, ReadOnly)"
  shows "snd (query_uri Q cwd uri sql params fs) = fs"
proof -
  have "snd (select_on Q (ReadOnly, target, b) sql params fs) = fs" for target b
    by (auto simp: select_on_def writable_def ret_def bind_act_def lift_res_def split: prod.split option.split)
  then show ?thesis using assms
    by (auto simp: query_uri_def connect_uri_def connect_existing_def act_defs Let_def split: sum.split prod.split)
qed

end
