(* ===== verification/Database_Agent.thy ===== *)
theory Database_Agent
  imports Agent_Base Sqlite_Connection
begin

text \<open>
  \<^verbatim>\<open>aor/agents/database.py\<close>: the agent that creates SQLite databases and tables in a workspace and runs
  approved queries, through a URI that asks for a read-only connection. Its state is the registry of databases
  and the query templates; it works on the file system, through the connections of \<open>Sqlite_Connection\<close>.
\<close>

section \<open>State and registration\<close>

record database_agent =
  da_id :: string
  da_databases :: "(string \<times> path) list"
  da_workspace :: "path option"
  da_templates :: "string dict"

definition default_templates :: "string dict" where
  "default_templates =
     [(''list_tables'', ''SELECT name FROM sqlite_master WHERE type = '' @ [CHR 0x27] @ ''table'' @ [CHR 0x27] @ '' ORDER BY name''),
      (''prompt_history'', ''SELECT id, user_id, prompt, action_id, created_at FROM prompt_records WHERE user_id = ? ORDER BY created_at DESC LIMIT ?'')]"

definition db_capabilities :: "string list" where
  "db_capabilities = [''db.query'', ''db.create'', ''db.create_table'']"

definition db_error :: "string \<Rightarrow> py_error" where
  "db_error detail = Exc DatabaseAgentError detail"

text \<open>\<^verbatim>\<open>DatabaseAgent(databases, workspace_dir=...)\<close>; \<open>cwd\<close> is the working directory of the process.\<close>

definition new_database_agent ::
  "path \<Rightarrow> file_system \<Rightarrow> string dict \<Rightarrow> string option \<Rightarrow> string \<Rightarrow> database_agent res"
where
  "new_database_agent cwd fs databases workspace aid =
     bind_res (check_agent (Some aid) ''database'') (\<lambda>_.
     bind_res (traverse (\<lambda>(name, p). map_res (\<lambda>q. (name, q)) (resolve_from fs cwd p)) databases) (\<lambda>dbs.
     bind_res (case workspace of None \<Rightarrow> Inr None | Some w \<Rightarrow> map_res Some (resolve_from fs cwd w)) (\<lambda>ws.
       Inr \<lparr>da_id = aid, da_databases = dbs, da_workspace = ws, da_templates = default_templates\<rparr>)))"

definition register_database :: "path \<Rightarrow> file_system \<Rightarrow> string \<Rightarrow> string \<Rightarrow> database_agent \<Rightarrow> database_agent res" where
  "register_database cwd fs name p a =
     (if \<not> nonblank name then Inl (db_error ''database_name_required'')
      else bind_res (resolve_from fs cwd p) (\<lambda>q.
        if \<not> is_file fs q then Inl (db_error ''registered_database_not_found'')
        else Inr (a\<lparr>da_databases := dict_set name q (da_databases a)\<rparr>)))"

text \<open>\<^verbatim>\<open>[A-Za-z][...]{0,n}\<close>, the identifiers the agent accepts.\<close>

definition ident_char :: "char \<Rightarrow> bool" where
  "ident_char c \<longleftrightarrow> alpha_char c \<or> digit_char c \<or> c = CHR ''_''"

definition db_name_char :: "char \<Rightarrow> bool" where
  "db_name_char c \<longleftrightarrow> ident_char c \<or> c = CHR ''-''"

definition name_rx :: "(char \<Rightarrow> bool) \<Rightarrow> nat \<Rightarrow> rx" where
  "name_rx P n = RSeq (RChr alpha_char) (upto_times n (RChr P))"

definition register_template :: "string \<Rightarrow> string \<Rightarrow> database_agent \<Rightarrow> database_agent res" where
  "register_template name sql a =
     (if name = [] \<or> \<not> re_fullmatch (name_rx ident_char 63) name then Inl (db_error ''invalid_template_name'')
      else
        let normalized = str_lower (strip sql) in
        if CHR '';'' \<in> set sql \<or> \<not> (startswith normalized ''select '' \<or> startswith normalized ''with '')
        then Inl (db_error ''only_single_read_only_select_templates_are_allowed'')
        else Inr (a\<lparr>da_templates := dict_set name (strip sql) (da_templates a)\<rparr>))"

definition db_can_handle :: "string \<Rightarrow> bool" where
  "db_can_handle request \<longleftrightarrow>
     request \<noteq> [] \<and> re_found (word_of [''database'', ''sqlite'', ''query'', ''records'', ''table'', ''sql'']) request"

section \<open>Reading a request\<close>

text \<open>Ignore the conversation prefix: what follows the last closing bracket.\<close>

definition active_request :: "string \<Rightarrow> string" where
  "active_request request = strip (rev (takeWhile (\<lambda>c. c \<noteq> CHR '']'') (rev request)))"

definition valid_identifier :: "string \<Rightarrow> bool" where
  "valid_identifier s \<longleftrightarrow> re_fullmatch (name_rx ident_char 62) s"

definition opt_article :: rx where
  "opt_article = optional (RSeq (lit ''a'') spaces1)"

definition opt_quote :: rx where
  "opt_quote = optional (RChr (\<lambda>c. c = CHR 0x60 \<or> c = CHR 0x22 \<or> c = CHR 0x27))"

definition captured :: "rx \<Rightarrow> string \<Rightarrow> string option" where
  "captured r s = map_option (\<lambda>m. group m 1) (re_search r s)"

definition table_name_from_request :: "string \<Rightarrow> string option" where
  "table_name_from_request request =
     captured (seq [RBnd, lit ''table'', spaces1, RGrp 1 (RSeq (RChr alpha_char) (RStar (RChr ident_char)))]) request"

definition db_action_type_from_request :: "string \<Rightarrow> string" where
  "db_action_type_from_request request =
     (if re_found (seq [RBnd, lit ''create'', spaces1, opt_article, lit ''table'', RBnd]) request then ''db.create_table''
      else if re_found (seq [RBnd, lit ''create'', spaces1, opt_article, lit ''database'', RBnd]) request then ''db.create''
      else ''db.query'')"

definition database_name_from_request :: "string \<Rightarrow> string option" where
  "database_name_from_request request =
     (let name = RGrp 1 (name_rx db_name_char 62) in
      case captured (seq [RBnd, lit ''database'', spaces1, alt [lit ''named'', lit ''called''], spaces1, opt_quote, name]) request of
        Some n \<Rightarrow> Some n
      | None \<Rightarrow>
          (case captured (seq [RBnd, lit ''create'', spaces1, opt_article, lit ''database'', spaces1, opt_quote, name]) request of
             Some n \<Rightarrow> Some n
           | None \<Rightarrow> captured (seq [RBnd, lit ''in'', spaces1, opt_quote, name]) request))"

text \<open>The first registered name that occurs as a word, or else the first registered name.\<close>

definition database_from_request :: "(string \<times> path) list \<Rightarrow> string \<Rightarrow> string option" where
  "database_from_request dbs request =
     (case find (\<lambda>(name, _). re_found (seq ([RBnd] @ map chr name @ [RBnd])) request) dbs of
        Some (name, _) \<Rightarrow> Some name
      | None \<Rightarrow> (case dbs of [] \<Rightarrow> None | (name, _) # _ \<Rightarrow> Some name))"

definition template_from_request :: "string \<Rightarrow> string" where
  "template_from_request request =
     (let lowered = str_lower request in
      if str_contains lowered ''table'' then ''list_tables''
      else if str_contains lowered ''history'' \<or> str_contains lowered ''prompt'' \<or> str_contains lowered ''record''
        then ''prompt_history''
      else ''list_tables'')"

section \<open>\<^verbatim>\<open>plan\<close>\<close>

text \<open>\<^verbatim>\<open>value in registry\<close>: lists and dictionaries are not hashable.\<close>

definition known_name :: "json \<Rightarrow> (string \<times> 'v) list \<Rightarrow> bool res" where
  "known_name v d =
     (case v of
        JStr s \<Rightarrow> Inr (map_of d s \<noteq> None)
      | JList _ \<Rightarrow> Inl (Exc TypeError ''unhashable type'')
      | JObj _ \<Rightarrow> Inl (Exc TypeError ''unhashable type'')
      | _ \<Rightarrow> Inr False)"

definition column_text :: "json dict \<Rightarrow> string \<Rightarrow> string" where
  "column_text c k = py_str (case map_of c k of None \<Rightarrow> JStr [] | Some v \<Rightarrow> v)"

definition column_types :: "string list" where
  "column_types = [''INTEGER'', ''REAL'', ''TEXT'', ''BLOB'', ''NUMERIC'']"

definition validate_column :: "json \<Rightarrow> unit res" where
  "validate_column column =
     (case column of
        JObj c \<Rightarrow>
          if \<not> valid_identifier (column_text c ''name'') then Inl (db_error ''invalid_column_name'')
          else if str_upper (column_text c ''type'') \<notin> set column_types then Inl (db_error ''invalid_column_type'')
          else Inr ()
      | _ \<Rightarrow> Inl (db_error ''invalid_column_name''))"

definition validate_columns :: "json \<Rightarrow> unit res" where
  "validate_columns columns =
     (case columns of
        JList (c # cs) \<Rightarrow> map_res (\<lambda>_. ()) (traverse validate_column (c # cs))
      | _ \<Rightarrow> Inl (db_error ''columns_required''))"

definition plan_create :: "database_agent \<Rightarrow> file_system \<Rightarrow> json dict \<Rightarrow> string \<Rightarrow> action_plan res" where
  "plan_create a fs values request =
     (case json_or (get_or_null values ''name'') (opt_json (database_name_from_request request)) of
        JStr name \<Rightarrow>
          if \<not> re_fullmatch (name_rx db_name_char 62) name then Inl (db_error ''database_name_required'')
          else
            (case da_workspace a of
               None \<Rightarrow> Inl (db_error ''database_workspace_not_configured'')
             | Some ws \<Rightarrow>
                 bind_res (resolve_from fs ws (name @ ''.sqlite3'')) (\<lambda>p.
                   if butlast p \<noteq> ws then Inl (db_error ''database_path_outside_workspace'')
                   else make_plan ''database'' (da_id a) ''db.create''
                     [(''database'', JStr name), (''path'', JStr (path_str p))] False))
      | _ \<Rightarrow> Inl (db_error ''database_name_required''))"

definition default_columns :: json where
  "default_columns = JList [JObj [(''name'', JStr ''id''), (''type'', JStr ''INTEGER''), (''primary_key'', JBool True)]]"

definition plan_create_table :: "database_agent \<Rightarrow> json dict \<Rightarrow> string \<Rightarrow> action_plan res" where
  "plan_create_table a values request =
     (let table = json_or (get_or_null values ''table'') (opt_json (table_name_from_request request));
          database = json_or (get_or_null values ''database'') (opt_json (database_name_from_request request));
          columns = json_or (get_or_null values ''columns'') default_columns in
      if \<not> (is_str table \<and> valid_identifier (py_str table)) then Inl (db_error ''table_name_required'')
      else if \<not> (is_str database \<and> map_of (da_databases a) (py_str database) \<noteq> None)
        then Inl (db_error ''database_not_registered'')
      else bind_res (validate_columns columns) (\<lambda>_.
        make_plan ''database'' (da_id a) ''db.create_table''
          [(''database'', database), (''table'', table), (''columns'', columns)] False))"

fun is_list :: "json \<Rightarrow> bool" where
  "is_list (JList _) = True"
| "is_list _ = False"

definition plan_query :: "database_agent \<Rightarrow> json dict \<Rightarrow> string \<Rightarrow> action_plan res" where
  "plan_query a values request =
     (let database = json_or (get_or_null values ''database'') (opt_json (database_from_request (da_databases a) request));
          template = json_or (get_or_null values ''template'') (JStr (template_from_request request));
          params = (case map_of values ''params'' of None \<Rightarrow> JList [] | Some v \<Rightarrow> v) in
      bind_res (known_name database (da_databases a)) (\<lambda>d.
        if \<not> d then Inl (db_error ''database_not_registered'')
        else bind_res (known_name template (da_templates a)) (\<lambda>t.
          if \<not> t then Inl (db_error ''query_template_not_approved'')
          else if \<not> is_list params then Inl (db_error ''query_params_must_be_a_list'')
          else make_plan ''database'' (da_id a) ''db.query''
            [(''database'', database), (''template'', template), (''params'', params)] False)))"

definition db_plan :: "database_agent \<Rightarrow> file_system \<Rightarrow> string \<Rightarrow> json dict option \<Rightarrow> action_plan res" where
  "db_plan a fs request context =
     (if \<not> nonblank request then Inl (db_error ''database_request_empty'')
      else
        let active = active_request request;
            values = (case context of None \<Rightarrow> [] | Some d \<Rightarrow> d);
            action_type = json_or (get_or_null values ''action_type'') (JStr (db_action_type_from_request active)) in
        if action_type = JStr ''db.create'' then plan_create a fs values active
        else if action_type = JStr ''db.create_table'' then plan_create_table a values active
        else plan_query a values active)"

section \<open>\<^verbatim>\<open>execute\<close>\<close>

type_synonym db_state = "database_agent \<times> file_system"

definition on_files :: "(file_system, 'a) act \<Rightarrow> ('x \<times> file_system, 'a) act" where
  "on_files m = zoom snd (\<lambda>fs (a, _). (a, fs)) m"

definition required_string :: "exc_class \<Rightarrow> json dict \<Rightarrow> string \<Rightarrow> string res" where
  "required_string c payload k =
     (case map_of payload k of
        Some (JStr s) \<Rightarrow> if s = [] then Inl (Exc c (k @ ''_required'')) else Inr s
      | _ \<Rightarrow> Inl (Exc c (k @ ''_required'')))"

text \<open>\<^verbatim>\<open>self._databases[name]\<close>.\<close>

definition lookup_key :: "string \<Rightarrow> (string \<times> 'v) list \<Rightarrow> 'v res" where
  "lookup_key k d = (case map_of d k of None \<Rightarrow> Inl (Exc KeyError k) | Some v \<Rightarrow> Inr v)"

definition safe_create_path :: "path \<Rightarrow> database_agent \<Rightarrow> file_system \<Rightarrow> string \<Rightarrow> path res" where
  "safe_create_path cwd a fs p =
     (case da_workspace a of
        None \<Rightarrow> Inl (db_error ''database_workspace_not_configured'')
      | Some ws \<Rightarrow>
          bind_res (resolve_from fs cwd p) (\<lambda>q.
            if butlast q \<noteq> ws \<or> name_suffix (path_name q) \<noteq> ''.sqlite3''
            then Inl (db_error ''database_path_outside_workspace'')
            else Inr q))"

definition created_result :: "string \<Rightarrow> path \<Rightarrow> action_result" where
  "created_result name p =
     \<lparr>res_success = True, res_artifact_ref = Some name,
      res_details = [(''database'', JStr name), (''path'', JStr (path_str p)), (''created'', JBool True)],
      res_observed_effect = [(''database'', JStr name), (''path'', JStr (path_str p)), (''created'', JBool True)]\<rparr>"

definition run_create :: "path \<Rightarrow> action_plan \<Rightarrow> (db_state, action_result) act" where
  "run_create cwd p =
     bind_act (lift_res (required_string DatabaseAgentError (ap_payload p) ''database'')) (\<lambda>name.
     bind_act (reads (\<lambda>(a, fs). bind_res (required_string DatabaseAgentError (ap_payload p) ''path'') (safe_create_path cwd a fs))) (\<lambda>path.
     bind_act (reads (\<lambda>(a, fs). Inr (path_exists fs path))) (\<lambda>exists.
       if exists then ret (failure ''database_already_exists'')
       else
         bind_act (on_files (make_dirs (butlast path))) (\<lambda>_.
         bind_act (on_files (connect path)) (\<lambda>_.
         bind_act (modify (\<lambda>(a, fs). (a\<lparr>da_databases := dict_set name path (da_databases a)\<rparr>, fs))) (\<lambda>_.
           ret (created_result name path)))))))"

definition double_quote :: char where
  "double_quote = CHR 0x22"

definition column_sql :: "json \<Rightarrow> string" where
  "column_sql column =
     (case column of
        JObj c \<Rightarrow>
          [double_quote] @ column_text c ''name'' @ [double_quote] @ '' '' @ str_upper (column_text c ''type'')
            @ (if truthy (get_or_null c ''primary_key'') then '' PRIMARY KEY'' else [])
      | _ \<Rightarrow> [])"

definition column_list :: "json \<Rightarrow> json list" where
  "column_list columns = (case columns of JList cs \<Rightarrow> cs | _ \<Rightarrow> [])"

definition create_table_sql :: "string \<Rightarrow> json \<Rightarrow> string" where
  "create_table_sql table columns =
     ''CREATE TABLE '' @ [double_quote] @ table @ [double_quote] @ '' (''
       @ str_join '', '' (map column_sql (column_list columns)) @ '')''"

definition table_result :: "string \<Rightarrow> string \<Rightarrow> json \<Rightarrow> action_result" where
  "table_result database table columns =
     \<lparr>res_success = True, res_artifact_ref = Some (database @ '':'' @ table),
      res_details = [(''database'', JStr database), (''table'', JStr table), (''columns'', columns), (''created'', JBool True)],
      res_observed_effect = [(''database'', JStr database), (''table'', JStr table), (''created'', JBool True)]\<rparr>"

text \<open>The statement runs in a transaction: an error leaves the contents as they were.\<close>

definition execute_create_table :: "sqlite_libs \<Rightarrow> path \<Rightarrow> string \<Rightarrow> string \<Rightarrow> json \<Rightarrow> (file_system, action_result) act" where
  "execute_create_table Q path database table columns =
     bind_act (connect path) (\<lambda>contents.
     bind_act (lift_res (has_table Q contents table)) (\<lambda>existing.
       if existing then ret (failure ''table_already_exists'')
       else
         bind_act (lift_res (run_statement Q contents (create_table_sql table columns))) (\<lambda>contents'.
         bind_act (write_bytes path contents') (\<lambda>_.
           ret (table_result database table columns)))))"

definition run_create_table :: "sqlite_libs \<Rightarrow> action_plan \<Rightarrow> (db_state, action_result) act" where
  "run_create_table Q p =
     bind_act (lift_res (required_string DatabaseAgentError (ap_payload p) ''database'')) (\<lambda>database.
     bind_act (lift_res (required_string DatabaseAgentError (ap_payload p) ''table'')) (\<lambda>table.
     bind_act (reads (\<lambda>(a, fs). lookup_key database (da_databases a))) (\<lambda>path.
       let columns = get_or_null (ap_payload p) ''columns'' in
       bind_act (lift_res (validate_columns columns)) (\<lambda>_.
       bind_act (require (valid_identifier table) (db_error ''invalid_table_name'')) (\<lambda>_.
         on_files (execute_create_table Q path database table columns))))))"

definition query_result :: "string \<Rightarrow> string \<Rightarrow> json dict list \<Rightarrow> bytes \<Rightarrow> action_result" where
  "query_result database template rows h =
     \<lparr>res_success = True, res_artifact_ref = Some database,
      res_details = [(''database'', JStr database), (''template'', JStr template), (''rows'', JList (map JObj rows))],
      res_observed_effect = [(''row_count'', JInt (int (length rows))), (''query_hash'', JStr (bytes_hex h))]\<rparr>"

text \<open>\<^verbatim>\<open>f"file:{path}?mode=ro"\<close>\<close>

definition query_uri_of :: "path \<Rightarrow> string" where
  "query_uri_of p = ''file:'' @ path_str p @ ''?mode=ro''"

definition query_params :: "action_plan \<Rightarrow> json" where
  "query_params p = (case map_of (ap_payload p) ''params'' of None \<Rightarrow> JList [] | Some v \<Rightarrow> v)"

definition run_query :: "crypto_libs \<Rightarrow> sqlite_libs \<Rightarrow> path \<Rightarrow> action_plan \<Rightarrow> (db_state, action_result) act" where
  "run_query L Q cwd p =
     bind_act (lift_res (required_string DatabaseAgentError (ap_payload p) ''database'')) (\<lambda>database.
     bind_act (lift_res (required_string DatabaseAgentError (ap_payload p) ''template'')) (\<lambda>template.
     bind_act (reads (\<lambda>(a, fs). lookup_key database (da_databases a))) (\<lambda>path.
     bind_act (reads (\<lambda>(a, fs). lookup_key template (da_templates a))) (\<lambda>sql.
     bind_act (on_files (query_uri Q cwd (query_uri_of path) sql (query_params p))) (\<lambda>rows.
     bind_act (lift_res (hash_payload L (JObj [(''template'', JStr template), (''params'', query_params p)]))) (\<lambda>h.
       ret (query_result database template rows h)))))))"

definition db_poi_types :: "string \<Rightarrow> string option list" where
  "db_poi_types action =
     (if action = ''db.create'' then [None, Some ''db.create'']
      else [None, Some ''db'', Some ''db.query'', Some ''db.create_table''])"

definition db_caught :: "exc_class list" where
  "db_caught = [KeyError, OSError, SQLiteError, DatabaseAgentError, TypeError, ValueError]"

definition db_run :: "crypto_libs \<Rightarrow> sqlite_libs \<Rightarrow> path \<Rightarrow> action_plan \<Rightarrow> (db_state, action_result) act" where
  "db_run L Q cwd p =
     catching db_caught (\<lambda>e. ret (failure (exc_str e)))
       (if ap_action_type p = ''db.create'' then run_create cwd p
        else if ap_action_type p = ''db.create_table'' then run_create_table Q p
        else run_query L Q cwd p)"

definition db_execute ::
  "crypto_libs \<Rightarrow> sqlite_libs \<Rightarrow> path \<Rightarrow> action_plan \<Rightarrow> proof_of_intent option \<Rightarrow> (db_state, action_result) act"
where
  "db_execute L Q cwd p poi =
     bind_act (reads (\<lambda>(a, fs). Inr (plan_refusal ''database'' (da_id a) db_capabilities p))) (\<lambda>refusal.
       case refusal of
         Some detail \<Rightarrow> ret (failure detail)
       | None \<Rightarrow>
           bind_act (lift_res (poi_refusal L (db_poi_types (ap_action_type p)) p poi)) (\<lambda>refusal.
             case refusal of Some detail \<Rightarrow> ret (failure detail) | None \<Rightarrow> db_run L Q cwd p))"

section \<open>What the agent changes\<close>

text \<open>
  Registered databases and the workspace are paths that \<^verbatim>\<open>resolve\<close> made, templates are single SELECT
  texts.
\<close>

definition select_text :: "string \<Rightarrow> bool" where
  "select_text sql \<longleftrightarrow>
     CHR '';'' \<notin> set sql \<and> (startswith (str_lower (strip sql)) ''select '' \<or> startswith (str_lower (strip sql)) ''with '')"

definition db_wf :: "db_state \<Rightarrow> bool" where
  "db_wf s \<longleftrightarrow>
     fs_wf (snd s) \<and> (\<forall>ws. da_workspace (fst s) = Some ws \<longrightarrow> resolved (snd s) ws)
     \<and> (\<forall>p \<in> ran (map_of (da_databases (fst s))). resolved (snd s) p)
     \<and> (\<forall>sql \<in> ran (map_of (da_templates (fst s))). select_text sql)"

lemma register_template_keeps:
  assumes "register_template name sql a = Inr a'" "db_wf (a, fs)"
  shows "db_wf (a', fs)"
proof -
  from assms(1) have "CHR '';'' \<notin> set sql" and n: "startswith (str_lower (strip sql)) ''select '' \<or> startswith (str_lower (strip sql)) ''with ''"
    and a': "a' = a\<lparr>da_templates := dict_set name (strip sql) (da_templates a)\<rparr>"
    by (auto simp: register_template_def Let_def split: if_splits)
  moreover have "set (strip sql) \<subseteq> set sql" by (auto simp: strip_def dest!: set_dropWhileD)
  ultimately have "select_text (strip sql)" by (auto simp: select_text_def)
  with assms(2) a' show ?thesis by (auto simp: db_wf_def ran_def split: if_splits)
qed

definition db_moves :: "path set \<Rightarrow> db_state \<Rightarrow> db_state \<Rightarrow> bool" where
  "db_moves W s s' \<longleftrightarrow>
     stays W (snd s) (snd s') \<and> da_id (fst s') = da_id (fst s) \<and> da_workspace (fst s') = da_workspace (fst s)
     \<and> da_templates (fst s') = da_templates (fst s)
     \<and> ran (map_of (da_databases (fst s'))) \<subseteq> ran (map_of (da_databases (fst s))) \<union> W"

lemma db_moves_refl [simp]: "db_moves W s s"
  by (simp add: db_moves_def)

lemma db_moves_trans: "transp (db_moves W)"
  using stays_order(2) [of W] by (fastforce simp: db_moves_def transp_def)

lemma db_moves_files: "stays W fs (snd (m fs)) \<Longrightarrow> db_moves W (a, fs) (snd (on_files m (a, fs)))"
  by (auto simp: db_moves_def on_files_def act_defs split: prod.split)

lemma db_moves_mono: "db_moves W s s' \<Longrightarrow> W \<subseteq> W' \<Longrightarrow> db_moves W' s s'"
  by (auto simp: db_moves_def intro: stays_mono)

text \<open>What \<^verbatim>\<open>db.create\<close> may touch: what is missing of the path of a new file in the workspace.\<close>

definition new_below :: "file_system \<Rightarrow> path \<Rightarrow> path set" where
  "new_below fs ws =
     {q. node_at fs q = None \<and> ((\<exists>k. q = take k ws) \<or> (butlast q = ws \<and> name_suffix (path_name q) = ''.sqlite3''))}"

lemma safe_create_path_Inr:
  "safe_create_path cwd a fs s = Inr q \<Longrightarrow> fs_wf fs \<Longrightarrow>
     \<exists>ws. da_workspace a = Some ws \<and> butlast q = ws \<and> name_suffix (path_name q) = ''.sqlite3'' \<and> resolved fs q"
  by (auto simp: safe_create_path_def bind_res_eq_Inr resolve_from_resolved split: option.splits if_splits)

lemma run_create_moves:
  assumes "fs_wf fs" "da_workspace a = Some ws"
  shows "db_moves (new_below fs ws) (a, fs) (snd (run_create cwd p (a, fs)))"
proof (cases "required_string DatabaseAgentError (ap_payload p) ''database''")
  case name: (Inr name)
  show ?thesis
  proof (cases "bind_res (required_string DatabaseAgentError (ap_payload p) ''path'') (safe_create_path cwd a fs)")
    case (Inr q)
    then have q: "butlast q = ws" "name_suffix (path_name q) = ''.sqlite3''" "resolved fs q"
      using assms by (auto simp: bind_res_eq_Inr dest!: safe_create_path_Inr)
    show ?thesis
    proof (cases "path_exists fs q")
      case False
      then have n: "node_at fs q = None" using stat_resolved [OF q(3)] by (simp add: path_exists_def)
      have w: "q \<in> new_below fs ws" using n q by (simp add: new_below_def)
      let ?W = "new_below fs ws"
      have 1: "stays ?W fs (snd (make_dirs (butlast q) fs))"
        using resolved_butlast [OF q(3)] q(1) by (intro make_dirs_stays) (auto simp: new_below_def)
      have "db_moves ?W (a, fs) (snd (bind_act (on_files (make_dirs (butlast q))) (\<lambda>_.
         bind_act (on_files (connect q)) (\<lambda>_.
         bind_act (modify (\<lambda>(a, fs). (a\<lparr>da_databases := dict_set name q (da_databases a)\<rparr>, fs))) (\<lambda>_.
           ret (created_result name q)))) (a, fs)))"
      proof (rule bind_act_run [OF db_moves_trans])
        show "db_moves ?W (a, fs) (snd (on_files (make_dirs (butlast q)) (a, fs)))" using 1 by (rule db_moves_files)
        fix x s assume "db_moves ?W (a, fs) s"
        then obtain b fs' where s: "s = (b, fs')" "stays ?W fs fs'" by (cases s) (auto simp: db_moves_def)
        then have r: "resolved fs' q" using q(3) by (simp add: stays_resolved)
        show "db_moves ?W s (snd (bind_act (on_files (connect q)) (\<lambda>_.
         bind_act (modify (\<lambda>(a, fs). (a\<lparr>da_databases := dict_set name q (da_databases a)\<rparr>, fs))) (\<lambda>_.
           ret (created_result name q))) s))"
          unfolding s
        proof (rule bind_act_run [OF db_moves_trans])
          show "db_moves ?W (b, fs') (snd (on_files (connect q) (b, fs')))"
            using connect_stays [OF r w] by (rule db_moves_files)
        qed (auto simp: db_moves_def act_defs ran_def w split: prod.split)
      qed
      then show ?thesis using name Inr False by (simp add: run_create_def bind_act_lift bind_act_reads)
    qed (use name Inr in \<open>simp add: run_create_def bind_act_lift bind_act_reads ret_def\<close>)
  qed (simp add: run_create_def bind_act_lift bind_act_reads name)
qed (simp add: run_create_def bind_act_lift)

lemma execute_create_table_stays:
  assumes "resolved fs path"
  shows "stays {path} fs (snd (execute_create_table Q path database table columns fs))"
  unfolding execute_create_table_def
proof (rule bind_act_run [OF stays_order(2)])
  show "stays {path} fs (snd (connect path fs))" using assms by (rule connect_stays) simp
  fix contents fs' assume s: "stays {path} fs fs'"
  have r: "resolved fs' path" using assms stays_resolved [OF s] by simp
  let ?R = "stays {path} fs'"
  have w: "?R (snd (bind_act (write_bytes path c) (\<lambda>_. ret (table_result database table columns)) fs'))" for c
    using r by (intro bind_act_run [OF stays_order(2)] write_bytes_stays) (simp_all add: ret_def)
  then show "?R (snd (bind_act (lift_res (has_table Q contents table)) (\<lambda>existing.
       if existing then ret (failure ''table_already_exists'')
       else
         bind_act (lift_res (run_statement Q contents (create_table_sql table columns))) (\<lambda>contents'.
         bind_act (write_bytes path contents') (\<lambda>_.
           ret (table_result database table columns)))) fs'))"
    by (auto simp: bind_act_lift ret_def split: sum.split)
qed

lemma run_create_table_moves:
  assumes "\<forall>q \<in> ran (map_of (da_databases a)). resolved fs q"
  shows "db_moves (ran (map_of (da_databases a))) (a, fs) (snd (run_create_table Q p (a, fs)))"
proof -
  have "db_moves (ran (map_of (da_databases a))) (a, fs)
      (snd (on_files (execute_create_table Q path database table columns) (a, fs)))"
    if "lookup_key database (da_databases a) = Inr path" for path database table columns
  proof (rule db_moves_files)
    from that have q: "path \<in> ran (map_of (da_databases a))"
      by (auto simp: lookup_key_def ran_def split: option.splits)
    with assms have "stays {path} fs (snd (execute_create_table Q path database table columns fs))"
      by (intro execute_create_table_stays) blast
    then show "stays (ran (map_of (da_databases a))) fs (snd (execute_create_table Q path database table columns fs))"
      by (rule stays_mono) (use q in blast)
  qed
  then show ?thesis
    by (auto simp: run_create_table_def bind_act_lift bind_act_reads bind_act_require Let_def split: sum.split)
qed

text \<open>
  What \<^verbatim>\<open>db.query\<close> may touch: the files that the URIs of registered databases name for writing. There are none when
  the paths have no character that a URI interprets.
\<close>

definition query_targets :: "sqlite_libs \<Rightarrow> path \<Rightarrow> database_agent \<Rightarrow> file_system \<Rightarrow> path set" where
  "query_targets Q cwd a fs = (\<Union>p \<in> ran (map_of (da_databases a)). uri_targets Q cwd fs (query_uri_of p))"

definition plain_databases :: "database_agent \<Rightarrow> bool" where
  "plain_databases a \<longleftrightarrow> (\<forall>p \<in> ran (map_of (da_databases a)). plain_uri_path (path_str p))"

lemma plain_query_targets: "plain_databases a \<Longrightarrow> query_targets Q cwd a fs = {}"
  by (auto simp: query_targets_def plain_databases_def query_uri_of_def plain_uri_targets [unfolded append.simps append_assoc])

lemma run_query_reads:
  "run_query L Q cwd p (a, fs) =
     (case bind_res (required_string DatabaseAgentError (ap_payload p) ''database'') (\<lambda>database.
           bind_res (required_string DatabaseAgentError (ap_payload p) ''template'') (\<lambda>template.
           bind_res (lookup_key database (da_databases a)) (\<lambda>path.
           bind_res (lookup_key template (da_templates a)) (\<lambda>sql. Inr (database, template, path, sql))))) of
        Inl e \<Rightarrow> (Inl e, (a, fs))
      | Inr (database, template, path, sql) \<Rightarrow>
          bind_act (on_files (query_uri Q cwd (query_uri_of path) sql (query_params p))) (\<lambda>rows.
          bind_act (lift_res (hash_payload L (JObj [(''template'', JStr template), (''params'', query_params p)]))) (\<lambda>h.
            ret (query_result database template rows h))) (a, fs))"
  by (auto simp: run_query_def bind_act_lift bind_act_reads bind_res_def split: sum.split)

lemma run_query_state:
  "snd (run_query L Q cwd p (a, fs)) = (a, fs)
   \<or> (\<exists>path \<in> ran (map_of (da_databases a)). \<exists>sql.
        snd (run_query L Q cwd p (a, fs)) = (a, snd (query_uri Q cwd (query_uri_of path) sql (query_params p) fs)))"
proof -
  have q: "snd (bind_act (on_files m) (\<lambda>rows. bind_act (lift_res h) (\<lambda>x. ret (f rows x))) (a, fs)) = (a, snd (m fs))" for m h and f :: "'b \<Rightarrow> 'c \<Rightarrow> 'd"
    by (auto simp: on_files_def zoom_def bind_act_def lift_res_def ret_def split: sum.split prod.split)
  have l: "path \<in> ran (map_of (da_databases a))" if "lookup_key database (da_databases a) = Inr path" for database path
    using that by (auto simp: lookup_key_def ran_def split: option.splits)
  show ?thesis unfolding run_query_reads by (auto simp: q bind_res_eq_Inr dest: l split: sum.split)
qed

lemma run_query_moves:
  assumes "fs_wf fs"
  shows "db_moves (query_targets Q cwd a fs) (a, fs) (snd (run_query L Q cwd p (a, fs))) \<and> fst (snd (run_query L Q cwd p (a, fs))) = a"
proof -
  have "stays (query_targets Q cwd a fs) fs (snd (query_uri Q cwd (query_uri_of path) sql v fs))"
    if "path \<in> ran (map_of (da_databases a))" for path sql v
    using query_uri_stays [OF assms, of Q cwd "query_uri_of path" sql v]
    by (rule stays_mono) (use that in \<open>auto simp: query_targets_def\<close>)
  with run_query_state [of L Q cwd p a fs] show ?thesis by (auto simp: db_moves_def)
qed

lemma run_query_plain:
  assumes "plain_databases a"
  shows "snd (run_query L Q cwd p (a, fs)) = (a, fs)"
proof -
  have "snd (query_uri Q cwd (query_uri_of path) sql v fs) = fs" if "path \<in> ran (map_of (da_databases a))" for path sql v
    using assms that unfolding query_uri_of_def plain_databases_def by (intro connect_read_only [OF open_plain_uri]) blast
  with run_query_state [of L Q cwd p a fs] show ?thesis by auto
qed

lemma catching_run: "snd (catching cs (\<lambda>e. ret (h e)) m s) = snd (m s)"
  by (auto simp: catching_def ret_def split: prod.split sum.split)

lemma run_create_table_agent: "fst (snd (run_create_table Q p (a, fs))) = a"
  by (auto simp: run_create_table_def bind_act_lift bind_act_reads bind_act_require Let_def on_files_def zoom_def split: sum.split prod.split)

text \<open>The files that an action may write, and the databases it may register.\<close>

definition db_footprint :: "sqlite_libs \<Rightarrow> path \<Rightarrow> database_agent \<Rightarrow> file_system \<Rightarrow> string \<Rightarrow> path set" where
  "db_footprint Q cwd a fs action =
     (if action = ''db.create'' then (case da_workspace a of None \<Rightarrow> {} | Some ws \<Rightarrow> new_below fs ws)
      else if action = ''db.create_table'' then ran (map_of (da_databases a))
      else query_targets Q cwd a fs)"

lemma run_create_no_workspace: "da_workspace a = None \<Longrightarrow> snd (run_create cwd p (a, fs)) = (a, fs)"
  by (auto simp: run_create_def bind_act_lift bind_act_reads safe_create_path_def res_elims split: sum.split)

lemma db_run_moves:
  assumes "db_wf (a, fs)"
  shows "db_moves (db_footprint Q cwd a fs (ap_action_type p)) (a, fs) (snd (db_run L Q cwd p (a, fs)))"
  using assms run_create_moves [of fs a _ cwd p] run_create_table_moves [of a fs Q p] run_query_moves [of fs Q cwd a L p]
  by (auto simp: db_run_def catching_run db_footprint_def db_wf_def run_create_no_workspace split: option.split)

lemma db_execute_cases:
  "(snd (db_execute L Q cwd p poi (a, fs)) = (a, fs) \<and> (\<forall>r. fst (db_execute L Q cwd p poi (a, fs)) = Inr r \<longrightarrow> \<not> res_success r))
   \<or> (plan_refusal ''database'' (da_id a) db_capabilities p = None
      \<and> poi_refusal L (db_poi_types (ap_action_type p)) p poi = Inr None
      \<and> db_execute L Q cwd p poi (a, fs) = db_run L Q cwd p (a, fs))"
  by (cases "plan_refusal ''database'' (da_id a) db_capabilities p";
      cases "poi_refusal L (db_poi_types (ap_action_type p)) p poi")
    (auto simp: db_execute_def bind_act_reads bind_act_lift ret_def failure_def split: option.split)

lemma db_wf_moves:
  assumes "db_wf s" "db_moves W s s'" "\<forall>q \<in> ran (map_of (da_databases (fst s'))). q \<in> W \<longrightarrow> resolved (snd s') q"
  shows "db_wf s'"
  using assms stays_resolved [of W "snd s" "snd s'"] by (auto simp: db_wf_def db_moves_def stays_def)

lemma new_below_resolved: "resolved fs ws \<Longrightarrow> q \<in> new_below fs ws \<Longrightarrow> resolved fs q"
proof -
  assume ws: "resolved fs ws" and q: "q \<in> new_below fs ws"
  show "resolved fs q"
  proof (cases "\<exists>k. q = take k ws")
    case True
    with ws show ?thesis by (auto intro: resolved_prefix)
  next
    case False
    with q have q': "node_at fs q = None" "butlast q = ws" "name_suffix (path_name q) = ''.sqlite3''"
      by (auto simp: new_below_def)
    then have "q \<noteq> []" by auto
    then have e: "q = ws @ [last q]" using q'(2) by (metis append_butlast_last_id)
    have "last q \<noteq> ''..''" using q'(3) \<open>q \<noteq> []\<close> by (auto simp: path_name_def name_suffix_def extension_of_def)
    moreover have "link_at fs q = None" using q'(1) \<open>q \<noteq> []\<close> by (simp add: link_at_def node_at_def)
    ultimately show ?thesis using ws e unfolding resolved_def
      by (metis Un_iff empty_iff insert_iff list.set(1) list.set(2) set_append take_snoc_le)
  qed
qed

lemma db_run_wf:
  assumes "db_wf (a, fs)"
  shows "db_wf (snd (db_run L Q cwd p (a, fs)))"
proof (rule db_wf_moves [OF assms db_run_moves [OF assms]])
  let ?W = "db_footprint Q cwd a fs (ap_action_type p)" and ?s = "snd (db_run L Q cwd p (a, fs))"
  have m: "db_moves ?W (a, fs) ?s" by (rule db_run_moves [OF assms])
  show "\<forall>q \<in> ran (map_of (da_databases (fst ?s))). q \<in> ?W \<longrightarrow> resolved (snd ?s) q"
  proof (intro ballI impI)
    fix q assume q: "q \<in> ran (map_of (da_databases (fst ?s)))" "q \<in> ?W"
    have "resolved fs q"
    proof (cases "ap_action_type p = ''db.create''")
      case True
      then show ?thesis
        using q(2) assms new_below_resolved by (auto simp: db_footprint_def db_wf_def split: option.splits)
    next
      case False
      have "fst ?s = a"
        using False assms run_query_moves [of fs Q cwd a L p]
        by (auto simp: db_run_def catching_run db_wf_def run_create_table_agent)
      then show ?thesis using q(1) assms by (simp add: db_wf_def)
    qed
    then show "resolved (snd ?s) q" using m stays_resolved [of ?W fs "snd ?s"] by (simp add: db_moves_def)
  qed
qed

text \<open>
  C37: what the database agent may change. Whatever plan and PoI it is given, \<^verbatim>\<open>execute\<close> keeps the state
  well-formed and changes only files in the footprint of the action type: for \<^verbatim>\<open>db.create\<close> what is missing
  of the workspace and a file in it that does not exist yet and ends in \<^verbatim>\<open>.sqlite3\<close>, for
  \<^verbatim>\<open>db.create_table\<close> the registered databases, for \<^verbatim>\<open>db.query\<close> the files that SQLite opens for writing when it
  reads \<^verbatim>\<open>file:PATH?mode=ro\<close> with the path of a registered database: nothing, and then nothing changes at all, if
  no such path contains a question mark, a number sign or a percent sign. Templates and workspace never
  change, only a new file can be registered, and if anything changes or the result is a success, the PoI
  carries the hash of exactly this payload and one of the accepted action types.
\<close>

theorem database_effects_bounded:
  assumes "db_wf (a, fs)" "db_execute L Q cwd p poi (a, fs) = (r, (a', fs'))"
  shows "db_wf (a', fs')
    \<and> (\<forall>q. map_of fs' q \<noteq> map_of fs q \<longrightarrow> q \<in> db_footprint Q cwd a fs (ap_action_type p))
    \<and> (ap_action_type p = ''db.query'' \<and> plain_databases a \<longrightarrow> (a', fs') = (a, fs))
    \<and> da_templates a' = da_templates a \<and> da_workspace a' = da_workspace a
    \<and> ran (map_of (da_databases a')) \<subseteq> ran (map_of (da_databases a)) \<union> db_footprint Q cwd a fs (ap_action_type p)
    \<and> (ap_action_type p \<noteq> ''db.create'' \<longrightarrow> a' = a)
    \<and> ((a', fs') \<noteq> (a, fs) \<or> (\<exists>x. r = Inr x \<and> res_success x) \<longrightarrow>
         ap_agent_type p = ''database'' \<and> ap_policy_decision p = ''allow'' \<and> ap_action_type p \<in> set db_capabilities
         \<and> (\<exists>q. poi = Some q \<and> authorises L q p \<and> poi_action_type q \<in> set (db_poi_types (ap_action_type p))))"
proof -
  consider "(a', fs') = (a, fs)" "\<forall>x. r = Inr x \<longrightarrow> \<not> res_success x"
    | "plan_refusal ''database'' (da_id a) db_capabilities p = None"
      "poi_refusal L (db_poi_types (ap_action_type p)) p poi = Inr None" "db_run L Q cwd p (a, fs) = (r, (a', fs'))"
    using db_execute_cases [of L Q cwd p poi a fs] assms(2) by auto
  then show ?thesis
  proof cases
    case 1
    with assms(1) show ?thesis by auto
  next
    case 2
    have m: "db_moves (db_footprint Q cwd a fs (ap_action_type p)) (a, fs) (a', fs')" "db_wf (a', fs')"
      using db_run_moves [OF assms(1), of Q cwd p L] db_run_wf [OF assms(1), of L Q cwd p] by (simp_all add: 2(3))
    have "(a', fs') = (a, fs)" if "ap_action_type p = ''db.query''" "plain_databases a"
    proof -
      have "snd (db_run L Q cwd p (a, fs)) = (a, fs)" using run_query_plain that by (simp add: db_run_def catching_run)
      then show ?thesis by (simp add: 2(3))
    qed
    moreover have "a' = a" if "ap_action_type p \<noteq> ''db.create''"
    proof -
      have "fst (snd (db_run L Q cwd p (a, fs))) = a"
        using that run_query_moves [of fs Q cwd a L p] assms(1) by (simp add: db_run_def catching_run db_wf_def run_create_table_agent)
      then show ?thesis by (simp add: 2(3))
    qed
    ultimately show ?thesis using m 2(1,2) by (auto simp: db_moves_def stays_def plan_refusal_None poi_refusal_None)
  qed
qed

text \<open>The database agent is bound to the PoI.\<close>

lemma db_execute_bound:
  "db_execute L Q cwd p poi s = (r, s') \<Longrightarrow> s' \<noteq> s \<or> (\<exists>x. r = Inr x \<and> res_success x) \<Longrightarrow>
    \<exists>q. poi = Some q \<and> authorises L q p"
  using db_execute_cases [of L Q cwd p poi "fst s" "snd s"] by (auto simp: poi_refusal_None)

interpretation database_bound: poi_bound_agent L "db_execute L Q cwd" for L Q cwd
  by unfold_locales (rule db_execute_bound)

section \<open>The statements that reach SQLite\<close>

definition plain_identifier :: "string \<Rightarrow> bool" where
  "plain_identifier s \<longleftrightarrow> s \<noteq> [] \<and> alpha_char (hd s) \<and> list_all ident_char s \<and> length s \<le> 63"

definition column_clause :: "string \<Rightarrow> bool" where
  "column_clause sql \<longleftrightarrow>
     (\<exists>c ty pk. plain_identifier c \<and> ty \<in> set column_types
        \<and> sql = [double_quote] @ c @ [double_quote] @ '' '' @ ty @ (if pk then '' PRIMARY KEY'' else []))"

definition create_statement :: "string \<Rightarrow> string \<Rightarrow> bool" where
  "create_statement t sql \<longleftrightarrow>
     (\<exists>cs. cs \<noteq> [] \<and> list_all column_clause cs
        \<and> sql = ''CREATE TABLE '' @ [double_quote] @ t @ [double_quote] @ '' ('' @ str_join '', '' cs @ '')'')"

lemma alpha_ident: "alpha_char c \<Longrightarrow> ident_char c"
  by (simp add: ident_char_def)

lemma valid_identifier_plain: "valid_identifier s \<Longrightarrow> plain_identifier s"
proof -
  assume "valid_identifier s"
  then obtain c v where "s = [c] @ v" "alpha_char c" "spells (upto_times 62 (RChr ident_char)) v"
    by (auto simp: valid_identifier_def name_rx_def dest!: re_fullmatch_spells)
  then show ?thesis using spells_upto_chr [of 62 ident_char v] alpha_ident
    by (auto simp: plain_identifier_def)
qed

lemma validate_columns_clauses:
  assumes "validate_columns columns = Inr ()"
  shows "column_list columns \<noteq> [] \<and> list_all column_clause (map column_sql (column_list columns))"
proof -
  from assms obtain c cs where e: "columns = JList (c # cs)"
    by (auto simp: validate_columns_def split: json.splits list.splits)
  with assms obtain us where "traverse validate_column (c # cs) = Inr us"
    by (auto simp: validate_columns_def map_res_eq_Inr simp del: traverse.simps)
  then have v: "\<exists>u. validate_column x = Inr u" if "x \<in> set (c # cs)" for x
    using that unfolding traverse_eq_Inr by (metis in_set_conv_nth)
  have "column_clause (column_sql x)" if x: "x \<in> set (c # cs)" for x
  proof -
    from v [OF x] obtain d where d: "x = JObj d" "valid_identifier (column_text d ''name'')"
        "str_upper (column_text d ''type'') \<in> set column_types"
      by (auto simp: validate_column_def split: json.splits if_splits)
    then show ?thesis
      unfolding column_clause_def d(1) column_sql_def json.case using valid_identifier_plain by blast
  qed
  then show ?thesis by (simp add: e column_list_def list_all_iff)
qed

lemma create_table_sql_statement: "validate_columns columns = Inr () \<Longrightarrow> create_statement table (create_table_sql table columns)"
  unfolding create_statement_def create_table_sql_def
  using validate_columns_clauses by (metis map_is_Nil_conv)

text \<open>
  Two SQLites that agree on what a plan may run: the lookup and the creation of the table that the payload names, by a
  plain identifier, with columns of plain names and allowed types, and the text registered under the template
  that the payload names, with the parameters of the payload.
\<close>

definition agree_for :: "sqlite_libs \<Rightarrow> sqlite_libs \<Rightarrow> database_agent \<Rightarrow> action_plan \<Rightarrow> bool" where
  "agree_for Q Q' a p \<longleftrightarrow>
     vfs_storage Q = vfs_storage Q'
     \<and> (\<forall>t b. map_of (ap_payload p) ''table'' = Some (JStr t) \<and> plain_identifier t \<longrightarrow>
          has_table Q b t = has_table Q' b t \<and> (\<forall>sql. create_statement t sql \<longrightarrow> run_statement Q b sql = run_statement Q' b sql))
     \<and> (\<forall>name sql w b. map_of (ap_payload p) ''template'' = Some (JStr name) \<and> map_of (da_templates a) name = Some sql \<longrightarrow>
          run_select Q w b sql (query_params p) = run_select Q' w b sql (query_params p))"

lemma required_string_Inr: "required_string c d k = Inr s \<Longrightarrow> map_of d k = Some (JStr s)"
  by (auto simp: required_string_def split: option.splits json.splits if_splits)

lemma run_create_table_agree:
  assumes "agree_for Q Q' (fst s) p"
  shows "run_create_table Q p s = run_create_table Q' p s"
proof -
  have "execute_create_table Q path database table columns = execute_create_table Q' path database table columns"
    if "required_string DatabaseAgentError (ap_payload p) ''table'' = Inr table" "valid_identifier table" "validate_columns columns = Inr ()"
    for path database table columns
  proof -
    have "has_table Q b table = has_table Q' b table"
      "run_statement Q b (create_table_sql table columns) = run_statement Q' b (create_table_sql table columns)" for b
      using assms create_table_sql_statement [OF that(3)] valid_identifier_plain [OF that(2)] required_string_Inr [OF that(1)]
      by (simp_all add: agree_for_def)
    then show ?thesis unfolding execute_create_table_def by presburger
  qed
  then show ?thesis
    by (auto simp: run_create_table_def bind_act_lift bind_act_reads bind_act_require Let_def on_files_def split: sum.split)
qed

lemma query_uri_agree:
  assumes "vfs_storage Q = vfs_storage Q'" "\<And>w b. run_select Q w b sql v = run_select Q' w b sql v"
  shows "query_uri Q cwd uri sql v = query_uri Q' cwd uri sql v"
proof -
  have "open_uri Q = open_uri Q'" by (rule ext) (simp only: open_uri_def assms(1))
  then have "connect_uri Q = connect_uri Q'" by (intro ext) (simp only: connect_uri_def)
  then show ?thesis by (simp only: query_uri_def select_on_def assms(2))
qed

lemma run_query_agree:
  assumes "agree_for Q Q' a p"
  shows "run_query L Q cwd p (a, fs) = run_query L Q' cwd p (a, fs)"
proof -
  have "query_uri Q cwd uri sql (query_params p) = query_uri Q' cwd uri sql (query_params p)"
    if "required_string DatabaseAgentError (ap_payload p) ''template'' = Inr template" "lookup_key template (da_templates a) = Inr sql"
    for template sql uri
    using assms required_string_Inr [OF that(1)] that(2)
    by (intro query_uri_agree) (auto simp: agree_for_def lookup_key_def split: option.splits)
  then show ?thesis unfolding run_query_reads by (auto simp: bind_res_eq_Inr split: sum.split)
qed


lemma write_bytes_Inr:
  "resolved fs p \<Longrightarrow> write_bytes p b fs = (Inr (), fs') \<Longrightarrow> fs' = dict_set p (FFile b) fs \<and> p \<noteq> []"
  by (auto simp: write_bytes_def locate_resolved split: if_splits)

lemma connect_new:
  assumes "resolved fs q" "connect q fs = (Inr b, fs')" "node_at fs q = None"
  shows "node_at fs' q = Some (FFile [])"
proof -
  from connect_cases [OF assms(2)] assms(1,3) have "write_bytes q [] fs = (Inr (), fs')"
    by (auto simp: stat_resolved)
  then show ?thesis by (auto dest!: write_bytes_Inr [OF assms(1)] simp: node_at_def)
qed

lemma on_files_Inr: "on_files m (a, fs) = (Inr x, s') \<longleftrightarrow> (\<exists>fs'. s' = (a, fs') \<and> m fs = (Inr x, fs'))"
  by (auto simp: on_files_def zoom_def split: prod.splits)

lemma run_create_Inr:
  assumes "run_create cwd p (a, fs) = (Inr r, s')" "res_success r" "fs_wf fs"
  shows "\<exists>name q ws fs' t. required_string DatabaseAgentError (ap_payload p) ''database'' = Inr name
    \<and> required_string DatabaseAgentError (ap_payload p) ''path'' = Inr t \<and> safe_create_path cwd a fs t = Inr q
    \<and> r = created_result name q \<and> s' = (a\<lparr>da_databases := dict_set name q (da_databases a)\<rparr>, fs')
    \<and> da_workspace a = Some ws \<and> butlast q = ws \<and> \<not> path_exists fs q \<and> stays (new_below fs ws) fs fs'
    \<and> stat fs' q = Some (FFile [])"
proof -
  from assms(1) obtain name t q where n: "required_string DatabaseAgentError (ap_payload p) ''database'' = Inr name"
      "required_string DatabaseAgentError (ap_payload p) ''path'' = Inr t" "safe_create_path cwd a fs t = Inr q"
    and rest: "(if path_exists fs q then ret (failure ''database_already_exists'') (a, fs)
       else bind_act (on_files (make_dirs (butlast q))) (\<lambda>_. bind_act (on_files (connect q)) (\<lambda>_.
         bind_act (modify (\<lambda>(a, fs). (a\<lparr>da_databases := dict_set name q (da_databases a)\<rparr>, fs))) (\<lambda>_.
           ret (created_result name q)))) (a, fs)) = (Inr r, s')"
    by (auto simp: run_create_def bind_act_lift bind_act_reads res_elims split: sum.splits if_splits)
  have ne: "\<not> path_exists fs q" using rest assms(2) by (auto simp: ret_def failure_def split: if_splits)
  with rest obtain fs1 fs' b where f: "make_dirs (butlast q) fs = (Inr (), fs1)" "connect q fs1 = (Inr b, fs')"
    and s': "r = created_result name q" "s' = (a\<lparr>da_databases := dict_set name q (da_databases a)\<rparr>, fs')"
    by (auto simp: bind_act_eq_Inr on_files_Inr modify_def ret_def)
  from safe_create_path_Inr [OF n(3) assms(3)] obtain ws where ws: "da_workspace a = Some ws" "butlast q = ws"
      "name_suffix (path_name q) = ''.sqlite3''" "resolved fs q" by blast
  have nn: "node_at fs q = None" using ne stat_resolved [OF ws(4)] by (simp add: path_exists_def)
  then have w: "q \<in> new_below fs ws" using ws by (simp add: new_below_def)
  have "stays (new_below fs ws) fs (snd (make_dirs (butlast q) fs))"
    using resolved_butlast [OF ws(4)] ws(2) by (intro make_dirs_stays) (auto simp: new_below_def)
  then have 1: "stays (new_below fs ws) fs fs1" by (simp add: f(1))
  have "stays (new_below fs ws - {q}) fs (snd (make_dirs (butlast q) fs))"
  proof (rule make_dirs_stays)
    show "resolved fs (butlast q)" using resolved_butlast [OF ws(4)] .
    fix k assume k: "node_at fs (take k (butlast q)) = None"
    have "q \<noteq> []" using nn by auto
    then have "length (take k (butlast q)) < length q" by (cases q) (auto simp: min_less_iff_disj)
    then have "take k (butlast q) \<noteq> q" by (metis less_irrefl)
    with k ws(2) show "take k (butlast q) \<in> new_below fs ws - {q}" by (auto simp: new_below_def)
  qed
  then have "map_of fs1 q = map_of fs q" by (simp add: f(1) stays_def)
  then have "node_at fs1 q = None" using nn by (auto simp: node_at_def split: if_splits)
  moreover have r1: "resolved fs1 q" using stays_resolved [OF 1] ws(4) by simp
  ultimately have st: "node_at fs' q = Some (FFile [])" using connect_new f(2) by blast
  have 2: "stays (new_below fs ws) fs1 fs'" using connect_stays [OF r1 w] by (simp add: f(2))
  then have "resolved fs' q" using stays_resolved r1 by blast
  with st have "stat fs' q = Some (FFile [])" by (simp add: stat_resolved)
  moreover have "stays (new_below fs ws) fs fs'" using 1 2 stays_order(2) by (blast dest: transpD)
  ultimately show ?thesis using n s' ws ne by blast
qed

lemma safe_create_path_stays:
  "stays W fs fs' \<Longrightarrow> da_workspace b = da_workspace a \<Longrightarrow> safe_create_path cwd b fs' t = safe_create_path cwd a fs t"
  by (simp add: safe_create_path_def resolve_from_stays cong: option.case_cong)

lemma db_run_create_Inr:
  assumes "ap_action_type p = ''db.create''" "db_run L Q cwd p s = (Inr r, s')" "res_success r"
  shows "run_create cwd p s = (Inr r, s')"
  using assms by (auto simp: db_run_def catching_def ret_def failure_def split: prod.splits sum.splits if_splits)

text \<open>
  Creating a database works and cannot overwrite. A \<^verbatim>\<open>db.create\<close> that succeeds has made an empty
  database file where there was nothing, directly in the workspace, has registered it under the name of the
  plan, and answers with that name; the same plan executed again fails and leaves the registry and the file
  system as they are.
\<close>
theorem database_created_once:
  assumes "db_wf (a, fs)" "ap_action_type p = ''db.create''"
    and run: "db_execute L Q cwd p poi (a, fs) = (Inr r, (a', fs'))" "res_success r"
  shows "\<exists>name q. res_artifact_ref r = Some name \<and> map_of (ap_payload p) ''database'' = Some (JStr name)
    \<and> map_of (da_databases a') name = Some q \<and> da_workspace a = Some (butlast q)
    \<and> \<not> path_exists fs q \<and> stat fs' q = Some (FFile [])
    \<and> db_execute L Q cwd p poi (a', fs') = (Inr (failure ''database_already_exists''), (a', fs'))"
proof -
  from db_execute_cases [of L Q cwd p poi a fs] run
  have g: "plan_refusal ''database'' (da_id a) db_capabilities p = None"
      "poi_refusal L (db_poi_types (ap_action_type p)) p poi = Inr None"
    and d: "db_run L Q cwd p (a, fs) = (Inr r, (a', fs'))" by auto
  have wf: "fs_wf fs" using assms(1) by (simp add: db_wf_def)
  from run_create_Inr [OF db_run_create_Inr [OF assms(2) d run(2)] run(2) wf] obtain name q ws t where
    n: "required_string DatabaseAgentError (ap_payload p) ''database'' = Inr name"
      "required_string DatabaseAgentError (ap_payload p) ''path'' = Inr t" "safe_create_path cwd a fs t = Inr q"
    and r: "r = created_result name q" "a' = a\<lparr>da_databases := dict_set name q (da_databases a)\<rparr>"
      "da_workspace a = Some ws" "butlast q = ws" "\<not> path_exists fs q" "stays (new_below fs ws) fs fs'"
      "stat fs' q = Some (FFile [])" by blast
  have "safe_create_path cwd a' fs' t = Inr q" using safe_create_path_stays [OF r(6)] n(3) r(2) by simp
  moreover have "path_exists fs' q" using r(7) by (simp add: path_exists_def)
  ultimately have "run_create cwd p (a', fs') = (Inr (failure ''database_already_exists''), (a', fs'))"
    by (simp add: run_create_def bind_act_lift bind_act_reads n ret_def)
  then have "db_execute L Q cwd p poi (a', fs') = (Inr (failure ''database_already_exists''), (a', fs'))"
    using g r(2) by (simp add: db_execute_def bind_act_reads bind_act_lift db_run_def catching_def assms(2))
  then show ?thesis using r n(1)
    by (auto simp: created_result_def required_string_def split: option.splits json.splits if_splits)
qed

section \<open>An instance\<close>

text \<open>An SQLite that keeps the list of its statements, and a workspace with one database.\<close>

definition demo_sqlite :: sqlite_libs where
  "demo_sqlite = \<lparr>has_table = (\<lambda>b t. Inr False), run_statement = (\<lambda>b sql. Inr (b @ str_encode sql)),
     run_select = (\<lambda>w b sql params. (Inr [], b)), vfs_storage = (\<lambda>v. None)\<rparr>"

definition demo_db_files :: file_system where
  "demo_db_files = [([''w''], FDir), ([''w'', ''a.sqlite3''], FFile [])]"

definition demo_db_agent :: database_agent where
  "demo_db_agent = \<lparr>da_id = ''database-agent'', da_databases = [(''a'', [''w'', ''a.sqlite3''])], da_workspace = Some [''w''],
     da_templates = default_templates\<rparr>"

definition demo_create_plan :: action_plan where
  "demo_create_plan = \<lparr>ap_agent_type = ''database'', ap_agent_id = Some ''database-agent'', ap_action_type = ''db.create'',
     ap_payload = [(''database'', JStr ''b''), (''path'', JStr ''/w/b.sqlite3'')], ap_requires_confirmation = False,
     ap_confirmed = False, ap_policy_decision = ''allow''\<rparr>"

lemma demo_db_wf: "db_wf (demo_db_agent, demo_db_files)"
proof -
  have l: "link_at demo_db_files q = None" for q by (simp add: link_at_def demo_db_files_def)
  have "fs_wf demo_db_files" by (simp add: fs_wf_def demo_db_files_def node_at_def)
  moreover have "resolved demo_db_files [''w'']" "resolved demo_db_files [''w'', ''a.sqlite3'']"
    using l by (simp_all add: resolved_def)
  moreover have "select_text sql" if "sql \<in> ran (map_of default_templates)" for sql
  proof -
    from that have "sql \<in> set (map snd default_templates)" by (force simp: ran_def dest!: map_of_SomeD)
    moreover have "list_all select_text (map snd default_templates)" by code_simp
    ultimately show ?thesis by (auto simp: list_all_iff)
  qed
  ultimately show ?thesis by (auto simp: db_wf_def demo_db_agent_def ran_def split: if_splits)
qed

definition demo_created :: "db_state" where
  "demo_created =
     (demo_db_agent\<lparr>da_databases := [(''a'', [''w'', ''a.sqlite3'']), (''b'', [''w'', ''b.sqlite3''])]\<rparr>,
      demo_db_files @ [([''w'', ''b.sqlite3''], FFile [])])"

lemma demo_create_run:
  "db_execute demo_libs Q [] demo_create_plan (Some (demo_plan_poi demo_create_plan)) (demo_db_agent, demo_db_files)
     = (Inr (created_result ''b'' [''w'', ''b.sqlite3'']), demo_created)"
proof -
  have "plan_refusal ''database'' (da_id demo_db_agent) db_capabilities demo_create_plan = None" by code_simp
  moreover have "poi_refusal demo_libs (db_poi_types (ap_action_type demo_create_plan)) demo_create_plan
      (Some (demo_plan_poi demo_create_plan)) = Inr None"
    by (rule demo_plan_poi_passes) (simp_all add: demo_create_plan_def db_poi_types_def)
  moreover have "run_create [] demo_create_plan (demo_db_agent, demo_db_files)
      = (Inr (created_result ''b'' [''w'', ''b.sqlite3'']), demo_created)" by code_simp
  ultimately show ?thesis
    by (simp add: db_execute_def bind_act_reads bind_act_lift db_run_def catching_def demo_create_plan_def)
qed

theorem database_effects_bounded_witness:
  "db_wf demo_created \<and> {q. map_of (snd demo_created) q \<noteq> map_of demo_db_files q} \<subseteq> new_below demo_db_files [''w'']"
  using database_effects_bounded [OF demo_db_wf, of demo_libs demo_sqlite "[]" demo_create_plan
      "Some (demo_plan_poi demo_create_plan)" "Inr (created_result ''b'' [''w'', ''b.sqlite3''])" "fst demo_created" "snd demo_created"]
    demo_create_run
  by (auto simp: db_footprint_def demo_db_agent_def demo_create_plan_def)

text \<open>A query, and an SQLite that knows nothing but its template.\<close>

definition demo_query_payload :: "json dict" where
  "demo_query_payload = [(''database'', JStr ''a''), (''template'', JStr ''list_tables''), (''params'', JList [])]"

definition demo_query_plan :: action_plan where
  "demo_query_plan = \<lparr>ap_agent_type = ''database'', ap_agent_id = Some ''database-agent'', ap_action_type = ''db.query'',
     ap_payload = demo_query_payload, ap_requires_confirmation = False, ap_confirmed = False, ap_policy_decision = ''allow''\<rparr>"

definition demo_query_poi :: proof_of_intent where
  "demo_query_poi = demo_unsigned_poi\<lparr>poi_action_type := Some ''db'',
     poi_action_payload_hash := (case hash_payload demo_libs (JObj demo_query_payload) of Inl _ \<Rightarrow> [] | Inr h \<Rightarrow> bytes_hex h)\<rparr>"

definition demo_narrow_sqlite :: sqlite_libs where
  "demo_narrow_sqlite = demo_sqlite\<lparr>run_statement := (\<lambda>b sql. Inl sqlite_error),
     run_select := (\<lambda>w b sql v. if map_of default_templates ''list_tables'' = Some sql then (Inr [], b) else (Inl sqlite_error, []))\<rparr>"

lemma demo_plain: "plain_databases demo_db_agent"
proof -
  have "plain_uri_path (path_str [''w'', ''a.sqlite3''])" by code_simp
  then show ?thesis by (auto simp: plain_databases_def demo_db_agent_def ran_def split: if_splits)
qed

lemma demo_query_run:
  "\<exists>x. db_execute demo_libs demo_sqlite [] demo_query_plan (Some demo_query_poi) (demo_db_agent, demo_db_files)
     = (Inr x, (demo_db_agent, demo_db_files)) \<and> res_success x"
proof -
  let ?s = "(demo_db_agent, demo_db_files)"
  obtain h where h: "hash_payload demo_libs (JObj demo_query_payload) = Inr h"
    by (simp add: hash_payload_def canonicalize_def demo_libs_def demo_dumps_def)
  have pr: "poi_refusal demo_libs (db_poi_types ''db.query'') demo_query_plan (Some demo_query_poi) = Inr None"
    by (simp add: poi_refusal_def demo_query_plan_def h demo_query_poi_def db_poi_types_def)
  have rf: "plan_refusal ''database'' (da_id demo_db_agent) db_capabilities demo_query_plan = None" by code_simp
  have q: "query_uri demo_sqlite [] (query_uri_of [''w'', ''a.sqlite3'']) sql v demo_db_files = (Inr [], demo_db_files)" for sql v
  proof -
    have "plain_uri_path (path_str [''w'', ''a.sqlite3''])" by code_simp
    then have "open_uri demo_sqlite (query_uri_of [''w'', ''a.sqlite3'']) = Inr (path_str [''w'', ''a.sqlite3''], ReadOnly)"
      unfolding query_uri_of_def by (rule open_plain_uri)
    moreover have "uri_file [] (path_str [''w'', ''a.sqlite3'']) = [''w'', ''a.sqlite3'']"
      "path_str [''w'', ''a.sqlite3''] \<noteq> '':memory:''" "path_str [''w'', ''a.sqlite3''] \<noteq> []" by code_simp+
    moreover have "stat demo_db_files [''w'', ''a.sqlite3''] = Some (FFile [])" by code_simp
    ultimately show ?thesis
      by (simp add: query_uri_def connect_uri_def connect_existing_def act_defs select_on_def demo_sqlite_def writable_def Let_def)
  qed
  obtain k where k: "hash_payload demo_libs (JObj [(''template'', JStr ''list_tables''), (''params'', JList [])]) = Inr k"
    by (simp add: hash_payload_def canonicalize_def demo_libs_def demo_dumps_def)
  have "run_query demo_libs demo_sqlite [] demo_query_plan ?s = (Inr (query_result ''a'' ''list_tables'' [] k), ?s)"
    by (simp add: run_query_def demo_query_plan_def demo_query_payload_def required_string_def demo_db_agent_def lookup_key_def
        default_templates_def query_params_def on_files_def zoom_def bind_act_reads q k bind_act_def ret_def lift_res_def reads_def)
  then obtain x where "run_query demo_libs demo_sqlite [] demo_query_plan ?s = (Inr x, ?s)" and x: "res_success x"
    by (simp add: query_result_def)
  then have "db_execute demo_libs demo_sqlite [] demo_query_plan (Some demo_query_poi) ?s = (Inr x, ?s)"
    using rf pr by (simp add: db_execute_def bind_act_reads bind_act_lift db_run_def catching_def demo_query_plan_def)
  with x show ?thesis by blast
qed


theorem database_created_once_witness:
  "fst (db_execute demo_libs demo_sqlite [] demo_create_plan (Some (demo_plan_poi demo_create_plan)) demo_created)
     = Inr (failure ''database_already_exists'')"
proof -
  obtain b fs where d: "demo_created = (b, fs)" by (cases demo_created)
  have c: "ap_action_type demo_create_plan = ''db.create''" by (simp add: demo_create_plan_def)
  have s: "res_success (created_result ''b'' [''w'', ''b.sqlite3''])" by (simp add: created_result_def)
  from database_created_once [OF demo_db_wf c demo_create_run [of demo_sqlite, unfolded d] s] show ?thesis by (auto simp: d)
qed

section \<open>The mode of a query\<close>

text \<open>
  The read-only mode of a query can be overridden by the path of the database. The file name
  \<^verbatim>\<open>x?mode=rwc&.sqlite3\<close> passes the check of \<^verbatim>\<open>db.create\<close>; a \<^verbatim>\<open>db.query\<close> on a database registered under it makes SQLite
  open \<^verbatim>\<open>x\<close>, another file of the workspace, for writing, and create it.
\<close>

definition odd_files :: file_system where
  "odd_files = [([''w''], FDir), ([''w'', ''x?mode=rwc&.sqlite3''], FFile [])]"

definition odd_agent :: database_agent where
  "odd_agent = demo_db_agent\<lparr>da_databases := [(''a'', [''w'', ''x?mode=rwc&.sqlite3''])]\<rparr>"

theorem query_uri_overridden:
  "safe_create_path [] odd_agent [([''w''], FDir)] ''/w/x?mode=rwc&.sqlite3'' = Inr [''w'', ''x?mode=rwc&.sqlite3'']
   \<and> node_at odd_files [''w'', ''x''] = None
   \<and> (\<exists>b. node_at (snd (snd (run_query L Q cwd demo_query_plan (odd_agent, odd_files)))) [''w'', ''x''] = Some (FFile b))"
proof (intro conjI)
  show "safe_create_path [] odd_agent [([''w''], FDir)] ''/w/x?mode=rwc&.sqlite3'' = Inr [''w'', ''x?mode=rwc&.sqlite3'']" by code_simp
  show "node_at odd_files [''w'', ''x''] = None" by code_simp
  let ?u = "query_uri_of [''w'', ''x?mode=rwc&.sqlite3'']"
  have t: "uri_text (\<lambda>c. c = CHR ''?'') (drop (length ''file:'') ?u) = (''/w/x'', ''?mode=rwc&.sqlite3?mode=ro'')"
    "uri_params ''mode=rwc&.sqlite3?mode=ro'' = [(''mode'', ''rwc''), (''.sqlite3?mode'', ''ro'')]"
    "drop_authority (drop (length ''file:'') ?u) = Inr (drop (length ''file:'') ?u)" by code_simp+
  have o: "open_uri Q ?u = Inr (''/w/x'', ReadWriteCreate)"
    unfolding open_uri_def t bind_res_simps by (simp only: t prod.case) (simp add: t apply_param_def access_named_def)
  have f: "uri_file cwd ''/w/x'' = [''w'', ''x'']"
    by (simp add: uri_file_def is_absolute_def startswith_def) code_simp
  have c: "connect [''w'', ''x''] odd_files = (Inr [], odd_files @ [([''w'', ''x''], FFile [])])" by code_simp
  let ?fs = "odd_files @ [([''w'', ''x''], FFile [])]"
  have w: "write_bytes [''w'', ''x''] b ?fs = (Inr (), odd_files @ [([''w'', ''x''], FFile b)])" for b
    by (simp add: write_bytes_def locate_def link_at_def odd_files_def node_at_def)
  have "\<exists>b. snd (query_uri Q cwd ?u sql v odd_files) = odd_files @ [([''w'', ''x''], FFile b)]" for sql v
    by (cases "run_select Q True [] sql v")
      (simp add: query_uri_def connect_uri_def o f c bind_act_def lift_res_def ret_def Let_def select_on_def writable_def w split: sum.split)
  moreover have "node_at (odd_files @ [([''w'', ''x''], FFile b)]) [''w'', ''x''] = Some (FFile b)" for b
    by (simp add: odd_files_def node_at_def)
  ultimately have "\<exists>b. node_at (snd (query_uri Q cwd ?u sql v odd_files)) [''w'', ''x''] = Some (FFile b)" for sql v
    by metis
  moreover have "snd (run_query L Q cwd demo_query_plan (odd_agent, odd_files)) = (odd_agent, snd (query_uri Q cwd ?u sql v odd_files))"
    if "sql = the (map_of default_templates ''list_tables'')" "v = JList []" for sql v
    unfolding that
    by (simp add: run_query_def demo_query_plan_def demo_query_payload_def required_string_def odd_agent_def demo_db_agent_def lookup_key_def
        default_templates_def query_params_def on_files_def zoom_def bind_act_def lift_res_def reads_def ret_def split: prod.split sum.split)
  ultimately show "\<exists>b. node_at (snd (snd (run_query L Q cwd demo_query_plan (odd_agent, odd_files)))) [''w'', ''x''] = Some (FFile b)" by simp
qed

end
