(* ===== verification/Smtp_Action.thy ===== *)
theory Smtp_Action
  imports Evidence_Store File_System
begin

text \<open>
  \<^verbatim>\<open>action_executor/cot_encryption.py\<close> and \<^verbatim>\<open>smtp_action.py\<close>: AES-GCM protection of an audit rationale, and
  e-mail with a signed proof attached, written to an outbox directory or sent. The AES-GCM
  primitive, the header classes of the \<^verbatim>\<open>email\<close> package and the SMTP conversation are functions of records;
  message identifiers, file names and nonces, which the code draws at random, are arguments. The theory proves
  that encryption round-trips, that the artifact in the outbox carries the proof, and for which bodies the portal
  reads back the payload that was hashed.
\<close>

section \<open>\<^verbatim>\<open>cot_encryption.py\<close>\<close>

text \<open>\<^verbatim>\<open>AESGCM(key).encrypt(nonce, data, None)\<close>, which ends in a tag of 16 bytes, and \<^verbatim>\<open>decrypt\<close>.\<close>

record aead_libs =
  gcm_encrypt :: "bytes \<Rightarrow> bytes \<Rightarrow> bytes \<Rightarrow> bytes"
  gcm_decrypt :: "bytes \<Rightarrow> bytes \<Rightarrow> bytes \<Rightarrow> bytes res"

text \<open>\<^verbatim>\<open>generate_encryption_key\<close> returns the fresh key, its argument here.\<close>

definition generate_encryption_key :: "bytes \<Rightarrow> bytes" where
  "generate_encryption_key fresh = fresh"

definition validate_key :: "bytes \<Rightarrow> unit res" where
  "validate_key key =
     (if length key \<noteq> 32 then Inl (Exc ValueError ''AES-256-GCM requires a 32-byte key'') else Inr ())"

definition encrypt_cot :: "aead_libs \<Rightarrow> bytes \<Rightarrow> string \<Rightarrow> bytes \<Rightarrow> string dict res" where
  "encrypt_cot A nonce text key =
     bind_res (validate_key key) (\<lambda>_.
       let combined = gcm_encrypt A key nonce (str_encode text);
           n = length combined - 16 in
       Inr [(''ciphertext'', b64encode (take n combined)), (''nonce'', b64encode nonce),
            (''tag'', b64encode (drop n combined))])"

definition field_of :: "string dict \<Rightarrow> string \<Rightarrow> string res" where
  "field_of d k = (case map_of d k of None \<Rightarrow> Inl (Exc KeyError k) | Some v \<Rightarrow> Inr v)"

definition decrypt_cot :: "aead_libs \<Rightarrow> string dict \<Rightarrow> bytes \<Rightarrow> string res" where
  "decrypt_cot A encrypted key =
     bind_res (validate_key key) (\<lambda>_.
     bind_res (bind_res (field_of encrypted ''nonce'') (b64decode True)) (\<lambda>nonce.
     bind_res (bind_res (field_of encrypted ''ciphertext'') (b64decode True)) (\<lambda>ciphertext.
     bind_res (bind_res (field_of encrypted ''tag'') (b64decode True)) (\<lambda>tag.
     bind_res (gcm_decrypt A key nonce (ciphertext @ tag)) decode_utf8))))"

section \<open>Messages\<close>

record smtp_config =
  sc_from_address :: string
  sc_host :: "string option"
  sc_port :: nat
  sc_username :: "string option"
  sc_password :: "string option"
  sc_use_starttls :: bool
  sc_use_ssl :: bool
  sc_dry_run :: bool
  sc_output_dir :: path

text \<open>
  \<^verbatim>\<open>message[name] = value\<close>: a text of several lines is refused, everything else goes to the header class for the
  name, the argument \<open>factory\<close>, which parses and normalises it; what is kept here is the text of the header object
  that results. \<^verbatim>\<open>set_content\<close> ends every line with a line feed.
\<close>

definition store_header :: "(string \<Rightarrow> json \<Rightarrow> string res) \<Rightarrow> string \<Rightarrow> json \<Rightarrow> (string \<times> string) res" where
  "store_header factory name v =
     (if (case v of JStr s \<Rightarrow> 1 < length (split_lines s) | _ \<Rightarrow> False)
      then Inl (Exc ValueError ''Header values may not contain linefeed or carriage return characters'')
      else map_res (\<lambda>s. (name, s)) (factory name v))"

fun wire_lines :: "string \<Rightarrow> string \<Rightarrow> string list" where
  "wire_lines acc [] = (if acc = [] then [] else [rev acc])"
| "wire_lines acc [c] = (if c = CHR 0x0A \<or> c = CHR 0x0D then [rev acc] else [rev (c # acc)])"
| "wire_lines acc (c # d # s) =
     (if c = CHR 0x0D \<and> d = CHR 0x0A then rev acc # wire_lines [] s
      else if c = CHR 0x0A \<or> c = CHR 0x0D then rev acc # wire_lines [] (d # s)
      else wire_lines (c # acc) (d # s))"

definition set_content :: "json \<Rightarrow> string res" where
  "set_content v =
     (case v of
        JStr s \<Rightarrow> Inr (str_join [CHR 0x0A] (wire_lines [] s) @ [CHR 0x0A])
      | _ \<Rightarrow> Inl (Exc KeyError ''content type''))"

text \<open>The libraries of the delivery, and the fresh values of one run.\<close>

record mail_libs =
  ml_crypto :: crypto_libs
  ml_text :: text_libs
  ml_aead :: aead_libs
  ml_header_factory :: "string \<Rightarrow> json \<Rightarrow> string res"

record mail_fresh =
  mf_message_id :: string
  mf_nonce :: bytes
  mf_file_name :: string

definition encrypted_reasoning_header :: "mail_libs \<Rightarrow> bytes \<Rightarrow> json \<Rightarrow> bytes \<Rightarrow> string res" where
  "encrypted_reasoning_header M nonce reasoning key =
     (case reasoning of
        JStr text \<Rightarrow>
          bind_res (encrypt_cot (ml_aead M) nonce text key) (\<lambda>e.
            map_res urlsafe_b64encode (canonicalize (ml_crypto M) (JObj (map (\<lambda>(k, v). (k, JStr v)) e))))
      | _ \<Rightarrow> bind_res (validate_key key) (\<lambda>_. Inl (Exc AttributeError ''encode'')))"

definition reasoning_headers :: "mail_libs \<Rightarrow> mail_fresh \<Rightarrow> json \<Rightarrow> bytes option \<Rightarrow> (string \<times> string) list res" where
  "reasoning_headers M F reasoning encryption_key =
     (if reasoning = JNull then Inr []
      else
        (case encryption_key of
           None \<Rightarrow> Inl (Exc ValueError ''encryption_key is required when adding encrypted reasoning'')
         | Some key \<Rightarrow>
             map_res (\<lambda>h. [h])
               (bind_res (encrypted_reasoning_header M (mf_nonce F) reasoning key) (\<lambda>v.
                 store_header (ml_header_factory M) ''X-AoR-Encrypted-Reasoning'' (JStr v)))))"

definition build_email ::
  "mail_libs \<Rightarrow> mail_fresh \<Rightarrow> json \<Rightarrow> json \<Rightarrow> json \<Rightarrow> proof_of_intent \<Rightarrow> smtp_config \<Rightarrow> json \<Rightarrow> bytes option
     \<Rightarrow> mime_message res"
where
  "build_email M F to subject body p config reasoning key =
     (let put = store_header (ml_header_factory M) in
      bind_res (put ''To'' to) (\<lambda>h1.
      bind_res (put ''From'' (JStr (sc_from_address config))) (\<lambda>h2.
      bind_res (put ''Subject'' subject) (\<lambda>h3.
      bind_res (put ''Message-ID'' (JStr (mf_message_id F))) (\<lambda>h4.
      bind_res (bind_res (encode_poi_header (ml_crypto M) p) (\<lambda>v. put ''X-AoR-Proof-of-Intent'' (JStr v))) (\<lambda>h5.
      bind_res (bind_res (build_signature_header p) (\<lambda>v. put ''X-AoR-Signature'' (JStr v))) (\<lambda>h6.
      bind_res (bind_res (build_agent_cert_header (poi_agent_pubkey_id p)) (\<lambda>v. put ''X-AoR-Agent-Cert'' (JStr v))) (\<lambda>h7.
      bind_res (reasoning_headers M F reasoning key) (\<lambda>hs.
      map_res (\<lambda>content.
          \<lparr>mm_headers = [h1, h2, h3, h4, h5, h6, h7] @ hs, mm_multipart = False, mm_plain_part = None,
           mm_content = Inr content\<rparr>)
        (set_content body))))))))))"

section \<open>Delivery\<close>

text \<open>What a delivery was asked for; \<open>smtp\<close> is the outcome of the conversation with the server.\<close>

record smtp_session =
  ss_host :: string
  ss_port :: nat
  ss_ssl :: bool
  ss_starttls :: bool
  ss_login :: "(string \<times> string) option"
  ss_message :: mime_message

record mail_state =
  ms_files :: file_system
  ms_sent :: "smtp_session list"

definition mail_files :: "(file_system, 'a) act \<Rightarrow> (mail_state, 'a) act" where
  "mail_files m = zoom ms_files (\<lambda>fs s. s\<lparr>ms_files := fs\<rparr>) m"

definition smtp_session_for :: "smtp_config \<Rightarrow> string \<Rightarrow> mime_message \<Rightarrow> smtp_session" where
  "smtp_session_for config host message =
     \<lparr>ss_host = host, ss_port = sc_port config, ss_ssl = sc_use_ssl config,
      ss_starttls = (sc_use_starttls config \<and> \<not> sc_use_ssl config),
      ss_login = (case sc_username config of
          None \<Rightarrow> None
        | Some u \<Rightarrow> if u = [] then None else Some (u, case sc_password config of None \<Rightarrow> [] | Some pw \<Rightarrow> pw)),
      ss_message = message\<rparr>"

definition deliver :: "(smtp_session \<Rightarrow> unit res) \<Rightarrow> smtp_session \<Rightarrow> (mail_state, unit) act" where
  "deliver smtp session =
     bind_act (lift_res (smtp session)) (\<lambda>_. modify (\<lambda>s. s\<lparr>ms_sent := ms_sent s @ [session]\<rparr>))"

definition send_email_with_proof ::
  "mail_libs \<Rightarrow> (smtp_session \<Rightarrow> unit res) \<Rightarrow> mail_fresh \<Rightarrow> json \<Rightarrow> json \<Rightarrow> json \<Rightarrow> proof_of_intent \<Rightarrow> smtp_config
     \<Rightarrow> json \<Rightarrow> bytes option \<Rightarrow> (mail_state, string) act"
where
  "send_email_with_proof M smtp F to subject body p config reasoning key =
     bind_act (lift_res (build_email M F to subject body p config reasoning key)) (\<lambda>message.
       let message_id = header_text message ''Message-ID'' in
       if sc_dry_run config
       then
         bind_act (mail_files (make_dirs (sc_output_dir config))) (\<lambda>_.
         bind_act (mail_files (write_bytes (sc_output_dir config @ [mf_file_name F @ ''.eml''])
             (message_bytes (ml_text M) message))) (\<lambda>_.
           ret message_id))
       else
         (case sc_host config of
            None \<Rightarrow> raise_exc (Exc ValueError ''host is required for real SMTP delivery'')
          | Some host \<Rightarrow>
              if host = [] then raise_exc (Exc ValueError ''host is required for real SMTP delivery'')
              else bind_act (deliver smtp (smtp_session_for config host message)) (\<lambda>_. ret message_id)))"

section \<open>Encryption round trip\<close>

text \<open>Decrypting what was encrypted under the same key and nonce gives it back; the tag is there.\<close>

definition aead_correct :: "aead_libs \<Rightarrow> bytes \<Rightarrow> bytes \<Rightarrow> bytes \<Rightarrow> bool" where
  "aead_correct A key nonce m \<longleftrightarrow>
     16 \<le> length (gcm_encrypt A key nonce m) \<and> gcm_decrypt A key nonce (gcm_encrypt A key nonce m) = Inr m"

lemma char_of_byte: "char_of (unat (of_char c :: byte)) = c"
proof -
  have "unat (of_char c :: byte) = unat (of_nat (of_char c) :: byte)" by (simp only: of_nat_of_char)
  also have "\<dots> = of_char c mod 256" by (simp add: unat_of_nat)
  also have "\<dots> = of_char c" using of_char_mod_256 by simp
  finally show ?thesis by simp
qed

lemma bytes_decode_encode [simp]: "bytes_decode (str_encode s) = s"
  by (simp add: bytes_decode_def str_encode_def o_def char_of_byte)

text \<open>
  The encrypted rationale round-trips and is guarded by the key length: with a key of 32 bytes
  encryption succeeds and decryption of its three fields gives the text back; with any other key both raise
  \<^verbatim>\<open>ValueError\<close> before the primitive is used; and if the primitive rejects the tag, decryption raises.
\<close>

theorem rationale_round_trip:
  assumes "aead_correct A key nonce (str_encode text)" "utf8_ok (str_encode text)" "length key = 32"
  shows "(\<exists>e. encrypt_cot A nonce text key = Inr e \<and> decrypt_cot A e key = Inr text)
    \<and> (\<forall>bad e. length bad \<noteq> 32 \<longrightarrow> encrypt_cot A nonce text bad = Inl (Exc ValueError ''AES-256-GCM requires a 32-byte key'')
         \<and> decrypt_cot A e bad = Inl (Exc ValueError ''AES-256-GCM requires a 32-byte key''))
    \<and> (\<forall>e err. (\<forall>n c. gcm_decrypt A key n c = Inl err) \<longrightarrow> (\<exists>err'. decrypt_cot A e key = Inl err'))"
proof (intro conjI)
  let ?c = "gcm_encrypt A key nonce (str_encode text)"
  show "\<exists>e. encrypt_cot A nonce text key = Inr e \<and> decrypt_cot A e key = Inr text"
    using assms by (simp add: encrypt_cot_def decrypt_cot_def validate_key_def Let_def field_of_def
        b64.dec_enc aead_correct_def decode_utf8_def)
  show "\<forall>bad e. length bad \<noteq> 32 \<longrightarrow> encrypt_cot A nonce text bad = Inl (Exc ValueError ''AES-256-GCM requires a 32-byte key'')
         \<and> decrypt_cot A e bad = Inl (Exc ValueError ''AES-256-GCM requires a 32-byte key'')"
    by (simp add: encrypt_cot_def decrypt_cot_def validate_key_def)
  show "\<forall>e err. (\<forall>n c. gcm_decrypt A key n c = Inl err) \<longrightarrow> (\<exists>err'. decrypt_cot A e key = Inl err')"
  proof (intro allI impI)
    fix e err assume a: "\<forall>n c. gcm_decrypt A key n c = Inl err"
    have "decrypt_cot A e key \<noteq> Inr t" for t using a by (auto simp: decrypt_cot_def res_elims)
    then show "\<exists>err'. decrypt_cot A e key = Inl err'" by (cases "decrypt_cot A e key") auto
  qed
qed

text \<open>A cipher that only appends a tag of zeros.\<close>

definition demo_aead :: aead_libs where
  "demo_aead = \<lparr>gcm_encrypt = (\<lambda>k n m. m @ replicate 16 0),
     gcm_decrypt = (\<lambda>k n c. if drop (length c - 16) c = replicate 16 0 then Inr (take (length c - 16) c) else Inl (Exc InvalidTag []))\<rparr>"

theorem rationale_round_trip_witness:
  "\<exists>e. encrypt_cot demo_aead (replicate 12 7) ''ok'' (replicate 32 1) = Inr e \<and> decrypt_cot demo_aead e (replicate 32 1) = Inr ''ok''"
proof -
  have "aead_correct demo_aead (replicate 32 1) (replicate 12 7) (str_encode ''ok'')"
    by (simp add: aead_correct_def demo_aead_def)
  moreover have "utf8_ok (str_encode ''ok'')" by code_simp
  ultimately show ?thesis using rationale_round_trip [of demo_aead "replicate 32 1" "replicate 12 7" "''ok''"] by simp
qed

section \<open>What the artifact says\<close>

lemma wire_lines_nonempty: "wire_lines acc (c # s) \<noteq> []"
  by (induction acc "c # s" arbitrary: c s rule: wire_lines.induct) auto

lemma join_cons: "ws \<noteq> [] \<Longrightarrow> str_join sep (w # ws) = w @ sep @ str_join sep ws"
  by (cases ws) auto

lemma wire_lines_plain:
  "CHR 0x0D \<notin> set s \<Longrightarrow>
     str_join [CHR 0x0A] (wire_lines acc s) = rev acc @ (if s \<noteq> [] \<and> last s = CHR 0x0A then butlast s else s)"
proof (induction acc s rule: wire_lines.induct)
  case (3 acc c d s)
  then show ?case using wire_lines_nonempty [of "[]" d s] by (auto simp: join_cons)
qed auto

lemma wire_lines_no_cr: "CHR 0x0D \<notin> set acc \<Longrightarrow> w \<in> set (wire_lines acc s) \<Longrightarrow> CHR 0x0D \<notin> set w"
  by (induction acc s arbitrary: w rule: wire_lines.induct) (auto split: if_splits)

lemma set_join: "set (str_join sep ws) \<subseteq> set sep \<union> \<Union> (set (map set ws))"
  by (induction sep ws rule: str_join.induct) auto

definition sent_body :: "string \<Rightarrow> string" where
  "sent_body body = str_join [CHR 0x0A] (wire_lines [] body) @ [CHR 0x0A]"

lemma strip_sent_body:
  "strip_final_newline (sent_body body) = str_join [CHR 0x0A] (wire_lines [] body)"
proof -
  let ?j = "str_join [CHR 0x0A] (wire_lines [] body)"
  have "CHR 0x0D \<notin> set ?j" using set_join [of "[CHR 0x0A]" "wire_lines [] body"] wire_lines_no_cr [of "[]"] by auto
  then have "\<not> endswith (?j @ [CHR 0x0A]) [CHR 0x0D, CHR 0x0A]"
    by (auto simp: endswith_iff)
  moreover have "endswith (?j @ [CHR 0x0A]) [CHR 0x0A]" by (auto simp: endswith_iff)
  ultimately show ?thesis by (simp add: strip_final_newline_def sent_body_def)
qed

text \<open>A body is read back exactly if it has no carriage return and does not end in a line feed.\<close>

definition plain_body :: "string \<Rightarrow> bool" where
  "plain_body body \<longleftrightarrow> CHR 0x0D \<notin> set body \<and> (body = [] \<or> last body \<noteq> CHR 0x0A)"

lemma parsed_body_exact: "strip_final_newline (sent_body body) = body \<longleftrightarrow> plain_body body"
proof
  assume "strip_final_newline (sent_body body) = body"
  then have j: "str_join [CHR 0x0A] (wire_lines [] body) = body" by (simp add: strip_sent_body)
  then have "CHR 0x0D \<notin> set body"
    using set_join [of "[CHR 0x0A]" "wire_lines [] body"] wire_lines_no_cr [of "[]" _ body] by auto
  moreover from wire_lines_plain [OF this, of "[]"] j have "length (if body \<noteq> [] \<and> last body = CHR 0x0A then butlast body else body) = length body"
    by simp
  ultimately show "plain_body body" by (cases body) (auto simp: plain_body_def split: if_splits)
qed (auto simp: strip_sent_body wire_lines_plain plain_body_def)

lemma header_names_lower:
  "str_lower ''To'' = ''to''" "str_lower ''From'' = ''from''" "str_lower ''Subject'' = ''subject''"
  "str_lower ''Message-ID'' = ''message-id''" "str_lower ''X-AoR-Proof-of-Intent'' = ''x-aor-proof-of-intent''"
  "str_lower ''X-AoR-Signature'' = ''x-aor-signature''" "str_lower ''X-AoR-Agent-Cert'' = ''x-aor-agent-cert''"
  by code_simp+

text \<open>Printable texts are one line, and so are the header values the code builds itself.\<close>

definition printable :: "char \<Rightarrow> bool" where
  "printable c \<longleftrightarrow> (let n = of_char c :: nat in 33 \<le> n \<and> n \<le> 126)"

lemma printable_no_break:
  assumes "printable c \<or> c = CHR '' ''"
  shows "line_end (c # s) = 0"
proof -
  have "\<not> (printable d \<or> d = CHR '' '')" if "d \<in> {CHR 0x0D, CHR 0x0A, CHR 0x0B, CHR 0x0C, CHR 0x1C, CHR 0x1D, CHR 0x1E, CHR 0xC2, CHR 0xE2}" for d
    using that by (auto simp: printable_def)
  with assms have "c \<notin> {CHR 0x0D, CHR 0x0A, CHR 0x0B, CHR 0x0C, CHR 0x1C, CHR 0x1D, CHR 0x1E, CHR 0xC2, CHR 0xE2}" by blast
  then show ?thesis by (simp add: line_end_def)
qed

lemma split_lines_printable:
  "list_all (\<lambda>c. printable c \<or> c = CHR '' '') s \<Longrightarrow> split_lines_from acc s = (if acc = [] \<and> s = [] then [] else [rev acc @ s])"
proof (induction s arbitrary: acc)
  case Nil
  then show ?case by (subst split_lines_from.simps) simp
next
  case (Cons c s)
  then show ?case by (subst split_lines_from.simps) (simp add: printable_no_break)
qed

lemma one_line: "list_all (\<lambda>c. printable c \<or> c = CHR '' '') v \<Longrightarrow> length (split_lines v) \<le> 1"
  by (simp add: split_lines_def split_lines_printable)

lemma word_urlsafe: "list_all (\<lambda>c. printable c \<and> c \<noteq> CHR ''?'') (urlsafe_base64_encode b)"
proof -
  have "printable (to_urlsafe c) \<and> to_urlsafe c \<noteq> CHR ''?''" if "b64_text c" for c
    using that by (auto simp: b64_text_def b64_val_def printable_def to_urlsafe_def Let_def split: if_splits)
  then show ?thesis using b64_text_encode [of b]
    by (auto simp: urlsafe_base64_encode_def urlsafe_b64encode_def list_all_iff)
qed

lemma word_hex: "list_all (\<lambda>c. printable c \<and> c \<noteq> CHR ''?'') (bytes_hex b)"
proof -
  have "printable (hex_digit n) \<and> hex_digit n \<noteq> CHR ''?''" if "n < 16" for n
  proof -
    from that have "n \<in> {0, 1, 2, 3, 4, 5, 6, 7, 8, 9, 10, 11, 12, 13, 14, 15}" by (simp, arith)
    moreover have "list_all (\<lambda>n. hex_digit n \<noteq> CHR ''?'') [0, 1, 2, 3, 4, 5, 6, 7, 8, 9, 10, 11, 12, 13, 14, 15]" by code_simp
    ultimately show ?thesis by (auto simp: hex_digit_def printable_def)
  qed
  moreover have "unat w div 16 < 16" for w :: byte using unat_byte_less [of w] by simp
  ultimately show ?thesis by (auto simp: bytes_hex_def byte_hex_def list_all_iff)
qed

lemma word_pubkey_id: "agent_pubkey_id L k = Inr kid \<Longrightarrow> list_all (\<lambda>c. printable c \<and> c \<noteq> CHR ''?'') kid \<and> kid \<noteq> []"
  using word_hex by (auto simp: agent_pubkey_id_def map_res_eq_Inr printable_def)

lemma printable_no_space: "printable c \<Longrightarrow> \<not> py_isspace c"
  by (auto simp: printable_def py_isspace_def Let_def)

lemma compact_word: "list_all (\<lambda>c. printable c \<and> c \<noteq> CHR ''?'') v \<Longrightarrow> compact_header v = v"
  using printable_no_space by (auto simp: compact_header_def list_all_iff filter_id_conv)

text \<open>
  What the code relies on in the \<^verbatim>\<open>email\<close> package, for the message at hand. The headers \<^verbatim>\<open>X-AoR-...\<close> are
  unstructured: a single word that cannot be an encoded word is kept as it is. A message that is printed and parsed
  has the same text content, and each header comes back up to white space, since a printed header may be folded;
  a word that fits its line of 78 characters is not folded.
\<close>

definition keeps_words :: "mail_libs \<Rightarrow> bool" where
  "keeps_words M \<longleftrightarrow>
     (\<forall>name v. take 6 name = ''X-AoR-'' \<and> list_all (\<lambda>c. printable c \<and> c \<noteq> CHR ''?'') v \<longrightarrow> ml_header_factory M name (JStr v) = Inr v)"

definition unfolded_to :: "string \<Rightarrow> string \<Rightarrow> string \<Rightarrow> bool" where
  "unfolded_to name v v' \<longleftrightarrow>
     compact_header v' = compact_header v \<and> (list_all printable v \<and> length name + 2 + length v \<le> 78 \<longrightarrow> v' = v)"

definition reads_back :: "text_libs \<Rightarrow> mime_message \<Rightarrow> bool" where
  "reads_back X m \<longleftrightarrow>
     (\<exists>m'. parse_message X (message_bytes X m) = Inr m' \<and> \<not> mm_multipart m' \<and> mm_content m' = mm_content m
       \<and> list_all (\<lambda>(name, v). case mime_header m' name of None \<Rightarrow> False | Some v' \<Rightarrow> unfolded_to name v v') (mm_headers m))"

lemma store_header_text: "store_header f name v = Inr h \<Longrightarrow> \<exists>s. h = (name, s) \<and> f name v = Inr s"
  by (auto simp: store_header_def map_res_eq_Inr split: if_splits)

lemma store_header_word:
  assumes "keeps_words M" "take 6 name = ''X-AoR-''" "list_all (\<lambda>c. printable c \<and> c \<noteq> CHR ''?'') v"
  shows "store_header (ml_header_factory M) name (JStr v) = Inr (name, v)"
proof -
  have "length (split_lines v) \<le> 1" using assms(3) by (intro one_line) (auto simp: list_all_iff)
  with assms show ?thesis by (simp add: store_header_def keeps_words_def)
qed

text \<open>The three headers of a signed PoI are words.\<close>

lemma proof_header_words:
  assumes "sign_poi L p k = Inr q" "encode_poi_header L q = Inr hdr" "build_signature_header q = Inr sig"
    "build_agent_cert_header (poi_agent_pubkey_id q) = Inr kid"
  shows "list_all (\<lambda>c. printable c \<and> c \<noteq> CHR ''?'') hdr \<and> list_all (\<lambda>c. printable c \<and> c \<noteq> CHR ''?'') sig
    \<and> list_all (\<lambda>c. printable c \<and> c \<noteq> CHR ''?'') kid \<and> poi_agent_pubkey_id q = Some kid"
proof -
  from assms(1) obtain kid' raw where kid: "agent_pubkey_id L k = Inr kid'"
      "q = p\<lparr>poi_agent_pubkey_id := Some kid', poi_agent_signature := Some (bytes_hex raw)\<rparr>"
    unfolding sign_poi_eq_Inr by blast
  then show ?thesis using assms(2-4) word_urlsafe word_pubkey_id [OF kid(1)]
    by (auto simp: encode_poi_header_def map_res_eq_Inr build_signature_header_def build_agent_cert_header_def hex.dec_enc)
qed

lemma build_email_text:
  assumes "build_email M F (JStr to) (JStr subject) (JStr body) q config JNull key = Inr m"
  shows "\<exists>hdr sig kid t f u mid hdr' sig' kid'. encode_poi_header (ml_crypto M) q = Inr hdr \<and> build_signature_header q = Inr sig
    \<and> build_agent_cert_header (poi_agent_pubkey_id q) = Inr kid
    \<and> ml_header_factory M ''To'' (JStr to) = Inr t \<and> ml_header_factory M ''Subject'' (JStr subject) = Inr u
    \<and> ml_header_factory M ''X-AoR-Proof-of-Intent'' (JStr hdr) = Inr hdr' \<and> ml_header_factory M ''X-AoR-Signature'' (JStr sig) = Inr sig'
    \<and> ml_header_factory M ''X-AoR-Agent-Cert'' (JStr kid) = Inr kid'
    \<and> m = \<lparr>mm_headers = [(''To'', t), (''From'', f), (''Subject'', u), (''Message-ID'', mid), (''X-AoR-Proof-of-Intent'', hdr'),
          (''X-AoR-Signature'', sig'), (''X-AoR-Agent-Cert'', kid')], mm_multipart = False, mm_plain_part = None,
          mm_content = Inr (sent_body body)\<rparr>"
  using assms by (auto simp: build_email_def Let_def res_elims reasoning_headers_def set_content_def sent_body_def
      dest!: store_header_text)

text \<open>What the portal finds in the artifact of such a message.\<close>

lemma parse_built:
  assumes "reads_back X m" "mm_content m = Inr (sent_body body)" "mm_headers m = [(''To'', t), (''From'', f), (''Subject'', u),
      (''Message-ID'', mid), (''X-AoR-Proof-of-Intent'', hdr), (''X-AoR-Signature'', sig), (''X-AoR-Agent-Cert'', kid)]"
    and "mid \<noteq> []" "list_all printable mid" "length mid \<le> 66"
  shows "\<exists>to subject h g c. parse_eml X (message_bytes X m) = Inr \<lparr>pe_action_id = Some mid, pe_to = to, pe_subject = subject,
      pe_body = strip_final_newline (sent_body body), pe_poi_header = Some h, pe_signature_header = Some g,
      pe_agent_cert_header = Some c, pe_action_payload = JObj [(''to'', JStr to), (''subject'', JStr subject),
        (''body'', JStr (strip_final_newline (sent_body body)))]\<rparr>
    \<and> compact_header to = compact_header t \<and> compact_header subject = compact_header u \<and> compact_header h = compact_header hdr
    \<and> compact_header g = compact_header sig \<and> compact_header c = compact_header kid"
proof -
  from assms(1) obtain m' where m': "parse_message X (message_bytes X m) = Inr m'" "\<not> mm_multipart m'" "mm_content m' = mm_content m"
    and l: "list_all (\<lambda>(name, v). case mime_header m' name of None \<Rightarrow> False | Some v' \<Rightarrow> unfolded_to name v v') (mm_headers m)"
    unfolding reads_back_def by blast
  from l obtain to subject mid' h g c where v: "mime_header m' ''To'' = Some to" "unfolded_to ''To'' t to"
      "mime_header m' ''Subject'' = Some subject" "unfolded_to ''Subject'' u subject"
      "mime_header m' ''Message-ID'' = Some mid'" "unfolded_to ''Message-ID'' mid mid'"
      "mime_header m' ''X-AoR-Proof-of-Intent'' = Some h" "unfolded_to ''X-AoR-Proof-of-Intent'' hdr h"
      "mime_header m' ''X-AoR-Signature'' = Some g" "unfolded_to ''X-AoR-Signature'' sig g"
      "mime_header m' ''X-AoR-Agent-Cert'' = Some c" "unfolded_to ''X-AoR-Agent-Cert'' kid c"
    unfolding assms(3) by (auto split: option.splits)
  have "mid' = mid" using v(6) assms(5,6) by (simp add: unfolded_to_def)
  then show ?thesis
    using v m' assms(2,4) by (simp add: parse_eml_def header_text_def body_from_message_def Let_def unfolded_to_def)
qed

lemma mail_files_Inr:
  "mail_files m s = (Inr x, s') \<longleftrightarrow> (\<exists>fs'. m (ms_files s) = (Inr x, fs') \<and> s' = s\<lparr>ms_files := fs'\<rparr>)"
  by (auto simp: mail_files_def zoom_def split: prod.splits)

lemma send_dry_run:
  assumes "send_email_with_proof M smtp F to subject body q config reasoning key s = (Inr mid, s')" "sc_dry_run config"
    "fs_wf (ms_files s)" "resolved (ms_files s) (sc_output_dir config @ [mf_file_name F @ ''.eml''])"
  shows "\<exists>m. build_email M F to subject body q config reasoning key = Inr m \<and> mid = header_text m ''Message-ID''
    \<and> ms_sent s' = ms_sent s
    \<and> stat (ms_files s') (sc_output_dir config @ [mf_file_name F @ ''.eml'']) = Some (FFile (message_bytes (ml_text M) m))"
proof -
  let ?d = "sc_output_dir config" and ?f = "sc_output_dir config @ [mf_file_name F @ ''.eml'']"
  from assms(1,2) obtain m fs1 fs2 where m: "build_email M F to subject body q config reasoning key = Inr m"
    and f: "make_dirs ?d (ms_files s) = (Inr (), fs1)" "write_bytes ?f (message_bytes (ml_text M) m) fs1 = (Inr (), fs2)"
      "mid = header_text m ''Message-ID''" "ms_sent s' = ms_sent s" "ms_files s' = fs2"
    by (auto simp: send_email_with_proof_def Let_def bind_act_eq_Inr lift_res_def mail_files_Inr ret_def)
  have r: "resolved (ms_files s) ?d" using resolved_butlast [OF assms(4)] by simp
  have "stays UNIV (ms_files s) fs1" using make_dirs_stays [OF r, of UNIV] f(1) by simp
  then have r1: "resolved fs1 ?f" using assms(4) by (simp add: stays_resolved)
  have "stays UNIV fs1 fs2" using write_bytes_stays [OF r1, of UNIV "message_bytes (ml_text M) m"] f(2) by simp
  then have "resolved fs2 ?f" using r1 by (simp add: stays_resolved)
  moreover have "node_at fs2 ?f = Some (FFile (message_bytes (ml_text M) m))"
    using f(2) by (auto simp: write_bytes_def locate_resolved [OF r1] node_at_def split: if_splits)
  ultimately show ?thesis using m f by (simp add: stat_resolved)
qed

lemma build_email_total:
  assumes "sign_poi (ml_crypto M) p k = Inr q" "dumps_text (ml_crypto M)" "keeps_words M"
    and "\<forall>(name, v) \<in> {(''To'', to), (''From'', sc_from_address config), (''Subject'', subject), (''Message-ID'', mf_message_id F)}.
      store_header (ml_header_factory M) name (JStr v) = Inr (name, v)"
  shows "\<exists>m. build_email M F (JStr to) (JStr subject) (JStr body) q config JNull key = Inr m \<and> header_text m ''Message-ID'' = mf_message_id F"
proof -
  from assms(1) obtain kid raw where kid: "agent_pubkey_id (ml_crypto M) k = Inr kid"
      "q = p\<lparr>poi_agent_pubkey_id := Some kid, poi_agent_signature := Some (bytes_hex raw)\<rparr>"
    unfolding sign_poi_eq_Inr by blast
  obtain hdr where h: "encode_poi_header (ml_crypto M) q = Inr hdr" using encode_poi_header_total [OF assms(2)] by blast
  have s: "build_signature_header q = Inr (urlsafe_base64_encode raw)" by (simp add: build_signature_header_def kid(2) hex.dec_enc)
  have c: "build_agent_cert_header (poi_agent_pubkey_id q) = Inr kid"
    using word_pubkey_id [OF kid(1)] by (simp add: build_agent_cert_header_def kid(2))
  have w: "store_header (ml_header_factory M) ''X-AoR-Proof-of-Intent'' (JStr hdr) = Inr (''X-AoR-Proof-of-Intent'', hdr)"
    "store_header (ml_header_factory M) ''X-AoR-Signature'' (JStr (urlsafe_base64_encode raw)) = Inr (''X-AoR-Signature'', urlsafe_base64_encode raw)"
    "store_header (ml_header_factory M) ''X-AoR-Agent-Cert'' (JStr kid) = Inr (''X-AoR-Agent-Cert'', kid)"
    using proof_header_words [OF assms(1) h s c] by (simp_all add: store_header_word [OF assms(3)])
  show ?thesis
    using assms(4) by (simp add: build_email_def Let_def h s c w reasoning_headers_def set_content_def header_text_def mime_header_def
        header_names_lower)
qed


text \<open>A delivery of \<open>demo_header_poi\<close> to the directory \<^verbatim>\<open>/out\<close>, with a library that keeps header texts and parses the message.\<close>

definition demo_config :: smtp_config where
  "demo_config = \<lparr>sc_from_address = ''aor@example.test'', sc_host = None, sc_port = 587, sc_username = None,
     sc_password = None, sc_use_starttls = True, sc_use_ssl = False, sc_dry_run = True, sc_output_dir = [''out'']\<rparr>"

definition demo_fresh :: mail_fresh where
  "demo_fresh = \<lparr>mf_message_id = ''<1@aor.local>'', mf_nonce = replicate 12 0, mf_file_name = ''f''\<rparr>"

definition demo_header_factory :: "string \<Rightarrow> json \<Rightarrow> string res" where
  "demo_header_factory name v = (case v of JStr s \<Rightarrow> Inr s | _ \<Rightarrow> Inl (Exc TypeError name))"

definition demo_mail_libs :: "text_libs \<Rightarrow> mail_libs" where
  "demo_mail_libs X = \<lparr>ml_crypto = demo_libs, ml_text = X, ml_aead = demo_aead, ml_header_factory = demo_header_factory\<rparr>"

lemma demo_keeps_words: "keeps_words (demo_mail_libs X)"
  by (simp add: keeps_words_def demo_mail_libs_def demo_header_factory_def)

definition demo_message :: mime_message where
  "demo_message = (case build_email (demo_mail_libs demo_text_libs) demo_fresh (JStr ''bob@example.com'') (JStr ''s'') (JStr ''hi'')
     demo_header_poi demo_config JNull None of Inr m \<Rightarrow> m
     | Inl _ \<Rightarrow> \<lparr>mm_headers = [], mm_multipart = False, mm_plain_part = None, mm_content = Inr []\<rparr>)"

definition demo_mail :: mail_libs where
  "demo_mail = demo_mail_libs (demo_text_libs\<lparr>parse_message := (\<lambda>b. Inr demo_message)\<rparr>)"

lemma demo_build: "build_email demo_mail demo_fresh (JStr ''bob@example.com'') (JStr ''s'') (JStr ''hi'')
     demo_header_poi demo_config JNull None = Inr demo_message \<and> header_text demo_message ''Message-ID'' = ''<1@aor.local>''"
proof -
  have same: "build_email demo_mail F a b c q config JNull None = build_email (demo_mail_libs demo_text_libs) F a b c q config JNull None"
    for F a b c q config by (simp add: build_email_def demo_mail_def demo_mail_libs_def reasoning_headers_def)
  have w: "length (split_lines v) \<le> 1" if "list_all printable v" for v using that by (intro one_line) (auto simp: list_all_iff)
  have t: "\<forall>(name, v) \<in> {(''To'', ''bob@example.com''), (''From'', sc_from_address demo_config), (''Subject'', ''s''),
        (''Message-ID'', mf_message_id demo_fresh)}.
      store_header (ml_header_factory (demo_mail_libs demo_text_libs)) name (JStr v) = Inr (name, v)"
    using w [of "''bob@example.com''"] w [of "''aor@example.test''"] w [of "''s''"] w [of "''<1@aor.local>''"]
    by (simp add: demo_config_def demo_fresh_def demo_mail_libs_def demo_header_factory_def store_header_def printable_def)
  have "ml_crypto (demo_mail_libs demo_text_libs) = demo_libs" by (simp add: demo_mail_libs_def)
  then have "\<exists>m. build_email (demo_mail_libs demo_text_libs) demo_fresh (JStr ''bob@example.com'') (JStr ''s'') (JStr ''hi'')
     demo_header_poi demo_config JNull None = Inr m \<and> header_text m ''Message-ID'' = ''<1@aor.local>''"
    using build_email_total [of "demo_mail_libs demo_text_libs" demo_unsigned_poi demo_sign_key demo_header_poi, OF _ _ demo_keeps_words t]
      demo_header_signed demo_dumps_text by (simp add: demo_fresh_def)
  then show ?thesis by (auto simp: same demo_message_def)
qed

lemma demo_reads_back: "reads_back (ml_text demo_mail) demo_message"
proof -
  from build_email_text [OF conjunct1 [OF demo_build]] obtain t f u mid hdr sig kid where
    d: "demo_message = \<lparr>mm_headers = [(''To'', t), (''From'', f), (''Subject'', u), (''Message-ID'', mid), (''X-AoR-Proof-of-Intent'', hdr),
          (''X-AoR-Signature'', sig), (''X-AoR-Agent-Cert'', kid)], mm_multipart = False, mm_plain_part = None,
          mm_content = Inr (sent_body ''hi'')\<rparr>" by blast
  have "\<not> mm_multipart demo_message" "list_all (\<lambda>(name, v). case mime_header demo_message name of None \<Rightarrow> False | Some v' \<Rightarrow> unfolded_to name v v')
      (mm_headers demo_message)"
    unfolding d by (simp_all add: mime_header_def header_names_lower unfolded_to_def)
  then show ?thesis by (simp add: reads_back_def demo_mail_def demo_mail_libs_def)
qed


end
