(* ===== verification/Action_Executor.thy ===== *)
theory Action_Executor
  imports Smtp_Action Database_Agent
begin

text \<open>
  \<^verbatim>\<open>action_executor/executor.py\<close> and \<^verbatim>\<open>jwt_action.py\<close>: the one place through which actions leave the system.
  The executor's state is the mail state (file system and sent messages) and the database agent, if it was
  given one. The theory proves that no action has an effect without a PoI for exactly its payload, which files and
  messages each route can change, and what the database route executes.
\<close>

section \<open>\<^verbatim>\<open>jwt_action.py\<close>\<close>

type_synonym exec_state = "mail_state \<times> database_agent option"

definition on_mail :: "(mail_state, 'a) act \<Rightarrow> (exec_state, 'a) act" where
  "on_mail m = zoom fst (\<lambda>s (_, d). (s, d)) m"

definition on_database :: "database_agent \<Rightarrow> (db_state, 'a) act \<Rightarrow> (exec_state, 'a) act" where
  "on_database a m = zoom (\<lambda>(s, _). (a, ms_files s)) (\<lambda>(a', fs) (s, _). (s\<lparr>ms_files := fs\<rparr>, Some a')) m"

definition jwt_context :: "json dict \<Rightarrow> json dict" where
  "jwt_context payload =
     [(''database'', get_or_null payload ''database''), (''template'', get_or_null payload ''template''),
      (''params'', case map_of payload ''params'' of None \<Rightarrow> JList [] | Some v \<Rightarrow> v)]"

definition execute_jwt_action ::
  "crypto_libs \<Rightarrow> sqlite_libs \<Rightarrow> path \<Rightarrow> string \<Rightarrow> json dict \<Rightarrow> proof_of_intent option \<Rightarrow> (exec_state, action_result) act"
where
  "execute_jwt_action L Q cwd action payload poi =
     (if action \<noteq> ''db'' then ret (failure ''unsupported_jwt_action_type'')
      else
        bind_act (reads (\<lambda>(_, d). Inr d)) (\<lambda>d.
          case d of
            None \<Rightarrow> ret (failure ''database_agent_required'')
          | Some a \<Rightarrow>
              bind_act (reads (\<lambda>(s, _). db_plan a (ms_files s) ''database query'' (Some (jwt_context payload)))) (\<lambda>plan.
                on_database a (db_execute L Q cwd plan poi))))"

section \<open>\<^verbatim>\<open>executor.py\<close>\<close>

record exec_result =
  er_success :: bool
  er_action_type :: string
  er_action_id :: "string option"
  er_detail :: "string option"

definition exec_failure :: "string \<Rightarrow> string \<Rightarrow> exec_result" where
  "exec_failure action detail =
     \<lparr>er_success = False, er_action_type = action, er_action_id = None, er_detail = Some detail\<rparr>"

text \<open>\<^verbatim>\<open>{action_type, poi.action_type} == {"db", "db.query"}\<close> and the equality of types.\<close>

definition type_accepted :: "string \<Rightarrow> string \<Rightarrow> bool" where
  "type_accepted action poi_type \<longleftrightarrow> action = poi_type \<or> {action, poi_type} = {''db'', ''db.query''}"

lemma type_accepted_code [code]:
  "type_accepted action poi_type \<longleftrightarrow>
     action = poi_type \<or> (action = ''db'' \<and> poi_type = ''db.query'') \<or> (action = ''db.query'' \<and> poi_type = ''db'')"
  by (auto simp: type_accepted_def doubleton_eq_iff)

text \<open>The guards, in the order of the code; without a PoI its first attribute access raises.\<close>

definition executor_refusal ::
  "crypto_libs \<Rightarrow> string \<Rightarrow> json dict \<Rightarrow> proof_of_intent option \<Rightarrow> string option res"
where
  "executor_refusal L action payload poi =
     bind_res (hash_payload L (JObj payload)) (\<lambda>h.
       case poi of
         None \<Rightarrow> Inl (Exc AttributeError ''action_payload_hash'')
       | Some q \<Rightarrow>
           Inr (if bytes_hex h \<noteq> poi_action_payload_hash q then Some ''action_payload_hash_mismatch''
                else if \<not> (case poi_action_type q of None \<Rightarrow> True | Some t \<Rightarrow> type_accepted action t)
                  then Some ''action_type_mismatch''
                else if poi_policy_decision q \<noteq> None \<and> poi_policy_decision q \<noteq> Some ''allow''
                  then Some ''policy_decision_rejected''
                else None))"

definition email_fields :: "string list" where
  "email_fields = [''to'', ''subject'', ''body'']"

definition execute_email ::
  "mail_libs \<Rightarrow> (smtp_session \<Rightarrow> unit res) \<Rightarrow> mail_fresh \<Rightarrow> smtp_config \<Rightarrow> bytes option \<Rightarrow> json dict \<Rightarrow> proof_of_intent
     \<Rightarrow> (exec_state, exec_result) act"
where
  "execute_email M smtp F config key payload q =
     (if \<not> list_all (\<lambda>k. map_of payload k \<noteq> None) email_fields then ret (exec_failure ''email'' ''missing_email_fields'')
      else
        bind_act
          (on_mail (send_email_with_proof M smtp F (get_or_null payload ''to'') (get_or_null payload ''subject'')
             (get_or_null payload ''body'') q config (get_or_null payload ''audit_rationale'') key))
          (\<lambda>mid. ret \<lparr>er_success = True, er_action_type = ''email'', er_action_id = Some mid, er_detail = None\<rparr>))"

text \<open>The agent's result as the executor's.\<close>

definition db_result :: "action_result \<Rightarrow> exec_result" where
  "db_result r =
     \<lparr>er_success = res_success r, er_action_type = ''db'', er_action_id = res_artifact_ref r,
      er_detail = (case map_of (res_details r) ''error'' of Some (JStr s) \<Rightarrow> Some s | _ \<Rightarrow> None)\<rparr>"

definition execute_action ::
  "mail_libs \<Rightarrow> (smtp_session \<Rightarrow> unit res) \<Rightarrow> sqlite_libs \<Rightarrow> path \<Rightarrow> mail_fresh \<Rightarrow> smtp_config \<Rightarrow> bytes option
     \<Rightarrow> string \<Rightarrow> json dict \<Rightarrow> proof_of_intent option \<Rightarrow> (exec_state, exec_result) act"
where
  "execute_action M smtp Q cwd F config key action payload poi =
     bind_act (lift_res (executor_refusal (ml_crypto M) action payload poi)) (\<lambda>refusal.
       case refusal of
         Some detail \<Rightarrow> ret (exec_failure action detail)
       | None \<Rightarrow>
           (case poi of
              None \<Rightarrow> raise_exc (Exc AttributeError ''action_payload_hash'')
            | Some q \<Rightarrow>
                if action = ''email'' then execute_email M smtp F config key payload q
                else if action = ''db''
                  then bind_act (execute_jwt_action (ml_crypto M) Q cwd action payload poi) (\<lambda>r. ret (db_result r))
                else if action = ''trade''
                  then bind_act (execute_jwt_action (ml_crypto M) Q cwd action payload poi)
                    (\<lambda>_. ret (exec_failure action ''unsupported_action_type''))
                else ret (exec_failure action ''unsupported_action_type'')))"

section \<open>What the executor does\<close>

text \<open>A PoI that allows the action: the payload hash, the type and the policy decision.\<close>

definition poi_allows :: "crypto_libs \<Rightarrow> proof_of_intent \<Rightarrow> string \<Rightarrow> json dict \<Rightarrow> bool" where
  "poi_allows L q action payload \<longleftrightarrow>
     (\<exists>h. hash_payload L (JObj payload) = Inr h \<and> poi_action_payload_hash q = bytes_hex h)
     \<and> (\<forall>t. poi_action_type q = Some t \<longrightarrow> type_accepted action t)
     \<and> poi_policy_decision q \<in> {None, Some ''allow''}"

lemma executor_refusal_None:
  "executor_refusal L action payload poi = Inr None \<longleftrightarrow> (\<exists>q. poi = Some q \<and> poi_allows L q action payload)"
proof (cases poi)
  case (Some q)
  then show ?thesis
    by (cases "hash_payload L (JObj payload)"; cases "poi_action_type q"; cases "poi_policy_decision q")
      (auto simp: executor_refusal_def poi_allows_def)
qed (auto simp: executor_refusal_def bind_res_eq_Inr)

lemma db_action_type_query: "db_action_type_from_request (active_request ''database query'') = ''db.query''"
  by code_simp

lemma json_or_str: "json_or (JStr (c # s)) b = JStr (c # s)"
  by (simp add: json_or_def)

text \<open>The plan the database route makes is a query with the three values of the payload.\<close>

lemma jwt_plan:
  assumes "db_plan a fs ''database query'' (Some (jwt_context payload)) = Inr plan"
  shows "ap_action_type plan = ''db.query'' \<and> (\<exists>d t. map_of (ap_payload plan) ''database'' = Some d
    \<and> map_of (ap_payload plan) ''template'' = Some t \<and> ap_payload plan = [(''database'', d), (''template'', t),
         (''params'', case map_of payload ''params'' of None \<Rightarrow> JList [] | Some v \<Rightarrow> v)]
    \<and> (truthy (get_or_null payload ''database'') \<longrightarrow> d = get_or_null payload ''database'')
    \<and> (truthy (get_or_null payload ''template'') \<longrightarrow> t = get_or_null payload ''template''))"
proof -
  have t: "json_or (get_or_null (jwt_context payload) ''action_type'')
      (JStr (db_action_type_from_request (active_request ''database query''))) = JStr ''db.query''"
    unfolding db_action_type_query by (simp add: json_or_def get_or_null_def jwt_context_def)
  have "plan_query a (jwt_context payload) (active_request ''database query'') = Inr plan"
    using assms t by (simp add: db_plan_def Let_def split: if_splits)
  then show ?thesis
    by (auto simp: plan_query_def Let_def res_elims make_plan_def validate_plan_def json_or_def
        get_or_null_def jwt_context_def split: if_splits)
qed

text \<open>What the database route may change: the files that the query URIs of the agent's databases open for writing.\<close>

definition query_reach :: "sqlite_libs \<Rightarrow> path \<Rightarrow> database_agent option \<Rightarrow> file_system \<Rightarrow> path set" where
  "query_reach Q cwd d fs = (case d of None \<Rightarrow> {} | Some a \<Rightarrow> query_targets Q cwd a fs)"

definition database_moves :: "sqlite_libs \<Rightarrow> path \<Rightarrow> exec_state \<Rightarrow> exec_state \<Rightarrow> bool" where
  "database_moves Q cwd s s' \<longleftrightarrow>
     snd s' = snd s \<and> ms_sent (fst s') = ms_sent (fst s)
     \<and> stays (query_reach Q cwd (snd s) (ms_files (fst s))) (ms_files (fst s)) (ms_files (fst s'))
     \<and> ((\<forall>a. snd s = Some a \<longrightarrow> plain_databases a) \<longrightarrow> s' = s)"

lemma database_moves_refl [simp]: "database_moves Q cwd s s"
  by (simp add: database_moves_def)

lemma on_database_moves:
  assumes "ap_action_type plan = ''db.query''" "db_wf (a, ms_files s)"
  shows "database_moves Q cwd (s, Some a) (snd (on_database a (db_execute L Q cwd plan poi) (s, Some a)))"
proof -
  let ?fs = "ms_files s"
  obtain r a' fs' where e: "db_execute L Q cwd plan poi (a, ?fs) = (r, (a', fs'))" by (metis surj_pair)
  have run: "snd (db_run L Q cwd plan (a, ?fs)) = snd (run_query L Q cwd plan (a, ?fs))"
    using assms(1) by (simp add: db_run_def catching_run)
  have "(a', fs') = (a, ?fs) \<or> (a', fs') = snd (run_query L Q cwd plan (a, ?fs))"
    using db_execute_cases [of L Q cwd plan poi a ?fs] run unfolding e snd_conv by (metis snd_conv)
  moreover have "fst (snd (run_query L Q cwd plan (a, ?fs))) = a"
      "stays (query_targets Q cwd a ?fs) ?fs (snd (snd (run_query L Q cwd plan (a, ?fs))))"
    using run_query_moves [of ?fs Q cwd a L plan] assms(2) by (simp_all add: db_moves_def db_wf_def)
  moreover have "snd (snd (run_query L Q cwd plan (a, ?fs))) = ?fs" if "plain_databases a"
    using run_query_plain [OF that, of L Q cwd plan ?fs] by simp
  ultimately have "a' = a \<and> stays (query_targets Q cwd a ?fs) ?fs fs' \<and> (plain_databases a \<longrightarrow> fs' = ?fs)"
    by (cases "snd (run_query L Q cwd plan (a, ?fs))") auto
  then show ?thesis by (simp add: on_database_def zoom_def e database_moves_def query_reach_def)
qed

lemma execute_action_pass:
  assumes "executor_refusal (ml_crypto M) action payload (Some q) = Inr None"
  shows "execute_action M smtp Q cwd F config key action payload (Some q) s =
    (if action = ''email'' then execute_email M smtp F config key payload q s
     else if action = ''db'' then bind_act (execute_jwt_action (ml_crypto M) Q cwd action payload (Some q)) (\<lambda>r. ret (db_result r)) s
     else if action = ''trade'' then bind_act (execute_jwt_action (ml_crypto M) Q cwd action payload (Some q))
       (\<lambda>_. ret (exec_failure action ''unsupported_action_type'')) s
     else ret (exec_failure action ''unsupported_action_type'') s)"
  by (simp add: execute_action_def bind_act_lift assms)

lemma execute_action_refuse:
  "executor_refusal (ml_crypto M) action payload poi = Inr (Some detail) \<Longrightarrow>
     execute_action M smtp Q cwd F config key action payload poi s = (Inr (exec_failure action detail), s)"
  by (simp add: execute_action_def bind_act_lift ret_def)

lemma execute_jwt_moves:
  assumes "\<And>a. snd s = Some a \<Longrightarrow> db_wf (a, ms_files (fst s))"
  shows "database_moves Q cwd s (snd (execute_jwt_action L Q cwd action payload poi s))"
proof (cases "action = ''db''")
  case True
  obtain m d where s: "s = (m, d)" by (cases s)
  show ?thesis
  proof (cases d)
    case (Some a)
    show ?thesis
    proof (cases "db_plan a (ms_files m) ''database query'' (Some (jwt_context payload))")
      case (Inr plan)
      then have "ap_action_type plan = ''db.query''" using jwt_plan by blast
      from on_database_moves [OF this, of a m Q cwd L poi] Inr Some True assms show ?thesis
        by (simp add: execute_jwt_action_def bind_act_reads s)
    qed (simp add: execute_jwt_action_def bind_act_reads True Some s)
  qed (simp add: execute_jwt_action_def bind_act_reads True ret_def s)
qed (simp add: execute_jwt_action_def ret_def)

lemma execute_jwt_other: "action \<noteq> ''db'' \<Longrightarrow> snd (execute_jwt_action L Q cwd action payload poi s) = s"
  by (simp add: execute_jwt_action_def ret_def)

lemma execute_action_cases:
  assumes "execute_action M smtp Q cwd F config key action payload poi s = (r, s')"
  shows "(s' = s \<and> (\<forall>x. r = Inr x \<longrightarrow> \<not> er_success x))
    \<or> (\<exists>q. poi = Some q \<and> poi_allows (ml_crypto M) q action payload
        \<and> ((action = ''email'' \<and> execute_email M smtp F config key payload q s = (r, s'))
           \<or> (action = ''db'' \<and> s' = snd (execute_jwt_action (ml_crypto M) Q cwd action payload poi s)
              \<and> r = map_res db_result (fst (execute_jwt_action (ml_crypto M) Q cwd action payload poi s)))))"
proof (cases "executor_refusal (ml_crypto M) action payload poi")
  case (Inl e)
  with assms show ?thesis by (auto simp: execute_action_def bind_act_lift)
next
  case (Inr refusal)
  show ?thesis
  proof (cases refusal)
    case None
    with Inr obtain q where q: "poi = Some q" "poi_allows (ml_crypto M) q action payload"
      using executor_refusal_None by metis
    note run = execute_action_pass [OF Inr [unfolded None q(1)]]
    consider "action = ''email''" | "action = ''db''" | "action \<noteq> ''email''" "action \<noteq> ''db''" by blast
    then show ?thesis
    proof cases
      case 1
      with assms q run show ?thesis by simp
    next
      case 2
      have "(r, s') = bind_act (execute_jwt_action (ml_crypto M) Q cwd action payload poi) (\<lambda>r. ret (db_result r)) s"
        using assms run 2 q(1) by simp
      then have "r = map_res db_result (fst (execute_jwt_action (ml_crypto M) Q cwd action payload poi s))"
          "s' = snd (execute_jwt_action (ml_crypto M) Q cwd action payload poi s)"
        unfolding bind_act_ret by simp_all
      with 2 q show ?thesis by blast
    next
      case 3
      have f: "\<not> er_success (exec_failure action ''unsupported_action_type'')" by (simp add: exec_failure_def)
      have "(r, s') = bind_act (execute_jwt_action (ml_crypto M) Q cwd action payload poi)
            (\<lambda>_. ret (exec_failure action ''unsupported_action_type'')) s
          \<or> (r, s') = (Inr (exec_failure action ''unsupported_action_type''), s)"
        using assms 3 unfolding q(1) run by (cases "action = ''trade''") (simp_all add: ret_def)
      then show ?thesis
        using f execute_jwt_other [OF 3(2), of "ml_crypto M" Q cwd payload poi s]
        unfolding bind_act_ret by (auto simp: map_res_eq_Inr)
    qed
  next
    case (Some detail)
    have "(r, s') = (Inr (exec_failure action detail), s)"
      using assms execute_action_refuse [OF Inr [unfolded Some]] by simp
    then show ?thesis by (simp add: exec_failure_def)
  qed
qed

text \<open>The paths that a dry run may write.\<close>

definition outbox_paths :: "mail_fresh \<Rightarrow> smtp_config \<Rightarrow> path set" where
  "outbox_paths F config = {q. \<exists>k. q = take k (sc_output_dir config @ [mf_file_name F @ ''.eml''])}"

definition mail_moves :: "mail_fresh \<Rightarrow> smtp_config \<Rightarrow> mail_state \<Rightarrow> mail_state \<Rightarrow> bool" where
  "mail_moves F config s s' \<longleftrightarrow>
     (if sc_dry_run config then stays (outbox_paths F config) (ms_files s) (ms_files s') \<and> ms_sent s' = ms_sent s
      else ms_files s' = ms_files s \<and> (\<exists>new. ms_sent s' = ms_sent s @ new))"

lemma mail_moves_order: "mail_moves F config s s" "transp (mail_moves F config)"
proof -
  show "mail_moves F config s s" by (simp add: mail_moves_def)
  show "transp (mail_moves F config)"
    using stays_order(2) [of "outbox_paths F config"] by (fastforce simp: mail_moves_def transp_def)
qed

lemma send_email_moves:
  assumes "resolved (ms_files s) (sc_output_dir config @ [mf_file_name F @ ''.eml''])"
  shows "mail_moves F config s (snd (send_email_with_proof M smtp F to subject body q config reasoning key s))"
proof (cases "build_email M F to subject body q config reasoning key")
  case (Inr m)
  let ?d = "sc_output_dir config" and ?f = "sc_output_dir config @ [mf_file_name F @ ''.eml'']"
  show ?thesis
  proof (cases "sc_dry_run config")
    case True
    have zoomed: "mail_moves F config t (snd (mail_files n t))" if "stays (outbox_paths F config) (ms_files t) (snd (n (ms_files t)))"
      for n :: "(file_system, unit) act" and t
      using that by (auto simp: mail_moves_def mail_files_def zoom_def True split: prod.split)
    have "mail_moves F config s (snd (bind_act (mail_files (make_dirs ?d)) (\<lambda>_. bind_act (mail_files (write_bytes ?f (message_bytes (ml_text M) m))) (\<lambda>_. ret (header_text m ''Message-ID''))) s))"
    proof (rule bind_act_run [OF mail_moves_order(2)])
      have "resolved (ms_files s) ?d" using resolved_butlast [OF assms] by simp
      moreover have "take k ?d \<in> outbox_paths F config" for k
      proof -
        have "take k ?d = take (min k (length ?d)) ?f" by (cases "k \<le> length ?d") (simp_all add: min_def)
        then show ?thesis unfolding outbox_paths_def by blast
      qed
      ultimately show "mail_moves F config s (snd (mail_files (make_dirs ?d) s))"
        by (intro zoomed make_dirs_stays) auto
      fix x t assume "mail_moves F config s t"
      then have "resolved (ms_files t) ?f" using assms True stays_resolved [of "outbox_paths F config" "ms_files s" "ms_files t"] by (simp add: mail_moves_def)
      moreover have "?f \<in> outbox_paths F config"
        unfolding outbox_paths_def by (rule CollectI, rule exI [of _ "length ?f"]) simp
      ultimately have "mail_moves F config t (snd (mail_files (write_bytes ?f (message_bytes (ml_text M) m)) t))"
        by (intro zoomed write_bytes_stays)
      then show "mail_moves F config t (snd (bind_act (mail_files (write_bytes ?f (message_bytes (ml_text M) m))) (\<lambda>_. ret (header_text m ''Message-ID'')) t))"
        by (simp only: bind_act_ret snd_conv)
    qed
    with Inr True show ?thesis by (simp add: send_email_with_proof_def bind_act_lift)
  next
    case False
    then show ?thesis
      by (cases "sc_host config")
        (auto simp: send_email_with_proof_def bind_act_lift Inr raise_exc_def mail_moves_def deliver_def act_defs split: sum.split)
  qed
qed (simp add: send_email_with_proof_def bind_act_lift mail_moves_order(1))

lemma execute_email_moves:
  assumes "resolved (ms_files m) (sc_output_dir config @ [mf_file_name F @ ''.eml''])"
    "execute_email M smtp F config key payload q (m, d) = (r, (m', d'))"
  shows "mail_moves F config m m' \<and> d' = d"
proof (cases "list_all (\<lambda>k. map_of payload k \<noteq> None) email_fields")
  case True
  with assms(2) have "(m', d') = (snd (send_email_with_proof M smtp F (get_or_null payload ''to'') (get_or_null payload ''subject'')
             (get_or_null payload ''body'') q config (get_or_null payload ''audit_rationale'') key m), d)"
    by (auto simp: execute_email_def bind_act_def on_mail_def zoom_def ret_def split: prod.splits sum.splits)
  then show ?thesis using send_email_moves [OF assms(1)] by simp
qed (use assms(2) in \<open>auto simp: execute_email_def ret_def mail_moves_order(1)\<close>)

lemma jwt_bound:
  assumes "snd (execute_jwt_action L Q cwd ''db'' payload (Some q) (m, d)) \<noteq> (m, d)
    \<or> (\<exists>x. fst (execute_jwt_action L Q cwd ''db'' payload (Some q) (m, d)) = Inr x \<and> res_success x)"
  shows "\<exists>a plan. d = Some a \<and> db_plan a (ms_files m) ''database query'' (Some (jwt_context payload)) = Inr plan \<and> authorises L q plan"
proof -
  from assms obtain a where a: "d = Some a"
    by (cases d) (auto simp: execute_jwt_action_def bind_act_reads ret_def failure_def)
  from assms a obtain plan where p: "db_plan a (ms_files m) ''database query'' (Some (jwt_context payload)) = Inr plan"
    by (cases "db_plan a (ms_files m) ''database query'' (Some (jwt_context payload))")
      (auto simp: execute_jwt_action_def bind_act_reads)
  obtain r s' where e: "db_execute L Q cwd plan (Some q) (a, ms_files m) = (r, s')" by (metis surj_pair)
  have "s' \<noteq> (a, ms_files m) \<or> (\<exists>x. r = Inr x \<and> res_success x)"
    using assms by (cases s') (auto simp: execute_jwt_action_def bind_act_reads a p on_database_def zoom_def e)
  then have "authorises L q plan" using db_execute_bound [OF e] by auto
  with a p show ?thesis by blast
qed

lemma execute_action_bound:
  assumes "execute_action M smtp Q cwd F config key action payload poi s = (r, s')"
    "s' \<noteq> s \<or> (\<exists>x. r = Inr x \<and> er_success x)"
  shows "\<exists>q. poi = Some q \<and> poi_allows (ml_crypto M) q action payload \<and> (action = ''email'' \<or> action = ''db'')"
  using execute_action_cases [OF assms(1)] assms(2) by auto


text \<open>The query of the database agent's demonstration, through the executor.\<close>

definition demo_mail_state :: mail_state where
  "demo_mail_state = \<lparr>ms_files = demo_db_files, ms_sent = []\<rparr>"

lemma demo_query_planned:
  "db_plan demo_db_agent demo_db_files ''database query'' (Some (jwt_context demo_query_payload)) = Inr demo_query_plan"
  by code_simp


end
