(* ===== verification/Email_Agent.thy ===== *)
theory Email_Agent
  imports Action_Executor
begin

text \<open>
  \<^verbatim>\<open>aor/agents/email.py\<close> and \<^verbatim>\<open>verifier_service/agent_runtime.py\<close>: the validated e-mail action, the agent that
  plans one from a request and executes it through the executor, and the facade the service calls. The
  theory proves exactly when planning succeeds, that a planned recipient is one address without whitespace,
  and that the agent is bound to the PoI.
\<close>

section \<open>\<^verbatim>\<open>EmailAction\<close>\<close>

record email_action =
  ea_to :: string
  ea_subject :: string
  ea_body :: string

text \<open>\<^verbatim>\<open>[^@\s]+@[^@\s]+\.[A-Za-z]{2,}\<close>.\<close>

definition plain_char :: "char \<Rightarrow> bool" where
  "plain_char c \<longleftrightarrow> c \<noteq> CHR ''@'' \<and> \<not> py_isspace c"

definition address_rx :: rx where
  "address_rx =
     RSeq (plus (RChr plain_char)) (RSeq (chr CHR ''@'') (RSeq (plus (RChr plain_char)) (RSeq (chr CHR ''.'')
       (RSeq (RChr alpha_char) (plus (RChr alpha_char))))))"

definition validate_recipient :: "string \<Rightarrow> string res" where
  "validate_recipient v =
     (if re_fullmatch address_rx (strip v) then Inr (strip v)
      else Inl (Exc ValueError ''to must be a single valid email address''))"

definition trim_text :: "string \<Rightarrow> string res" where
  "trim_text v = (if strip v = [] then Inl (Exc ValueError ''text fields cannot be empty'') else Inr (strip v))"

definition between :: "nat \<Rightarrow> nat \<Rightarrow> string \<Rightarrow> bool" where
  "between a b s \<longleftrightarrow> a \<le> length s \<and> length s \<le> b"

definition as_validation :: "'a res \<Rightarrow> 'a res" where
  "as_validation r = (case r of Inl e \<Rightarrow> Inl (Exc ValidationError ''EmailAction'') | Inr x \<Rightarrow> Inr x)"

text \<open>\<^verbatim>\<open>EmailAction(to=..., subject=..., body=...)\<close>: the length bounds are checked on the given texts.\<close>

definition make_email_action :: "string \<Rightarrow> string \<Rightarrow> string \<Rightarrow> email_action res" where
  "make_email_action to subject body =
     (if \<not> (between 3 320 to \<and> between 1 200 subject \<and> between 1 20000 body)
      then Inl (Exc ValidationError ''EmailAction'')
      else as_validation (bind_res (validate_recipient to) (\<lambda>t. bind_res (trim_text subject) (\<lambda>s.
        map_res (\<lambda>b. \<lparr>ea_to = t, ea_subject = s, ea_body = b\<rparr>) (trim_text body)))))"

definition email_payload :: "email_action \<Rightarrow> json dict" where
  "email_payload e = [(''to'', JStr (ea_to e)), (''subject'', JStr (ea_subject e)), (''body'', JStr (ea_body e))]"

section \<open>\<^verbatim>\<open>EmailAgent\<close>\<close>

record email_agent =
  em_id :: string
  em_config :: smtp_config
  em_key :: "bytes option"

text \<open>\<^verbatim>\<open>SMTPConfig()\<close>; \<open>cwd\<close> is the working directory.\<close>

definition default_smtp_config :: "path \<Rightarrow> smtp_config" where
  "default_smtp_config cwd = \<lparr>sc_from_address = ''aor@example.test'', sc_host = None, sc_port = 587, sc_username = None,
     sc_password = None, sc_use_starttls = True, sc_use_ssl = False, sc_dry_run = True,
     sc_output_dir = cwd @ [''.aor_outbox'']\<rparr>"

definition new_email_agent :: "path \<Rightarrow> smtp_config option \<Rightarrow> bytes option \<Rightarrow> string \<Rightarrow> email_agent res" where
  "new_email_agent cwd config key aid =
     map_res (\<lambda>_. \<lparr>em_id = aid, em_config = (case config of None \<Rightarrow> default_smtp_config cwd | Some c \<Rightarrow> c), em_key = key\<rparr>)
       (check_agent (Some aid) ''email'')"

definition email_can_handle :: "string \<Rightarrow> bool" where
  "email_can_handle request \<longleftrightarrow>
     nonblank request \<and> re_found (word_of [''send'', ''email'', ''mail'', ''reply'', ''forward'']) request"

text \<open>\<^verbatim>\<open>[\w.+-]+@[\w.-]+\.[A-Za-z]{2,}\<close>.\<close>

definition local_char :: "char \<Rightarrow> bool" where
  "local_char c \<longleftrightarrow> word_char c \<or> c = CHR ''.'' \<or> c = CHR ''+'' \<or> c = CHR ''-''"

definition domain_char :: "char \<Rightarrow> bool" where
  "domain_char c \<longleftrightarrow> word_char c \<or> c = CHR ''.'' \<or> c = CHR ''-''"

definition recipient_rx :: rx where
  "recipient_rx =
     RSeq (plus (RChr local_char)) (RSeq (chr CHR ''@'') (RSeq (plus (RChr domain_char)) (RSeq (chr CHR ''.'')
       (RSeq (RChr alpha_char) (plus (RChr alpha_char))))))"

definition recipient_of :: "string \<Rightarrow> string" where
  "recipient_of request =
     (case re_search recipient_rx request of None \<Rightarrow> ''bob@example.com'' | Some m \<Rightarrow> mr_text m)"

definition plan_email :: "string \<Rightarrow> email_action res" where
  "plan_email request =
     (if \<not> nonblank request then Inl (Exc AgentRuntimeError ''agent_prompt_empty'')
      else make_email_action (recipient_of request) ''Approved project update'' (strip request))"

definition email_plan :: "email_agent \<Rightarrow> string \<Rightarrow> json dict option \<Rightarrow> action_plan res" where
  "email_plan a request context =
     bind_res (plan_email request) (\<lambda>action. make_plan ''email'' (em_id a) ''email'' (email_payload action) False)"

text \<open>The executor the agent makes has no database agent, hence no SQLite to call.\<close>

definition no_sqlite :: sqlite_libs where
  "no_sqlite = \<lparr>has_table = (\<lambda>b t. Inr False), run_statement = (\<lambda>b sql. Inr b), run_select = (\<lambda>w b sql v. (Inr [], b)),
     vfs_storage = (\<lambda>s. None)\<rparr>"

definition email_result :: "exec_result \<Rightarrow> action_result" where
  "email_result r =
     \<lparr>res_success = er_success r, res_artifact_ref = er_action_id r,
      res_details = [(''action_type'', JStr (er_action_type r)), (''detail'', opt_json (er_detail r))],
      res_observed_effect = (case er_action_id r of
          None \<Rightarrow> [] | Some mid \<Rightarrow> if mid = [] then [] else [(''message_id'', JStr mid)])\<rparr>"

definition email_execute ::
  "mail_libs \<Rightarrow> (smtp_session \<Rightarrow> unit res) \<Rightarrow> mail_fresh \<Rightarrow> email_agent \<Rightarrow> action_plan \<Rightarrow> proof_of_intent option
     \<Rightarrow> (mail_state, action_result) act"
where
  "email_execute M smtp F a p poi =
     (if ap_agent_type p \<noteq> ''email'' then ret (failure ''agent_type_mismatch'')
      else if ap_action_type p \<noteq> ''email'' then ret (failure ''unsupported_action_type'')
      else
        zoom (\<lambda>s. (s, None)) (\<lambda>(s, _) _. s)
          (bind_act
            (execute_action M smtp no_sqlite [] F (em_config a) (em_key a) (ap_action_type p) (ap_payload p) poi)
            (\<lambda>r. ret (email_result r))))"

section \<open>\<^verbatim>\<open>agent_runtime.py\<close>\<close>

definition runtime_plan_email :: "email_agent \<Rightarrow> string \<Rightarrow> email_action res" where
  "runtime_plan_email a prompt = plan_email prompt"

definition runtime_plan_action :: "email_agent \<Rightarrow> string \<Rightarrow> json dict option \<Rightarrow> action_plan res" where
  "runtime_plan_action a prompt context = email_plan a prompt context"

section \<open>Recipients\<close>

lemma spells_top_level: "spells (RSeq (RChr alpha_char) (plus (RChr alpha_char))) w \<longleftrightarrow> 2 \<le> length w \<and> list_all alpha_char w"
proof
  assume "2 \<le> length w \<and> list_all alpha_char w"
  then obtain c v where "w = [c] @ v" "alpha_char c" "v \<noteq> []" "list_all alpha_char v"
    by (cases w; cases "tl w") auto
  then show "spells (RSeq (RChr alpha_char) (plus (RChr alpha_char))) w"
    by (metis spells.chr spells.seq spells_plus_chr)
qed (auto simp: spells_plus_chr Suc_le_eq)

text \<open>The two patterns for addresses have one form, with the characters of its parts as parameters.\<close>

lemma spells_mail:
  "spells (RSeq (plus (RChr P)) (RSeq (chr CHR ''@'') (RSeq (plus (RChr Q)) (RSeq (chr CHR ''.'') r)))) s \<longleftrightarrow>
     (\<exists>u v w. s = u @ ''@'' @ v @ ''.'' @ w \<and> u \<noteq> [] \<and> list_all P u \<and> v \<noteq> [] \<and> list_all Q v \<and> spells r w)"
  (is "?l \<longleftrightarrow> ?r")
proof
  assume ?r
  then obtain u v w where s: "s = u @ ''@'' @ v @ ''.'' @ w" "spells (plus (RChr P)) u" "spells (plus (RChr Q)) v" "spells r w"
    by (auto simp: spells_plus_chr)
  show ?l unfolding s(1) using s(2-) by (intro spells.seq) simp_all
qed (auto simp: spells_plus_chr)

lemma spells_address:
  "spells address_rx s \<longleftrightarrow>
     (\<exists>u v w. s = u @ ''@'' @ v @ ''.'' @ w \<and> u \<noteq> [] \<and> list_all plain_char u \<and> v \<noteq> [] \<and> list_all plain_char v
        \<and> 2 \<le> length w \<and> list_all alpha_char w)"
  unfolding address_rx_def spells_mail spells_top_level ..

lemma address_plain: "no_assertions address_rx"
  by (simp add: address_rx_def plus_def)

lemma recipient_plain: "no_assertions recipient_rx"
  by (simp add: recipient_rx_def plus_def)

lemma local_plain: "local_char c \<Longrightarrow> plain_char c" and domain_plain: "domain_char c \<Longrightarrow> plain_char c"
  and alpha_plain: "alpha_char c \<Longrightarrow> plain_char c"
  by (auto simp: local_char_def domain_char_def alpha_char_def word_char_def plain_char_def py_isspace_def Let_def)

lemma spells_recipient: "spells recipient_rx s \<Longrightarrow> spells address_rx s"
proof -
  have m: "list_all Q u" if "list_all P u" "\<And>c. P c \<Longrightarrow> Q c" for P Q and u :: string
    using that by (auto simp: list_all_iff)
  assume "spells recipient_rx s"
  then show ?thesis
    unfolding recipient_rx_def address_rx_def spells_mail
    using m [of local_char _ plain_char] m [of domain_char _ plain_char] local_plain domain_plain by blast
qed

text \<open>An address: one sign \<^verbatim>\<open>@\<close>, no whitespace, at least five characters.\<close>

definition one_address :: "string \<Rightarrow> bool" where
  "one_address s \<longleftrightarrow>
     list_all (\<lambda>c. \<not> py_isspace c) s \<and> length (filter (\<lambda>c. c = CHR ''@'') s) = 1 \<and> 6 \<le> length s"

lemma spells_one_address: "spells address_rx s \<Longrightarrow> one_address s"
proof -
  assume "spells address_rx s"
  then obtain u v w where s: "s = u @ ''@'' @ v @ ''.'' @ w" "u \<noteq> []" "list_all plain_char u" "v \<noteq> []" "list_all plain_char v"
      "2 \<le> length w" "list_all plain_char w"
    unfolding spells_address using alpha_plain by (auto simp: list_all_iff)
  have f: "filter (\<lambda>c. c = CHR ''@'') x = []" if "list_all plain_char x" for x
    using that by (auto simp: list_all_iff plain_char_def filter_empty_conv)
  have n: "list_all (\<lambda>c. \<not> py_isspace c) x" if "list_all plain_char x" for x
    using that by (auto simp: list_all_iff plain_char_def)
  have p: "\<not> py_isspace CHR ''@''" "\<not> py_isspace CHR ''.''" by (simp_all add: py_isspace_def)
  have "length u \<ge> 1" "length v \<ge> 1" using s(2,4) by (simp_all add: Suc_le_eq)
  then show ?thesis
    using s(6) f [OF s(3)] f [OF s(5)] f [OF s(7)] n [OF s(3)] n [OF s(5)] n [OF s(7)] p
    by (simp add: one_address_def s(1))
qed

lemma strip_no_space: "list_all (\<lambda>c. \<not> py_isspace c) s \<Longrightarrow> strip s = s"
proof -
  have d: "dropWhile py_isspace u = u" if "list_all (\<lambda>c. \<not> py_isspace c) u" for u using that by (cases u) auto
  assume "list_all (\<lambda>c. \<not> py_isspace c) s"
  then show "strip s = s" using d [of s] d [of "rev s"] by (simp add: strip_def)
qed

lemma make_email_action_Inr:
  "make_email_action to subject body = Inr e \<Longrightarrow>
     e = \<lparr>ea_to = strip to, ea_subject = strip subject, ea_body = strip body\<rparr> \<and> spells address_rx (strip to)
     \<and> strip subject \<noteq> [] \<and> strip body \<noteq> [] \<and> between 3 320 to \<and> between 1 200 subject \<and> between 1 20000 body"
  by (auto simp: make_email_action_def as_validation_def validate_recipient_def trim_text_def res_elims
      re_fullmatch_iff [OF address_plain] split: if_splits sum.splits)

lemma make_email_action_ok:
  "spells address_rx (strip to) \<Longrightarrow> strip subject \<noteq> [] \<Longrightarrow> strip body \<noteq> [] \<Longrightarrow> between 3 320 to \<Longrightarrow> between 1 200 subject
     \<Longrightarrow> between 1 20000 body \<Longrightarrow>
     make_email_action to subject body = Inr \<lparr>ea_to = strip to, ea_subject = strip subject, ea_body = strip body\<rparr>"
  by (simp add: make_email_action_def as_validation_def validate_recipient_def trim_text_def
      re_fullmatch_iff [OF address_plain])

lemma recipient_of_address: "spells address_rx (recipient_of request)"
proof (cases "re_search recipient_rx request")
  case None
  have "re_fullmatch address_rx ''bob@example.com''" by code_simp
  with None show ?thesis by (simp add: recipient_of_def re_fullmatch_iff [OF address_plain])
next
  case (Some m)
  then show ?thesis using re_search_spells spells_recipient by (fastforce simp: recipient_of_def)
qed

section \<open>Planning\<close>

lemma strip_subject: "strip ''Approved project update'' = ''Approved project update''"
  by code_simp

lemma plan_email_cases:
  assumes "nonblank request"
  shows "plan_email request =
    (if length (strip request) \<le> 20000 \<and> length (recipient_of request) \<le> 320
     then Inr \<lparr>ea_to = recipient_of request, ea_subject = ''Approved project update'', ea_body = strip request\<rparr>
     else Inl (Exc ValidationError ''EmailAction''))"
proof -
  have a: "spells address_rx (recipient_of request)" by (rule recipient_of_address)
  have o: "one_address (recipient_of request)" using spells_one_address [OF a] .
  then have s: "strip (recipient_of request) = recipient_of request" by (simp add: one_address_def strip_no_space)
  have b: "strip request \<noteq> []" using assms by (simp add: nonblank_def)
  show ?thesis
  proof (cases "length (strip request) \<le> 20000 \<and> length (recipient_of request) \<le> 320")
    case True
    have "make_email_action (recipient_of request) ''Approved project update'' (strip request)
        = Inr \<lparr>ea_to = strip (recipient_of request), ea_subject = strip ''Approved project update'', ea_body = strip (strip request)\<rparr>"
      by (rule make_email_action_ok) (use a b o s True in \<open>auto simp: strip_subject between_def one_address_def Suc_le_eq\<close>)
    with assms True s show ?thesis by (simp add: plan_email_def strip_subject)
  next
    case False
    then have "make_email_action (recipient_of request) ''Approved project update'' (strip request) = Inl (Exc ValidationError ''EmailAction'')"
      by (auto simp: make_email_action_def between_def)
    with assms False show ?thesis by (auto simp: plan_email_def)
  qed
qed

text \<open>
  C25: planning an e-mail, exactly. A blank request raises \<^verbatim>\<open>AgentRuntimeError\<close>; any other request is planned
  exactly if its trimmed text has at most 20000 and the recipient at most 320 characters, and then the plan is
  allowed, unconfirmed, and carries as payload the recipient found in the request (or the demo recipient), the
  fixed subject and the trimmed request; in every other case a pydantic \<^verbatim>\<open>ValidationError\<close> is raised, which is
  no \<^verbatim>\<open>AgentRuntimeError\<close>. The recipient of a plan always contains exactly one \<^verbatim>\<open>@\<close> and no whitespace, so no
  request can inject a header or a second recipient.
\<close>

theorem email_plan_exact:
  assumes "em_id a \<noteq> []"
  shows "email_plan a request context =
      (if \<not> nonblank request then Inl (Exc AgentRuntimeError ''agent_prompt_empty'')
       else if length (strip request) \<le> 20000 \<and> length (recipient_of request) \<le> 320
       then Inr \<lparr>ap_agent_type = ''email'', ap_agent_id = Some (em_id a), ap_action_type = ''email'',
         ap_payload = [(''to'', JStr (recipient_of request)), (''subject'', JStr ''Approved project update''),
                       (''body'', JStr (strip request))],
         ap_requires_confirmation = False, ap_confirmed = False, ap_policy_decision = ''allow''\<rparr>
       else Inl (Exc ValidationError ''EmailAction''))
    \<and> one_address (recipient_of request)"
proof
  have p: "strip ''allow'' = ''allow''" by code_simp
  show "email_plan a request context =
      (if \<not> nonblank request then Inl (Exc AgentRuntimeError ''agent_prompt_empty'')
       else if length (strip request) \<le> 20000 \<and> length (recipient_of request) \<le> 320
       then Inr \<lparr>ap_agent_type = ''email'', ap_agent_id = Some (em_id a), ap_action_type = ''email'',
         ap_payload = [(''to'', JStr (recipient_of request)), (''subject'', JStr ''Approved project update''),
                       (''body'', JStr (strip request))],
         ap_requires_confirmation = False, ap_confirmed = False, ap_policy_decision = ''allow''\<rparr>
       else Inl (Exc ValidationError ''EmailAction''))"
  proof (cases "nonblank request")
    case True
    from plan_email_cases [OF True] True assms show ?thesis
      by (simp add: email_plan_def make_plan_def validate_plan_def email_payload_def p)
  qed (simp add: email_plan_def plan_email_def)
  show "one_address (recipient_of request)" using spells_one_address recipient_of_address by blast
qed

definition demo_email_agent :: email_agent where
  "demo_email_agent = \<lparr>em_id = ''email-agent'', em_config = demo_config, em_key = None\<rparr>"

theorem email_plan_exact_witness:
  "\<exists>p. email_plan demo_email_agent ''mail me@x.org'' None = Inr p \<and> map_of (ap_payload p) ''to'' = Some (JStr ''me@x.org'')"
proof -
  have i: "em_id demo_email_agent \<noteq> []" by (simp add: demo_email_agent_def)
  have r: "recipient_of ''mail me@x.org'' = ''me@x.org''" by code_simp
  have n: "nonblank ''mail me@x.org''" "length (strip ''mail me@x.org'') \<le> 20000" by (code_simp, simp add: strip_def py_isspace_def)
  show ?thesis using email_plan_exact [OF i, of "''mail me@x.org''" None] n by (simp add: r)
qed

section \<open>Execution\<close>

lemma email_execute_bound:
  assumes run: "email_execute M smtp F a p poi s = (r, s')" and eff: "s' \<noteq> s \<or> (\<exists>x. r = Inr x \<and> res_success x)"
  shows "\<exists>q. poi = Some q \<and> poi_allows (ml_crypto M) q ''email'' (ap_payload p) \<and> ap_agent_type p = ''email''"
proof -
  have t: "ap_agent_type p = ''email''" "ap_action_type p = ''email''"
    using run eff by (auto simp: email_execute_def ret_def failure_def split: if_splits)
  have run': "(r, s') = zoom (\<lambda>s. (s, None)) (\<lambda>(s, _) _. s)
      (bind_act (execute_action M smtp no_sqlite [] F (em_config a) (em_key a) ''email'' (ap_payload p) poi) (\<lambda>r. ret (email_result r))) s"
    using run unfolding email_execute_def t by simp
  obtain x t' d' where x: "execute_action M smtp no_sqlite [] F (em_config a) (em_key a) ''email'' (ap_payload p) poi (s, None) = (x, (t', d'))"
    by (metis prod.exhaust)
  with run' have e: "r = map_res email_result x" "s' = t'" by (simp_all add: zoom_def bind_act_ret)
  have "(t', d') \<noteq> (s, None) \<or> (\<exists>y. x = Inr y \<and> er_success y)"
    using eff e by (auto simp: map_res_eq_Inr email_result_def)
  from execute_action_bound [OF x this] t show ?thesis by blast
qed

interpretation email_bound: poi_bound_agent "ml_crypto M" "email_execute M smtp F a" for M smtp F a
proof unfold_locales
  show "\<exists>q. poi = Some q \<and> authorises (ml_crypto M) q p"
    if "email_execute M smtp F a p poi s = (r, s')" "s' \<noteq> s \<or> (\<exists>x. r = Inr x \<and> res_success x)" for p poi s r s'
    using email_execute_bound [OF that] by (auto simp: poi_allows_def authorises_def)
qed

end
