(* ===== verification/Unified_Diff.thy ===== *)
theory Unified_Diff
  imports File_System Py_Regex
begin

text \<open>
  \<^verbatim>\<open>_apply_unified_diff\<close> of \<^verbatim>\<open>aor/agents/file.py\<close>, with Python's slices and negative indices, and its
  specification: a patch as an edit script over the lines of the original. The theory proves that on hunks
  in ascending order the function accepts exactly the patches that are edit scripts of the original and
  returns what the script says, and shows what it does with hunks out of order.
\<close>

section \<open>Slices, indices, numbers\<close>

definition slice_bound :: "int \<Rightarrow> nat \<Rightarrow> nat" where
  "slice_bound i n = (if i < 0 then nat (max 0 (i + int n)) else min (nat i) n)"

text \<open>\<^verbatim>\<open>xs[a:b]\<close>, \<^verbatim>\<open>xs[a:]\<close> and \<^verbatim>\<open>xs[i]\<close>.\<close>

definition py_slice :: "'a list \<Rightarrow> int \<Rightarrow> int \<Rightarrow> 'a list" where
  "py_slice xs a b =
     (let l = slice_bound a (length xs); r = slice_bound b (length xs) in take (r - l) (drop l xs))"

definition py_from :: "'a list \<Rightarrow> int \<Rightarrow> 'a list" where
  "py_from xs a = drop (slice_bound a (length xs)) xs"

definition py_index :: "'a list \<Rightarrow> int \<Rightarrow> 'a res" where
  "py_index xs i =
     (let j = (if i < 0 then i + int (length xs) else i) in
      if j < 0 \<or> int (length xs) \<le> j then Inl (Exc IndexError ''list index out of range'') else Inr (xs ! nat j))"

text \<open>\<^verbatim>\<open>int(digits)\<close>.\<close>

definition digits_value :: "string \<Rightarrow> int" where
  "digits_value s = foldl (\<lambda>n c. n * 10 + (int (of_char c) - 48)) 0 s"

section \<open>\<^verbatim>\<open>_apply_unified_diff\<close>\<close>

definition diff_error :: "string \<Rightarrow> py_error" where
  "diff_error detail = Exc FileAgentError detail"

definition hunk_header_rx :: rx where
  "hunk_header_rx =
     (let number = plus (RChr digit_char); count = optional (RSeq (chr CHR '','') number) in
      seq [lit ''@@ -'', RGrp 1 number, count, lit '' +'', number, count, lit '' @@''])"

definition is_hunk :: "string \<Rightarrow> bool" where
  "is_hunk line \<longleftrightarrow> startswith line ''@@ ''"

definition hunk_start :: "string \<Rightarrow> int res" where
  "hunk_start header =
     (case re_match hunk_header_rx header of
        None \<Rightarrow> Inl (diff_error ''invalid_unified_diff_header'')
      | Some m \<Rightarrow> Inr (digits_value (group m 1) - 1))"

text \<open>The lines after a header: \<open>(output, source_index)\<close> is the state of the loop.\<close>

fun apply_lines :: "string list \<Rightarrow> string list \<Rightarrow> string list \<times> int \<Rightarrow> (string list \<times> int) res" where
  "apply_lines original [] (out, i) = Inr (out, i)"
| "apply_lines original ([] # lines) (out, i) = Inl (diff_error ''invalid_unified_diff_line'')"
| "apply_lines original ((m # content) # lines) (out, i) =
     (if m = CHR '' '' then
        if int (length original) \<le> i then Inl (diff_error ''patch_context_mismatch'')
        else bind_res (py_index original i) (\<lambda>l.
          if l \<noteq> content then Inl (diff_error ''patch_context_mismatch'')
          else apply_lines original lines (out @ [content], i + 1))
      else if m = CHR ''-'' then
        if int (length original) \<le> i then Inl (diff_error ''patch_delete_mismatch'')
        else bind_res (py_index original i) (\<lambda>l.
          if l \<noteq> content then Inl (diff_error ''patch_delete_mismatch'')
          else apply_lines original lines (out, i + 1))
      else if m = CHR ''+'' then apply_lines original lines (out @ [content], i)
      else if m = CHR 0x5C then apply_lines original lines (out, i)
      else Inl (diff_error ''invalid_unified_diff_line''))"

text \<open>The hunks: each header with the lines up to the next header.\<close>

fun hunks_of :: "string list \<Rightarrow> (string \<times> string list) list" where
  "hunks_of [] = []"
| "hunks_of (line # lines) =
     (if is_hunk line then (line, takeWhile (\<lambda>l. \<not> is_hunk l) lines) # hunks_of lines else hunks_of lines)"

definition apply_hunk :: "string list \<Rightarrow> string \<times> string list \<Rightarrow> string list \<times> int \<Rightarrow> (string list \<times> int) res" where
  "apply_hunk original hunk st =
     bind_res (hunk_start (fst hunk)) (\<lambda>start.
       apply_lines original (snd hunk) (fst st @ py_slice original (snd st) start, start))"

fun apply_hunks :: "string list \<Rightarrow> (string \<times> string list) list \<Rightarrow> string list \<times> int \<Rightarrow> (string list \<times> int) res" where
  "apply_hunks original [] st = Inr st"
| "apply_hunks original (h # hs) st = bind_res (apply_hunk original h st) (apply_hunks original hs)"

definition apply_unified_diff :: "string \<Rightarrow> string \<Rightarrow> string res" where
  "apply_unified_diff original patch =
     (let original_lines = split_lines original; hunks = hunks_of (split_lines patch) in
      if hunks = [] then Inl (diff_error ''invalid_unified_diff'')
      else map_res (\<lambda>(out, i). concat (out @ py_from original_lines i)) (apply_hunks original_lines hunks ([], 0)))"

section \<open>Edit scripts\<close>

datatype edit = Keep string | Del string | Add string | Note

text \<open>What a script consumes, what it produces, and the lines of the patch that write it down.\<close>

fun old_line :: "edit \<Rightarrow> string list" where
  "old_line (Keep l) = [l]" | "old_line (Del l) = [l]" | "old_line (Add l) = []" | "old_line Note = []"

fun new_line :: "edit \<Rightarrow> string list" where
  "new_line (Keep l) = [l]" | "new_line (Del l) = []" | "new_line (Add l) = [l]" | "new_line Note = []"

fun writes :: "edit \<Rightarrow> string \<Rightarrow> bool" where
  "writes (Keep l) w \<longleftrightarrow> w = '' '' @ l"
| "writes (Del l) w \<longleftrightarrow> w = ''-'' @ l"
| "writes (Add l) w \<longleftrightarrow> w = ''+'' @ l"
| "writes Note w \<longleftrightarrow> (\<exists>t. w = CHR 0x5C # t)"

text \<open>
  \<open>script n os hunks old new\<close>: from line \<open>n\<close> on, the remaining original lines are \<open>old\<close> and the hunks rewrite
  them to \<open>new\<close>: each hunk keeps the lines before its start and then edits.
\<close>

inductive script :: "nat \<Rightarrow> (string \<times> string list) list \<Rightarrow> string list \<Rightarrow> string list \<Rightarrow> bool" where
  finish: "script n [] rest rest"
| hunk: "hunk_start header = Inr (int (n + length gap)) \<Longrightarrow> list_all2 writes es lines
    \<Longrightarrow> script (n + length gap + length (concat (map old_line es))) hs old new
    \<Longrightarrow> script n ((header, lines) # hs) (gap @ concat (map old_line es) @ old) (gap @ concat (map new_line es) @ new)"

inductive_cases script_NilE: "script n [] old new"
inductive_cases script_ConsE: "script n (h # hs) old new"

text \<open>Hunks in ascending order: none starts before the line that the previous one reached, or after the end.\<close>

fun ascending :: "nat \<Rightarrow> int \<Rightarrow> (string \<times> string list) list \<Rightarrow> bool" where
  "ascending len i [] = True"
| "ascending len i ((header, lines) # hs) =
     (case hunk_start header of
        Inl _ \<Rightarrow> False
      | Inr s \<Rightarrow> i \<le> s \<and> s \<le> int len
          \<and> ascending len (s + int (length (filter (\<lambda>l. take 1 l = '' '' \<or> take 1 l = ''-'') lines))) hs)"

section \<open>The function against the specification\<close>

lemma py_index_nat: "i < length xs \<Longrightarrow> py_index xs (int i) = Inr (xs ! i)"
  by (simp add: py_index_def Let_def)

lemma py_slice_nat: "a \<le> b \<Longrightarrow> b \<le> length xs \<Longrightarrow> py_slice xs (int a) (int b) = take (b - a) (drop a xs)"
  by (simp add: py_slice_def slice_bound_def Let_def)

lemma py_from_nat: "py_from xs (int a) = drop a xs"
  by (simp add: py_from_def slice_bound_def min_def)

text \<open>Inside a hunk: the loop accepts exactly the lines that write an edit of the original.\<close>

lemma apply_lines_complete:
  assumes "list_all2 writes es lines" "drop i original = concat (map old_line es) @ old"
  shows "apply_lines original lines (out, int i) =
    Inr (out @ concat (map new_line es), int (i + length (concat (map old_line es))))"
  using assms
proof (induction es lines arbitrary: i out rule: list_all2_induct)
  case (Cons e es w ws)
  show ?case
  proof (cases e)
    case (Keep l)
    with Cons have d: "drop i original = l # concat (map old_line es) @ old" and w: "w = CHR '' '' # l" by auto
    then have i: "i < length original" by (metis drop_all list.distinct(1) not_le_imp_less)
    have "original ! i = l" using d i by (metis Cons_nth_drop_Suc list.inject)
    moreover have "drop (Suc i) original = concat (map old_line es) @ old" using d i by (metis Cons_nth_drop_Suc list.inject)
    ultimately show ?thesis using Cons.IH [of "Suc i" "out @ [l]"] i
      by (simp add: w Keep py_index_nat add.commute)
  next
    case (Del l)
    with Cons have d: "drop i original = l # concat (map old_line es) @ old" and w: "w = CHR ''-'' # l" by auto
    then have i: "i < length original" by (metis drop_all list.distinct(1) not_le_imp_less)
    have "original ! i = l" using d i by (metis Cons_nth_drop_Suc list.inject)
    moreover have "drop (Suc i) original = concat (map old_line es) @ old" using d i by (metis Cons_nth_drop_Suc list.inject)
    ultimately show ?thesis using Cons.IH [of "Suc i" out] i
      by (simp add: w Del py_index_nat add.commute)
  next
    case (Add l)
    with Cons show ?thesis by simp
  next
    case Note
    with Cons obtain t where "w = CHR 0x5C # t" by auto
    with Cons Note show ?thesis by simp
  qed
qed simp

lemma apply_lines_sound:
  "apply_lines original lines (out, int i) = Inr (out', j) \<Longrightarrow> i \<le> length original \<Longrightarrow>
    \<exists>es k. list_all2 writes es lines \<and> j = int k \<and> k \<le> length original
      \<and> out' = out @ concat (map new_line es) \<and> drop i original = concat (map old_line es) @ drop k original
      \<and> k = i + length (concat (map old_line es))"
proof (induction lines arbitrary: i out)
  case Nil
  then show ?case by (intro exI [of _ "[]"] exI [of _ i]) simp
next
  case (Cons w ws)
  show ?case
  proof (cases w)
    case Nil
    with Cons.prems show ?thesis by simp
  next
    case (Cons m c)
    note w = this
    consider "m = CHR '' ''" | "m = CHR ''-''" | "m = CHR ''+''" | "m = CHR 0x5C"
      | "m \<noteq> CHR '' ''" "m \<noteq> CHR ''-''" "m \<noteq> CHR ''+''" "m \<noteq> CHR 0x5C" by blast
    then show ?thesis
    proof cases
      case 1
      then have i: "i < length original" "original ! i = c" "apply_lines original ws (out @ [c], int (Suc i)) = Inr (out', j)"
        using Cons.prems(1) by (auto simp: w py_index_nat bind_res_eq_Inr add.commute split: if_splits)
      from Cons.IH [OF i(3)] i(1) obtain es k where e: "list_all2 writes es ws" "j = int k" "k \<le> length original"
          "out' = (out @ [c]) @ concat (map new_line es)" "drop (Suc i) original = concat (map old_line es) @ drop k original"
          "k = Suc i + length (concat (map old_line es))" by auto
      show ?thesis
        by (intro exI [of _ "Keep c # es"] exI [of _ k]) (use e i(1,2) 1 in \<open>simp add: w Cons_nth_drop_Suc [symmetric]\<close>)
    next
      case 2
      then have i: "i < length original" "original ! i = c" "apply_lines original ws (out, int (Suc i)) = Inr (out', j)"
        using Cons.prems(1) by (auto simp: w py_index_nat bind_res_eq_Inr add.commute split: if_splits)
      from Cons.IH [OF i(3)] i(1) obtain es k where e: "list_all2 writes es ws" "j = int k" "k \<le> length original"
          "out' = out @ concat (map new_line es)" "drop (Suc i) original = concat (map old_line es) @ drop k original"
          "k = Suc i + length (concat (map old_line es))" by auto
      show ?thesis
        by (intro exI [of _ "Del c # es"] exI [of _ k]) (use e i(1,2) 2 in \<open>simp add: w Cons_nth_drop_Suc [symmetric]\<close>)
    next
      case 3
      with Cons.prems w have "apply_lines original ws (out @ [c], int i) = Inr (out', j)" by simp
      from Cons.IH [OF this Cons.prems(2)] obtain es k where e: "list_all2 writes es ws" "j = int k" "k \<le> length original"
          "out' = (out @ [c]) @ concat (map new_line es)" "drop i original = concat (map old_line es) @ drop k original"
          "k = i + length (concat (map old_line es))" by auto
      show ?thesis by (intro exI [of _ "Add c # es"] exI [of _ k]) (use e 3 in \<open>simp add: w\<close>)
    next
      case 4
      with Cons.prems w have "apply_lines original ws (out, int i) = Inr (out', j)" by simp
      from Cons.IH [OF this Cons.prems(2)] obtain es k where e: "list_all2 writes es ws" "j = int k" "k \<le> length original"
          "out' = out @ concat (map new_line es)" "drop i original = concat (map old_line es) @ drop k original"
          "k = i + length (concat (map old_line es))" by auto
      show ?thesis by (intro exI [of _ "Note # es"] exI [of _ k]) (use e 4 in \<open>simp add: w\<close>)
    next
      case 5
      with Cons.prems w show ?thesis by simp
    qed
  qed
qed

lemma consumed_lines: "list_all2 writes es lines \<Longrightarrow>
    length (concat (map old_line es)) = length (filter (\<lambda>l. take 1 l = '' '' \<or> take 1 l = ''-'') lines)"
proof (induction es lines rule: list_all2_induct)
  case (Cons e es w ws)
  then show ?case by (cases e) auto
qed simp

lemma apply_hunks_script:
  assumes "ascending (length original) (int n) hs" "n \<le> length original"
  shows "(\<exists>out' j. apply_hunks original hs (out, int n) = Inr (out', j) \<and> result = out' @ py_from original j)
    \<longleftrightarrow> (\<exists>new. script n hs (drop n original) new \<and> result = out @ new)"
  using assms
proof (induction hs arbitrary: n out)
  case Nil
  show ?case by (auto simp: py_from_nat intro: script.finish elim: script_NilE)
next
  case (Cons h hs)
  obtain header lines where h: "h = (header, lines)" by (cases h)
  let ?c = "length (filter (\<lambda>l. take 1 l = '' '' \<or> take 1 l = ''-'') lines)"
  from Cons.prems(1) obtain s where s: "hunk_start header = Inr s" "int n \<le> s" "s \<le> int (length original)"
      "ascending (length original) (s + int ?c) hs"
    by (auto simp: h split: sum.splits)
  define g where "g = nat s - n"
  have sg: "s = int (n + g)" and ng: "n + g \<le> length original" using s(2,3) by (simp_all add: g_def)
  have sl: "py_slice original (int n) (int (n + g)) = take g (drop n original)" using py_slice_nat [of n "n + g" original] ng by simp
  have step: "apply_hunks original (h # hs) (out, int n)
      = bind_res (apply_lines original lines (out @ take g (drop n original), int (n + g))) (apply_hunks original hs)"
    unfolding apply_hunks.simps apply_hunk_def h fst_conv snd_conv s(1)
    unfolding sg bind_res_simps sl ..
  show ?case
  proof
    assume "\<exists>out' j. apply_hunks original (h # hs) (out, int n) = Inr (out', j) \<and> result = out' @ py_from original j"
    then obtain out' j where r: "apply_hunks original (h # hs) (out, int n) = Inr (out', j)" "result = out' @ py_from original j"
      by blast
    then obtain o1 i1 where l: "apply_lines original lines (out @ take g (drop n original), int (n + g)) = Inr (o1, i1)"
        "apply_hunks original hs (o1, i1) = Inr (out', j)"
      unfolding step bind_res_eq_Inr by auto
    from apply_lines_sound [OF l(1) ng] obtain es k where e: "list_all2 writes es lines" "i1 = int k" "k \<le> length original"
        "o1 = (out @ take g (drop n original)) @ concat (map new_line es)"
        "drop (n + g) original = concat (map old_line es) @ drop k original"
        "k = n + g + length (concat (map old_line es))" by blast
    have a: "ascending (length original) (int k) hs" using s(4) consumed_lines [OF e(1)] by (simp add: e(6) sg)
    have "\<exists>out' j. apply_hunks original hs (o1, int k) = Inr (out', j) \<and> result = out' @ py_from original j"
      using l(2) r(2) e(2) by auto
    then obtain new where n: "script k hs (drop k original) new" "result = o1 @ new"
      using Cons.IH [OF a e(3)] by blast
    define gap where "gap = take g (drop n original)"
    have len: "length gap = g" using ng by (simp add: gap_def)
    have "script n ((header, lines) # hs) (gap @ concat (map old_line es) @ drop k original) (gap @ concat (map new_line es) @ new)"
      by (rule script.hunk) (use s(1) e(1) n(1) in \<open>simp_all add: len sg e(6)\<close>)
    moreover have "gap @ concat (map old_line es) @ drop k original = drop n original"
      unfolding e(5) [symmetric] gap_def by (simp add: add.commute flip: drop_drop)
    ultimately show "\<exists>new. script n (h # hs) (drop n original) new \<and> result = out @ new"
      using n(2) e(4) by (intro exI [of _ "gap @ concat (map new_line es) @ new"]) (simp add: h gap_def)
  next
    assume "\<exists>new. script n (h # hs) (drop n original) new \<and> result = out @ new"
    then obtain new where "script n ((header, lines) # hs) (drop n original) new" and res: "result = out @ new"
      by (auto simp: h)
    then obtain gap es old new' where q: "hunk_start header = Inr (int (n + length gap))" "list_all2 writes es lines"
        "script (n + length gap + length (concat (map old_line es))) hs old new'"
        "drop n original = gap @ concat (map old_line es) @ old" "new = gap @ concat (map new_line es) @ new'"
      by (auto elim!: script_ConsE)
    let ?k = "n + length gap + length (concat (map old_line es))"
    have g: "length gap = g" using q(1) s(1) sg by simp
    have d: "drop (n + g) original = concat (map old_line es) @ old"
      using arg_cong [OF q(4), of "drop g"] g by (simp add: add.commute)
    have t: "take g (drop n original) = gap" using q(4) g by simp
    have k: "drop ?k original = old" using arg_cong [OF d, of "drop (length (concat (map old_line es)))"] g
      by (simp add: add.commute add.left_commute)
    have kl: "?k \<le> length original"
      using arg_cong [OF q(4), of length] Cons.prems(2) by simp
    have a: "ascending (length original) (int ?k) hs" using s(4) consumed_lines [OF q(2)] g by (simp add: sg add.assoc)
    have "\<exists>new''. script ?k hs (drop ?k original) new'' \<and> result = (out @ gap @ concat (map new_line es)) @ new''"
      using q(3,5) res k by auto
    then obtain out' j where "apply_hunks original hs (out @ gap @ concat (map new_line es), int ?k) = Inr (out', j)"
        "result = out' @ py_from original j"
      using Cons.IH [OF a kl] by blast
    moreover have "apply_lines original lines (out @ take g (drop n original), int (n + g))
        = Inr (out @ gap @ concat (map new_line es), int ?k)"
      using apply_lines_complete [OF q(2) d] by (simp add: t g)
    ultimately show "\<exists>out' j. apply_hunks original (h # hs) (out, int n) = Inr (out', j) \<and> result = out' @ py_from original j"
      unfolding step by simp
  qed
qed

text \<open>
  C26: applying a patch is applying an edit script. For a patch that has hunks, all with readable headers, in
  ascending order, and none starting after the end of the original, \<^verbatim>\<open>_apply_unified_diff\<close> returns a text
  exactly if the patch writes down an edit script of the lines of the original, which keeps everything
  outside the hunks, and the text is then what the script produces; otherwise it raises.
\<close>

theorem diff_is_edit_script:
  assumes "hunks_of (split_lines patch) \<noteq> []"
    "ascending (length (split_lines original)) 0 (hunks_of (split_lines patch))"
  shows "apply_unified_diff original patch = Inr result \<longleftrightarrow>
    (\<exists>new. script 0 (hunks_of (split_lines patch)) (split_lines original) new \<and> result = concat new)"
proof -
  let ?o = "split_lines original" and ?hs = "hunks_of (split_lines patch)"
  have "apply_unified_diff original patch = Inr result \<longleftrightarrow>
      (\<exists>res. (\<exists>out' j. apply_hunks ?o ?hs ([], 0) = Inr (out', j) \<and> res = out' @ py_from ?o j) \<and> result = concat res)"
    using assms(1) by (auto simp: apply_unified_diff_def Let_def map_res_eq_Inr)
  also have "\<dots> \<longleftrightarrow> (\<exists>new. script 0 ?hs ?o new \<and> result = concat new)"
    using apply_hunks_script [of ?o 0 ?hs "[]"] assms(2) by simp
  finally show ?thesis .
qed

text \<open>Replacing the second of three lines.\<close>

definition nl :: string where
  "nl = [CHR 0x0A]"

definition demo_original :: string where
  "demo_original = ''a'' @ nl @ ''b'' @ nl @ ''c'' @ nl"

definition demo_patch :: string where
  "demo_patch = ''@@ -2,1 +2,1 @@'' @ nl @ ''-b'' @ nl @ ''+x'' @ nl"

theorem diff_is_edit_script_witness:
  "\<exists>new. script 0 (hunks_of (split_lines demo_patch)) (split_lines demo_original) new
     \<and> concat new = ''a'' @ nl @ ''x'' @ nl @ ''c'' @ nl"
proof -
  have h: "hunks_of (split_lines demo_patch) \<noteq> []" by code_simp
  have a: "ascending (length (split_lines demo_original)) 0 (hunks_of (split_lines demo_patch))" by code_simp
  have "apply_unified_diff demo_original demo_patch = Inr (''a'' @ nl @ ''x'' @ nl @ ''c'' @ nl)" by code_simp
  then show ?thesis using diff_is_edit_script [OF h a, of "''a'' @ nl @ ''x'' @ nl @ ''c'' @ nl"] by auto
qed

text \<open>
  A patch that inserts before the first line. The start \<^verbatim>\<open>0\<close> of such a hunk (\<^verbatim>\<open>@@ -0,0 +1,1 @@\<close>, the form
  \<^verbatim>\<open>diff -U0\<close> prints) becomes the index -1, which Python reads from the end of the list: the new line is put
  before the last line of a nonempty original, and the patch is not rejected.
\<close>

theorem insertion_at_top_misplaced:
  assumes "hunks_of (split_lines patch) = [(header, [CHR ''+'' # x])]" "hunk_start header = Inr (- 1)"
    "split_lines original = ls @ [l]"
  shows "apply_unified_diff original patch = Inr (concat ls @ x @ l)"
  using assms by (simp add: apply_unified_diff_def apply_hunk_def Let_def py_slice_def py_from_def slice_bound_def)

theorem insertion_at_top_misplaced_witness:
  "apply_unified_diff demo_original (''@@ -0,0 +1,1 @@'' @ nl @ ''+top'' @ nl) = Inr (''a'' @ nl @ ''b'' @ nl @ ''top'' @ nl @ ''c'' @ nl)"
proof -
  have h: "hunks_of (split_lines (''@@ -0,0 +1,1 @@'' @ nl @ ''+top'' @ nl)) = [(''@@ -0,0 +1,1 @@'' @ nl, [CHR ''+'' # (''top'' @ nl)])]"
    by code_simp
  have s: "hunk_start (''@@ -0,0 +1,1 @@'' @ nl) = Inr (- 1)" by code_simp
  have o: "split_lines demo_original = [''a'' @ nl, ''b'' @ nl] @ [''c'' @ nl]" by code_simp
  show ?thesis using insertion_at_top_misplaced [OF h s o] by simp
qed

end
