(* ===== verification/File_Agent.thy ===== *)
theory File_Agent
  imports Agent_Base Unified_Diff
begin

text \<open>
  \<^verbatim>\<open>aor/agents/file.py\<close>: the agent that reads, creates, updates, renames and deletes files below one
  workspace, with a record of every change in a backup directory. \<^verbatim>\<open>hashlib.sha256\<close> and
  \<^verbatim>\<open>difflib.unified_diff\<close> are arguments. The theory proves that the agent never leaves its sandbox,
  that without confirmation no file is lost, and what each operation does.
\<close>

section \<open>State and planning\<close>

record file_libs =
  fl_crypto :: crypto_libs
  sha256_hex :: "bytes \<Rightarrow> string"
  unified_diff :: "string list \<Rightarrow> string list \<Rightarrow> string \<Rightarrow> string \<Rightarrow> string list"

record file_agent =
  fa_id :: string
  fa_workspace :: path
  fa_backup :: path

definition file_capabilities :: "string list" where
  "file_capabilities = [''file.read'', ''file.create'', ''file.update'', ''file.rename'', ''file.delete'']"

definition file_error :: "string \<Rightarrow> py_error" where
  "file_error detail = Exc FileAgentError detail"

definition new_file_agent :: "path \<Rightarrow> string \<Rightarrow> string option \<Rightarrow> string \<Rightarrow> (file_system, file_agent) act" where
  "new_file_agent cwd workspace backup aid =
     bind_act (lift_res (check_agent (Some aid) ''file'')) (\<lambda>_.
     bind_act (reads (\<lambda>fs. resolve_from fs cwd workspace)) (\<lambda>ws.
     bind_act (make_dirs ws) (\<lambda>_.
     bind_act (reads (\<lambda>fs.
         case backup of
           None \<Rightarrow> Inr (ws @ [''.aor_file_backups''])
         | Some b \<Rightarrow> if b = [] then Inr (ws @ [''.aor_file_backups'']) else resolve_from fs cwd b)) (\<lambda>bd.
     bind_act (make_dirs bd) (\<lambda>_.
       ret \<lparr>fa_id = aid, fa_workspace = ws, fa_backup = bd\<rparr>)))))"

definition file_can_handle :: "string \<Rightarrow> bool" where
  "file_can_handle request \<longleftrightarrow>
     nonblank request \<and> re_found (word_of [''file'', ''folder'', ''directory'', ''read'', ''create'', ''write'', ''edit'',
       ''update'', ''rename'', ''delete'']) request"

definition quote_char :: "char \<Rightarrow> bool" where
  "quote_char c \<longleftrightarrow> c = CHR 0x60 \<or> c = CHR 0x22 \<or> c = CHR 0x27"

definition path_token :: rx where
  "path_token = RGrp 1 (plus (RChr (\<lambda>c. \<not> quote_char c \<and> \<not> py_isspace c)))"

definition found_group :: "rx \<Rightarrow> string \<Rightarrow> string option" where
  "found_group r s = map_option (\<lambda>m. group m 1) (re_search r s)"

definition file_action_type_from_request :: "string \<Rightarrow> string option" where
  "file_action_type_from_request request =
     map_option snd (find (\<lambda>(verb, _). re_found (seq [RBnd, lit verb, RBnd]) (str_lower request))
       [(''read'', ''file.read''), (''create'', ''file.create''), (''write'', ''file.create''), (''update'', ''file.update''),
        (''edit'', ''file.update''), (''rename'', ''file.rename''), (''delete'', ''file.delete'')])"

definition extract_path :: "string \<Rightarrow> string option" where
  "extract_path request =
     (case found_group (seq [alt [lit ''file'', lit ''path''], spaces0, optional (alt [chr CHR ''='', chr CHR '':'']), spaces0,
         optional (RChr quote_char), path_token]) request of
        Some p \<Rightarrow> Some p
      | None \<Rightarrow> found_group (seq [RBnd, alt (map lit [''write'', ''create'', ''edit'', ''update'', ''rename'', ''delete'']), spaces1,
          optional (RChr quote_char), path_token]) request)"

definition content_after_marker :: "string \<Rightarrow> string \<Rightarrow> string" where
  "content_after_marker marker request =
     (case found_group (seq [RBnd, lit marker, spaces0, alt [chr CHR '':'', chr CHR ''=''], spaces0,
         RGrp 1 (RStar (RChr (\<lambda>_. True))), REnd]) request of
        None \<Rightarrow> []
      | Some c \<Rightarrow> strip c)"

definition rename_destination :: "string \<Rightarrow> string option" where
  "rename_destination request =
     found_group (seq [RBnd, lit ''to'', spaces1, optional (RChr quote_char), path_token]) request"

text \<open>\<^verbatim>\<open>_resolve_path\<close>: \<^verbatim>\<open>commonpath\<close> of the two absolute paths is the workspace.\<close>

definition resolve_path :: "file_agent \<Rightarrow> file_system \<Rightarrow> string \<Rightarrow> path res" where
  "resolve_path a fs relative =
     bind_res (resolve_from fs (fa_workspace a) relative) (\<lambda>candidate.
       if take (length (fa_workspace a)) candidate = fa_workspace a then Inr candidate
       else Inl (file_error ''path_outside_workspace''))"

text \<open>A text that is given and not blank.\<close>

definition text_value :: "json \<Rightarrow> string option" where
  "text_value v = (case v of JStr s \<Rightarrow> if strip s = [] then None else Some s | _ \<Rightarrow> None)"

definition plan_payload :: "string \<Rightarrow> string \<Rightarrow> json dict \<Rightarrow> string \<Rightarrow> json dict res" where
  "plan_payload action p values request =
     (if action = ''file.create''
      then Inr [(''path'', JStr p), (''content'', JStr (case map_of values ''content'' of
          None \<Rightarrow> content_after_marker ''content'' request | Some v \<Rightarrow> py_str v))]
      else if action = ''file.update''
      then
        let patch = json_or (get_or_null values ''patch'') (JStr (content_after_marker ''patch'' request)) in
        if \<not> truthy patch then Inl (file_error ''file_update_patch_required'')
        else Inr [(''path'', JStr p), (''patch'', JStr (py_str patch))]
      else if action = ''file.rename''
      then
        (case text_value (json_or (get_or_null values ''destination'') (opt_json (rename_destination request))) of
           None \<Rightarrow> Inl (file_error ''file_destination_required'')
         | Some d \<Rightarrow> Inr [(''path'', JStr p), (''destination'', JStr d)])
      else Inr [(''path'', JStr p)])"

definition needs_confirmation :: "file_agent \<Rightarrow> file_system \<Rightarrow> string \<Rightarrow> json dict \<Rightarrow> bool res" where
  "needs_confirmation a fs action payload =
     (if action = ''file.rename''
      then map_res (path_exists fs) (resolve_path a fs (case map_of payload ''destination'' of Some (JStr d) \<Rightarrow> d | _ \<Rightarrow> []))
      else Inr (action = ''file.delete''))"

definition file_plan :: "file_agent \<Rightarrow> file_system \<Rightarrow> string \<Rightarrow> json dict option \<Rightarrow> action_plan res" where
  "file_plan a fs request context =
     (if \<not> nonblank request then Inl (file_error ''file_request_empty'')
      else
        let values = (case context of None \<Rightarrow> [] | Some d \<Rightarrow> d);
            action_type = json_or (get_or_null values ''action_type'') (opt_json (file_action_type_from_request request)) in
        if action_type \<notin> set (map JStr file_capabilities) then Inl (file_error ''file_action_type_required'')
        else
          (case text_value (json_or (get_or_null values ''path'') (opt_json (extract_path request))) of
             None \<Rightarrow> Inl (file_error ''file_path_required'')
           | Some p \<Rightarrow>
               bind_res (plan_payload (py_str action_type) p values request) (\<lambda>payload.
               bind_res (needs_confirmation a fs (py_str action_type) payload) (\<lambda>confirm.
                 make_plan ''file'' (fa_id a) (py_str action_type) payload confirm))))"

section \<open>Execution\<close>

definition digest :: "file_libs \<Rightarrow> bytes \<Rightarrow> string" where
  "digest X b = bytes_hex (hash_sha3_256 (fl_crypto X) b)"

definition repr_opt :: "string option \<Rightarrow> string" where
  "repr_opt v = (case v of None \<Rightarrow> ''None'' | Some s \<Rightarrow> py_repr s)"

definition record_path :: "file_libs \<Rightarrow> file_agent \<Rightarrow> string \<Rightarrow> path \<Rightarrow> string option \<Rightarrow> string option \<Rightarrow> path" where
  "record_path X a action p prior after =
     (let material = action @ '':'' @ path_str p @ '':'' @
        sha256_hex X (str_encode (''('' @ repr_opt prior @ '', '' @ repr_opt after @ '')'')) in
      fa_backup a @ [sha256_hex X (str_encode material) @ ''.diff''])"

definition change_record :: "file_libs \<Rightarrow> string \<Rightarrow> path \<Rightarrow> string option \<Rightarrow> string option \<Rightarrow> string" where
  "change_record X action p prior after =
     (case (prior, after) of
        (Some b, Some c) \<Rightarrow> concat (unified_diff X (split_lines b) (split_lines c) (path_str p) (path_str p))
      | _ \<Rightarrow> ''action='' @ action @ [CHR 0x0A] @ ''path='' @ path_str p @ [CHR 0x0A] @ ''before='' @ repr_opt prior
          @ [CHR 0x0A] @ ''after='' @ repr_opt after @ [CHR 0x0A])"

definition write_change_record ::
  "file_libs \<Rightarrow> file_agent \<Rightarrow> string \<Rightarrow> path \<Rightarrow> string option \<Rightarrow> string option \<Rightarrow> (file_system, string) act"
where
  "write_change_record X a action p prior after =
     (let r = record_path X a action p prior after in
      bind_act (write_text r (change_record X action p prior after)) (\<lambda>_. ret (path_str r)))"

definition change_result :: "path \<Rightarrow> string option \<Rightarrow> string option \<Rightarrow> string \<Rightarrow> action_result" where
  "change_result p before_hash after_hash backup_ref =
     \<lparr>res_success = True, res_artifact_ref = Some (path_str p), res_details = [(''path'', JStr (path_str p))],
      res_observed_effect = [(''path'', JStr (path_str p)), (''before_hash'', opt_json before_hash),
        (''after_hash'', opt_json after_hash), (''backup_ref'', JStr backup_ref)]\<rparr>"

definition required_text_field :: "json dict \<Rightarrow> string \<Rightarrow> string res" where
  "required_text_field payload k =
     (case map_of payload k of
        Some (JStr s) \<Rightarrow> if s = [] then Inl (file_error (k @ ''_required'')) else Inr s
      | _ \<Rightarrow> Inl (file_error (k @ ''_required'')))"

definition check_file :: "path \<Rightarrow> (file_system, unit) act" where
  "check_file p = bind_act (reads (\<lambda>fs. Inr (is_file fs p))) (\<lambda>b. require b (file_error ''file_not_found''))"

definition run_read :: "file_libs \<Rightarrow> path \<Rightarrow> (file_system, action_result) act" where
  "run_read X p =
     bind_act (check_file p) (\<lambda>_.
     bind_act (read_text p) (\<lambda>content.
       ret (let d = digest X (str_encode content) in
         \<lparr>res_success = True, res_artifact_ref = Some (path_str p),
          res_details = [(''path'', JStr (path_str p)), (''content'', JStr content)],
          res_observed_effect = [(''path'', JStr (path_str p)), (''before_hash'', JStr d), (''after_hash'', JStr d)]\<rparr>)))"

definition run_create_file :: "file_libs \<Rightarrow> file_agent \<Rightarrow> json dict \<Rightarrow> path \<Rightarrow> (file_system, action_result) act" where
  "run_create_file X a payload p =
     bind_act (reads (\<lambda>fs. Inr (path_exists fs p))) (\<lambda>exists.
     bind_act (require (\<not> exists) (file_error ''file_already_exists'')) (\<lambda>_.
     bind_act (lift_res (required_text_field payload ''content'')) (\<lambda>content.
     bind_act (make_dirs (butlast p)) (\<lambda>_.
     bind_act (write_text p content) (\<lambda>_.
     bind_act (write_change_record X a ''file.create'' p None (Some content)) (\<lambda>ref.
       ret (change_result p None (Some (digest X (str_encode content))) ref)))))))"

definition run_update :: "file_libs \<Rightarrow> file_agent \<Rightarrow> json dict \<Rightarrow> path \<Rightarrow> (file_system, action_result) act" where
  "run_update X a payload p =
     bind_act (check_file p) (\<lambda>_.
     bind_act (read_text p) (\<lambda>prior.
     bind_act (lift_res (required_text_field payload ''patch'')) (\<lambda>patch.
     bind_act (lift_res (apply_unified_diff prior patch)) (\<lambda>after.
     bind_act (write_change_record X a ''file.update'' p (Some prior) (Some after)) (\<lambda>ref.
     bind_act (write_text p after) (\<lambda>_.
       ret (change_result p (Some (digest X (str_encode prior))) (Some (digest X (str_encode after))) ref)))))))"

definition run_delete :: "file_libs \<Rightarrow> file_agent \<Rightarrow> bool \<Rightarrow> path \<Rightarrow> (file_system, action_result) act" where
  "run_delete X a confirmed p =
     bind_act (require confirmed (file_error ''confirmation_required'')) (\<lambda>_.
     bind_act (check_file p) (\<lambda>_.
     bind_act (read_text p) (\<lambda>prior.
     bind_act (write_change_record X a ''file.delete'' p (Some prior) None) (\<lambda>ref.
     bind_act (unlink p) (\<lambda>_.
       ret (change_result p (Some (digest X (str_encode prior))) None ref))))))"

text \<open>Renaming, once everything is checked.\<close>

definition move_into :: "file_libs \<Rightarrow> file_agent \<Rightarrow> path \<Rightarrow> path \<Rightarrow> bytes \<Rightarrow> (file_system, action_result) act" where
  "move_into X a p d old =
     bind_act (make_dirs (butlast d)) (\<lambda>_.
     bind_act (write_change_record X a ''file.rename'' p (Some (path_str p)) (Some (path_str d))) (\<lambda>ref.
     bind_act (replace_file p d) (\<lambda>_.
     bind_act (read_bytes d) (\<lambda>moved.
       ret \<lparr>res_success = True, res_artifact_ref = Some (path_str d),
         res_details = [(''path'', JStr (path_str p)), (''destination'', JStr (path_str d))],
         res_observed_effect = [(''path'', JStr (path_str p)), (''destination'', JStr (path_str d)),
           (''before_hash'', JStr (digest X old)), (''after_hash'', JStr (digest X moved)), (''backup_ref'', JStr ref)]\<rparr>))))"

definition run_rename :: "file_libs \<Rightarrow> file_agent \<Rightarrow> bool \<Rightarrow> json dict \<Rightarrow> path \<Rightarrow> (file_system, action_result) act" where
  "run_rename X a confirmed payload p =
     bind_act (reads (\<lambda>fs. bind_res (required_text_field payload ''destination'') (resolve_path a fs))) (\<lambda>d.
     bind_act (reads (\<lambda>fs. Inr (path_exists fs d))) (\<lambda>exists.
     bind_act (require (\<not> exists \<or> confirmed) (file_error ''confirmation_required'')) (\<lambda>_.
     bind_act (check_file p) (\<lambda>_.
     bind_act (reads (\<lambda>fs. Inr (is_dir fs d))) (\<lambda>directory.
     bind_act (require (\<not> directory) (file_error ''destination_is_directory'')) (\<lambda>_.
     bind_act (read_bytes p) (move_into X a p d)))))))"

definition execute_checked :: "file_libs \<Rightarrow> file_agent \<Rightarrow> action_plan \<Rightarrow> (file_system, action_result) act" where
  "execute_checked X a p =
     bind_act (reads (\<lambda>fs. bind_res (required_text_field (ap_payload p) ''path'') (resolve_path a fs))) (\<lambda>path.
       if ap_action_type p = ''file.read'' then run_read X path
       else if ap_action_type p = ''file.create'' then run_create_file X a (ap_payload p) path
       else if ap_action_type p = ''file.update'' then run_update X a (ap_payload p) path
       else if ap_action_type p = ''file.delete'' then run_delete X a (ap_confirmed p) path
       else if ap_action_type p = ''file.rename'' then run_rename X a (ap_confirmed p) (ap_payload p) path
       else raise_exc (file_error ''unsupported_action_type''))"

definition file_execute ::
  "file_libs \<Rightarrow> file_agent \<Rightarrow> action_plan \<Rightarrow> proof_of_intent option \<Rightarrow> (file_system, action_result) act"
where
  "file_execute X a p poi =
     (case plan_refusal ''file'' (fa_id a) file_capabilities p of
        Some detail \<Rightarrow> ret (failure detail)
      | None \<Rightarrow>
          bind_act (lift_res (poi_refusal (fl_crypto X) [None, Some (ap_action_type p)] p poi)) (\<lambda>refusal.
            case refusal of
              Some detail \<Rightarrow> ret (failure detail)
            | None \<Rightarrow> catching [FileAgentError] (\<lambda>e. ret (failure (exc_str e))) (execute_checked X a p)))"

section \<open>The sandbox\<close>

text \<open>
  A state the agent can be in: the workspace is an existing directory, and neither the workspace nor a
  record of the backup directory is reached through a link.
\<close>

definition fa_wf :: "file_agent \<Rightarrow> file_system \<Rightarrow> bool" where
  "fa_wf a fs \<longleftrightarrow>
     fs_wf fs \<and> resolved fs (fa_workspace a) \<and> node_at fs (fa_workspace a) = Some FDir
     \<and> (\<forall>n. n \<noteq> ''..'' \<longrightarrow> resolved fs (fa_backup a @ [n]))"

definition below :: "path \<Rightarrow> path \<Rightarrow> bool" where
  "below ws q \<longleftrightarrow> take (length ws) q = ws"

definition records_of :: "file_agent \<Rightarrow> path set" where
  "records_of a = {q. butlast q = fa_backup a \<and> q \<noteq> []}"

definition sandbox :: "file_agent \<Rightarrow> path set" where
  "sandbox a = {q. below (fa_workspace a) q} \<union> records_of a"

lemma fa_wf_stays: "stays W fs fs' \<Longrightarrow> fa_wf a fs \<Longrightarrow> fa_wf a fs'"
  using stays_dir [of W fs fs'] by (auto simp: fa_wf_def stays_resolved stays_def)

lemma resolve_path_Inr:
  "resolve_path a fs s = Inr p \<Longrightarrow> fa_wf a fs \<Longrightarrow> resolved fs p \<and> below (fa_workspace a) p"
  by (auto simp: resolve_path_def bind_res_eq_Inr below_def fa_wf_def dest: resolve_from_resolved split: if_splits)

lemmas stays_bind = bind_act_run [OF stays_order(2)]

lemma stays_read:
  assumes "snd (m fs) = fs" "\<And>x. m fs = (Inr x, fs) \<Longrightarrow> stays W fs (snd (f x fs))"
  shows "stays W fs (snd (bind_act m f fs))"
proof (rule stays_bind)
  show "stays W fs (snd (m fs))" using assms(1) by simp
  fix x fs' assume "m fs = (Inr x, fs')"
  then show "stays W fs' (snd (f x fs'))" using assms by simp
qed

lemma same_bind: "snd (m s) = s \<Longrightarrow> (\<And>x. snd (f x s) = s) \<Longrightarrow> snd (bind_act m f s) = s"
  by (auto simp: bind_act_def split: prod.split sum.split)

lemma still [simp]:
  "snd (reads g fs) = fs" "snd (lift_res r fs) = fs" "snd (require b e fs) = fs" "snd (ret x fs) = fs"
  "snd (raise_exc e fs) = fs" "snd (check_file p fs) = fs"
  by (simp_all add: act_defs check_file_def split: prod.split)

lemma check_file_Inr: "check_file p fs = (Inr x, fs') \<longleftrightarrow> fs' = fs \<and> is_file fs p"
  by (auto simp: check_file_def act_defs split: if_splits)

lemma record_path_name: "record_path X a action p b c = fa_backup a @ [n] \<Longrightarrow> n \<noteq> ''..''"
  by (auto simp: record_path_def Let_def)

lemma record_resolved: "fa_wf a fs \<Longrightarrow> resolved fs (record_path X a action p b c)"
  by (auto simp: fa_wf_def record_path_def Let_def)

lemma record_in: "record_path X a action p b c \<in> records_of a"
  by (simp add: records_of_def record_path_def Let_def)

lemma write_change_record_stays:
  "fa_wf a fs \<Longrightarrow> records_of a \<subseteq> W \<Longrightarrow> stays W fs (snd (write_change_record X a action p b c fs))"
  using record_in record_resolved
  by (auto simp: write_change_record_def Let_def bind_act_ret intro!: write_text_stays)

text \<open>What is missing above a path of the workspace lies in the workspace.\<close>

lemma fs_wf_prefix: "fs_wf fs \<Longrightarrow> node_at fs p = Some FDir \<Longrightarrow> node_at fs (take k p) = Some FDir"
proof (induction p rule: rev_induct)
  case (snoc n p)
  show ?case
  proof (cases "k \<le> length p")
    case True
    have "node_at fs p = Some FDir"
      using fs_wf_parent [OF snoc.prems(1), of "p @ [n]"] snoc.prems(2) by (auto simp: node_at_def)
    with snoc.IH [OF snoc.prems(1)] True show ?thesis by simp
  qed (use snoc.prems in simp)
qed simp

lemma missing_below:
  assumes "fa_wf a fs" "below (fa_workspace a) p" "node_at fs (take k (butlast p)) = None"
  shows "below (fa_workspace a) (take k (butlast p))"
proof -
  let ?ws = "fa_workspace a" and ?q = "take k (butlast p)"
  obtain j where j: "?q = take j p" "j \<le> length p" by (metis butlast_conv_take nat_le_linear take_all take_take)
  show ?thesis
  proof (cases "length ?ws \<le> j")
    case True
    with assms(2) j show ?thesis by (simp add: below_def min_def)
  next
    case False
    then have "?q = take j ?ws" using assms(2) j(1) by (metis below_def min.absorb1 nat_le_linear take_take)
    then have "node_at fs ?q = Some FDir" using assms(1) fs_wf_prefix by (simp add: fa_wf_def)
    with assms(3) show ?thesis by simp
  qed
qed

lemma make_parent_stays:
  assumes "fa_wf a fs" "resolved fs p" "below (fa_workspace a) p"
    "{q. below (fa_workspace a) q \<and> node_at fs q = None} \<subseteq> W"
  shows "stays W fs (snd (make_dirs (butlast p) fs))"
  using assms missing_below by (intro make_dirs_stays resolved_butlast) auto

text \<open>
  Creating: what was missing in the workspace, and records. The other operations that change a file write
  the files they name, and records.
\<close>

definition fresh_of :: "file_agent \<Rightarrow> file_system \<Rightarrow> path set" where
  "fresh_of a fs = {q. below (fa_workspace a) q \<and> node_at fs q = None} \<union> records_of a"

lemma run_create_file_stays:
  assumes "fa_wf a fs" "resolved fs p" "below (fa_workspace a) p"
  shows "stays (fresh_of a fs) fs (snd (run_create_file X a payload p fs))"
proof (cases "path_exists fs p")
  case False
  then have p: "p \<in> fresh_of a fs" using assms(2,3) by (simp add: fresh_of_def path_exists_def stat_resolved)
  let ?W = "fresh_of a fs"
  have "stays ?W fs (snd (bind_act (lift_res (required_text_field payload ''content'')) (\<lambda>content.
     bind_act (make_dirs (butlast p)) (\<lambda>_.
     bind_act (write_text p content) (\<lambda>_.
     bind_act (write_change_record X a ''file.create'' p None (Some content)) (\<lambda>ref.
       ret (change_result p None (Some (digest X (str_encode content))) ref))))) fs))"
  proof (rule stays_read)
    fix content
    show "stays ?W fs (snd (bind_act (make_dirs (butlast p)) (\<lambda>_.
     bind_act (write_text p content) (\<lambda>_.
     bind_act (write_change_record X a ''file.create'' p None (Some content)) (\<lambda>ref.
       ret (change_result p None (Some (digest X (str_encode content))) ref)))) fs))"
    proof (rule stays_bind)
      show "stays ?W fs (snd (make_dirs (butlast p) fs))"
        using assms by (rule make_parent_stays) (auto simp: fresh_of_def)
      fix x fs1 assume s1: "stays ?W fs fs1"
      show "stays ?W fs1 (snd (bind_act (write_text p content) (\<lambda>_.
         bind_act (write_change_record X a ''file.create'' p None (Some content)) (\<lambda>ref.
           ret (change_result p None (Some (digest X (str_encode content))) ref))) fs1))"
      proof (rule stays_bind)
        show "stays ?W fs1 (snd (write_text p content fs1))"
          using assms(2) p s1 by (intro write_text_stays) (simp_all add: stays_resolved)
        fix x fs2 assume "stays ?W fs1 fs2"
        then have "fa_wf a fs2" using assms(1) s1 by (blast intro: fa_wf_stays)
        then show "stays ?W fs2 (snd (bind_act (write_change_record X a ''file.create'' p None (Some content)) (\<lambda>ref.
           ret (change_result p None (Some (digest X (str_encode content))) ref)) fs2))"
          unfolding bind_act_ret snd_conv by (rule write_change_record_stays) (simp add: fresh_of_def)
      qed
    qed
  qed simp
  with False show ?thesis by (simp add: run_create_file_def bind_act_reads)
qed (simp add: run_create_file_def bind_act_reads)

lemma run_update_stays:
  assumes "fa_wf a fs" "resolved fs p"
  shows "stays (insert p (records_of a)) fs (snd (run_update X a payload p fs))"
proof -
  let ?W = "insert p (records_of a)"
  have "stays ?W fs (snd (bind_act (write_change_record X a ''file.update'' p (Some b) (Some c)) (\<lambda>ref.
     bind_act (write_text p c) (\<lambda>_. ret (change_result p h h' ref))) fs))" for b c h h'
  proof (rule stays_bind)
    show "stays ?W fs (snd (write_change_record X a ''file.update'' p (Some b) (Some c) fs))"
      using assms(1) by (rule write_change_record_stays) auto
    fix ref fs1 assume s: "stays ?W fs fs1"
    show "stays ?W fs1 (snd (bind_act (write_text p c) (\<lambda>_. ret (change_result p h h' ref)) fs1))"
      unfolding bind_act_ret snd_conv using assms(2) s by (intro write_text_stays) (simp_all add: stays_resolved)
  qed
  note rest = this
  show ?thesis unfolding run_update_def by ((rule stays_read, (simp; fail))+, rule rest)
qed

lemma run_delete_stays:
  assumes "fa_wf a fs" "resolved fs p"
  shows "stays (insert p (records_of a)) fs (snd (run_delete X a confirmed p fs))"
proof -
  let ?W = "insert p (records_of a)"
  have "stays ?W fs (snd (bind_act (write_change_record X a ''file.delete'' p (Some b) None) (\<lambda>ref.
     bind_act (unlink p) (\<lambda>_. ret (change_result p h None ref))) fs))" for b h
  proof (rule stays_bind)
    show "stays ?W fs (snd (write_change_record X a ''file.delete'' p (Some b) None fs))"
      using assms(1) by (rule write_change_record_stays) auto
    fix ref fs1 assume s: "stays ?W fs fs1"
    show "stays ?W fs1 (snd (bind_act (unlink p) (\<lambda>_. ret (change_result p h None ref)) fs1))"
      unfolding bind_act_ret snd_conv using assms(2) s by (intro unlink_stays) (simp_all add: stays_resolved)
  qed
  note rest = this
  show ?thesis unfolding run_delete_def by ((rule stays_read, (simp; fail))+, rule rest)
qed

lemma run_read_same: "snd (run_read X p fs) = fs"
  unfolding run_read_def by (intro same_bind) simp_all

text \<open>Renaming prepares the place and then moves the file in one step.\<close>

lemma move_into_state:
  assumes "fa_wf a fs" "resolved fs d" "below (fa_workspace a) d"
  shows "\<exists>fs2. stays (fresh_of a fs) fs fs2 \<and> snd (move_into X a p d old fs) \<in> {fs2, snd (replace_file p d fs2)}"
proof -
  let ?w = "write_change_record X a ''file.rename'' p (Some (path_str p)) (Some (path_str d))"
  obtain r1 fs1 where 1: "make_dirs (butlast d) fs = (r1, fs1)" by (cases "make_dirs (butlast d) fs")
  have s1: "stays (fresh_of a fs) fs fs1"
    using make_parent_stays [OF assms, of "fresh_of a fs"] 1 by (simp add: fresh_of_def)
  show ?thesis
  proof (cases r1)
    case (Inr u)
    obtain r2 fs2 where 2: "?w fs1 = (r2, fs2)" by (cases "?w fs1")
    have "stays (fresh_of a fs) fs1 fs2"
      using write_change_record_stays [OF fa_wf_stays [OF s1 assms(1)], of "fresh_of a fs" X "''file.rename''" p
          "Some (path_str p)" "Some (path_str d)"] 2
      by (simp add: fresh_of_def)
    with s1 have s2: "stays (fresh_of a fs) fs fs2" using stays_order(2) by (blast dest: transpD)
    have "snd (bind_act (replace_file p d) (\<lambda>_. bind_act (read_bytes d) (\<lambda>moved. ret (f moved))) fs2)
        = snd (replace_file p d fs2)" for f :: "bytes \<Rightarrow> action_result"
      by (cases "replace_file p d fs2"; cases "fst (replace_file p d fs2)") (auto simp: bind_act_def bind_act_ret ret_def
          split: prod.split sum.split dest: arg_cong [of _ _ snd])
    then show ?thesis using s2 1 2 Inr
      by (cases r2) (auto simp: move_into_def bind_act_def [of "make_dirs (butlast d)"] bind_act_def [of ?w])
  qed (use s1 1 in \<open>auto simp: move_into_def bind_act_def [of "make_dirs (butlast d)"]\<close>)
qed

lemma replace_file_state:
  "snd (replace_file p d fs) = fs \<or>
     (\<exists>nd. map_of fs p = Some nd \<and> p \<noteq> d \<and> snd (replace_file p d fs) = dict_set d nd (remove_node p fs))"
  by (auto simp: replace_file_def split: option.split)

lemma run_rename_state:
  assumes "fa_wf a fs"
  shows "snd (run_rename X a confirmed payload p fs) = fs \<or>
    (\<exists>d fs2. resolved fs d \<and> below (fa_workspace a) d \<and> (node_at fs d \<noteq> None \<longrightarrow> confirmed)
      \<and> stays (fresh_of a fs) fs fs2 \<and> snd (run_rename X a confirmed payload p fs) \<in> {fs2, snd (replace_file p d fs2)})"
proof (cases "bind_res (required_text_field payload ''destination'') (resolve_path a fs)")
  case (Inl e)
  then show ?thesis by (simp add: run_rename_def bind_act_reads)
next
  case (Inr d)
  then have d: "resolved fs d" "below (fa_workspace a) d"
    using resolve_path_Inr [OF _ assms] by (auto simp: bind_res_eq_Inr)
  let ?rest = "bind_act (check_file p) (\<lambda>_. bind_act (reads (\<lambda>fs. Inr (is_dir fs d))) (\<lambda>directory.
     bind_act (require (\<not> directory) (file_error ''destination_is_directory'')) (\<lambda>_.
     bind_act (read_bytes p) (move_into X a p d))))"
  have e: "snd (?rest fs) = fs \<or> (\<exists>old. snd (?rest fs) = snd (move_into X a p d old fs))"
  proof -
    have one: "snd (bind_act m f fs) = fs \<or> (\<exists>x. snd (bind_act m f fs) = snd (f x fs))" if "snd (m fs) = fs"
      for m :: "(file_system, 'a) act" and f :: "'a \<Rightarrow> (file_system, action_result) act"
      using that by (auto simp: bind_act_def split: prod.split sum.split)
    show ?thesis
      using one [of "read_bytes p" "move_into X a p d"]
      by (auto simp: bind_act_reads bind_act_require bind_act_def [of "check_file p"] check_file_Inr split: prod.split sum.split
          dest: arg_cong [of _ _ snd])
  qed
  show ?thesis
  proof (cases "path_exists fs d \<and> \<not> confirmed")
    case True
    then show ?thesis by (simp add: run_rename_def bind_act_reads bind_act_require Inr)
  next
    case False
    then have "snd (run_rename X a confirmed payload p fs) = snd (?rest fs)"
      by (simp add: run_rename_def bind_act_reads bind_act_require Inr)
    moreover have "node_at fs d \<noteq> None \<longrightarrow> confirmed"
      using False stat_resolved [OF d(1)] by (auto simp: path_exists_def)
    ultimately show ?thesis using e move_into_state [OF assms d, of X p] d by metis
  qed
qed

lemma run_rename_stays:
  assumes "fa_wf a fs" "resolved fs p" "below (fa_workspace a) p"
  shows "\<exists>d. stays (insert p (insert d (fresh_of a fs))) fs (snd (run_rename X a confirmed payload p fs))
    \<and> below (fa_workspace a) d \<and> (\<not> confirmed \<longrightarrow> snd (run_rename X a confirmed payload p fs) \<noteq> fs \<longrightarrow> node_at fs d = None)"
  using run_rename_state [OF assms(1), of X confirmed payload p]
proof
  assume "snd (run_rename X a confirmed payload p fs) = fs"
  with assms(3) show ?thesis by auto
next
  assume "\<exists>d fs2. resolved fs d \<and> below (fa_workspace a) d \<and> (node_at fs d \<noteq> None \<longrightarrow> confirmed)
      \<and> stays (fresh_of a fs) fs fs2 \<and> snd (run_rename X a confirmed payload p fs) \<in> {fs2, snd (replace_file p d fs2)}"
  then obtain d fs2 where d: "resolved fs d" "below (fa_workspace a) d" "node_at fs d \<noteq> None \<longrightarrow> confirmed"
    and s: "stays (fresh_of a fs) fs fs2" "snd (run_rename X a confirmed payload p fs) \<in> {fs2, snd (replace_file p d fs2)}"
    by blast
  let ?W = "insert p (insert d (fresh_of a fs))"
  have 1: "stays ?W fs fs2" using s(1) by (rule stays_mono) auto
  have 2: "stays ?W fs2 (snd (replace_file p d fs2))"
    using fa_wf_stays [OF s(1) assms(1)] assms(2) d(1) s(1)
    by (intro replace_file_stays) (simp_all add: stays_resolved fa_wf_def)
  have "stays ?W fs (snd (run_rename X a confirmed payload p fs))"
    using s(2) 1 transpD [OF stays_order(2) 1 2] by auto
  with d(2,3) show ?thesis by auto
qed

lemma execute_checked_on:
  "bind_res (required_text_field (ap_payload pl) ''path'') (resolve_path a fs) = Inr p \<Longrightarrow> execute_checked X a pl fs =
      (if ap_action_type pl = ''file.read'' then run_read X p
       else if ap_action_type pl = ''file.create'' then run_create_file X a (ap_payload pl) p
       else if ap_action_type pl = ''file.update'' then run_update X a (ap_payload pl) p
       else if ap_action_type pl = ''file.delete'' then run_delete X a (ap_confirmed pl) p
       else if ap_action_type pl = ''file.rename'' then run_rename X a (ap_confirmed pl) (ap_payload pl) p
       else raise_exc (file_error ''unsupported_action_type'')) fs"
  by (simp add: execute_checked_def bind_act_reads)

text \<open>What an action may write: the paths by action type, the path \<open>p\<close> of the plan and a destination \<open>d\<close>.\<close>

definition file_footprint :: "file_agent \<Rightarrow> file_system \<Rightarrow> string \<Rightarrow> path \<Rightarrow> path \<Rightarrow> path set" where
  "file_footprint a fs action p d =
     (if action = ''file.create'' then fresh_of a fs
      else if action = ''file.update'' \<or> action = ''file.delete'' then insert p (records_of a)
      else if action = ''file.rename'' then insert p (insert d (fresh_of a fs))
      else {})"

lemma execute_checked_footprint:
  assumes "fa_wf a fs"
  shows "\<exists>p d. below (fa_workspace a) p \<and> below (fa_workspace a) d
    \<and> stays (file_footprint a fs (ap_action_type pl) p d) fs (snd (execute_checked X a pl fs))
    \<and> (\<not> ap_confirmed pl \<and> ap_action_type pl \<noteq> ''file.update'' \<longrightarrow> snd (execute_checked X a pl fs) \<noteq> fs \<longrightarrow>
         ap_action_type pl = ''file.create'' \<or> (ap_action_type pl = ''file.rename'' \<and> node_at fs d = None))"
proof (cases "bind_res (required_text_field (ap_payload pl) ''path'') (resolve_path a fs)")
  case (Inl e)
  then have "snd (execute_checked X a pl fs) = fs" by (simp add: execute_checked_def bind_act_reads)
  moreover have "below (fa_workspace a) (fa_workspace a)" by (simp add: below_def)
  ultimately show ?thesis by auto
next
  case (Inr p)
  then have p: "resolved fs p" "below (fa_workspace a) p"
    using resolve_path_Inr [OF _ assms] by (auto simp: bind_res_eq_Inr)
  note x = execute_checked_on [OF Inr, of X]
  have other: "snd (execute_checked X a pl fs) = fs"
    if "ap_action_type pl \<noteq> ''file.create''" "ap_action_type pl \<noteq> ''file.update''" "ap_action_type pl \<noteq> ''file.delete''"
      "ap_action_type pl \<noteq> ''file.rename''"
    using that by (simp add: x run_read_same)
  consider "ap_action_type pl = ''file.create''" | "ap_action_type pl = ''file.update''" | "ap_action_type pl = ''file.delete''"
    | "ap_action_type pl = ''file.rename''" | "snd (execute_checked X a pl fs) = fs"
    using other by blast
  then show ?thesis
  proof cases
    case 1
    with run_create_file_stays [OF assms p, of X "ap_payload pl"] p(2) show ?thesis
      by (intro exI [of _ p]) (simp add: x file_footprint_def)
  next
    case 2
    with run_update_stays [OF assms p(1), of X "ap_payload pl"] p(2) show ?thesis
      by (intro exI [of _ p]) (simp add: x file_footprint_def)
  next
    case 3
    have "snd (run_delete X a False p fs) = fs" by (simp add: run_delete_def bind_act_require)
    with 3 run_delete_stays [OF assms p(1), of X "ap_confirmed pl"] p(2) show ?thesis
      by (intro exI [of _ p]) (auto simp: x file_footprint_def)
  next
    case 4
    from run_rename_stays [OF assms p, of X "ap_confirmed pl" "ap_payload pl"] obtain d where
      "stays (insert p (insert d (fresh_of a fs))) fs (snd (run_rename X a (ap_confirmed pl) (ap_payload pl) p fs))"
      "below (fa_workspace a) d"
      "\<not> ap_confirmed pl \<longrightarrow> snd (run_rename X a (ap_confirmed pl) (ap_payload pl) p fs) \<noteq> fs \<longrightarrow> node_at fs d = None"
      by blast
    with 4 p(2) show ?thesis by (intro exI [of _ p] exI [of _ d]) (simp add: x file_footprint_def)
  next
    case 5
    with p(2) show ?thesis by (intro exI [of _ p]) auto
  qed
qed

lemma file_execute_cases:
  "(snd (file_execute X a p poi fs) = fs \<and> (\<forall>r. fst (file_execute X a p poi fs) = Inr r \<longrightarrow> \<not> res_success r))
   \<or> (plan_refusal ''file'' (fa_id a) file_capabilities p = None
      \<and> poi_refusal (fl_crypto X) [None, Some (ap_action_type p)] p poi = Inr None
      \<and> file_execute X a p poi fs = catching [FileAgentError] (\<lambda>e. ret (failure (exc_str e))) (execute_checked X a p) fs)"
  by (cases "plan_refusal ''file'' (fa_id a) file_capabilities p";
      cases "poi_refusal (fl_crypto X) [None, Some (ap_action_type p)] p poi")
    (auto simp: file_execute_def bind_act_lift ret_def failure_def split: option.split)

lemma catching_failure_run: "snd (catching cs (\<lambda>e. ret (h e)) m s) = snd (m s)"
  by (auto simp: catching_def ret_def split: prod.split sum.split)

lemma file_execute_run:
  "snd (file_execute X a p poi fs) = fs \<or> snd (file_execute X a p poi fs) = snd (execute_checked X a p fs)"
  using file_execute_cases [of X a p poi fs] by (auto simp: catching_failure_run)

lemma file_execute_bound:
  "file_execute X a p poi fs = (r, fs') \<Longrightarrow> fs' \<noteq> fs \<or> (\<exists>x. r = Inr x \<and> res_success x) \<Longrightarrow>
    \<exists>q. poi = Some q \<and> authorises (fl_crypto X) q p"
  using file_execute_cases [of X a p poi fs] by (auto simp: poi_refusal_None)

interpretation file_bound: poi_bound_agent "fl_crypto X" "file_execute X a" for X a
  by unfold_locales (rule file_execute_bound)

lemma footprint_in_sandbox:
  "below (fa_workspace a) p \<Longrightarrow> below (fa_workspace a) d \<Longrightarrow> file_footprint a fs action p d \<subseteq> sandbox a"
  by (auto simp: file_footprint_def fresh_of_def sandbox_def)

text \<open>
  C18: the sandbox of the file agent. Whatever plan and PoI it is given, whatever links and \<^verbatim>\<open>..\<close> the paths
  of the plan go through, \<^verbatim>\<open>execute\<close> changes nothing outside the workspace but records directly in the backup
  directory, follows no link out of them, leaves the tree well-formed and the workspace usable for the next
  action, and changes anything or reports success only with a PoI for exactly this payload whose action type
  is missing or that of the plan.
\<close>

theorem file_sandbox:
  assumes "fa_wf a fs" "file_execute X a p poi fs = (r, fs')"
  shows "fa_wf a fs' \<and> (\<forall>q. map_of fs' q \<noteq> map_of fs q \<longrightarrow> below (fa_workspace a) q \<or> q \<in> records_of a)
    \<and> (fs' \<noteq> fs \<or> (\<exists>x. r = Inr x \<and> res_success x) \<longrightarrow>
        ap_agent_type p = ''file'' \<and> ap_policy_decision p = ''allow'' \<and> ap_action_type p \<in> set file_capabilities
        \<and> (\<exists>q. poi = Some q \<and> authorises (fl_crypto X) q p \<and> poi_action_type q \<in> {None, Some (ap_action_type p)}))"
proof -
  obtain pa d where "below (fa_workspace a) pa" "below (fa_workspace a) d"
      "stays (file_footprint a fs (ap_action_type p) pa d) fs (snd (execute_checked X a p fs))"
    using execute_checked_footprint [OF assms(1)] by blast
  then have "stays (sandbox a) fs (snd (execute_checked X a p fs))"
    using footprint_in_sandbox by (blast intro: stays_mono)
  then have s: "stays (sandbox a) fs fs'" using file_execute_run [of X a p poi fs] assms(2) by auto
  have "fa_wf a fs'" using fa_wf_stays [OF s assms(1)] .
  moreover have "below (fa_workspace a) q \<or> q \<in> records_of a" if "map_of fs' q \<noteq> map_of fs q" for q
    using s that by (auto simp: stays_def sandbox_def)
  moreover have "ap_agent_type p = ''file'' \<and> ap_policy_decision p = ''allow'' \<and> ap_action_type p \<in> set file_capabilities
      \<and> (\<exists>q. poi = Some q \<and> authorises (fl_crypto X) q p \<and> poi_action_type q \<in> {None, Some (ap_action_type p)})"
    if "fs' \<noteq> fs \<or> (\<exists>x. r = Inr x \<and> res_success x)"
    using file_execute_cases [of X a p poi fs] that assms(2) by (auto simp: plan_refusal_None poi_refusal_None)
  ultimately show ?thesis by blast
qed

section \<open>What the operations do\<close>

lemma write_text_Inr:
  "resolved fs p \<Longrightarrow> write_text p s fs = (Inr u, fs') \<Longrightarrow>
     node_at fs' p = Some (FFile (str_encode s)) \<and> stays {p} fs fs'"
  using write_bytes_stays [of fs p "{p}" "str_encode s"]
  by (auto simp: write_text_def write_bytes_def locate_resolved node_at_def split: if_splits)

lemma stays_same: "stays W fs fs' \<Longrightarrow> q \<notin> W \<Longrightarrow> node_at fs' q = node_at fs q"
  by (simp add: stays_def node_at_def)

lemma write_change_record_Inr:
  assumes "fa_wf a fs" "write_change_record X a action p b c fs = (Inr ref, fs')"
  shows "node_at fs' (record_path X a action p b c) = Some (FFile (str_encode (change_record X action p b c)))
    \<and> stays {record_path X a action p b c} fs fs' \<and> fa_wf a fs'"
proof -
  from assms(2) have w: "write_text (record_path X a action p b c) (change_record X action p b c) fs = (Inr (), fs')"
    by (auto simp: write_change_record_def Let_def bind_act_ret map_res_eq_Inr prod_eq_iff)
  note t = write_text_Inr [OF record_resolved [OF assms(1)] w]
  with fa_wf_stays [OF _ assms(1)] show ?thesis by blast
qed

text \<open>
  The frame of an action: every place outside \<open>W\<close> holds what it held, but directories on the way to a new
  file may have been made.
\<close>

definition same_but :: "path set \<Rightarrow> file_system \<Rightarrow> file_system \<Rightarrow> bool" where
  "same_but W fs fs' \<longleftrightarrow> (\<forall>q. q \<notin> W \<longrightarrow> node_at fs' q = node_at fs q)"

definition same_but_parents :: "path set \<Rightarrow> path \<Rightarrow> file_system \<Rightarrow> file_system \<Rightarrow> bool" where
  "same_but_parents W parent fs fs' \<longleftrightarrow>
     (\<forall>q. q \<notin> W \<longrightarrow> node_at fs' q = node_at fs q
        \<or> (\<exists>k. q = take k parent) \<and> node_at fs q = None \<and> node_at fs' q = Some FDir)"

lemma stays_same_but: "stays W fs fs' \<Longrightarrow> W \<subseteq> W' \<Longrightarrow> same_but W' fs fs'"
  by (auto simp: same_but_def stays_def node_at_def)

lemma same_but_trans: "same_but W fs t \<Longrightarrow> same_but W t fs' \<Longrightarrow> same_but W fs fs'"
  by (simp add: same_but_def)

lemma same_but_parents_trans: "same_but_parents {} ps fs t \<Longrightarrow> same_but W t fs' \<Longrightarrow> same_but_parents W ps fs fs'"
  by (auto simp: same_but_def same_but_parents_def)

lemma make_dirs_below_parents: "same_but_parents {} (q @ ns) fs (snd (make_dirs_below q ns fs))"
proof (induction q ns fs rule: make_dirs_below.induct)
  case (2 q n ns fs)
  show ?case
  proof (cases "node_at fs (q @ [n])")
    case None
    have n: "node_at (dict_set (q @ [n]) FDir fs) r = (if r = q @ [n] then Some FDir else node_at fs r)" for r
      by (simp add: node_at_def)
    have t: "\<exists>k. q @ [n] = take k (q @ n # ns)" by (rule exI [of _ "Suc (length q)"]) simp
    let ?t = "snd (make_dirs_below (q @ [n]) ns (dict_set (q @ [n]) FDir fs))"
    have ih: "node_at ?t r = node_at (dict_set (q @ [n]) FDir fs) r \<or> (\<exists>k. r = take k (q @ n # ns))
        \<and> node_at (dict_set (q @ [n]) FDir fs) r = None \<and> node_at ?t r = Some FDir" for r
      using "2.IH"(1) [OF None] by (simp add: same_but_parents_def)
    have "node_at ?t r = node_at fs r \<or> (\<exists>k. r = take k (q @ n # ns)) \<and> node_at fs r = None \<and> node_at ?t r = Some FDir" for r
      using ih [of r] t None by (cases "r = q @ [n]") (simp_all add: n)
    then show ?thesis by (simp add: same_but_parents_def None)
  next
    case (Some nd)
    show ?thesis
    proof (cases nd)
      case FDir
      then show ?thesis using "2.IH"(2) [OF Some FDir] Some by simp
    qed (simp_all add: Some same_but_parents_def)
  qed
qed (simp add: same_but_parents_def)

lemma make_dirs_parents: "resolved fs p \<Longrightarrow> same_but_parents {} p fs (snd (make_dirs p fs))"
  using make_dirs_below_parents [of "[]" p fs] by (simp add: make_dirs_def locate_resolved)

lemma stays_absent_file:
  "stays (fresh_of a fs) fs fs' \<Longrightarrow> node_at fs q = Some n \<Longrightarrow> q \<notin> records_of a \<Longrightarrow> node_at fs' q = Some n"
  using stays_same [of "fresh_of a fs" fs fs' q] by (auto simp: fresh_of_def)

lemma read_text_Inr:
  "read_text p fs = (Inr t, fs') \<longleftrightarrow>
     fs' = fs \<and> (\<exists>b u. stat fs p = Some (FFile b) \<and> decode_utf8 b = Inr u \<and> t = universal_newlines u)"
  by (auto simp: read_text_def read_bytes_def act_defs map_res_def split: option.splits fnode.splits sum.splits)

lemma run_read_exact:
  assumes "run_read X p fs = (Inr x, fs')" "resolved fs p"
  shows "fs' = fs \<and> (\<exists>b u. node_at fs p = Some (FFile b) \<and> decode_utf8 b = Inr u
    \<and> map_of (res_details x) ''content'' = Some (JStr (universal_newlines u)))"
  using assms(1) by (auto simp: run_read_def bind_act_eq_Inr check_file_Inr read_text_Inr ret_def Let_def stat_resolved [OF assms(2)])

lemma run_create_exact:
  assumes "run_create_file X a payload p fs = (Inr x, fs')" "fa_wf a fs" "resolved fs p" "below (fa_workspace a) p" "p \<notin> records_of a"
  shows "node_at fs p = None \<and> (\<exists>c. map_of payload ''content'' = Some (JStr c) \<and> c \<noteq> []
    \<and> node_at fs' p = Some (FFile (str_encode c))
    \<and> node_at fs' (record_path X a ''file.create'' p None (Some c))
        = Some (FFile (str_encode (change_record X ''file.create'' p None (Some c))))
    \<and> same_but_parents {p, record_path X a ''file.create'' p None (Some c)} (butlast p) fs fs')"
proof -
  from assms(1) have ne: "\<not> path_exists fs p"
    by (cases "path_exists fs p") (simp_all add: run_create_file_def bind_act_reads)
  with assms(1) obtain c fs1 fs2 ref where c: "required_text_field payload ''content'' = Inr c"
    and f: "make_dirs (butlast p) fs = (Inr (), fs1)" "write_text p c fs1 = (Inr (), fs2)"
      "write_change_record X a ''file.create'' p None (Some c) fs2 = (Inr ref, fs')"
    by (auto simp: run_create_file_def bind_act_reads bind_act_eq_Inr lift_res_def ret_def)
  let ?r = "record_path X a ''file.create'' p None (Some c)"
  have n: "node_at fs p = None" using ne stat_resolved [OF assms(3)] by (simp add: path_exists_def)
  have s1: "stays (fresh_of a fs) fs fs1"
    using make_parent_stays [OF assms(2-4), of "fresh_of a fs"] f(1) by (simp add: fresh_of_def)
  have r1: "resolved fs1 p" using stays_resolved [OF s1] assms(3) by simp
  note w = write_text_Inr [OF r1 f(2)]
  have "fa_wf a fs2" using fa_wf_stays [OF s1 assms(2)] fa_wf_stays w by blast
  note wr = write_change_record_Inr [OF this f(3)]
  have "?r \<noteq> p" using assms(5) record_in [of X a "''file.create''" p None "Some c"] by auto
  then have "node_at fs' p = node_at fs2 p" using stays_same [of "{?r}" fs2 fs' p] wr by simp
  moreover have "same_but_parents {p, ?r} (butlast p) fs fs'"
  proof (rule same_but_parents_trans)
    show "same_but_parents {} (butlast p) fs fs1"
      using make_dirs_parents [OF resolved_butlast [OF assms(3)]] f(1) by (metis snd_conv)
    show "same_but {p, ?r} fs1 fs'"
      using stays_same_but [of "{p}" fs1 fs2 "{p, ?r}"] stays_same_but [of "{?r}" fs2 fs' "{p, ?r}"] w wr by (blast intro: same_but_trans)
  qed
  ultimately show ?thesis using w wr n c by (auto simp: required_text_field_def split: option.splits json.splits if_splits)
qed

lemma run_update_exact:
  assumes "run_update X a payload p fs = (Inr x, fs')" "fa_wf a fs" "resolved fs p" "p \<notin> records_of a"
  shows "\<exists>b u patch after. node_at fs p = Some (FFile b) \<and> decode_utf8 b = Inr u
    \<and> map_of payload ''patch'' = Some (JStr patch) \<and> apply_unified_diff (universal_newlines u) patch = Inr after
    \<and> node_at fs' p = Some (FFile (str_encode after))
    \<and> node_at fs' (record_path X a ''file.update'' p (Some (universal_newlines u)) (Some after))
        = Some (FFile (str_encode (change_record X ''file.update'' p (Some (universal_newlines u)) (Some after))))
    \<and> same_but {p, record_path X a ''file.update'' p (Some (universal_newlines u)) (Some after)} fs fs'"
proof -
  from assms(1) obtain prior patch after ref fs1 where
    t: "read_text p fs = (Inr prior, fs)" "required_text_field payload ''patch'' = Inr patch" "apply_unified_diff prior patch = Inr after"
    and f: "write_change_record X a ''file.update'' p (Some prior) (Some after) fs = (Inr ref, fs1)" "write_text p after fs1 = (Inr (), fs')"
    by (auto simp: run_update_def bind_act_eq_Inr check_file_Inr lift_res_def ret_def read_text_Inr)
  let ?r = "record_path X a ''file.update'' p (Some prior) (Some after)"
  note wr = write_change_record_Inr [OF assms(2) f(1)]
  then have r1: "resolved fs1 p" using assms(3) stays_resolved by blast
  note w = write_text_Inr [OF r1 f(2)]
  have "?r \<noteq> p" using assms(4) record_in by metis
  then have "node_at fs' ?r = node_at fs1 ?r" using w by (intro stays_same [of "{p}"]) auto
  moreover have "same_but {p, ?r} fs fs'"
    using stays_same_but [of "{?r}" fs fs1 "{p, ?r}"] stays_same_but [of "{p}" fs1 fs' "{p, ?r}"] w wr by (blast intro: same_but_trans)
  ultimately show ?thesis using w wr t
    by (auto simp: read_text_Inr stat_resolved [OF assms(3)] required_text_field_def split: option.splits json.splits if_splits)
qed

lemma unlink_Inr: "unlink p fs = (Inr u, fs') \<Longrightarrow> p \<noteq> [] \<Longrightarrow> node_at fs' p = None"
  by (auto simp: unlink_def node_at_remove split: option.splits fnode.splits)

lemma run_delete_exact:
  assumes "run_delete X a confirmed p fs = (Inr x, fs')" "fa_wf a fs" "resolved fs p" "p \<notin> records_of a"
  shows "confirmed \<and> (\<exists>b u. node_at fs p = Some (FFile b) \<and> decode_utf8 b = Inr u \<and> node_at fs' p = None
    \<and> node_at fs' (record_path X a ''file.delete'' p (Some (universal_newlines u)) None)
        = Some (FFile (str_encode (change_record X ''file.delete'' p (Some (universal_newlines u)) None)))
    \<and> same_but {p, record_path X a ''file.delete'' p (Some (universal_newlines u)) None} fs fs')"
proof -
  from assms(1) have c: "confirmed" by (cases confirmed) (simp_all add: run_delete_def bind_act_require)
  from assms(1) obtain prior ref fs1 where
    t: "read_text p fs = (Inr prior, fs)" "is_file fs p"
    and f: "write_change_record X a ''file.delete'' p (Some prior) None fs = (Inr ref, fs1)" "unlink p fs1 = (Inr (), fs')"
    by (auto simp: run_delete_def bind_act_require bind_act_eq_Inr check_file_Inr ret_def read_text_Inr split: if_splits)
  let ?r = "record_path X a ''file.delete'' p (Some prior) None"
  note wr = write_change_record_Inr [OF assms(2) f(1)]
  have r1: "resolved fs1 p" using wr assms(3) stays_resolved by blast
  have ne: "p \<noteq> []" using t(2) stat_resolved [OF assms(3)] by (auto simp: is_file_def)
  have s: "stays {p} fs1 fs'" using unlink_stays [OF r1, of "{p}"] f(2) by simp
  have "?r \<noteq> p" using assms(4) record_in by metis
  then have "node_at fs' ?r = node_at fs1 ?r" using s by (intro stays_same [of "{p}"]) auto
  moreover have "same_but {p, ?r} fs fs'"
    using stays_same_but [of "{?r}" fs fs1 "{p, ?r}"] stays_same_but [of "{p}" fs1 fs' "{p, ?r}"] s wr by (blast intro: same_but_trans)
  ultimately show ?thesis using c wr t(1) unlink_Inr [OF f(2) ne] by (auto simp: read_text_Inr stat_resolved [OF assms(3)])
qed

text \<open>A file that is not a record survives what only touches free places, and an unconfirmed rename.\<close>

lemma fresh_keeps:
  "stays (fresh_of a fs) fs t \<Longrightarrow> map_of fs q = Some (FFile b) \<Longrightarrow> q \<notin> records_of a \<Longrightarrow> map_of t q = Some (FFile b)"
  by (auto simp: stays_def fresh_of_def node_at_def split: if_splits)

lemma unconfirmed_rename_keeps:
  assumes "fa_wf a fs" "map_of fs q = Some (FFile b)" "q \<notin> records_of a"
  shows "map_of (snd (run_rename X a False payload p fs)) q = Some (FFile b)
    \<or> (\<exists>d. map_of fs d = None \<and> map_of (snd (run_rename X a False payload p fs)) d = Some (FFile b))"
proof -
  let ?fs' = "snd (run_rename X a False payload p fs)"
  from run_rename_state [OF assms(1), of X False payload p]
  consider "?fs' = fs" | fs2 where "stays (fresh_of a fs) fs fs2" "?fs' = fs2"
    | d fs2 where "node_at fs d = None" "stays (fresh_of a fs) fs fs2" "?fs' = snd (replace_file p d fs2)" by auto
  then show ?thesis
  proof cases
    case (3 d fs2)
    have k: "map_of fs2 q = Some (FFile b)" using fresh_keeps [OF 3(2) assms(2,3)] .
    have dn: "map_of fs d = None" using 3(1) by (auto simp: node_at_def split: if_splits)
    from replace_file_state [of p d fs2] 3(3) k consider "?fs' = fs2"
      | nd where "map_of fs2 p = Some nd" "?fs' = dict_set d nd (remove_node p fs2)" by auto
    then show ?thesis
    proof cases
      case (2 nd)
      show ?thesis
      proof (cases "q = p")
        case True
        with 2 k have "map_of ?fs' d = Some (FFile b)" by simp
        with dn show ?thesis by blast
      next
        case False
        moreover have "q \<noteq> d" using dn assms(2) by auto
        ultimately show ?thesis using 2 k by (simp add: map_of_remove)
      qed
    qed (use k in simp)
  qed (use assms fresh_keeps in auto)
qed

text \<open>
  C19: without confirmation no file is lost. Whatever an unconfirmed plan that is not an update asks for,
  every file outside the backup records is still there with its contents afterwards, at its path or, for
  a rename, at a destination that did not exist before.
\<close>

theorem unconfirmed_keeps_files:
  assumes "fa_wf a fs" "file_execute X a pl poi fs = (r, fs')" "\<not> ap_confirmed pl" "ap_action_type pl \<noteq> ''file.update''"
    "map_of fs q = Some (FFile b)" "q \<notin> records_of a"
  shows "map_of fs' q = Some (FFile b)
    \<or> (ap_action_type pl = ''file.rename'' \<and> (\<exists>d. map_of fs d = None \<and> map_of fs' d = Some (FFile b)))"
proof -
  have run: "fs' = fs \<or> fs' = snd (execute_checked X a pl fs)" using file_execute_run [of X a pl poi fs] assms(2) by auto
  show ?thesis
  proof (cases "bind_res (required_text_field (ap_payload pl) ''path'') (resolve_path a fs)")
    case (Inl e)
    then have "snd (execute_checked X a pl fs) = fs" by (simp add: execute_checked_def bind_act_reads)
    with run assms(5) show ?thesis by auto
  next
    case (Inr p)
    then have p: "resolved fs p" "below (fa_workspace a) p"
      using resolve_path_Inr [OF _ assms(1)] by (auto simp: bind_res_eq_Inr)
    note x = execute_checked_on [OF Inr, of X]
    consider "ap_action_type pl = ''file.create''" | "ap_action_type pl = ''file.rename''"
      | "ap_action_type pl \<noteq> ''file.create''" "ap_action_type pl \<noteq> ''file.rename''" by blast
    then show ?thesis
    proof cases
      case 1
      then have "snd (execute_checked X a pl fs) = snd (run_create_file X a (ap_payload pl) p fs)" by (simp add: x)
      with run fresh_keeps [OF run_create_file_stays [OF assms(1) p] assms(5,6)] assms(5) show ?thesis by auto
    next
      case 2
      then have "snd (execute_checked X a pl fs) = snd (run_rename X a False (ap_payload pl) p fs)" by (simp add: x assms(3))
      with run unconfirmed_rename_keeps [OF assms(1,5,6), of X "ap_payload pl" p] assms(5) 2 show ?thesis by auto
    next
      case 3
      have "snd (run_delete X a False p fs) = fs" by (simp add: run_delete_def bind_act_require)
      with 3 have "snd (execute_checked X a pl fs) = fs" using assms(3,4) by (simp add: x run_read_same)
      with run assms(5) show ?thesis by auto
    qed
  qed
qed

lemma rename_checks:
  "run_rename X a confirmed payload p fs = (Inr x, fs') \<Longrightarrow> \<exists>d b. bind_res (required_text_field payload ''destination'') (resolve_path a fs) = Inr d
    \<and> (path_exists fs d \<longrightarrow> confirmed) \<and> stat fs p = Some (FFile b) \<and> \<not> is_dir fs d \<and> move_into X a p d b fs = (Inr x, fs')"
  by (auto simp: run_rename_def bind_act_eq_Inr check_file_Inr reads_def require_def read_bytes_def is_file_def
      split: if_splits option.splits fnode.splits)

lemma run_rename_exact:
  assumes "run_rename X a confirmed payload p fs = (Inr x, fs')" "fa_wf a fs" "resolved fs p" "p \<notin> records_of a"
  shows "\<exists>d b. bind_res (required_text_field payload ''destination'') (resolve_path a fs) = Inr d
    \<and> (node_at fs d \<noteq> None \<longrightarrow> confirmed) \<and> node_at fs p = Some (FFile b) \<and> node_at fs' d = Some (FFile b)
    \<and> (d \<noteq> p \<longrightarrow> node_at fs' p = None)
    \<and> (d \<noteq> record_path X a ''file.rename'' p (Some (path_str p)) (Some (path_str d)) \<longrightarrow>
        node_at fs' (record_path X a ''file.rename'' p (Some (path_str p)) (Some (path_str d)))
          = Some (FFile (str_encode (change_record X ''file.rename'' p (Some (path_str p)) (Some (path_str d))))))
    \<and> same_but_parents {p, d, record_path X a ''file.rename'' p (Some (path_str p)) (Some (path_str d))} (butlast d) fs fs'"
proof -
  from rename_checks [OF assms(1)] obtain d b where d: "bind_res (required_text_field payload ''destination'') (resolve_path a fs) = Inr d"
      "path_exists fs d \<longrightarrow> confirmed" "stat fs p = Some (FFile b)" "move_into X a p d b fs = (Inr x, fs')"
    by blast
  let ?r = "record_path X a ''file.rename'' p (Some (path_str p)) (Some (path_str d))"
  from d have dr: "resolved fs d" "below (fa_workspace a) d"
    using resolve_path_Inr [OF _ assms(2)] by (auto simp: bind_res_eq_Inr)
  have pn: "node_at fs p = Some (FFile b)" using d(3) stat_resolved [OF assms(3)] by simp
  from d(4) obtain fs1 ref fs2 fs3 m where
    f: "make_dirs (butlast d) fs = (Inr (), fs1)"
       "write_change_record X a ''file.rename'' p (Some (path_str p)) (Some (path_str d)) fs1 = (Inr ref, fs2)"
       "replace_file p d fs2 = (Inr (), fs3)" "read_bytes d fs3 = (Inr m, fs')"
    by (auto simp: move_into_def bind_act_eq_Inr ret_def)
  have f3: "fs' = fs3" using arg_cong [OF f(4), of snd] by simp
  have s1: "stays (fresh_of a fs) fs fs1"
    using make_parent_stays [OF assms(2) dr, of "fresh_of a fs"] f(1) by (simp add: fresh_of_def)
  note wr = write_change_record_Inr [OF fa_wf_stays [OF s1 assms(2)] f(2)]
  have rp: "?r \<noteq> p" using assms(4) record_in by metis
  have "node_at fs1 p = Some (FFile b)" using stays_absent_file [OF s1 pn assms(4)] .
  then have p2: "node_at fs2 p = Some (FFile b)" using stays_same [of "{?r}" fs1 fs2 p] wr rp by simp
  then have "p \<noteq> []" "map_of fs2 p = Some (FFile b)" by (auto simp: node_at_def split: if_splits)
  moreover from this f(3) have "node_at fs2 d \<noteq> Some FDir" "fs3 = (if p = d then fs2 else dict_set d (FFile b) (remove_node p fs2))"
    by (auto simp: replace_file_def split: if_splits)
  ultimately have n: "node_at fs' q = (if q = d then Some (FFile b) else if q = p then None else node_at fs2 q)" for q
    using p2 f3 by (auto simp: node_at_def map_of_remove)
  have "same_but_parents {p, d, ?r} (butlast d) fs fs'"
  proof (rule same_but_parents_trans)
    show "same_but_parents {} (butlast d) fs fs1"
      using make_dirs_parents [OF resolved_butlast [OF dr(1)]] f(1) by (metis snd_conv)
    have "same_but {p, d, ?r} fs2 fs'" by (simp add: same_but_def n)
    then show "same_but {p, d, ?r} fs1 fs'"
      using stays_same_but [of "{?r}" fs1 fs2 "{p, d, ?r}"] wr by (blast intro: same_but_trans)
  qed
  moreover have "node_at fs d \<noteq> None \<longrightarrow> confirmed" using d(2) stat_resolved [OF dr(1)] by (simp add: path_exists_def)
  ultimately show ?thesis using d(1) pn n rp wr by auto
qed

lemma file_execute_success:
  assumes "file_execute X a pl poi fs = (Inr x, fs')" "res_success x"
  shows "execute_checked X a pl fs = (Inr x, fs') \<and> ap_action_type pl \<in> set file_capabilities"
  using file_execute_cases [of X a pl poi fs] assms
  by (auto simp: plan_refusal_None catching_def ret_def failure_def split: prod.splits sum.splits if_splits)

text \<open>
  C20: what a successful action did, for a path that is not one of the agent's own records. Reading returned
  the decoded contents and changed nothing; creating needed a free path and left exactly the committed
  content there; updating replaced the text by what the committed patch makes of it; deleting needed
  confirmation; renaming moved the same bytes to the committed destination, and replaced an existing file
  there only with confirmation. Every change is in a record of the action with the contents before and after
  (the two paths for a rename), unless the rename moved its file onto that very record, and nothing else
  changed, but for directories made on the way to a new file or destination.
\<close>

theorem file_success_exact:
  assumes "fa_wf a fs" "file_execute X a pl poi fs = (Inr x, fs')" "res_success x"
    "bind_res (required_text_field (ap_payload pl) ''path'') (resolve_path a fs) = Inr p" "p \<notin> records_of a"
  shows "(ap_action_type pl = ''file.read'' \<and> fs' = fs \<and> (\<exists>b u. node_at fs p = Some (FFile b) \<and> decode_utf8 b = Inr u
        \<and> map_of (res_details x) ''content'' = Some (JStr (universal_newlines u))))
    \<or> (ap_action_type pl = ''file.create'' \<and> node_at fs p = None \<and> (\<exists>c. map_of (ap_payload pl) ''content'' = Some (JStr c)
        \<and> c \<noteq> [] \<and> node_at fs' p = Some (FFile (str_encode c))
        \<and> node_at fs' (record_path X a ''file.create'' p None (Some c))
            = Some (FFile (str_encode (change_record X ''file.create'' p None (Some c))))
        \<and> same_but_parents {p, record_path X a ''file.create'' p None (Some c)} (butlast p) fs fs'))
    \<or> (ap_action_type pl = ''file.update'' \<and> (\<exists>b u patch after. node_at fs p = Some (FFile b) \<and> decode_utf8 b = Inr u
        \<and> map_of (ap_payload pl) ''patch'' = Some (JStr patch) \<and> apply_unified_diff (universal_newlines u) patch = Inr after
        \<and> node_at fs' p = Some (FFile (str_encode after))
        \<and> node_at fs' (record_path X a ''file.update'' p (Some (universal_newlines u)) (Some after))
            = Some (FFile (str_encode (change_record X ''file.update'' p (Some (universal_newlines u)) (Some after))))
        \<and> same_but {p, record_path X a ''file.update'' p (Some (universal_newlines u)) (Some after)} fs fs'))
    \<or> (ap_action_type pl = ''file.delete'' \<and> ap_confirmed pl \<and> node_at fs' p = None
        \<and> (\<exists>b u. node_at fs p = Some (FFile b) \<and> decode_utf8 b = Inr u
          \<and> node_at fs' (record_path X a ''file.delete'' p (Some (universal_newlines u)) None)
              = Some (FFile (str_encode (change_record X ''file.delete'' p (Some (universal_newlines u)) None)))
          \<and> same_but {p, record_path X a ''file.delete'' p (Some (universal_newlines u)) None} fs fs'))
    \<or> (ap_action_type pl = ''file.rename''
        \<and> (\<exists>d b. bind_res (required_text_field (ap_payload pl) ''destination'') (resolve_path a fs) = Inr d
          \<and> (node_at fs d \<noteq> None \<longrightarrow> ap_confirmed pl) \<and> node_at fs p = Some (FFile b) \<and> node_at fs' d = Some (FFile b)
          \<and> (d \<noteq> p \<longrightarrow> node_at fs' p = None)
          \<and> (d \<noteq> record_path X a ''file.rename'' p (Some (path_str p)) (Some (path_str d)) \<longrightarrow>
              node_at fs' (record_path X a ''file.rename'' p (Some (path_str p)) (Some (path_str d)))
                = Some (FFile (str_encode (change_record X ''file.rename'' p (Some (path_str p)) (Some (path_str d))))))
          \<and> same_but_parents {p, d, record_path X a ''file.rename'' p (Some (path_str p)) (Some (path_str d))} (butlast d) fs fs'))"
proof -
  have p: "resolved fs p" "below (fa_workspace a) p"
    using assms(4) resolve_path_Inr [OF _ assms(1)] by (auto simp: bind_res_eq_Inr)
  from file_execute_success [OF assms(2,3)] have e: "execute_checked X a pl fs = (Inr x, fs')"
    and c: "ap_action_type pl \<in> set file_capabilities" by blast+
  note run = execute_checked_on [OF assms(4), of X, unfolded e]
  from c consider "ap_action_type pl = ''file.read''" | "ap_action_type pl = ''file.create''" | "ap_action_type pl = ''file.update''"
    | "ap_action_type pl = ''file.delete''" | "ap_action_type pl = ''file.rename''"
    by (auto simp: file_capabilities_def)
  then show ?thesis
  proof cases
    case 1
    with run [symmetric] have "run_read X p fs = (Inr x, fs')" by simp
    from run_read_exact [OF this p(1)] 1 show ?thesis by simp
  next
    case 2
    with run [symmetric] have "run_create_file X a (ap_payload pl) p fs = (Inr x, fs')" by simp
    from run_create_exact [OF this assms(1) p assms(5)] 2 show ?thesis by simp
  next
    case 3
    with run [symmetric] have "run_update X a (ap_payload pl) p fs = (Inr x, fs')" by simp
    from run_update_exact [OF this assms(1) p(1) assms(5)] 3 show ?thesis by simp
  next
    case 4
    with run [symmetric] have "run_delete X a (ap_confirmed pl) p fs = (Inr x, fs')" by simp
    from run_delete_exact [OF this assms(1) p(1) assms(5)] 4 show ?thesis by auto
  next
    case 5
    with run [symmetric] have "run_rename X a (ap_confirmed pl) (ap_payload pl) p fs = (Inr x, fs')" by simp
    from run_rename_exact [OF this assms(1) p(1) assms(5)] 5 show ?thesis by simp
  qed
qed

section \<open>Concrete runs\<close>

text \<open>A workspace with one file and its backup directory; constant digests and an empty diff.\<close>

definition demo_file_libs :: file_libs where
  "demo_file_libs = \<lparr>fl_crypto = demo_libs, sha256_hex = \<lambda>b. show_nat (length b), unified_diff = \<lambda>a b f t. f # a\<rparr>"

definition demo_file_agent :: file_agent where
  "demo_file_agent = \<lparr>fa_id = ''file-agent'', fa_workspace = [''w''], fa_backup = [''w'', ''k'']\<rparr>"

definition demo_files :: file_system where
  "demo_files = [([''w''], FDir), ([''w'', ''k''], FDir), ([''w'', ''a''], FFile (str_encode ''hi''))]"

definition demo_file_plan :: "string \<Rightarrow> json dict \<Rightarrow> action_plan" where
  "demo_file_plan action payload =
     \<lparr>ap_agent_type = ''file'', ap_agent_id = Some ''file-agent'', ap_action_type = action, ap_payload = payload,
      ap_requires_confirmation = False, ap_confirmed = False, ap_policy_decision = ''allow''\<rparr>"

lemma demo_fa_wf: "fa_wf demo_file_agent demo_files"
proof -
  have l: "link_at demo_files q = None" for q by (simp add: link_at_def demo_files_def)
  have "fs_wf demo_files" by (simp add: fs_wf_def demo_files_def node_at_def)
  then show ?thesis using l by (auto simp: fa_wf_def resolved_def demo_file_agent_def node_at_def demo_files_def)
qed

lemma demo_file_execute:
  assumes "list_all (\<lambda>(k, v). v = JNull \<or> is_str v) payload" "action \<in> set file_capabilities"
    "execute_checked demo_file_libs demo_file_agent (demo_file_plan action payload) demo_files = (Inr x, fs')"
  shows "file_execute demo_file_libs demo_file_agent (demo_file_plan action payload)
      (Some (demo_plan_poi (demo_file_plan action payload))) demo_files = (Inr x, fs')"
proof -
  let ?p = "demo_file_plan action payload"
  have "plan_refusal ''file'' (fa_id demo_file_agent) file_capabilities ?p = None"
    using assms(2) by (simp add: plan_refusal_def demo_file_plan_def demo_file_agent_def)
  moreover have "poi_refusal (fl_crypto demo_file_libs) [None, Some (ap_action_type ?p)] ?p (Some (demo_plan_poi ?p)) = Inr None"
    using demo_plan_poi_passes [of ?p] assms(1) by (simp add: demo_file_plan_def demo_file_libs_def)
  ultimately show ?thesis by (simp add: file_execute_def bind_act_lift catching_def assms(3))
qed

definition demo_create :: action_plan where
  "demo_create = demo_file_plan ''file.create'' [(''path'', JStr ''n/b''), (''content'', JStr ''x'')]"

definition demo_move :: action_plan where
  "demo_move = demo_file_plan ''file.rename'' [(''path'', JStr ''a''), (''destination'', JStr ''k/../b'')]"

lemma demo_file_create_run:
  "\<exists>x fs'. file_execute demo_file_libs demo_file_agent demo_create (Some (demo_plan_poi demo_create)) demo_files = (Inr x, fs')
    \<and> res_success x \<and> map_of fs' [''w'', ''n'', ''b''] = Some (FFile (str_encode ''x''))"
proof -
  have e: "case execute_checked demo_file_libs demo_file_agent demo_create demo_files of
      (Inr x, fs') \<Rightarrow> res_success x \<and> map_of fs' [''w'', ''n'', ''b''] = Some (FFile (str_encode ''x'')) | _ \<Rightarrow> False"
    by code_simp
  then obtain x fs' where x: "execute_checked demo_file_libs demo_file_agent demo_create demo_files = (Inr x, fs')"
      "res_success x" "map_of fs' [''w'', ''n'', ''b''] = Some (FFile (str_encode ''x''))"
    by (auto split: prod.splits sum.splits)
  from demo_file_execute [OF _ _ x(1) [unfolded demo_create_def]] x(2,3) show ?thesis
    by (simp add: demo_create_def file_capabilities_def)
qed

lemma demo_file_move_run:
  "\<exists>x fs'. file_execute demo_file_libs demo_file_agent demo_move (Some (demo_plan_poi demo_move)) demo_files = (Inr x, fs')
    \<and> res_success x \<and> map_of fs' [''w'', ''a''] = None"
proof -
  have e: "case execute_checked demo_file_libs demo_file_agent demo_move demo_files of
      (Inr x, fs') \<Rightarrow> res_success x \<and> map_of fs' [''w'', ''a''] = None | _ \<Rightarrow> False"
    by code_simp
  then obtain x fs' where x: "execute_checked demo_file_libs demo_file_agent demo_move demo_files = (Inr x, fs')"
      "res_success x" "map_of fs' [''w'', ''a''] = None"
    by (auto split: prod.splits sum.splits)
  from demo_file_execute [OF _ _ x(1) [unfolded demo_move_def]] x(2,3) show ?thesis
    by (simp add: demo_move_def file_capabilities_def)
qed

theorem file_sandbox_witness:
  "\<exists>fs'. fa_wf demo_file_agent fs' \<and> map_of fs' [''w'', ''n'', ''b''] = Some (FFile (str_encode ''x''))
     \<and> {q. map_of fs' q \<noteq> map_of demo_files q} \<subseteq> sandbox demo_file_agent
     \<and> authorises demo_libs (demo_plan_poi demo_create) demo_create"
proof -
  from demo_file_create_run obtain x fs' where r: "file_execute demo_file_libs demo_file_agent demo_create
      (Some (demo_plan_poi demo_create)) demo_files = (Inr x, fs')" "res_success x"
      "map_of fs' [''w'', ''n'', ''b''] = Some (FFile (str_encode ''x''))" by blast
  from file_sandbox [OF demo_fa_wf r(1)] r(2,3) show ?thesis
    by (auto simp: demo_file_agent_def demo_file_libs_def sandbox_def)
qed

theorem unconfirmed_keeps_files_witness:
  "\<exists>d fs'. map_of demo_files d = None \<and> map_of fs' d = Some (FFile (str_encode ''hi''))"
proof -
  from demo_file_move_run obtain x fs' where r: "file_execute demo_file_libs demo_file_agent demo_move
      (Some (demo_plan_poi demo_move)) demo_files = (Inr x, fs')" "map_of fs' [''w'', ''a''] = None" by blast
  have u: "\<not> ap_confirmed demo_move" "ap_action_type demo_move \<noteq> ''file.update''"
    by (simp_all add: demo_move_def demo_file_plan_def)
  have "map_of demo_files [''w'', ''a''] = Some (FFile (str_encode ''hi''))" "[''w'', ''a''] \<notin> records_of demo_file_agent"
    by (simp_all add: demo_files_def records_of_def demo_file_agent_def)
  from unconfirmed_keeps_files [OF demo_fa_wf r(1) u this] r(2) show ?thesis by auto
qed

theorem file_success_exact_witness:
  "\<exists>fs'. node_at fs' [''w'', ''b''] = Some (FFile (str_encode ''hi'')) \<and> node_at fs' [''w'', ''a''] = None"
proof -
  from demo_file_move_run obtain x fs' where r: "file_execute demo_file_libs demo_file_agent demo_move
      (Some (demo_plan_poi demo_move)) demo_files = (Inr x, fs')" "res_success x" by blast
  have p: "bind_res (required_text_field (ap_payload demo_move) ''path'') (resolve_path demo_file_agent demo_files) = Inr [''w'', ''a'']"
    by code_simp
  have d: "bind_res (required_text_field (ap_payload demo_move) ''destination'') (resolve_path demo_file_agent demo_files) = Inr [''w'', ''b'']"
    by code_simp
  have n: "[''w'', ''a''] \<notin> records_of demo_file_agent" by (simp add: records_of_def demo_file_agent_def)
  have t: "ap_action_type demo_move = ''file.rename''" by (simp add: demo_move_def demo_file_plan_def)
  have f: "node_at demo_files [''w'', ''a''] = Some (FFile (str_encode ''hi''))" by (simp add: node_at_def demo_files_def)
  from file_success_exact [OF demo_fa_wf r p n] show ?thesis by (auto simp: t d f)
qed

end
