(* ===== verification/Audit_Agent.thy ===== *)
theory Audit_Agent
  imports Agent_Base Pipeline_Contracts Py_State "HOL-Library.List_Lexorder"
begin

text \<open>
  \<^verbatim>\<open>aor/agents/audit.py\<close>: the agent that re-verifies recorded actions, lists tampered ones, looks for reused
  nonces and compares effects. The evidence store of the agent is the one of its pipeline, as \<^verbatim>\<open>create_app\<close>
  builds them. The theory proves that an audit changes no evidence and no ledger, that its verdicts are
  those of the pipeline, and what the lists of tampered actions and of reused nonces contain.
\<close>

section \<open>Planning\<close>

definition audit_capabilities :: "string list" where
  "audit_capabilities = [''audit.verify_action'', ''audit.verify_eml'', ''audit.explain_failure'', ''audit.list_tampered'',
     ''audit.detect_replay'', ''audit.generate_report'', ''audit.compare_effect'']"

definition audit_error :: "string \<Rightarrow> py_error" where
  "audit_error detail = Exc AuditAgentError detail"

record audit_agent =
  aa_id :: string
  aa_has_store :: bool

definition new_audit_agent :: "bool \<Rightarrow> string \<Rightarrow> audit_agent res" where
  "new_audit_agent store aid = map_res (\<lambda>_. \<lparr>aa_id = aid, aa_has_store = store\<rparr>) (check_agent (Some aid) ''audit'')"

definition audit_can_handle :: "string \<Rightarrow> bool" where
  "audit_can_handle request \<longleftrightarrow>
     nonblank request \<and> re_found (word_of [''audit'', ''verify'', ''tamper'', ''replay'', ''ledger'', ''proof'', ''report'']) request"

text \<open>\<^verbatim>\<open>action[_ -]?id|id\<close>\<close>

definition action_id_rx :: rx where
  "action_id_rx =
     alt [seq [lit ''action'', optional (RChr (\<lambda>c. c = CHR ''_'' \<or> c = CHR '' '' \<or> c = CHR ''-'')), lit ''id''], lit ''id'']"

definition names_action_id :: "string \<Rightarrow> bool" where
  "names_action_id lowered \<longleftrightarrow> re_found (seq [RBnd, RGrp 1 action_id_rx, RBnd]) lowered"

definition audit_action_type_from_request :: "string \<Rightarrow> string" where
  "audit_action_type_from_request request =
     (let lowered = str_lower request in
      if str_contains lowered ''replay'' \<or> str_contains lowered ''nonce'' then ''audit.detect_replay''
      else if str_contains lowered ''tamper'' \<or> str_contains lowered ''changed'' then ''audit.list_tampered''
      else if str_contains lowered ''report'' \<and> names_action_id lowered then ''audit.generate_report''
      else if str_contains lowered ''explain'' \<or> str_contains lowered ''failed'' then ''audit.explain_failure''
      else if names_action_id lowered then ''audit.verify_action''
      else if str_contains lowered ''eml'' \<or> str_contains lowered ''email'' then ''audit.verify_eml''
      else if str_contains lowered ''audit'' then ''audit.list_tampered''
      else ''audit.verify_action'')"

definition id_char :: "char \<Rightarrow> bool" where
  "id_char c \<longleftrightarrow> word_char c \<or> c \<in> set ''@.<>:/-''"

definition extract_action_id :: "string \<Rightarrow> string option" where
  "extract_action_id request =
     map_option (\<lambda>m. group m 1)
       (re_search (seq [action_id_rx, spaces0, optional (RChr (\<lambda>c. c = CHR '':'' \<or> c = CHR ''='')), spaces0,
          RGrp 1 (plus (RChr id_char))]) request)"

text \<open>\<^verbatim>\<open>dict(values.get("payload") or {})\<close> for a payload that is an object; other values are a \<^verbatim>\<open>TypeError\<close>.\<close>

definition context_payload :: "json dict \<Rightarrow> json dict res" where
  "context_payload values =
     (let v = get_or_null values ''payload'' in if truthy v then as_dict v else Inr [])"

definition needs_action_id :: "string \<Rightarrow> bool" where
  "needs_action_id action \<longleftrightarrow>
     action \<in> {''audit.verify_action'', ''audit.explain_failure'', ''audit.generate_report'', ''audit.compare_effect''}"

definition audit_plan :: "audit_agent \<Rightarrow> string \<Rightarrow> json dict option \<Rightarrow> action_plan res" where
  "audit_plan a request context =
     (if \<not> nonblank request then Inl (audit_error ''audit_request_empty'')
      else
        let values = (case context of None \<Rightarrow> [] | Some d \<Rightarrow> d);
            action_type = json_or (get_or_null values ''action_type'') (JStr (audit_action_type_from_request request)) in
        if action_type \<notin> set (map JStr audit_capabilities) then Inl (audit_error ''audit_action_type_required'')
        else
          let action = py_str action_type;
              action_id = json_or (get_or_null values ''action_id'') (opt_json (extract_action_id request)) in
          bind_res (context_payload values) (\<lambda>payload.
            if needs_action_id action \<and> \<not> truthy action_id then Inl (audit_error ''audit_action_id_required'')
            else
              let payload' = (if needs_action_id action then dict_set ''action_id'' action_id payload else payload) in
              if action = ''audit.verify_eml'' \<and> map_of payload' ''eml_bytes_b64'' = None
              then Inl (audit_error ''audit_eml_required'')
              else make_plan ''audit'' (aa_id a) action payload' False))"

section \<open>Reports\<close>

definition opt_int :: "int option \<Rightarrow> json" where
  "opt_int v = (case v of None \<Rightarrow> JNull | Some i \<Rightarrow> JInt i)"

definition opt_bool :: "bool option \<Rightarrow> json" where
  "opt_bool v = (case v of None \<Rightarrow> JNull | Some b \<Rightarrow> JBool b)"

definition link_dump :: "link_result \<Rightarrow> json" where
  "link_dump l = JObj [(''link_name'', JStr (lr_name l)), (''passed'', JBool (lr_passed l)), (''detail'', JStr (lr_detail l)),
     (''status'', JStr (lr_status l))]"

definition node_dump :: "merkle_node_view \<Rightarrow> json" where
  "node_dump n = JObj [(''hash'', JStr (mn_hash n)), (''entry_id'', opt_int (mn_entry_id n)), (''duplicated'', JBool (mn_duplicated n))]"

definition level_dump :: "merkle_level_view \<Rightarrow> json" where
  "level_dump l = JObj [(''level'', JInt (int (ml_level l))), (''label'', JStr (ml_label l)), (''nodes'', JList (map node_dump (ml_nodes l)))]"

definition tree_dump :: "merkle_tree_view \<Rightarrow> json" where
  "tree_dump t = JObj [(''root'', JStr (mv_root t)), (''signed_root'', opt_json (mv_signed_root t)),
     (''root_matches_signed'', opt_bool (mv_root_matches_signed t)), (''leaf_count'', JInt (int (mv_leaf_count t))),
     (''proof_entry_id'', opt_int (mv_proof_entry_id t)), (''proof_valid'', opt_bool (mv_proof_valid t)),
     (''levels'', JList (map level_dump (mv_levels t)))]"

definition trace_dump :: "verification_trace \<Rightarrow> json" where
  "trace_dump t = JObj [(''action_id'', opt_json (vt_action_id t)), (''agent_type'', opt_json (vt_agent_type t)),
     (''agent_id'', opt_json (vt_agent_id t)), (''action_type'', opt_json (vt_action_type t)),
     (''policy_decision'', opt_json (vt_policy_decision t)), (''overall_valid'', JBool (vt_overall_valid t)),
     (''links'', JList (map link_dump (vt_links t))), (''timestamp_verified'', JBool (vt_timestamp_verified t)),
     (''merkle_tree'', json_option (map_option tree_dump (vt_merkle_tree t)))]"

abbreviation line_feed :: string where
  "line_feed \<equiv> [CHR 0x0A]"

text \<open>\<^verbatim>\<open>"\<dots> - \<dots>"\<close> with an em dash, and text between grave accents.\<close>

definition em_dash :: string where
  "em_dash = [CHR 0x20, CHR 0xE2, CHR 0x80, CHR 0x94, CHR 0x20]"

definition quoted :: "string \<Rightarrow> string" where
  "quoted s = [CHR 0x60] @ s @ [CHR 0x60]"

definition markdown_report :: "verification_trace \<Rightarrow> string" where
  "markdown_report t =
     str_join line_feed
       ([''# Agent-of-Record Audit Report'', [],
         ''- Action ID: '' @ quoted (case vt_action_id t of None \<Rightarrow> ''unknown'' | Some a \<Rightarrow> if a = [] then ''unknown'' else a),
         ''- Overall valid: '' @ quoted (if vt_overall_valid t then ''True'' else ''False''), [], ''## Verification checks'', []]
        @ map (\<lambda>l. ''- **'' @ lr_name l @ ''**'' @ em_dash @ quoted (lr_status l) @ em_dash @ lr_detail l) (vt_links t))
     @ line_feed"

definition tamper_report :: "(string \<times> string list) list \<Rightarrow> string" where
  "tamper_report tampered =
     ''# Agent-of-Record Tamper Report'' @ line_feed @ line_feed
     @ (if tampered = [] then ''No tampered actions detected.'' @ line_feed
        else concat (map (\<lambda>(aid, failed). ''- '' @ quoted aid @ '' failed: '' @ str_join '', '' failed @ line_feed) tampered))"

section \<open>Execution\<close>

text \<open>
  What an audit uses: the pipeline with its libraries, and what the \<open>i\<close>-th verification of the run reads from
  outside (downloads, configuration, the database) and from the clock. The state is the evidence store
  and the ledgers, because looking evidence up may load it from the database.
\<close>

record audit_env =
  av_crypto :: crypto_libs
  av_text :: text_libs
  av_tsa :: tsa_libs
  av_outside :: "nat \<Rightarrow> outside"
  av_clocks :: "nat \<Rightarrow> lookup_clocks"
  av_pipeline :: pipeline

type_synonym audit_state = "evidence_store \<times> ledger_heap"

definition verify_at :: "audit_env \<Rightarrow> nat \<Rightarrow> bytes option \<Rightarrow> string option \<Rightarrow> (audit_state, verification_trace) act" where
  "verify_at E i eml aid =
     run_verification (av_crypto E) (av_text E) (av_tsa E) (av_outside E i) (av_clocks E i) (av_pipeline E) eml aid"

definition audit_required :: "json dict \<Rightarrow> string \<Rightarrow> string res" where
  "audit_required payload k =
     (case map_of payload k of
        Some (JStr s) \<Rightarrow> if s = [] then Inl (audit_error (k @ ''_required'')) else Inr s
      | _ \<Rightarrow> Inl (audit_error (k @ ''_required'')))"

definition trace_details :: "verification_trace \<Rightarrow> json dict" where
  "trace_details t = [(''trace'', trace_dump t), (''report_markdown'', JStr (markdown_report t))]"

definition failure_details :: "verification_trace \<Rightarrow> json dict" where
  "failure_details t = [(''action_id'', opt_json (vt_action_id t)),
     (''failed_checks'', JList (map link_dump (filter (\<lambda>l. \<not> lr_passed l) (vt_links t))))]"

definition trace_result :: "json dict \<Rightarrow> verification_trace \<Rightarrow> action_result" where
  "trace_result details t =
     \<lparr>res_success = vt_overall_valid t, res_artifact_ref = vt_action_id t, res_details = details,
      res_observed_effect = [(''overall_valid'', JBool (vt_overall_valid t))]\<rparr>"

text \<open>\<^verbatim>\<open>_all_evidence\<close>.\<close>

definition evidence_of :: "audit_agent \<Rightarrow> (audit_state, action_evidence list) act" where
  "evidence_of a =
     bind_act (require (aa_has_store a) (audit_error ''evidence_store_required'')) (\<lambda>_. reads (\<lambda>s. Inr (all_evidence (fst s))))"

lemma evidence_of_run: "aa_has_store a \<Longrightarrow> evidence_of a s = (Inr (all_evidence (fst s)), s)"
  by (simp add: evidence_of_def reads_def)

definition failed_links :: "verification_trace \<Rightarrow> string list" where
  "failed_links t = map lr_name (filter (\<lambda>l. \<not> lr_passed l \<and> lr_status l = ''failed'') (vt_links t))"

fun tampered_from :: "audit_env \<Rightarrow> nat \<Rightarrow> action_evidence list \<Rightarrow> (audit_state, (string \<times> string list) list) act" where
  "tampered_from E i [] = ret []"
| "tampered_from E i (ev # evs) =
     bind_act (verify_at E i None (Some (ae_action_id ev))) (\<lambda>t.
     bind_act (tampered_from E (Suc i) evs) (\<lambda>rest.
       ret (if failed_links t = [] then rest else (ae_action_id ev, failed_links t) # rest)))"

definition tampered_json :: "string \<times> string list \<Rightarrow> json" where
  "tampered_json item = JObj [(''action_id'', JStr (fst item)), (''failed_checks'', JList (map JStr (snd item)))]"

definition run_list_tampered :: "audit_env \<Rightarrow> audit_agent \<Rightarrow> (audit_state, action_result) act" where
  "run_list_tampered E a =
     bind_act (evidence_of a) (\<lambda>evs.
     bind_act (tampered_from E 0 evs) (\<lambda>tampered.
       ret \<lparr>res_success = True, res_artifact_ref = None,
         res_details = [(''actions'', JList (map tampered_json tampered)), (''report_markdown'', JStr (tamper_report tampered))],
         res_observed_effect = [(''count'', JInt (int (length tampered)))]\<rparr>))"

text \<open>\<^verbatim>\<open>sorted(nonce for nonce, count in Counter(nonces).items() if count > 1)\<close>; texts are compared bytewise.\<close>

definition replayed_nonces :: "string list \<Rightarrow> string list" where
  "replayed_nonces nonces = sort (filter (\<lambda>n. 1 < count_list nonces n) (remdups nonces))"

definition run_detect_replay :: "audit_agent \<Rightarrow> (audit_state, action_result) act" where
  "run_detect_replay a =
     bind_act (evidence_of a) (\<lambda>evs.
       let duplicates = replayed_nonces (map (\<lambda>ev. env_nonce (ae_user_envelope ev)) evs) in
       ret \<lparr>res_success = True, res_artifact_ref = None, res_details = [(''replayed_nonces'', JList (map JStr duplicates))],
         res_observed_effect = [(''count'', JInt (int (length duplicates)))]\<rparr>)"

text \<open>\<^verbatim>\<open>==\<close> of payload values: \<^verbatim>\<open>True == 1\<close>, and the order of the keys of an object does not matter.\<close>

fun json_equal :: "json \<Rightarrow> json \<Rightarrow> bool" where
  "json_equal JNull w = (w = JNull)"
| "json_equal (JBool b) w = (w = JBool b \<or> w = JInt (if b then 1 else 0))"
| "json_equal (JInt i) w = (w = JInt i \<or> (i = 0 \<and> w = JBool False) \<or> (i = 1 \<and> w = JBool True))"
| "json_equal (JStr s) w = (w = JStr s)"
| "json_equal (JList xs) w = (case w of JList ys \<Rightarrow> list_all2 json_equal xs ys | _ \<Rightarrow> False)"
| "json_equal (JObj d) w =
     (case w of
        JObj e \<Rightarrow> length d = length e
          \<and> list_all (\<lambda>(k, v). case map_of e k of None \<Rightarrow> False | Some u \<Rightarrow> json_equal v u) d
      | _ \<Rightarrow> False)"

definition effect_mismatches :: "json dict \<Rightarrow> json dict \<Rightarrow> string list" where
  "effect_mismatches observed expected =
     sort (filter (\<lambda>k. \<not> json_equal (get_or_null observed k) (get_or_null expected k)) (remdups (map fst observed @ map fst expected)))"

definition run_compare_effect :: "json dict \<Rightarrow> action_result res" where
  "run_compare_effect payload =
     (case (get_or_null payload ''observed_effect'', get_or_null payload ''expected_effect'') of
        (JObj observed, JObj expected) \<Rightarrow>
          (let mismatches = effect_mismatches observed expected in
           Inr \<lparr>res_success = (mismatches = []), res_artifact_ref = None,
             res_details = [(''mismatches'', JList (map JStr mismatches))],
             res_observed_effect = [(''compared'', JBool True)]\<rparr>)
      | _ \<Rightarrow> Inl (audit_error ''observed_and_expected_effect_required''))"

definition run_recheck :: "audit_env \<Rightarrow> string \<Rightarrow> json dict \<Rightarrow> (audit_state, action_result) act" where
  "run_recheck E action payload =
     bind_act (lift_res (audit_required payload ''action_id'')) (\<lambda>aid.
     bind_act (verify_at E 0 None (Some aid)) (\<lambda>t.
       ret (trace_result (if action = ''audit.explain_failure'' then failure_details t else trace_details t) t)))"

definition run_verify_eml :: "audit_env \<Rightarrow> json dict \<Rightarrow> (audit_state, action_result) act" where
  "run_verify_eml E payload =
     bind_act (lift_res (bind_res (audit_required payload ''eml_bytes_b64'') (b64decode True))) (\<lambda>raw.
     bind_act (verify_at E 0 (Some raw) None) (\<lambda>t. ret (trace_result (trace_details t) t)))"

definition audit_run :: "audit_env \<Rightarrow> audit_agent \<Rightarrow> action_plan \<Rightarrow> (audit_state, action_result) act" where
  "audit_run E a p =
     (if ap_action_type p \<in> {''audit.verify_action'', ''audit.explain_failure'', ''audit.generate_report''}
      then run_recheck E (ap_action_type p) (ap_payload p)
      else if ap_action_type p = ''audit.verify_eml'' then run_verify_eml E (ap_payload p)
      else if ap_action_type p = ''audit.list_tampered'' then run_list_tampered E a
      else if ap_action_type p = ''audit.detect_replay'' then run_detect_replay a
      else if ap_action_type p = ''audit.compare_effect'' then lift_res (run_compare_effect (ap_payload p))
      else ret (failure ''unsupported_action_type''))"

text \<open>A PoI is optional here; one that is given must commit the payload.\<close>

definition audit_poi_mismatch :: "crypto_libs \<Rightarrow> action_plan \<Rightarrow> proof_of_intent option \<Rightarrow> bool res" where
  "audit_poi_mismatch L p poi =
     (case poi of
        None \<Rightarrow> Inr False
      | Some q \<Rightarrow> map_res (\<lambda>h. bytes_hex h \<noteq> poi_action_payload_hash q) (hash_payload L (JObj (ap_payload p))))"

definition audit_execute ::
  "audit_env \<Rightarrow> audit_agent \<Rightarrow> action_plan \<Rightarrow> proof_of_intent option \<Rightarrow> (audit_state, action_result) act"
where
  "audit_execute E a p poi =
     (case plan_refusal ''audit'' (aa_id a) audit_capabilities p of
        Some detail \<Rightarrow> ret (failure detail)
      | None \<Rightarrow>
          bind_act (lift_res (audit_poi_mismatch (av_crypto E) p poi)) (\<lambda>mismatch.
            if mismatch then ret (failure ''action_payload_hash_mismatch'')
            else catching [AuditAgentError, ValueError, TypeError] (\<lambda>e. ret (failure (exc_str e))) (audit_run E a p)))"

section \<open>An audit changes nothing\<close>

text \<open>
  What may happen to the state: evidence that the database holds is loaded, together with a ledger of its
  own; loaded evidence and existing ledgers stay as they are.
\<close>

definition only_loads :: "audit_env \<Rightarrow> audit_state \<Rightarrow> audit_state \<Rightarrow> bool" where
  "only_loads E s s' \<longleftrightarrow>
     es_persistent (fst s') = es_persistent (fst s) \<and> (\<exists>more. snd s' = snd s @ more)
     \<and> (\<forall>aid ev. map_of (es_evidence (fst s)) aid = Some ev \<longrightarrow> map_of (es_evidence (fst s')) aid = Some ev)
     \<and> (\<forall>aid ev. map_of (es_evidence (fst s)) aid = None \<longrightarrow> map_of (es_evidence (fst s')) aid = Some ev \<longrightarrow>
          length (snd s) \<le> ae_ledger ev \<and> ae_ledger ev < length (snd s')
          \<and> (\<exists>i. get_action_evidence aid (out_database (av_outside E i)) \<noteq> None))"

lemma only_loads_order: "reflp (only_loads E)" "transp (only_loads E)"
proof -
  show "reflp (only_loads E)" by (auto simp: reflp_def only_loads_def)
  show "transp (only_loads E)"
  proof (rule transpI)
    fix s t u assume st: "only_loads E s t" and tu: "only_loads E t u"
    then have len: "length (snd s) \<le> length (snd t)" "length (snd t) \<le> length (snd u)" by (auto simp: only_loads_def)
    have "length (snd s) \<le> ae_ledger ev \<and> ae_ledger ev < length (snd u)
        \<and> (\<exists>i. get_action_evidence aid (out_database (av_outside E i)) \<noteq> None)"
      if "map_of (es_evidence (fst s)) aid = None" "map_of (es_evidence (fst u)) aid = Some ev" for aid ev
    proof (cases "map_of (es_evidence (fst t)) aid")
      case None
      then show ?thesis using tu that len unfolding only_loads_def by (meson le_trans)
    next
      case (Some ev')
      then have "ev' = ev" using tu that unfolding only_loads_def by fastforce
      then show ?thesis using st that Some len unfolding only_loads_def by (meson less_le_trans)
    qed
    then show "only_loads E s u" using st tu by (auto simp: only_loads_def)
  qed
qed

lemmas only_loads_refl [simp] = reflpD [OF only_loads_order(1)]

lemma deserialize_appends:
  "deserialize_evidence X aid j H = Inr (ev, H') \<Longrightarrow> \<exists>l. H' = H @ [l] \<and> ae_ledger ev = length H"
  by (auto simp: deserialize_evidence_def bind_res_eq_Inr)

lemma get_evidence_loads:
  "get_evidence X (out_database (av_outside E i)) aid s = Inr (ev, s') \<Longrightarrow> only_loads E s s'"
  by (cases s) (auto simp: get_evidence_def only_loads_def map_res_eq_Inr split: option.splits if_splits
      dest: deserialize_appends intro: exI [of _ i])

lemma lookup_if_loads: "lookup_if X (out_database (av_outside E i)) aid cur s = Inr (ev, s') \<Longrightarrow> only_loads E s s'"
  using get_evidence_loads by (auto simp: lookup_if_def split: option.splits if_splits)

lemma take_in_loads: "only_loads E s (snd (take_in X (out_database (av_outside E i)) eml aid s))"
proof (cases "lookup_if X (out_database (av_outside E i)) aid None s")
  case (Inr y)
  obtain ev0 s1 where y: "y = (ev0, s1)" by (cases y)
  obtain l1 p1 where p1: "(case eml of None \<Rightarrow> ([], None) | Some b \<Rightarrow> read_artifact X ''invalid .eml: '' b) = (l1, p1)"
    by fastforce
  define aid1 where "aid1 = (case p1 of None \<Rightarrow> aid | Some p \<Rightarrow> if falsy aid then pe_action_id p else aid)"
  have 1: "only_loads E s s1" using lookup_if_loads Inr y by blast
  have "only_loads E s1 s2" if "lookup_if X (out_database (av_outside E i)) aid1 ev0 s1 = Inr (ev, s2)" for ev s2
    using lookup_if_loads that by blast
  then show ?thesis using 1 transpD [OF only_loads_order(2) 1] Inr y p1
    by (auto simp: take_in_def Let_def aid1_def split: sum.split prod.split)
qed (simp add: take_in_def)

lemma verify_at_loads: "moves (only_loads E) (verify_at E i eml aid)"
proof (rule movesI)
  fix s
  show "only_loads E s (snd (verify_at E i eml aid s))"
    using take_in_loads [of E s "av_text E" i eml aid]
    by (auto simp: verify_at_def run_verification_def split: prod.splits sum.splits)
qed

lemmas audit_moves = moves_bind [OF only_loads_order(2)] moves_catching [OF only_loads_order(2)]
  moves_still [OF only_loads_order(1)] verify_at_loads

lemma evidence_of_loads: "moves (only_loads E) (evidence_of a)"
  unfolding evidence_of_def by (intro audit_moves)

lemma tampered_from_loads: "moves (only_loads E) (tampered_from E i evs)"
  by (induction evs arbitrary: i) (auto intro!: audit_moves)

lemma audit_run_loads: "moves (only_loads E) (audit_run E a p)"
  unfolding audit_run_def run_recheck_def run_verify_eml_def run_list_tampered_def run_detect_replay_def Let_def
  by (simp split del: if_split) (auto intro!: audit_moves evidence_of_loads tampered_from_loads)

lemma audit_execute_loads: "moves (only_loads E) (audit_execute E a p poi)"
  unfolding audit_execute_def
  by (auto split: option.split intro!: audit_moves audit_run_loads)

text \<open>
  C27: an audit is read-only. Whatever plan and PoI the audit agent executes, and however the run ends, every
  ledger and every piece of evidence that was in memory is there unchanged, and the only new evidence is
  evidence that the database holds.
\<close>

theorem audit_read_only:
  assumes "audit_execute E a p poi (st, H) = (r, st', H')"
  shows "take (length H) H' = H
    \<and> (\<forall>aid ev. map_of (es_evidence st) aid = Some ev \<longrightarrow> map_of (es_evidence st') aid = Some ev)
    \<and> (\<forall>aid. map_of (es_evidence st) aid = None \<and> map_of (es_evidence st') aid \<noteq> None \<longrightarrow>
        (\<exists>i. get_action_evidence aid (out_database (av_outside E i)) \<noteq> None))"
  using movesD [OF audit_execute_loads, of E "(st, H)" a p poi] assms by (auto simp: only_loads_def)

section \<open>Verdicts\<close>

lemma plan_refusal_type: "plan_refusal ty aid caps p = None \<Longrightarrow> ap_action_type p \<in> set caps"
  by (simp add: plan_refusal_None)

lemma audit_execute_success:
  assumes "audit_execute E a p poi s = (Inr x, s')" "res_success x"
  shows "plan_refusal ''audit'' (aa_id a) audit_capabilities p = None
    \<and> audit_poi_mismatch (av_crypto E) p poi = Inr False \<and> audit_run E a p s = (Inr x, s')"
proof (cases "plan_refusal ''audit'' (aa_id a) audit_capabilities p")
  case None
  show ?thesis
  proof (cases "audit_poi_mismatch (av_crypto E) p poi")
    case (Inr m)
    then show ?thesis using assms None
      by (cases m) (auto simp: audit_execute_def bind_act_lift ret_def failure_def catching_def split: prod.splits sum.splits if_splits)
  qed (use assms None in \<open>simp add: audit_execute_def bind_act_lift\<close>)
qed (use assms in \<open>auto simp: audit_execute_def ret_def failure_def\<close>)

text \<open>
  C14: a successful re-verification is a proof of authenticity. When the audit agent reports success for a
  plan that verifies, explains or reports an action, the plan names the action, a PoI that was given
  commits the plan, and the recorded evidence of that action is authentic in the sense of the
  specification of the verification pipeline.
\<close>

theorem audit_success_authentic:
  assumes "sha3_len (av_crypto E)" "audit_execute E a p poi s = (Inr x, s')" "res_success x"
    "ap_action_type p \<in> {''audit.verify_action'', ''audit.explain_failure'', ''audit.generate_report''}"
  shows "(\<forall>q. poi = Some q \<longrightarrow> authorises (av_crypto E) q p)
    \<and> (\<exists>aid i q ev. map_of (ap_payload p) ''action_id'' = Some (JStr aid) \<and> res_artifact_ref x = Some aid
        \<and> take_in (av_text E) (out_database (av_outside E 0)) None (Some aid) s = (Inr i, s')
        \<and> in_poi i = Some q \<and> in_evidence i = Some ev
        \<and> authentic (av_crypto E) (av_text E) (av_tsa E) (av_outside E 0) (av_clocks E 0) (av_pipeline E) (snd s') None
            (in_parsed i) ev q)"
proof -
  from audit_execute_success [OF assms(2,3)] have m: "audit_poi_mismatch (av_crypto E) p poi = Inr False"
    and r: "run_recheck E (ap_action_type p) (ap_payload p) s = (Inr x, s')"
    using assms(4) by (auto simp: audit_run_def)
  from r obtain aid t where t: "audit_required (ap_payload p) ''action_id'' = Inr aid"
      "verify_at E 0 None (Some aid) s = (Inr t, s')" "res_success x = vt_overall_valid t" "res_artifact_ref x = vt_action_id t"
    by (auto simp: run_recheck_def bind_act_eq_Inr lift_res_def ret_def trace_result_def)
  obtain i where i: "take_in (av_text E) (out_database (av_outside E 0)) None (Some aid) s = (Inr i, s')"
    using t(2) by (auto simp: verify_at_def run_verification_def split: prod.splits sum.splits)
  have aid: "aid \<noteq> []" "map_of (ap_payload p) ''action_id'' = Some (JStr aid)"
    using t(1) by (auto simp: audit_required_def split: option.splits json.splits if_splits)
  from run_verification_verdict [OF assms(1) i t(2) [unfolded verify_at_def]] t(3) assms(3) obtain q ev where
    "in_poi i = Some q" "in_evidence i = Some ev"
    "authentic (av_crypto E) (av_text E) (av_tsa E) (av_outside E 0) (av_clocks E 0) (av_pipeline E) (snd s') None (in_parsed i) ev q"
    by auto
  moreover have "vt_action_id t = Some aid"
    using run_verification_id [OF i t(2) [unfolded verify_at_def]] by simp
  moreover have "\<forall>q. poi = Some q \<longrightarrow> authorises (av_crypto E) q p"
    using m by (auto simp: audit_poi_mismatch_def map_res_eq_Inr authorises_def)
  ultimately show ?thesis using aid(2) i t(4) by (intro conjI exI [of _ aid] exI [of _ i] exI [of _ q] exI [of _ ev]) simp_all
qed

section \<open>What the audit lists contain\<close>

text \<open>Evidence is stored under its action id.\<close>

definition keyed :: "evidence_store \<Rightarrow> bool" where
  "keyed st \<longleftrightarrow> distinct (map fst (es_evidence st)) \<and> (\<forall>(k, ev) \<in> set (es_evidence st). ae_action_id ev = k)"

lemma keyed_new: "keyed (new_evidence_store b)"
  by (simp add: keyed_def new_evidence_store_def)

lemma in_set_dict_set: "x \<in> set (dict_set k v d) \<Longrightarrow> x = (k, v) \<or> x \<in> set d"
proof (induction d)
  case (Cons p d)
  then show ?case by (cases p) (auto split: if_splits)
qed simp

lemma keyed_register: "keyed st \<Longrightarrow> keyed (fst (register_evidence X H ev (st, db)))"
  using distinct_dict_set [of "es_evidence st" "ae_action_id ev" ev]
  by (auto simp: keyed_def register_evidence_def dest!: in_set_dict_set)

lemma verify_stored_same:
  assumes "keyed st" "ev \<in> set (all_evidence st)"
  shows "snd (verify_at E i None (Some (ae_action_id ev)) (st, H)) = (st, H)"
proof -
  have "map_of (es_evidence st) (ae_action_id ev) = Some ev"
    using assms by (auto simp: keyed_def all_evidence_def intro!: map_of_is_SomeI)
  then have l: "lookup_if X db (Some (ae_action_id ev)) c (st, H) = Inr (if ae_action_id ev = [] then c else Some ev, st, H)" for X db c
    by (simp add: lookup_if_def get_evidence_def)
  then show ?thesis
    by (simp add: verify_at_def run_verification_def take_in_def Let_def split: prod.split sum.split)
qed

definition tampered_of :: "action_evidence list \<Rightarrow> verification_trace list \<Rightarrow> (string \<times> string list) list" where
  "tampered_of evs ts = filter (\<lambda>item. snd item \<noteq> []) (map2 (\<lambda>ev t. (ae_action_id ev, failed_links t)) evs ts)"

definition rechecked :: "audit_env \<Rightarrow> audit_state \<Rightarrow> nat \<times> action_evidence \<Rightarrow> verification_trace \<Rightarrow> bool" where
  "rechecked E s item t \<longleftrightarrow> verify_at E (fst item) None (Some (ae_action_id (snd item))) s = (Inr t, s)"

lemma tampered_from_exact:
  assumes "keyed st" "set evs \<subseteq> set (all_evidence st)" "tampered_from E i evs (st, H) = (Inr tampered, s')"
  shows "s' = (st, H) \<and> (\<exists>ts. list_all2 (rechecked E (st, H)) (enumerate i evs) ts \<and> tampered = tampered_of evs ts)"
  using assms(2,3)
proof (induction evs arbitrary: i tampered)
  case Nil
  then show ?case by (simp add: ret_def tampered_of_def)
next
  case (Cons ev evs)
  from Cons.prems(2) obtain t s1 rest where
    t: "verify_at E i None (Some (ae_action_id ev)) (st, H) = (Inr t, s1)" "tampered_from E (Suc i) evs s1 = (Inr rest, s')"
      "tampered = (if failed_links t = [] then rest else (ae_action_id ev, failed_links t) # rest)"
    by (auto simp: bind_act_eq_Inr ret_def)
  have "s1 = (st, H)" using verify_stored_same [OF assms(1), of ev E i H] Cons.prems(1) t(1) by simp
  with t(2) Cons.IH [of "Suc i" rest] Cons.prems(1) obtain ts where
    "s' = (st, H)" "list_all2 (rechecked E (st, H)) (enumerate (Suc i) evs) ts" "rest = tampered_of evs ts" by auto
  with t \<open>s1 = (st, H)\<close> show ?case
    by (intro conjI exI [of _ "t # ts"]) (simp_all add: tampered_of_def rechecked_def [of E "(st, H)" "(i, ev)"])
qed

text \<open>
  The list of tampered actions is exact. A successful \<^verbatim>\<open>audit.list_tampered\<close> re-verified every stored
  action once, in the order of the store and without changing it, and its details list exactly the actions
  with a failed link, each with the names of the links that failed; the report says that nothing is
  tampered if and only if no link failed.
\<close>

theorem audit_tampered_exact:
  assumes "keyed st" "audit_execute E a p poi (st, H) = (Inr x, s')" "res_success x" "ap_action_type p = ''audit.list_tampered''"
  shows "s' = (st, H) \<and> (\<exists>ts. list_all2 (rechecked E (st, H)) (enumerate 0 (all_evidence st)) ts
    \<and> map_of (res_details x) ''actions'' = Some (JList (map tampered_json (tampered_of (all_evidence st) ts)))
    \<and> map_of (res_details x) ''report_markdown'' = Some (JStr (tamper_report (tampered_of (all_evidence st) ts)))
    \<and> (tampered_of (all_evidence st) ts = [] \<longleftrightarrow> (\<forall>t \<in> set ts. \<forall>l \<in> set (vt_links t). lr_passed l \<or> lr_status l \<noteq> ''failed'')))"
proof -
  from audit_execute_success [OF assms(2,3)] assms(4) have "run_list_tampered E a (st, H) = (Inr x, s')"
    by (simp add: audit_run_def)
  then obtain tampered where t: "tampered_from E 0 (all_evidence st) (st, H) = (Inr tampered, s')"
      "res_details x = [(''actions'', JList (map tampered_json tampered)), (''report_markdown'', JStr (tamper_report tampered))]"
    by (auto simp: run_list_tampered_def bind_act_eq_Inr evidence_of_def require_def reads_def ret_def split: if_splits)
  from tampered_from_exact [OF assms(1) order_refl t(1)] obtain ts where
    ts: "s' = (st, H)" "list_all2 (rechecked E (st, H)) (enumerate 0 (all_evidence st)) ts" "tampered = tampered_of (all_evidence st) ts"
    by blast
  have len: "length (all_evidence st) = length ts" using list_all2_lengthD [OF ts(2)] by simp
  have "tampered_of evs ts = [] \<longleftrightarrow> (\<forall>t \<in> set ts. failed_links t = [])"
    if "length evs = length ts" for evs ts
    using that by (induction evs ts rule: list_induct2) (auto simp: tampered_of_def)
  note this [OF len]
  moreover have "failed_links t = [] \<longleftrightarrow> (\<forall>l \<in> set (vt_links t). lr_passed l \<or> lr_status l \<noteq> ''failed'')" for t
    by (auto simp: failed_links_def filter_empty_conv)
  ultimately show ?thesis using ts t(2) by auto
qed

text \<open>
  Reused nonces. The nonces that \<^verbatim>\<open>audit.detect_replay\<close> lists are, in order and once each, the nonces that
  at least two stored actions carry. (Two steps of one routed request carry the nonce of that request, so
  an honest request with two steps is listed too.)
\<close>

theorem audit_replay_exact:
  "set (replayed_nonces nonces) = {n. \<exists>i j. i < j \<and> j < length nonces \<and> nonces ! i = n \<and> nonces ! j = n}
    \<and> sorted (replayed_nonces nonces) \<and> distinct (replayed_nonces nonces)"
proof -
  have two: "1 < count_list ns n \<longleftrightarrow> (\<exists>i j. i < j \<and> j < length ns \<and> ns ! i = n \<and> ns ! j = n)" for n :: string and ns
  proof (induction ns)
    case (Cons m ns)
    have "(\<exists>i j. i < j \<and> j < length (m # ns) \<and> (m # ns) ! i = n \<and> (m # ns) ! j = n) \<longleftrightarrow>
        (m = n \<and> n \<in> set ns) \<or> (\<exists>i j. i < j \<and> j < length ns \<and> ns ! i = n \<and> ns ! j = n)" (is "?l \<longleftrightarrow> ?r")
    proof
      assume ?l
      then obtain i j where ij: "i < j" "j < length (m # ns)" "(m # ns) ! i = n" "(m # ns) ! j = n" by blast
      then show ?r by (cases i; cases j) auto
    next
      assume ?r
      then show ?l
      proof
        assume "m = n \<and> n \<in> set ns"
        then obtain j where "j < length ns" "ns ! j = n" "m = n" by (auto simp: in_set_conv_nth)
        then show ?l by (intro exI [of _ 0] exI [of _ "Suc j"]) simp
      next
        assume "\<exists>i j. i < j \<and> j < length ns \<and> ns ! i = n \<and> ns ! j = n"
        then obtain i j where "i < j" "j < length ns" "ns ! i = n" "ns ! j = n" by blast
        then show ?l by (intro exI [of _ "Suc i"] exI [of _ "Suc j"]) simp
      qed
    qed
    moreover have "0 < count_list ns n \<longleftrightarrow> n \<in> set ns" by (simp add: count_list_0_iff neq0_conv [symmetric] del: neq0_conv)
    ultimately show ?case using Cons.IH by auto
  qed simp
  have "n \<in> set nonces" if "Suc 0 < count_list nonces n" for n using that by (cases "n \<in> set nonces") simp_all
  then show ?thesis by (auto simp: replayed_nonces_def two [unfolded One_nat_def])
qed

section \<open>Concrete audits\<close>

definition demo_audit_env :: audit_env where
  "demo_audit_env = \<lparr>av_crypto = demo_libs, av_text = demo_text_libs, av_tsa = demo_tsa, av_outside = \<lambda>_. demo_outside,
     av_clocks = \<lambda>_. demo_lookups, av_pipeline = demo_pipeline\<rparr>"

definition demo_auditor :: audit_agent where
  "demo_auditor = \<lparr>aa_id = ''audit-agent'', aa_has_store = True\<rparr>"

definition demo_audit_plan :: "string \<Rightarrow> json dict \<Rightarrow> action_plan" where
  "demo_audit_plan action payload =
     \<lparr>ap_agent_type = ''audit'', ap_agent_id = Some ''audit-agent'', ap_action_type = action, ap_payload = payload,
      ap_requires_confirmation = False, ap_confirmed = False, ap_policy_decision = ''allow''\<rparr>"

lemma demo_audit_execute:
  assumes "action \<in> set audit_capabilities" "audit_run demo_audit_env demo_auditor (demo_audit_plan action payload) s = (Inr x, s')"
  shows "audit_execute demo_audit_env demo_auditor (demo_audit_plan action payload) None s = (Inr x, s')"
proof -
  have "plan_refusal ''audit'' (aa_id demo_auditor) audit_capabilities (demo_audit_plan action payload) = None"
    using assms(1) by (simp add: plan_refusal_def demo_audit_plan_def demo_auditor_def)
  then show ?thesis using assms(2)
    by (simp add: audit_execute_def audit_poi_mismatch_def bind_act_lift catching_def)
qed

lemma demo_audit_verify:
  obtains t where "verify_at demo_audit_env i None (Some ''a1'') (demo_case_store, [demo_grown]) = (Inr t, demo_case_store, [demo_grown])"
    "vt_overall_valid t"
  by (rule demo_trace) (simp add: verify_at_def demo_audit_env_def)

lemma demo_recheck:
  "\<exists>x. audit_execute demo_audit_env demo_auditor (demo_audit_plan ''audit.verify_action'' [(''action_id'', JStr ''a1'')]) None
      (demo_case_store, [demo_grown]) = (Inr x, demo_case_store, [demo_grown]) \<and> res_success x"
proof -
  obtain t where t: "verify_at demo_audit_env 0 None (Some ''a1'') (demo_case_store, [demo_grown]) = (Inr t, demo_case_store, [demo_grown])"
    "vt_overall_valid t" by (rule demo_audit_verify)
  have "audit_run demo_audit_env demo_auditor (demo_audit_plan ''audit.verify_action'' [(''action_id'', JStr ''a1'')])
      (demo_case_store, [demo_grown]) = (Inr (trace_result (trace_details t) t), demo_case_store, [demo_grown])"
    using t(1) by (simp add: audit_run_def run_recheck_def demo_audit_plan_def audit_required_def bind_act_def ret_def lift_res_def)
  from demo_audit_execute [OF _ this] t(2) show ?thesis by (simp add: audit_capabilities_def trace_result_def)
qed

theorem audit_read_only_witness:
  "\<exists>r st' H'. audit_execute demo_audit_env demo_auditor (demo_audit_plan ''audit.verify_action'' [(''action_id'', JStr ''a1'')]) None
      (demo_case_store, [demo_grown]) = (r, st', H') \<and> take 1 H' = [demo_grown]"
proof -
  obtain r st' H' where r: "audit_execute demo_audit_env demo_auditor
      (demo_audit_plan ''audit.verify_action'' [(''action_id'', JStr ''a1'')]) None (demo_case_store, [demo_grown]) = (r, st', H')"
    by (rule prod_cases3)
  from audit_read_only [OF r] r show ?thesis by (intro exI [of _ r] exI [of _ st'] exI [of _ H']) simp
qed

theorem audit_success_authentic_witness:
  "\<exists>(i :: intake) q ev. in_poi i = Some q \<and> in_evidence i = Some ev
     \<and> authentic demo_libs demo_text_libs demo_tsa demo_outside demo_lookups demo_pipeline [demo_grown] None (in_parsed i) ev q"
proof -
  obtain x where x: "audit_execute demo_audit_env demo_auditor
      (demo_audit_plan ''audit.verify_action'' [(''action_id'', JStr ''a1'')]) None (demo_case_store, [demo_grown])
      = (Inr x, demo_case_store, [demo_grown])" "res_success x" using demo_recheck by blast
  have "sha3_len (av_crypto demo_audit_env)" by (simp add: demo_audit_env_def demo_sha3_len)
  from audit_success_authentic [OF this x] obtain i :: intake and q ev where "in_poi i = Some q" "in_evidence i = Some ev"
      "authentic demo_libs demo_text_libs demo_tsa demo_outside demo_lookups demo_pipeline [demo_grown] None (in_parsed i) ev q"
    by (auto simp: demo_audit_plan_def demo_audit_env_def)
  then show ?thesis by blast
qed

theorem audit_tampered_exact_witness:
  "\<exists>x. audit_execute demo_audit_env demo_auditor (demo_audit_plan ''audit.list_tampered'' []) None
      (demo_case_store, [demo_grown]) = (Inr x, demo_case_store, [demo_grown])
    \<and> map_of (res_details x) ''actions'' = Some (JList [])"
proof -
  have ev: "all_evidence demo_case_store = [demo_case]" "ae_action_id demo_case = ''a1''" "keyed demo_case_store"
    by (simp_all add: demo_case_store_def all_evidence_def demo_case_def keyed_def)
  obtain t where t: "verify_at demo_audit_env 0 None (Some ''a1'') (demo_case_store, [demo_grown]) = (Inr t, demo_case_store, [demo_grown])"
    "vt_overall_valid t" by (rule demo_audit_verify)
  have f: "failed_links t = []"
    using t by (auto simp: verify_at_def demo_audit_env_def run_verification_def check_links_eq_Inr assemble_trace_def Let_def
        failed_links_def filter_empty_conv list_all_iff split: prod.splits sum.splits)
  have "\<exists>x. audit_run demo_audit_env demo_auditor (demo_audit_plan ''audit.list_tampered'' [])
      (demo_case_store, [demo_grown]) = (Inr x, demo_case_store, [demo_grown]) \<and> res_success x"
    using t(1) f ev evidence_of_run [of demo_auditor "(demo_case_store, [demo_grown])"]
    by (simp add: audit_run_def run_list_tampered_def demo_audit_plan_def demo_auditor_def bind_act_def ret_def)
  then obtain x where x: "audit_execute demo_audit_env demo_auditor (demo_audit_plan ''audit.list_tampered'' []) None
      (demo_case_store, [demo_grown]) = (Inr x, demo_case_store, [demo_grown])" "res_success x"
    using demo_audit_execute [of "''audit.list_tampered''" "[]"] by (force simp: audit_capabilities_def)
  have a: "ap_action_type (demo_audit_plan ''audit.list_tampered'' []) = ''audit.list_tampered''" by (simp add: demo_audit_plan_def)
  from audit_tampered_exact [OF ev(3) x a] obtain ts where
    ts: "list_all2 (rechecked demo_audit_env (demo_case_store, [demo_grown])) [(0, demo_case)] ts"
      "map_of (res_details x) ''actions'' = Some (JList (map tampered_json (tampered_of [demo_case] ts)))"
    by (auto simp: ev)
  then have "ts = [t]" using t(1) ev(2) by (auto simp: list_all2_Cons1 rechecked_def)
  with ts(2) f x show ?thesis by (auto simp: tampered_of_def)
qed

text \<open>
  The pattern that reads an action id has no word boundary: in a request without an id, letters inside a
  word are taken for one.
\<close>

lemma audit_id_inside_word: "extract_action_id ''verify the evidence'' = Some ''ence''"
  by code_simp

end
