(* ===== verification/Service_State.thy ===== *)
theory Service_State
  imports Audit_Agent File_Agent Email_Agent Tsa_Anchor
begin

text \<open>
  \<^verbatim>\<open>verifier_service/main.py\<close>: the application state that \<^verbatim>\<open>create_app\<close> builds and the HTTP handlers for
  accounts, keys, anchors, verification and prompts. A handler runs without interruption (none of them
  awaits after it has read the request), takes the request as FastAPI has validated it, and is a function
  from the state to its answer or exception and the next state. The service is the one \<^verbatim>\<open>create_app\<close>
  builds by default: keys live in a \<^verbatim>\<open>KeyRegistry\<close>, \<^verbatim>\<open>on_verified\<close> is the placeholder, agents are the four
  of the repository. The detail object of an error is represented by its reason.
\<close>

section \<open>The application\<close>

text \<open>The libraries, and the source-controlled TSA configuration as parsed and as JSON.\<close>

record service_libs =
  vl_crypto :: crypto_libs
  vl_text :: text_libs
  vl_aead :: aead_libs
  vl_header_factory :: "string \<Rightarrow> json \<Rightarrow> string res"
  vl_auth :: auth_libs
  vl_tsa :: tsa_libs
  vl_tsa_config :: tsa_config
  vl_tsa_json :: "json dict res"
  vl_sha256_hex :: "bytes \<Rightarrow> string"
  vl_unified_diff :: "string list \<Rightarrow> string list \<Rightarrow> string \<Rightarrow> string \<Rightarrow> string list"
  vl_sqlite :: sqlite_libs

definition mail_libs_of :: "service_libs \<Rightarrow> mail_libs" where
  "mail_libs_of V = \<lparr>ml_crypto = vl_crypto V, ml_text = vl_text V, ml_aead = vl_aead V, ml_header_factory = vl_header_factory V\<rparr>"

definition file_libs_of :: "service_libs \<Rightarrow> file_libs" where
  "file_libs_of V = \<lparr>fl_crypto = vl_crypto V, sha256_hex = vl_sha256_hex V, unified_diff = vl_unified_diff V\<rparr>"

text \<open>
  What one request brings or meets: its authorization header, the readings of the clocks, fresh
  identifiers and key material, the network, and the modification times of files. Handlers that loop
  number what they take.
\<close>

record request =
  rq_authorization :: "string option"
  rq_clock :: "nat \<Rightarrow> time"
  rq_attempt :: attempt_clocks
  rq_lookup :: "nat \<Rightarrow> lookup_clocks"
  rq_token :: "nat \<Rightarrow> string"
  rq_salt :: "nat \<Rightarrow> bytes"
  rq_uuid :: "nat \<Rightarrow> string"
  rq_seed :: "nat \<Rightarrow> bytes"
  rq_race :: "nat \<Rightarrow> bytes option"
  rq_mail :: "nat \<Rightarrow> mail_fresh"
  rq_smtp :: "smtp_session \<Rightarrow> unit res"
  rq_get :: "string \<Rightarrow> bytes res"
  rq_post :: "nat \<Rightarrow> bytes \<Rightarrow> bytes res"
  rq_mtime :: "nat \<Rightarrow> path \<Rightarrow> time"

record operation =
  op_timestamp :: string
  op_operation :: string
  op_status :: string
  op_detail :: string
  op_pubkey_id :: "string option"

text \<open>What \<^verbatim>\<open>create_app\<close> fixes for the life of the application, and the state it changes.\<close>

record app =
  app_cwd :: path
  app_outbox :: path
  app_email :: email_agent
  app_file :: file_agent
  app_audit :: audit_agent
  app_key :: private_key

record service =
  sv_keys :: key_table
  sv_nonces :: nonce_store
  sv_operations :: "operation list"
  sv_ledger :: nat
  sv_ledgers :: ledger_heap
  sv_verified :: "json dict list"
  sv_artifacts :: evidence_store
  sv_database :: database
  sv_anchors :: anchor_store
  sv_mail :: mail_state
  sv_databases :: database_agent
  sv_key_files :: key_files

section \<open>Parts of the state\<close>

text \<open>Component code run on its part of the state.\<close>

definition on_keys :: "(key_table \<Rightarrow> ('a \<times> key_table) res) \<Rightarrow> (service, 'a) act" where
  "on_keys f s = (case f (sv_keys s) of Inl e \<Rightarrow> (Inl e, s) | Inr (x, st) \<Rightarrow> (Inr x, s\<lparr>sv_keys := st\<rparr>))"

definition on_store :: "(database \<Rightarrow> ('a \<times> database) res) \<Rightarrow> (service, 'a) act" where
  "on_store f s = (case f (sv_database s) of Inl e \<Rightarrow> (Inl e, s) | Inr (x, db) \<Rightarrow> (Inr x, s\<lparr>sv_database := db\<rparr>))"

definition on_key_files :: "(key_files \<Rightarrow> ('a \<times> key_files) res) \<Rightarrow> (service, 'a) act" where
  "on_key_files f s = (case f (sv_key_files s) of Inl e \<Rightarrow> (Inl e, s) | Inr (x, fs) \<Rightarrow> (Inr x, s\<lparr>sv_key_files := fs\<rparr>))"

definition on_evidence :: "(audit_state, 'a) act \<Rightarrow> (service, 'a) act" where
  "on_evidence m = zoom (\<lambda>s. (sv_artifacts s, sv_ledgers s)) (\<lambda>(st, H) s. s\<lparr>sv_artifacts := st, sv_ledgers := H\<rparr>) m"

definition on_outbox :: "(mail_state, 'a) act \<Rightarrow> (service, 'a) act" where
  "on_outbox m = zoom sv_mail (\<lambda>ms s. s\<lparr>sv_mail := ms\<rparr>) m"

definition on_disk :: "(file_system, 'a) act \<Rightarrow> (service, 'a) act" where
  "on_disk m = on_outbox (mail_files m)"

definition on_databases :: "(db_state, 'a) act \<Rightarrow> (service, 'a) act" where
  "on_databases m =
     zoom (\<lambda>s. (sv_databases s, ms_files (sv_mail s)))
       (\<lambda>(a, fs) s. s\<lparr>sv_databases := a, sv_mail := (sv_mail s)\<lparr>ms_files := fs\<rparr>\<rparr>) m"

abbreviation disk :: "service \<Rightarrow> file_system" where
  "disk s \<equiv> ms_files (sv_mail s)"

definition app_ledger :: "service \<Rightarrow> ledger" where
  "app_ledger s = sv_ledgers s ! sv_ledger s"

definition http_error :: "nat \<Rightarrow> string \<Rightarrow> py_error" where
  "http_error code detail = Exc (HTTPException code) detail"

section \<open>Operations log and sessions\<close>

text \<open>\<^verbatim>\<open>datetime.now(timezone.utc).isoformat().replace("+00:00", "Z")\<close>\<close>

definition utc_z :: "time \<Rightarrow> string" where
  "utc_z t = (let s = isoformat_utc t in take (length s - 6) s @ ''Z'')"

definition operation_entry :: "time \<Rightarrow> string \<Rightarrow> string \<Rightarrow> string \<Rightarrow> string option \<Rightarrow> operation" where
  "operation_entry now operation status detail pubkey =
     \<lparr>op_timestamp = utc_z now, op_operation = operation, op_status = status, op_detail = detail,
      op_pubkey_id = (case pubkey of None \<Rightarrow> None | Some k \<Rightarrow> if k = [] then None else Some k)\<rparr>"

text \<open>\<^verbatim>\<open>operations.insert(0, entry)\<close> and \<^verbatim>\<open>operations = operations[:50]\<close>.\<close>

definition log_operation :: "operation \<Rightarrow> (service, unit) act" where
  "log_operation e = modify (\<lambda>s. s\<lparr>sv_operations := take 50 (e # sv_operations s)\<rparr>)"

definition bearer_token :: "string option \<Rightarrow> string option" where
  "bearer_token authorization =
     (let value = (case authorization of None \<Rightarrow> [] | Some v \<Rightarrow> v);
          scheme = takeWhile (\<lambda>c. c \<noteq> CHR '' '') value;
          token = strip (drop (length scheme + 1) value) in
      if str_lower scheme = ''bearer'' \<and> token \<noteq> [] then Some token else None)"

definition request_user :: "service_libs \<Rightarrow> request \<Rightarrow> service \<Rightarrow> public_user option" where
  "request_user V R s = user_from_token (vl_auth V) (rq_clock R 0) (bearer_token (rq_authorization R)) (sv_database s)"

definition required_user :: "service_libs \<Rightarrow> request \<Rightarrow> (service, public_user) act" where
  "required_user V R =
     reads (\<lambda>s. case request_user V R s of
       None \<Rightarrow> Inl (http_error 401 ''authentication_required'') | Some u \<Rightarrow> Inr u)"

section \<open>Accounts\<close>

definition text_field :: "string dict \<Rightarrow> string \<Rightarrow> string" where
  "text_field payload k = (case map_of payload k of None \<Rightarrow> [] | Some v \<Rightarrow> v)"

definition auth_signup :: "service_libs \<Rightarrow> request \<Rightarrow> string dict \<Rightarrow> (service, public_user \<times> string) act" where
  "auth_signup V R payload =
     catching [KeyError, TypeError, ValueError] (\<lambda>e. raise_exc (http_error 400 (exc_str e)))
       (bind_act (on_store (create_user (vl_auth V) (rq_token R 0) (rq_salt R 0) (rq_clock R 0)
            (text_field payload ''name'') (text_field payload ''email'') (text_field payload ''password''))) (\<lambda>user.
        bind_act (on_store (create_session (vl_auth V) (rq_token R 1) (rq_clock R 1) 7 (pu_id user))) (\<lambda>token.
          ret (user, token))))"

definition auth_login :: "service_libs \<Rightarrow> request \<Rightarrow> string dict \<Rightarrow> (service, public_user \<times> string) act" where
  "auth_login V R payload =
     bind_act (reads (\<lambda>s.
        case authenticate (vl_auth V) (text_field payload ''email'') (text_field payload ''password'') (sv_database s) of
          None \<Rightarrow> Inl (http_error 401 ''Invalid email or password.'') | Some user \<Rightarrow> Inr user)) (\<lambda>user.
     bind_act (on_store (create_session (vl_auth V) (rq_token R 0) (rq_clock R 0) 7 (pu_id user))) (\<lambda>token.
       ret (user, token)))"

definition auth_me :: "service_libs \<Rightarrow> request \<Rightarrow> (service, public_user) act" where
  "auth_me V R = required_user V R"

definition auth_logout :: "service_libs \<Rightarrow> request \<Rightarrow> (service, string) act" where
  "auth_logout V R =
     bind_act (modify (\<lambda>s. s\<lparr>sv_database := revoke_session (vl_auth V) (bearer_token (rq_authorization R)) (sv_database s)\<rparr>))
       (\<lambda>_. ret ''signed_out'')"

definition auth_reset_password :: "string dict \<Rightarrow> (service, string) act" where
  "auth_reset_password payload = ret ''accepted''"

definition list_prompt_records :: "service_libs \<Rightarrow> request \<Rightarrow> (service, prompt_row list) act" where
  "list_prompt_records V R =
     bind_act (required_user V R) (\<lambda>user. reads (\<lambda>s. Inr (list_prompts (pu_id user) 50 (sv_database s))))"

section \<open>Keys\<close>

text \<open>\<^verbatim>\<open>_registration_key_bytes\<close> and \<^verbatim>\<open>_registry_registration_key_bytes\<close>, which differ in the message.\<close>

definition key_bytes_of :: "crypto_libs \<Rightarrow> string \<Rightarrow> string option \<Rightarrow> json dict option \<Rightarrow> bytes res" where
  "key_bytes_of L message b64 jwk =
     (case jwk of
        Some j \<Rightarrow> import_jwk L j
      | None \<Rightarrow>
          (case b64decode True (case b64 of None \<Rightarrow> [] | Some t \<Rightarrow> t) of
             Inl e \<Rightarrow> if caught_by [ValueError, BinasciiError] e then Inl (Exc ValueError message) else Inl e
           | Inr b \<Rightarrow> Inr b))"

definition registration_key_bytes :: "crypto_libs \<Rightarrow> pubkey_registration \<Rightarrow> bytes res" where
  "registration_key_bytes L r =
     key_bytes_of L ''public_key_b64 must be valid base64 DER'' (pr_public_key_b64 r) (pr_public_key_jwk r)"

definition registry_registration_key_bytes :: "crypto_libs \<Rightarrow> register_key_request \<Rightarrow> bytes res" where
  "registry_registration_key_bytes L r =
     key_bytes_of L ''public_key_b64 must be valid base64 key material'' (rk_public_key_b64 r) (rk_public_key_jwk r)"

definition as_unprocessable :: "(service, 'a) act \<Rightarrow> (service, 'a) act" where
  "as_unprocessable m = catching [TypeError, ValueError] (\<lambda>e. raise_exc (http_error 422 (exc_str e))) m"

definition register_pubkey_endpoint :: "service_libs \<Rightarrow> request \<Rightarrow> pubkey_registration \<Rightarrow> (service, string) act" where
  "register_pubkey_endpoint V R r =
     bind_act
       (as_unprocessable
         (bind_act (lift_res (registration_key_bytes (vl_crypto V) r)) (\<lambda>b.
            on_keys (\<lambda>st. map_res (\<lambda>st'. ((), st')) (register_pubkey (vl_crypto V) (rq_clock R 0) (rq_clock R 1) (pr_pubkey_id r) b st)))))
       (\<lambda>_.
     bind_act (log_operation (operation_entry (rq_clock R 2) ''register_pubkey'' ''registered'' (''registered '' @ pr_pubkey_id r)
          (Some (pr_pubkey_id r)))) (\<lambda>_.
       ret (pr_pubkey_id r)))"

definition register_key_endpoint :: "service_libs \<Rightarrow> request \<Rightarrow> register_key_request \<Rightarrow> (service, string \<times> string) act" where
  "register_key_endpoint V R r =
     bind_act
       (as_unprocessable
         (bind_act (lift_res (registry_registration_key_bytes (vl_crypto V) r)) (\<lambda>b.
            on_keys (register_key (vl_crypto V) (rq_clock R 1) (rk_agent_id r) (rk_pubkey_id r) b (rk_algorithm r)
              (Aware (case rk_valid_from r of None \<Rightarrow> rq_clock R 0 | Some t \<Rightarrow> t) 0)
              (map_option (\<lambda>t. Aware t 0) (rk_valid_until r)) None))))
       (\<lambda>k.
     bind_act (log_operation (operation_entry (rq_clock R 2) ''register_key'' ''registered'' (''registered '' @ pubkey_id k)
          (Some (pubkey_id k)))) (\<lambda>_.
       ret (agent_id k, pubkey_id k)))"

definition get_jwks :: "service_libs \<Rightarrow> request \<Rightarrow> (service, string dict list) act" where
  "get_jwks V R = reads (\<lambda>s. registry_export_jwks (vl_crypto V) (rq_clock R 0) (sv_keys s))"

definition revoke_key_endpoint :: "request \<Rightarrow> string \<Rightarrow> (service, string) act" where
  "revoke_key_endpoint R kid =
     bind_act (on_keys (\<lambda>st. Inr (revoke_key kid st))) (\<lambda>found.
     bind_act (require found (http_error 404 ''key_not_found'')) (\<lambda>_.
     bind_act (log_operation (operation_entry (rq_clock R 0) ''revoke_key'' ''revoked'' (''revoked '' @ kid) (Some kid))) (\<lambda>_.
       ret kid)))"

definition list_operations :: "(service, nat \<times> operation list) act" where
  "list_operations = reads (\<lambda>s. Inr (length (sv_operations s), sv_operations s))"

section \<open>Anchors\<close>

definition anchor_ledger :: "service_libs \<Rightarrow> request \<Rightarrow> (service, anchor_record) act" where
  "anchor_ledger V R s =
     (case anchor_current_root (vl_crypto V) (vl_tsa V) (rq_post R) (vl_tsa_config V) (rq_clock R 0) (app_ledger s) (sv_anchors s) of
        Inl e \<Rightarrow> (Inl e, s)
      | Inr (r, st) \<Rightarrow> (Inr r, s\<lparr>sv_anchors := st\<rparr>))"

definition list_anchors :: "(service, nat \<times> anchor_record list) act" where
  "list_anchors = reads (\<lambda>s. Inr (length (as_records (sv_anchors s)), as_records (sv_anchors s)))"

section \<open>Verification\<close>

text \<open>What the verification pipeline of the application uses in a state.\<close>

definition outside_of :: "service_libs \<Rightarrow> request \<Rightarrow> service \<Rightarrow> outside" where
  "outside_of V R s = \<lparr>out_tsa_config = vl_tsa_json V, out_get = rq_get R, out_database = sv_database s\<rparr>"

definition pipeline_of :: "service \<Rightarrow> pipeline" where
  "pipeline_of s = \<lparr>vp_registry = sv_keys s, vp_anchors = Some (sv_anchors s)\<rparr>"

definition audit_env_of :: "service_libs \<Rightarrow> request \<Rightarrow> service \<Rightarrow> audit_env" where
  "audit_env_of V R s = \<lparr>av_crypto = vl_crypto V, av_text = vl_text V, av_tsa = vl_tsa V, av_outside = \<lambda>_. outside_of V R s,
     av_clocks = rq_lookup R, av_pipeline = pipeline_of s\<rparr>"

definition run_pipeline :: "service_libs \<Rightarrow> request \<Rightarrow> bytes option \<Rightarrow> string option \<Rightarrow> (service, verification_trace) act" where
  "run_pipeline V R eml aid s = on_evidence (verify_at (audit_env_of V R s) 0 eml aid) s"

definition record_verdict :: "string \<Rightarrow> verification_trace \<Rightarrow> (service, unit) act" where
  "record_verdict aid t = modify (\<lambda>s. s\<lparr>sv_database := update_verification aid (trace_dump t) (sv_database s)\<rparr>)"

definition verify_by_id :: "service_libs \<Rightarrow> request \<Rightarrow> string \<Rightarrow> (service, verification_trace) act" where
  "verify_by_id V R aid =
     bind_act (run_pipeline V R None (Some aid)) (\<lambda>t. bind_act (record_verdict aid t) (\<lambda>_. ret t))"

text \<open>\<^verbatim>\<open>str(body["action_id"])\<close>: a body that is no object raises \<^verbatim>\<open>TypeError\<close>.\<close>

definition body_action_id :: "json res \<Rightarrow> string res" where
  "body_action_id body = bind_res (bind_res body as_dict) (\<lambda>d. map_res py_str (json_item d ''action_id''))"

definition verify_artifact :: "service_libs \<Rightarrow> request \<Rightarrow> request_body \<Rightarrow> (service, verification_trace) act" where
  "verify_artifact V R body =
     (case body of
        Multipart None \<Rightarrow> raise_exc (http_error 422 ''provide an .eml file'')
      | Multipart (Some b) \<Rightarrow>
          bind_act (run_pipeline V R (Some b) None) (\<lambda>t.
            if falsy (vt_action_id t) then ret t
            else bind_act (record_verdict (case vt_action_id t of None \<Rightarrow> [] | Some a \<Rightarrow> a) t) (\<lambda>_. ret t))
      | OtherBody r \<Rightarrow>
          (case body_action_id r of
             Inl e \<Rightarrow>
               if caught_by [KeyError, TypeError, ValueError] e
               then raise_exc (http_error 422 ''provide JSON {action_id: ...} or an .eml upload'') else raise_exc e
           | Inr aid \<Rightarrow> verify_by_id V R aid))"

section \<open>Prompts\<close>

text \<open>The check that a signed-in user only submits prompts of their own.\<close>

definition check_owner :: "service_libs \<Rightarrow> request \<Rightarrow> signed_envelope \<Rightarrow> (service, public_user option) act" where
  "check_owner V R env =
     bind_act (reads (\<lambda>s. Inr (request_user V R s))) (\<lambda>user.
     bind_act (require (case user of None \<Rightarrow> True | Some u \<Rightarrow> env_user_id env = pu_id u) (http_error 403 ''prompt_user_mismatch'')) (\<lambda>_.
       ret user))"

definition check_envelope :: "service_libs \<Rightarrow> request \<Rightarrow> signed_envelope \<Rightarrow> (service, verification_result) act" where
  "check_envelope V R env s =
     (case verify_envelope (vl_crypto V) 60 (rq_attempt R) (registry_lookup (rq_clock R 1) (sv_keys s)) env (sv_nonces s) of
        (r, ns) \<Rightarrow> (r, s\<lparr>sv_nonces := ns\<rparr>))"

definition reason_text :: "verification_result \<Rightarrow> string" where
  "reason_text r = (case vr_reason r of None \<Rightarrow> ''verification_failed'' | Some t \<Rightarrow> if t = [] then ''verification_failed'' else t)"

definition default_verified_handler :: "signed_envelope \<Rightarrow> string dict" where
  "default_verified_handler env = [(''next'', ''would proceed to PoI Generator in Stage 6'')]"

definition reject_envelope :: "request \<Rightarrow> string \<Rightarrow> signed_envelope \<Rightarrow> verification_result \<Rightarrow> (service, 'a) act" where
  "reject_envelope R operation env r =
     bind_act (log_operation (operation_entry (rq_clock R 2) operation ''rejected'' (reason_text r) (Some (env_pubkey_id env)))) (\<lambda>_.
       raise_exc (http_error 401 ''verification_failed''))"

definition remember_envelope :: "signed_envelope \<Rightarrow> (service, unit) act" where
  "remember_envelope env = modify (\<lambda>s. s\<lparr>sv_verified := take 50 (envelope_dump env # sv_verified s)\<rparr>)"

definition verify_prompt :: "service_libs \<Rightarrow> request \<Rightarrow> signed_envelope \<Rightarrow> (service, string dict) act" where
  "verify_prompt V R env =
     bind_act (check_owner V R env) (\<lambda>_.
     bind_act (check_envelope V R env) (\<lambda>r.
       if \<not> vr_valid r then reject_envelope R ''verify_prompt'' env r
       else
         bind_act (remember_envelope env) (\<lambda>_.
         bind_act (log_operation (operation_entry (rq_clock R 2) ''verify_prompt'' ''verified'' (''accepted '' @ env_pubkey_id env)
              (Some (env_pubkey_id env)))) (\<lambda>_.
           ret ((''status'', ''verified'') # default_verified_handler env)))))"

end
