(* ===== verification/Service_Agents.thy ===== *)
theory Service_Agents
  imports Service_State
begin

text \<open>
  \<^verbatim>\<open>verifier_service/main.py\<close>, continued: \<^verbatim>\<open>create_app\<close> and the two handlers that act on a verified prompt:
  \<^verbatim>\<open>generate_artifact\<close> (the e-mail demonstration) and \<^verbatim>\<open>execute_routed_agent\<close> (one or more agents chosen by
  the router). Both commit the context to the ledger of the application, sign a Proof of Intent over it,
  let the agent execute under that proof, and store the evidence.
\<close>

section \<open>Files\<close>

text \<open>\<^verbatim>\<open>directory.glob("*" + suffix)\<close> for a directory that is not reached through a link.\<close>

definition glob_suffix :: "file_system \<Rightarrow> path \<Rightarrow> string \<Rightarrow> path list" where
  "glob_suffix fs dir suffix = filter (\<lambda>p. p \<noteq> [] \<and> butlast p = dir \<and> endswith (last p) suffix) (map fst fs)"

text \<open>\<^verbatim>\<open>max(paths, key=lambda path: path.stat().st_mtime)\<close>: the first of the newest.\<close>

definition newest :: "(path \<Rightarrow> time) \<Rightarrow> file_system \<Rightarrow> path list \<Rightarrow> path res" where
  "newest mtime fs ps =
     (case ps of
        [] \<Rightarrow> Inl (Exc ValueError ''max() arg is an empty sequence'')
      | p # rest \<Rightarrow>
          (case find (\<lambda>q. \<not> path_exists fs q) ps of
             Some q \<Rightarrow> Inl (os_error ''No such file or directory'' q)
           | None \<Rightarrow> Inr (foldl (\<lambda>a b. if mtime a < mtime b then b else a) p rest)))"

section \<open>\<^verbatim>\<open>create_app\<close>\<close>

text \<open>The agents of the application, which plan with the current files and databases.\<close>

definition service_agents :: "app \<Rightarrow> service \<Rightarrow> agent list" where
  "service_agents A s =
     [\<lparr>ag_type = ''email'', ag_id = em_id (app_email A), ag_can_handle = email_can_handle, ag_plan = email_plan (app_email A)\<rparr>,
      \<lparr>ag_type = ''file'', ag_id = fa_id (app_file A), ag_can_handle = file_can_handle, ag_plan = file_plan (app_file A) (disk s)\<rparr>,
      \<lparr>ag_type = ''audit'', ag_id = aa_id (app_audit A), ag_can_handle = audit_can_handle, ag_plan = audit_plan (app_audit A)\<rparr>,
      \<lparr>ag_type = ''database'', ag_id = da_id (sv_databases s), ag_can_handle = db_can_handle,
       ag_plan = db_plan (sv_databases s) (disk s)\<rparr>]"

definition service_registry :: "app \<Rightarrow> service \<Rightarrow> agent_registry" where
  "service_registry A s = map (\<lambda>a. (ag_type a, a)) (service_agents A s)"

lemma service_registry_built: "new_agent_registry (service_agents A s) [] = Inr (service_registry A s)"
  by (simp add: service_agents_def service_registry_def register_agent_def)

text \<open>The databases found at start: the application's own file, and the files of the database workspace.\<close>

definition path_from :: "path \<Rightarrow> string \<Rightarrow> path" where
  "path_from cwd s = (if is_absolute s then [] else cwd) @ path_parts s"

definition found_databases :: "path \<Rightarrow> file_system \<Rightarrow> string \<Rightarrow> path \<Rightarrow> string dict" where
  "found_databases cwd fs location workspace =
     (let own = (if location \<noteq> '':memory:'' \<and> is_file fs (path_from cwd location) then [(''aor'', location)] else []) in
      if is_dir fs workspace
      then foldl (\<lambda>d p. dict_set (name_stem (path_name p)) (path_str p) d) own (glob_suffix fs workspace ''.sqlite3'')
      else own)"

text \<open>
  \<open>root\<close> is the directory of the sources; \<open>keys\<close> and \<open>db\<close> are what the tables at the database location hold
  when they are opened. The file system and the key directory are the state.
\<close>

definition create_app ::
  "service_libs \<Rightarrow> request \<Rightarrow> path \<Rightarrow> path \<Rightarrow> string option \<Rightarrow> string option \<Rightarrow> key_table \<Rightarrow> database
     \<Rightarrow> (file_system \<times> key_files, app \<times> service) act"
where
  "create_app V R cwd root database_path workspace_dir keys db0 =
     (let location = (case database_path of None \<Rightarrow> '':memory:'' | Some p \<Rightarrow> p);
          workspace = (case workspace_dir of None \<Rightarrow> path_str (root @ [''.aor_workspace'']) | Some w \<Rightarrow> w);
          databases = path_from cwd workspace @ [''databases''];
          outbox = root @ [''.aor_outbox''] in
      bind_act (lift_res (seed_demo_accounts (vl_auth V) (rq_token R 0) (rq_salt R 0) (rq_clock R 0)
          (rq_token R 1) (rq_salt R 1) (rq_clock R 1) db0)) (\<lambda>db.
      bind_act (lift_res (new_nonce_store 300)) (\<lambda>nonces.
      bind_act (lift_res (new_email_agent cwd (Some ((default_smtp_config cwd)\<lparr>sc_dry_run := True, sc_output_dir := outbox\<rparr>)) None
          ''email-agent'')) (\<lambda>email.
      bind_act (zoom fst (\<lambda>fs (_, ks). (fs, ks)) (new_file_agent cwd workspace None ''file-agent'')) (\<lambda>file.
      bind_act (lift_res (new_audit_agent True ''audit-agent'')) (\<lambda>audit.
      bind_act (reads (\<lambda>(fs, _). new_database_agent cwd fs (found_databases cwd fs location databases)
          (Some (path_str databases)) ''database-agent'')) (\<lambda>database_agent.
      bind_act (zoom snd (\<lambda>ks (fs, _). (fs, ks))
          (\<lambda>ks. case load_agent_keypair (vl_crypto V) (rq_seed R 0) (rq_race R 0) ''email-agent'' ks of
             Inl e \<Rightarrow> (Inl e, ks) | Inr ((k, _), ks') \<Rightarrow> (Inr k, ks'))) (\<lambda>key.
      reads (\<lambda>(fs, ks). Inr
        (\<lparr>app_cwd = cwd, app_outbox = outbox, app_email = email, app_file = file, app_audit = audit, app_key = key\<rparr>,
         \<lparr>sv_keys = keys, sv_nonces = nonces, sv_operations = [], sv_ledger = 0, sv_ledgers = [new_ledger], sv_verified = [],
          sv_artifacts = new_evidence_store True, sv_database = db, sv_anchors = new_anchor_store,
          sv_mail = \<lparr>ms_files = fs, ms_sent = []\<rparr>, sv_databases = database_agent, sv_key_files = ks\<rparr>))))))))))"

section \<open>Steps that both handlers take\<close>

text \<open>A prompt that was verified before is not verified again.\<close>

definition admit :: "service_libs \<Rightarrow> request \<Rightarrow> (verification_result \<Rightarrow> (service, unit) act) \<Rightarrow> signed_envelope \<Rightarrow> (service, unit) act" where
  "admit V R refuse env =
     bind_act (reads (\<lambda>s. Inr (envelope_dump env \<in> set (sv_verified s)))) (\<lambda>verified_before.
       if verified_before then ret ()
       else bind_act (check_envelope V R env) (\<lambda>r. if vr_valid r then ret () else refuse r))"

definition append_entry :: "service_libs \<Rightarrow> time \<Rightarrow> string \<Rightarrow> json \<Rightarrow> (service, unit) act" where
  "append_entry V now ty c s =
     (case ledger_append (vl_crypto V) (utc_z now) ty c (app_ledger s) of
        Inl e \<Rightarrow> (Inl e, s)
      | Inr (_, l) \<Rightarrow> (Inr (), s\<lparr>sv_ledgers := (sv_ledgers s)[sv_ledger s := l]\<rparr>))"

definition append_context :: "service_libs \<Rightarrow> request \<Rightarrow> nat \<Rightarrow> string \<Rightarrow> signed_envelope \<Rightarrow> json \<Rightarrow> (service, unit) act" where
  "append_context V R k system_prompt env action =
     bind_act (append_entry V (rq_clock R k) ''system_prompt'' (JObj [(''text'', JStr system_prompt)])) (\<lambda>_.
     bind_act (append_entry V (rq_clock R (k + 1)) ''user_prompt'' (JObj [(''text'', JStr (env_prompt env))])) (\<lambda>_.
       append_entry V (rq_clock R (k + 2)) ''agent_action'' action))"

text \<open>\<^verbatim>\<open>register_agent_public_key\<close>, then \<^verbatim>\<open>sign_poi(build_poi(...))\<close> over the ledger of the moment.\<close>

definition sign_intent ::
  "service_libs \<Rightarrow> request \<Rightarrow> nat \<Rightarrow> string \<Rightarrow> private_key \<Rightarrow> signed_envelope \<Rightarrow> string \<Rightarrow> string \<Rightarrow> action_plan \<Rightarrow> string option
     \<Rightarrow> (service, proof_of_intent) act"
where
  "sign_intent V R k aid key env system_prompt model p poi_agent =
     bind_act (on_keys (register_agent_public_key (vl_crypto V) (rq_clock R k) (rq_clock R (k + 1)) (rq_clock R (k + 2)) aid key)) (\<lambda>_.
       reads (\<lambda>s.
         bind_res (build_poi (vl_crypto V) (utc_z (rq_clock R (k + 3))) (rq_uuid R k) (env_prompt env) system_prompt (app_ledger s)
             (JObj (ap_payload p)) model
             (Some (ap_agent_type p), poi_agent, Some (ap_action_type p), Some (ap_policy_decision p))) (\<lambda>q.
           sign_poi (vl_crypto V) q key)))"

definition evidence_for ::
  "string \<Rightarrow> signed_envelope \<Rightarrow> string \<Rightarrow> service \<Rightarrow> bytes option \<Rightarrow> proof_of_intent \<Rightarrow> action_plan \<Rightarrow> action_result \<Rightarrow> action_evidence"
where
  "evidence_for aid env system_prompt s eml q p r =
     \<lparr>ae_action_id = aid, ae_user_envelope = env, ae_system_prompt = system_prompt, ae_ledger = sv_ledger s,
      ae_ledger_entry_count = int (length (all_entries (app_ledger s))), ae_eml_bytes = eml, ae_poi = Some q,
      ae_action_type = Some (ap_action_type p), ae_action_payload = Some (JObj (ap_payload p)),
      ae_observed_effect = Some (JObj (res_observed_effect r)), ae_timestamp_token = None\<rparr>"

definition store_evidence :: "service_libs \<Rightarrow> action_evidence \<Rightarrow> (service, unit) act" where
  "store_evidence V ev s =
     (case register_evidence (vl_text V) (sv_ledgers s) ev (sv_artifacts s, sv_database s) of
        (st, db) \<Rightarrow> (Inr (), s\<lparr>sv_artifacts := st, sv_database := db\<rparr>))"

definition resolved_text :: "app \<Rightarrow> path \<Rightarrow> (service, string) act" where
  "resolved_text A p = reads (\<lambda>s. map_res path_str (resolve_from (disk s) (app_cwd A) (path_str p)))"

definition record_user :: "public_user option \<Rightarrow> signed_envelope \<Rightarrow> string" where
  "record_user user env = (case user of None \<Rightarrow> env_user_id env | Some u \<Rightarrow> pu_id u)"

definition save_record ::
  "request \<Rightarrow> nat \<Rightarrow> public_user option \<Rightarrow> signed_envelope \<Rightarrow> string \<Rightarrow> string option \<Rightarrow> (service, unit) act"
where
  "save_record R k user env aid eml =
     bind_act (on_store (save_prompt (rq_clock R k) env (record_user user env) (Some aid) eml None)) (\<lambda>_. ret ())"

section \<open>\<^verbatim>\<open>generate_artifact\<close>\<close>

definition email_system_prompt :: string where
  "email_system_prompt = ''Only send approved project updates.''"

text \<open>\<^verbatim>\<open>EmailAction(action_type="email", **payload)\<close>\<close>

definition action_of_payload :: "json dict \<Rightarrow> email_action res" where
  "action_of_payload d =
     (case (map_of d ''to'', map_of d ''subject'', map_of d ''body'') of
        (Some (JStr a), Some (JStr b), Some (JStr c)) \<Rightarrow> make_email_action a b c
      | _ \<Rightarrow> Inl (Exc ValidationError ''EmailAction''))"

definition plan_mail :: "app \<Rightarrow> request \<Rightarrow> signed_envelope \<Rightarrow> (service, action_plan \<times> email_action) act" where
  "plan_mail A R env =
     catching [AgentRuntimeError]
       (\<lambda>e. bind_act (log_operation (operation_entry (rq_clock R 2) ''agent_plan'' ''failed'' (exc_str e) (Some (env_pubkey_id env))))
              (\<lambda>_. raise_exc (http_error 502 (exc_str e))))
       (lift_res (bind_res (runtime_plan_action (app_email A) (env_prompt env) None) (\<lambda>p.
          map_res (\<lambda>a. (p, a)) (action_of_payload (ap_payload p)))))"

text \<open>The message id of a delivered e-mail, or the error of the handler.\<close>

definition delivered :: "action_result \<Rightarrow> string res" where
  "delivered r =
     (if res_success r \<and> \<not> falsy (res_artifact_ref r) then Inr (case res_artifact_ref r of None \<Rightarrow> [] | Some a \<Rightarrow> a)
      else
        let d = json_or (json_or (get_or_null (res_details r) ''detail'') (get_or_null (res_details r) ''error''))
                  (JStr ''artifact_generation_failed'') in
        Inl (http_error 500 (py_str d)))"

record artifact_response =
  gr_draft :: email_action
  gr_action_id :: string
  gr_eml_path :: string

text \<open>The part of the handler that follows the signing, and the handler.\<close>

definition deliver_signed ::
  "service_libs \<Rightarrow> app \<Rightarrow> request \<Rightarrow> public_user option \<Rightarrow> signed_envelope \<Rightarrow> action_plan \<Rightarrow> email_action \<Rightarrow> proof_of_intent
     \<Rightarrow> (service, artifact_response) act"
where
  "deliver_signed V A R user env p draft q =
     bind_act (on_disk (make_dirs (app_outbox A))) (\<lambda>_.
     bind_act (on_outbox (email_execute (mail_libs_of V) (rq_smtp R) (rq_mail R 0) (app_email A) p (Some q))) (\<lambda>r.
     bind_act (lift_res (delivered r)) (\<lambda>aid.
     bind_act (reads (\<lambda>s. newest (rq_mtime R 0) (disk s) (glob_suffix (disk s) (app_outbox A) ''.eml''))) (\<lambda>artifact.
     bind_act (on_disk (read_bytes artifact)) (\<lambda>eml.
     bind_act (\<lambda>s. store_evidence V (evidence_for aid env email_system_prompt s (Some eml) q p r) s) (\<lambda>_.
     bind_act (resolved_text A artifact) (\<lambda>eml_path.
     bind_act (save_record R 11 user env aid (Some eml_path)) (\<lambda>_.
     bind_act (log_operation (operation_entry (rq_clock R 12) ''generate_artifact'' ''artifact_generated''
          (''generated '' @ path_name artifact) (Some (env_pubkey_id env)))) (\<lambda>_.
       ret \<lparr>gr_draft = draft, gr_action_id = aid, gr_eml_path = eml_path\<rparr>)))))))))"

definition generate_artifact :: "service_libs \<Rightarrow> app \<Rightarrow> request \<Rightarrow> signed_envelope \<Rightarrow> (service, artifact_response) act" where
  "generate_artifact V A R env =
     bind_act (check_owner V R env) (\<lambda>user.
     bind_act (admit V R (reject_envelope R ''generate_artifact'' env) env) (\<lambda>_.
     bind_act (plan_mail A R env) (\<lambda>(p, draft).
     bind_act (append_context V R 3 email_system_prompt env (JObj (email_payload draft))) (\<lambda>_.
     bind_act (log_operation (operation_entry (rq_clock R 6) ''agent_plan'' ''planned'' (''planned email to '' @ ea_to draft)
          (Some (env_pubkey_id env)))) (\<lambda>_.
     bind_act (sign_intent V R 7 ''email-agent'' (app_key A) env email_system_prompt ''demo-model'' p (ap_agent_id p)) (\<lambda>q.
       deliver_signed V A R user env p draft q))))))"

section \<open>\<^verbatim>\<open>execute_routed_agent\<close>\<close>

definition router_system_prompt :: string where
  "router_system_prompt = ''Route the signed request to one approved deterministic specialist.''"

text \<open>What the result of the previous action adds to a plan of a chain.\<close>

definition enrich :: "action_result option \<Rightarrow> action_plan \<Rightarrow> action_plan" where
  "enrich previous p =
     (case previous of
        None \<Rightarrow> p
      | Some r \<Rightarrow>
          let report = get_or_null (res_details r) ''report_markdown'';
              payload = ap_payload p;
              payload = (if ap_action_type p = ''file.create'' \<and> \<not> truthy (get_or_null payload ''content'') \<and> truthy report
                         then dict_set ''content'' report payload else payload);
              payload = (if ap_agent_type p = ''audit''
                            \<and> ap_action_type p \<in> set [''audit.verify_action'', ''audit.explain_failure'', ''audit.generate_report'']
                            \<and> \<not> truthy (get_or_null payload ''action_id'') \<and> \<not> falsy (res_artifact_ref r)
                         then dict_set ''action_id'' (JStr (case res_artifact_ref r of None \<Rightarrow> [] | Some a \<Rightarrow> a)) payload
                         else payload) in
          p\<lparr>ap_payload := payload\<rparr>)"

definition json_of_text :: "string option \<Rightarrow> json" where
  "json_of_text t = (case t of None \<Rightarrow> JNull | Some s \<Rightarrow> JStr s)"

definition plan_action_json :: "action_plan \<Rightarrow> json" where
  "plan_action_json p =
     JObj [(''agent_type'', JStr (ap_agent_type p)), (''agent_id'', json_of_text (ap_agent_id p)),
           (''action_type'', JStr (ap_action_type p)), (''payload'', JObj (ap_payload p))]"

text \<open>\<^verbatim>\<open>plan.agent_id or other\<close>\<close>

definition named_agent :: "action_plan \<Rightarrow> string \<Rightarrow> string" where
  "named_agent p other = (case ap_agent_id p of None \<Rightarrow> other | Some a \<Rightarrow> if a = [] then other else a)"

definition load_key :: "service_libs \<Rightarrow> request \<Rightarrow> string \<Rightarrow> (service, private_key) act" where
  "load_key V R name =
     on_key_files (\<lambda>fs. map_res (\<lambda>((k, _), fs'). (k, fs')) (load_agent_keypair (vl_crypto V) (rq_seed R 0) (rq_race R 0) name fs))"

text \<open>\<^verbatim>\<open>agent.execute(plan, poi)\<close> for the agents of the application.\<close>

definition agent_execute ::
  "service_libs \<Rightarrow> app \<Rightarrow> request \<Rightarrow> agent \<Rightarrow> action_plan \<Rightarrow> proof_of_intent \<Rightarrow> (service, action_result) act"
where
  "agent_execute V A R a p q =
     (if ag_type a = ''email'' then on_outbox (email_execute (mail_libs_of V) (rq_smtp R) (rq_mail R 0) (app_email A) p (Some q))
      else if ag_type a = ''file'' then on_disk (file_execute (file_libs_of V) (app_file A) p (Some q))
      else if ag_type a = ''audit''
        then (\<lambda>s. on_evidence (audit_execute (audit_env_of V R s) (app_audit A) p (Some q)) s)
      else on_databases (db_execute (vl_crypto V) (vl_sqlite V) (app_cwd A) p (Some q)))"

definition outbox_files :: "app \<Rightarrow> service \<Rightarrow> path list" where
  "outbox_files A s = glob_suffix (disk s) (app_outbox A) ''.eml''"

text \<open>The newest of the files that an e-mail action added to the outbox, if any.\<close>

definition added_artifact :: "app \<Rightarrow> request \<Rightarrow> action_plan \<Rightarrow> path list \<Rightarrow> (service, path option) act" where
  "added_artifact A R p existing =
     (if ap_agent_type p \<noteq> ''email'' then ret None
      else reads (\<lambda>s.
        let added = filter (\<lambda>f. f \<notin> set existing) (outbox_files A s) in
        if added = [] then Inr None else map_res Some (newest (rq_mtime R 0) (disk s) added)))"

definition on_artifact :: "(path \<Rightarrow> (service, 'a) act) \<Rightarrow> path option \<Rightarrow> (service, 'a option) act" where
  "on_artifact f artifact =
     (case artifact of None \<Rightarrow> ret None | Some p \<Rightarrow> bind_act (f p) (\<lambda>x. ret (Some x)))"

record execution_record =
  xe_action_id :: string
  xe_agent_type :: string
  xe_agent_id :: string
  xe_action_type :: string
  xe_result :: action_result
  xe_eml_path :: "string option"

definition routed_action_id :: "request \<Rightarrow> action_plan \<Rightarrow> action_result \<Rightarrow> string" where
  "routed_action_id R p r =
     (if ap_agent_type p = ''email'' \<and> \<not> falsy (res_artifact_ref r)
      then (case res_artifact_ref r of None \<Rightarrow> [] | Some a \<Rightarrow> a) else ap_agent_type p @ ''-'' @ rq_uuid R 0)"

text \<open>The body of the loop over the plans, for a plan that needs no confirmation; its second part follows the signing.\<close>

definition execute_signed ::
  "service_libs \<Rightarrow> app \<Rightarrow> request \<Rightarrow> public_user option \<Rightarrow> signed_envelope \<Rightarrow> action_plan \<Rightarrow> agent \<Rightarrow> proof_of_intent
     \<Rightarrow> (service, execution_record) act"
where
  "execute_signed V A R user env p a q =
     bind_act (reads (\<lambda>s. Inr (outbox_files A s))) (\<lambda>existing.
     bind_act (agent_execute V A R a p q) (\<lambda>r.
     bind_act (added_artifact A R p existing) (\<lambda>artifact.
     bind_act (on_artifact (resolved_text A) artifact) (\<lambda>eml_path.
     bind_act (on_artifact (\<lambda>f. on_disk (read_bytes f)) artifact) (\<lambda>eml.
     bind_act (\<lambda>s. store_evidence V (evidence_for (routed_action_id R p r) env router_system_prompt s eml q p r) s) (\<lambda>_.
     bind_act (save_record R 7 user env (routed_action_id R p r) eml_path) (\<lambda>_.
     bind_act (log_operation (operation_entry (rq_clock R 8) ''agent_execute'' (if res_success r then ''completed'' else ''failed'')
          (ap_agent_type p @ '':'' @ ap_action_type p) (Some (env_pubkey_id env)))) (\<lambda>_.
       ret \<lparr>xe_action_id = routed_action_id R p r, xe_agent_type = ap_agent_type p, xe_agent_id = named_agent p (ag_id a),
            xe_action_type = ap_action_type p, xe_result = r, xe_eml_path = eml_path\<rparr>))))))))"

definition run_plan ::
  "service_libs \<Rightarrow> app \<Rightarrow> request \<Rightarrow> public_user option \<Rightarrow> signed_envelope \<Rightarrow> action_plan \<Rightarrow> (service, execution_record) act"
where
  "run_plan V A R user env p =
     bind_act (append_context V R 0 router_system_prompt env (plan_action_json p)) (\<lambda>_.
     bind_act (reads (\<lambda>s. get_agent (service_registry A s) (ap_agent_type p))) (\<lambda>a.
     bind_act (load_key V R (named_agent p (ap_agent_type p @ ''-agent''))) (\<lambda>key.
     bind_act (sign_intent V R 3 (ag_id a) key env router_system_prompt ''deterministic-agent-router'' p
          (Some (named_agent p (ag_id a)))) (\<lambda>q.
       execute_signed V A R user env p a q))))"

definition check_confirmed :: "action_plan \<Rightarrow> (service, unit) act" where
  "check_confirmed p = require (\<not> (ap_requires_confirmation p \<and> \<not> ap_confirmed p)) (http_error 409 ''confirmation_required'')"

text \<open>The loop: each plan meets its own clocks, and the first unsuccessful action ends it.\<close>

fun run_plans ::
  "service_libs \<Rightarrow> app \<Rightarrow> (nat \<Rightarrow> request) \<Rightarrow> public_user option \<Rightarrow> signed_envelope \<Rightarrow> nat \<Rightarrow> action_result option
     \<Rightarrow> action_plan list \<Rightarrow> (service, execution_record list) act"
where
  "run_plans V A Rs user env i previous [] = ret []"
| "run_plans V A Rs user env i previous (p # ps) =
     bind_act (check_confirmed p) (\<lambda>_.
     bind_act (run_plan V A (Rs i) user env (enrich previous p)) (\<lambda>x.
       if res_success (xe_result x)
       then bind_act (run_plans V A Rs user env (Suc i) (Some (xe_result x)) ps) (\<lambda>xs. ret (x # xs))
       else ret [x]))"

record route_response =
  xr_completed :: bool
  xr_route :: route_result
  xr_agent_draft :: "json dict"
  xr_results :: "execution_record list"
  xr_action_id :: "string option"
  xr_eml_path :: "string option"

definition last_some :: "('a \<Rightarrow> 'b option) \<Rightarrow> 'a list \<Rightarrow> 'b option" where
  "last_some f xs = foldl (\<lambda>y x. case f x of None \<Rightarrow> y | Some z \<Rightarrow> Some z) None xs"

definition agent_draft :: "action_plan \<Rightarrow> json dict" where
  "agent_draft p =
     foldl (\<lambda>d (k, v). dict_set k v d)
       [(''agent_type'', JStr (ap_agent_type p)), (''agent_id'', json_of_text (ap_agent_id p)),
        (''action_type'', JStr (ap_action_type p))] (ap_payload p)"

definition route_plans :: "app \<Rightarrow> string \<Rightarrow> service \<Rightarrow> (route_result \<times> action_plan list) res" where
  "route_plans A prompt s =
     (let rr = route (service_registry A s) prompt in
      if \<not> rr_handled rr then Inl (http_error 422 (case rr_reason rr of None \<Rightarrow> [] | Some t \<Rightarrow> t))
      else
        (case router_plan (service_registry A s) prompt None of
           Inl e \<Rightarrow> if caught_by [KeyError, TypeError, ValueError] e then Inl (http_error 422 (exc_str e)) else Inl e
         | Inr ps \<Rightarrow> Inr (rr, ps)))"

definition execute_routed_agent ::
  "service_libs \<Rightarrow> app \<Rightarrow> request \<Rightarrow> (nat \<Rightarrow> request) \<Rightarrow> signed_envelope \<Rightarrow> (service, route_response) act"
where
  "execute_routed_agent V A R Rs env =
     bind_act (check_owner V R env) (\<lambda>user.
     bind_act (admit V R (\<lambda>_. raise_exc (http_error 401 ''verification_failed'')) env) (\<lambda>_.
     bind_act (reads (route_plans A (env_prompt env))) (\<lambda>(rr, ps).
     bind_act (run_plans V A Rs user env 0 None ps) (\<lambda>xs.
       case ps of
         [] \<Rightarrow> raise_exc (Exc IndexError ''list index out of range'')
       | p # _ \<Rightarrow>
           ret \<lparr>xr_completed = (xs \<noteq> [] \<and> list_all (\<lambda>x. res_success (xe_result x)) xs), xr_route = rr, xr_agent_draft = agent_draft p,
                xr_results = xs, xr_action_id = last_some (\<lambda>x. Some (xe_action_id x)) xs, xr_eml_path = last_some xe_eml_path xs\<rparr>))))"

section \<open>The routes\<close>

text \<open>A request that FastAPI has validated and dispatched to its handler; \<open>Rs\<close> is for the loop over plans.\<close>

datatype call =
  Signup "string dict" | Login "string dict" | Me | Logout | ResetPassword "string dict" | ListPromptRecords
| RegisterPubkey pubkey_registration | RegisterKey register_key_request | GetJwks | RevokeKey string | ListOperations
| AnchorLedger | ListAnchors | VerifyArtifact request_body | VerifyById string
| VerifyPrompt signed_envelope | GenerateArtifact signed_envelope | ExecuteRoutedAgent signed_envelope

definition quiet :: "(service, 'a) act \<Rightarrow> (service, unit) act" where
  "quiet m = bind_act m (\<lambda>_. ret ())"

definition serve :: "service_libs \<Rightarrow> app \<Rightarrow> request \<Rightarrow> (nat \<Rightarrow> request) \<Rightarrow> call \<Rightarrow> (service, unit) act" where
  "serve V A R Rs c =
     (case c of
        Signup d \<Rightarrow> quiet (auth_signup V R d)
      | Login d \<Rightarrow> quiet (auth_login V R d)
      | Me \<Rightarrow> quiet (auth_me V R)
      | Logout \<Rightarrow> quiet (auth_logout V R)
      | ResetPassword d \<Rightarrow> quiet (auth_reset_password d)
      | ListPromptRecords \<Rightarrow> quiet (list_prompt_records V R)
      | RegisterPubkey r \<Rightarrow> quiet (register_pubkey_endpoint V R r)
      | RegisterKey r \<Rightarrow> quiet (register_key_endpoint V R r)
      | GetJwks \<Rightarrow> quiet (get_jwks V R)
      | RevokeKey kid \<Rightarrow> quiet (revoke_key_endpoint R kid)
      | ListOperations \<Rightarrow> quiet list_operations
      | AnchorLedger \<Rightarrow> quiet (anchor_ledger V R)
      | ListAnchors \<Rightarrow> quiet list_anchors
      | VerifyArtifact b \<Rightarrow> quiet (verify_artifact V R b)
      | VerifyById aid \<Rightarrow> quiet (verify_by_id V R aid)
      | VerifyPrompt env \<Rightarrow> quiet (verify_prompt V R env)
      | GenerateArtifact env \<Rightarrow> quiet (generate_artifact V A R env)
      | ExecuteRoutedAgent env \<Rightarrow> quiet (execute_routed_agent V A R Rs env))"

text \<open>One request served, and the states a service can get into.\<close>

inductive serves :: "service_libs \<Rightarrow> app \<Rightarrow> service \<Rightarrow> service \<Rightarrow> bool" for V A where
  request: "serve V A R Rs c s = (r, s') \<Longrightarrow> serves V A s s'"

end
