(* ===== verification/Service_Demo.thy ===== *)
theory Service_Demo
  imports Service_Agents
begin

text \<open>
  A concrete service, on which the statements about the service are applied: libraries with constant
  digests, one registered user key, and one routed prompt (\<^verbatim>\<open>tamper\<close>, an audit request) served after the
  start of the application. Constant digests keep the evaluation in the kernel short; the statements
  applied to this service assume of the digest its length only.
\<close>

definition demo_flat_libs :: crypto_libs where
  "demo_flat_libs = demo_libs\<lparr>rfc8785_dumps := \<lambda>_. Inr [], sha3_256 := \<lambda>_. replicate 32 0, ed25519_sign := \<lambda>_ _. [0],
     ed25519_check := \<lambda>_ _ _. True\<rparr>"

definition demo_service_libs :: service_libs where
  "demo_service_libs = \<lparr>vl_crypto = demo_flat_libs, vl_text = demo_text_libs, vl_aead = demo_aead, vl_header_factory = demo_header_factory,
     vl_auth = demo_auth, vl_tsa = demo_tsa, vl_tsa_config = demo_cfg, vl_tsa_json = Inl (Exc OSError []),
     vl_sha256_hex = \<lambda>_. [], vl_unified_diff = \<lambda>_ _ _ _. [], vl_sqlite = demo_sqlite\<rparr>"

definition demo_request :: "int \<Rightarrow> request" where
  "demo_request t = \<lparr>rq_authorization = None, rq_clock = \<lambda>i. 1000 + t, rq_attempt = demo_clocks t,
     rq_lookup = \<lambda>i. \<lparr>agent_key_clock = 1000 + t, agent_record_clock = 1000 + t,
       user_key_clock = 1000 + t\<rparr>,
     rq_token = show_nat, rq_salt = \<lambda>i. [1], rq_uuid = \<lambda>i. ''1'', rq_seed = \<lambda>i. replicate 32 9, rq_race = \<lambda>i. None,
     rq_mail = \<lambda>i. demo_fresh, rq_smtp = \<lambda>_. Inr (), rq_get = \<lambda>_. Inl (Exc HTTPXError []), rq_post = demo_post,
     rq_mtime = \<lambda>i p. 0\<rparr>"

definition demo_prompt_for :: "string \<Rightarrow> signed_envelope" where
  "demo_prompt_for sig = (demo_envelope_for sig)\<lparr>env_prompt := ''tamper''\<rparr>"

definition demo_prompt :: signed_envelope where
  "demo_prompt = demo_prompt_for ''AAAA''"

definition demo_accounts :: database where
  "demo_accounts = empty_database\<lparr>db_users := [\<lparr>u_id = ''u9'', u_name = ''A'', u_email = ''a@b.c'', u_password_salt = [1],
     u_password_hash = [1], u_role = ''user'', u_created_at = 0\<rparr>]\<rparr>"

definition demo_disk :: "file_system \<times> key_files" where
  "demo_disk = ([([], FDir), ([''r''], FDir)], [])"

definition demo_start :: "(app \<times> service) res \<times> file_system \<times> key_files" where
  "demo_start = create_app demo_service_libs (demo_request 0) [] [''r''] None None demo_table demo_accounts demo_disk"

definition demo_served :: "(app \<times> service \<times> service) res" where
  "demo_served = bind_res (fst demo_start) (\<lambda>(A, s).
     case execute_routed_agent demo_service_libs A (demo_request 1) (\<lambda>i. demo_request (2 + int i)) demo_prompt s of
       (Inl e, _) \<Rightarrow> Inl e | (Inr _, s') \<Rightarrow> Inr (A, s, s'))"

lemma demo_service_run:
  "map_res (\<lambda>(A, s0, s).
     (sv_ledger s, map (\<lambda>(aid, ev). (aid, ae_ledger ev, ae_poi ev = None, ae_eml_bytes ev)) (es_evidence (sv_artifacts s)),
      map_res vt_overall_valid (fst (verify_by_id demo_service_libs (demo_request 9) ''audit-1'' s)))) demo_served =
   Inr (0, [(''audit-1'', 0, False, None)], Inr True)"
  by code_simp

end
