(* ===== verification/Action_Rules.thy ===== *)
theory Action_Rules
  imports Py_State
begin

text \<open>
  Hoare-style rules for stateful code with exceptions: a precondition, a postcondition for the result
  and one for the state in which an exception leaves the code. The service and the command line use them.
\<close>

section \<open>The judgement and its rules\<close>

text \<open>
  \<open>runs P m Q E\<close>: from a state with \<open>P\<close>, \<open>m\<close> returns a result and a state with \<open>Q\<close>, or raises in a
  state with \<open>E\<close>.
\<close>

definition runs :: "('s \<Rightarrow> bool) \<Rightarrow> ('s, 'a) act \<Rightarrow> ('a \<Rightarrow> 's \<Rightarrow> bool) \<Rightarrow> ('s \<Rightarrow> bool) \<Rightarrow> bool" where
  "runs P m Q E \<longleftrightarrow> (\<forall>s. P s \<longrightarrow> (case m s of (Inl e, s') \<Rightarrow> E s' | (Inr x, s') \<Rightarrow> Q x s'))"

lemma runsD_Inr: "runs P m Q E \<Longrightarrow> P s \<Longrightarrow> m s = (Inr x, s') \<Longrightarrow> Q x s'"
  and runsD_Inl: "runs P m Q E \<Longrightarrow> P s \<Longrightarrow> m s = (Inl e, s') \<Longrightarrow> E s'"
  unfolding runs_def by fastforce+

lemma runsI:
  assumes "\<And>s x s'. P s \<Longrightarrow> m s = (Inr x, s') \<Longrightarrow> Q x s'" "\<And>s e s'. P s \<Longrightarrow> m s = (Inl e, s') \<Longrightarrow> E s'"
  shows "runs P m Q E"
  using assms by (auto simp: runs_def split: prod.split sum.split)

lemma runs_bind:
  assumes "runs P m Q E" "\<And>x. runs (Q x) (f x) S E"
  shows "runs P (bind_act m f) S E"
proof (rule runsI)
  fix s y s'' assume P: "P s" and "bind_act m f s = (Inr y, s'')"
  then obtain x s' where "m s = (Inr x, s')" "f x s' = (Inr y, s'')" by (auto simp: bind_act_eq_Inr)
  then show "S y s''" using runsD_Inr [OF assms(1) P] runsD_Inr [OF assms(2)] by blast
next
  fix s e s'' assume P: "P s" and b: "bind_act m f s = (Inl e, s'')"
  obtain r s' where m: "m s = (r, s')" by (cases "m s")
  show "E s''"
  proof (cases r)
    case (Inl d)
    then show ?thesis using b m runsD_Inl [OF assms(1) P] by (simp add: bind_act_def)
  next
    case (Inr x)
    then show ?thesis using b m runsD_Inr [OF assms(1) P] runsD_Inl [OF assms(2)] by (auto simp: bind_act_def)
  qed
qed

lemma runs_weaken:
  "runs P m Q E \<Longrightarrow> (\<And>s. P' s \<Longrightarrow> P s) \<Longrightarrow> (\<And>x s. Q x s \<Longrightarrow> Q' x s) \<Longrightarrow> (\<And>s. E s \<Longrightarrow> E' s) \<Longrightarrow> runs P' m Q' E'"
  by (rule runsI) (blast dest: runsD_Inr runsD_Inl)+

lemma runs_pre: "runs P m Q E \<Longrightarrow> (\<And>s. P' s \<Longrightarrow> P s) \<Longrightarrow> runs P' m Q E"
  by (auto simp: runs_def)

text \<open>The usual form: what holds before holds after every outcome.\<close>

abbreviation keeps :: "('s \<Rightarrow> bool) \<Rightarrow> ('s, 'a) act \<Rightarrow> bool" where
  "keeps P m \<equiv> runs P m (\<lambda>_. P) P"

lemma keeps_snd: "keeps P m \<longleftrightarrow> (\<forall>s. P s \<longrightarrow> P (snd (m s)))"
  by (simp add: runs_def split_beta split: sum.split)

lemma keepsI: "(\<And>s. P s \<Longrightarrow> P (snd (m s))) \<Longrightarrow> keeps P m"
  by (simp add: keeps_snd)

lemma keeps_moves: "moves R m \<Longrightarrow> (\<And>s s'. P s \<Longrightarrow> R s s' \<Longrightarrow> P s') \<Longrightarrow> keeps P m"
  by (auto simp: keeps_snd moves_def)

lemma keeps_still:
  "keeps P (ret x)" "keeps P (raise_exc e)" "keeps P (lift_res r)" "keeps P (reads g)" "keeps P (require b e)"
  by (simp_all add: keeps_snd act_defs)

lemma runs_require: "runs P (require b e) (\<lambda>_ s. P s \<and> b) P"
  by (simp add: runs_def require_def)

lemma runs_reads: "runs P (reads g) (\<lambda>x s. P s \<and> g s = Inr x) P"
  by (auto simp: runs_def reads_def split: sum.split)

lemma runs_lift: "runs P (lift_res r) (\<lambda>x s. P s \<and> r = Inr x) P"
  by (auto simp: runs_def lift_res_def split: sum.split)

lemma keeps_catching: "keeps P m \<Longrightarrow> (\<And>e. keeps P (h e)) \<Longrightarrow> keeps P (catching cs h m)"
  by (auto simp: keeps_snd catching_def split: prod.split sum.split)

lemmas keeps_bind = runs_bind [where Q = "\<lambda>_. P" and S = "\<lambda>_. P" and P = P and E = P for P]

lemma runs_step:
  "keeps P m \<Longrightarrow> (\<And>s. P s \<Longrightarrow> E s) \<Longrightarrow> (\<And>x. runs P (f x) S E) \<Longrightarrow> runs P (bind_act m f) S E"
  by (rule runs_bind [OF runs_weaken])

end
