(* ===== verification/Service_Contracts.thy ===== *)
theory Service_Contracts
  imports Action_Rules Service_Demo Pipeline_Contracts
begin

text \<open>
  What the service guarantees over any sequence of requests: the invariant of its state, that only
  prompts a registered key signed have effects, that every action it records stays bound to the signed
  prompt and to the context committed before it, and what a later verification of a recorded action can
  say.
\<close>

section \<open>The invariant\<close>

text \<open>The key store as a lookup that also finds revoked and expired keys.\<close>

definition ever_registered :: "key_table \<Rightarrow> string \<Rightarrow> stored_key option" where
  "ever_registered st k = map_option (\<lambda>r. StoredBytes (public_key_bytes r)) (get_key_by_id k st)"

text \<open>The holder of the key with the envelope's identifier signed the envelope.\<close>

definition vouched :: "crypto_libs \<Rightarrow> key_table \<Rightarrow> signed_envelope \<Rightarrow> bool" where
  "vouched L st env \<longleftrightarrow> check_signature L (ever_registered st) env = Inr accepted"

text \<open>
  The PoI commits prompt, system prompt and payload of the action and all entries of the ledger at the
  moment of signing, and an agent signed it.
\<close>

definition committed :: "crypto_libs \<Rightarrow> signed_envelope \<Rightarrow> string \<Rightarrow> action_plan \<Rightarrow> proof_of_intent \<Rightarrow> ledger \<Rightarrow> bool" where
  "committed L env system_prompt p q l \<longleftrightarrow>
     (\<exists>ts uuid model aid p0 k.
        build_poi L ts uuid (env_prompt env) system_prompt l (JObj (ap_payload p)) model
          (Some (ap_agent_type p), aid, Some (ap_action_type p), Some (ap_policy_decision p)) = Inr p0
       \<and> sign_poi L p0 k = Inr q)"

text \<open>Evidence whose PoI commits an earlier state of the ledger \<open>l\<close>, which the evidence marks by its length.\<close>

definition backed :: "crypto_libs \<Rightarrow> ledger \<Rightarrow> action_evidence \<Rightarrow> bool" where
  "backed L l ev \<longleftrightarrow>
     (\<exists>led p q. ledger_reach L led \<and> (ledger_step L)\<^sup>*\<^sup>* led l \<and> ae_ledger_entry_count ev = int (length (all_entries led))
       \<and> committed L (ae_user_envelope ev) (ae_system_prompt ev) p q led
       \<and> ae_poi ev = Some q \<and> ae_action_type ev = Some (ap_action_type p) \<and> ae_action_payload ev = Some (JObj (ap_payload p)))"

definition service_inv :: "crypto_libs \<Rightarrow> service \<Rightarrow> bool" where
  "service_inv L s \<longleftrightarrow>
     sv_ledger s < length (sv_ledgers s) \<and> ledger_reach L (app_ledger s) \<and> registry_inv L (sv_keys s)
     \<and> length (sv_operations s) \<le> 50 \<and> length (sv_verified s) \<le> 50
     \<and> (\<forall>d \<in> set (sv_verified s). \<exists>env. d = envelope_dump env \<and> vouched L (sv_keys s) env)
     \<and> (\<forall>aid ev. map_of (es_evidence (sv_artifacts s)) aid = Some ev \<longrightarrow> ae_ledger ev < length (sv_ledgers s)
         \<and> (ae_ledger ev = sv_ledger s \<longrightarrow> backed L (app_ledger s) ev \<and> vouched L (sv_keys s) (ae_user_envelope ev)))"

lemma vouched_later:
  assumes "vouched L st env" "(registry_step L)\<^sup>*\<^sup>* st st'"
  shows "vouched L st' env"
proof -
  from assms(1) obtain r where r: "get_key_by_id (env_pubkey_id env) st = Some r"
    by (auto simp: vouched_def ever_registered_def check_signature_accepts)
  from keys.steps_keep [OF assms(2) r] obtain r' where r': "get_key_by_id (env_pubkey_id env) st' = Some r'"
    "revoked_le r r'" by blast
  with r revoked_le_bytes have "ever_registered st' (env_pubkey_id env) = ever_registered st (env_pubkey_id env)"
    by (simp add: ever_registered_def)
  then show ?thesis using assms(1) by (simp add: vouched_def check_signature_def)
qed

lemma accepted_vouched:
  "check_signature L (registry_lookup now st) env = Inr accepted \<Longrightarrow> vouched L st env"
  by (auto simp: vouched_def check_signature_accepts registry_lookup_def ever_registered_def get_pubkey_def
      split: option.splits if_splits)

lemma backed_later: "backed L l ev \<Longrightarrow> (ledger_step L)\<^sup>*\<^sup>* l l' \<Longrightarrow> backed L l' ev"
  unfolding backed_def by (meson rtranclp_trans)

lemma envelope_dump_inject: "envelope_dump a = envelope_dump b \<longleftrightarrow> a = b"
  by (cases a, cases b) (simp add: envelope_dump_def)

section \<open>Steps that keep the invariant\<close>

definition inv_for :: "crypto_libs \<Rightarrow> signed_envelope set \<Rightarrow> service \<Rightarrow> bool" where
  "inv_for L E s \<longleftrightarrow> service_inv L s \<and> (\<forall>env \<in> E. vouched L (sv_keys s) env)"

text \<open>Between signing and recording an action.\<close>

definition signed_for :: "crypto_libs \<Rightarrow> signed_envelope \<Rightarrow> string \<Rightarrow> action_plan \<Rightarrow> proof_of_intent \<Rightarrow> service \<Rightarrow> bool" where
  "signed_for L env system_prompt p q s \<longleftrightarrow> inv_for L {env} s \<and> committed L env system_prompt p q (app_ledger s)"

text \<open>The parts of the state that the invariant is about.\<close>

definition same_record :: "service \<Rightarrow> service \<Rightarrow> bool" where
  "same_record s s' \<longleftrightarrow> sv_keys s' = sv_keys s \<and> sv_ledger s' = sv_ledger s \<and> sv_ledgers s' = sv_ledgers s
     \<and> sv_operations s' = sv_operations s \<and> sv_verified s' = sv_verified s \<and> sv_artifacts s' = sv_artifacts s"

definition recorded_only :: "(service \<Rightarrow> bool) \<Rightarrow> bool" where
  "recorded_only P \<longleftrightarrow> (\<forall>s s'. same_record s s' \<longrightarrow> P s \<longrightarrow> P s')"

lemma recorded_onlyD: "recorded_only P \<Longrightarrow> P s \<Longrightarrow> same_record s s' \<Longrightarrow> P s'"
  by (auto simp: recorded_only_def)

lemma same_record_inv: "same_record s s' \<Longrightarrow> service_inv L s' = service_inv L s"
  by (simp add: same_record_def service_inv_def app_ledger_def)

lemma same_record_inv_for: "same_record s s' \<Longrightarrow> inv_for L E s' = inv_for L E s"
  using same_record_inv [of s s' L] by (auto simp: inv_for_def same_record_def)

lemma same_record_signed_for: "same_record s s' \<Longrightarrow> signed_for L env sp p q s' = signed_for L env sp p q s"
  using same_record_inv_for [of s s' L "{env}"] by (auto simp: signed_for_def same_record_def app_ledger_def)

lemma recorded_only_invs [simp]:
  "recorded_only (service_inv L)" "recorded_only (inv_for L E)" "recorded_only (signed_for L env sp p q)"
  unfolding recorded_only_def by (meson same_record_inv same_record_inv_for same_record_signed_for)+

lemma same_record_updates [simp]:
  "same_record s (s\<lparr>sv_database := x1\<rparr>)" "same_record s (s\<lparr>sv_key_files := x2\<rparr>)" "same_record s (s\<lparr>sv_mail := x3\<rparr>)"
  "same_record s (s\<lparr>sv_databases := x4, sv_mail := x3\<rparr>)" "same_record s (s\<lparr>sv_anchors := x5\<rparr>)" "same_record s s"
  "same_record s (s\<lparr>sv_nonces := x6\<rparr>)"
  by (simp_all add: same_record_def)

lemma keeps_outside:
  assumes "recorded_only P"
  shows "keeps P (on_store f)" "keeps P (on_key_files g)" "keeps P (on_outbox m)" "keeps P (on_disk m')"
    "keeps P (on_databases m'')" "keeps P (record_verdict aid t)"
  by (auto intro!: keepsI elim!: recorded_onlyD [OF assms]
      simp: on_store_def on_key_files_def on_disk_def on_outbox_def on_databases_def record_verdict_def zoom_def modify_def
      split: prod.split sum.split)

lemma inv_for_later_keys:
  assumes "inv_for L E s" "(registry_step L)\<^sup>*\<^sup>* (sv_keys s) st"
  shows "inv_for L E (s\<lparr>sv_keys := st\<rparr>)"
proof -
  have "registry_inv L st'" if "(registry_step L)\<^sup>*\<^sup>* (sv_keys s) st'" for st'
    using that assms(1) by induction (auto simp: inv_for_def service_inv_def intro: registry_inv_step)
  then have "registry_inv L st" using assms(2) by blast
  then show ?thesis
    using assms(1) vouched_later [OF _ assms(2)] unfolding inv_for_def service_inv_def app_ledger_def by simp blast
qed

lemma keeps_on_keys:
  "(\<And>st x st'. f st = Inr (x, st') \<Longrightarrow> (registry_step L)\<^sup>*\<^sup>* st st') \<Longrightarrow> keeps (inv_for L E) (on_keys f)"
  by (auto intro!: keepsI inv_for_later_keys simp: on_keys_def split: sum.split)

lemma keeps_log: "keeps (inv_for L E) (log_operation e)" "keeps (signed_for L env sp p q) (log_operation e)"
  by (auto simp: keeps_snd log_operation_def modify_def signed_for_def inv_for_def service_inv_def app_ledger_def)

lemma ledger_append_steps:
  "ledger_append L ts ty c l = Inr (e, l') \<Longrightarrow> ledger_reach L l \<Longrightarrow> ledger_step L l l' \<and> ledger_reach L l'"
  by (auto simp: ledger_step_def intro: ledger_reach.append)

lemma keeps_append_entry:
  assumes "vl_crypto V = L"
  shows "keeps (inv_for L E) (append_entry V now ty c)"
proof (rule keepsI)
  fix s assume inv: "inv_for L E s"
  show "inv_for L E (snd (append_entry V now ty c s))"
  proof (cases "ledger_append L (utc_z now) ty c (app_ledger s)")
    case (Inr r)
    obtain e l where r: "r = (e, l)" by (cases r)
    let ?s = "s\<lparr>sv_ledgers := (sv_ledgers s)[sv_ledger s := l]\<rparr>"
    from inv have i: "sv_ledger s < length (sv_ledgers s)" "ledger_reach L (app_ledger s)"
      by (auto simp: inv_for_def service_inv_def)
    from ledger_append_steps [OF Inr [unfolded r] i(2)] have l: "ledger_step L (app_ledger s) l" "ledger_reach L l"
      by auto
    have a: "app_ledger ?s = l" using i(1) by (simp add: app_ledger_def)
    have later: "backed L l ev" if "backed L (app_ledger s) ev" for ev
      using backed_later [OF that] l(1) by blast
    have "inv_for L E ?s"
      using inv i(1) l later unfolding inv_for_def service_inv_def a by simp
    then show ?thesis by (simp add: append_entry_def assms Inr r)
  qed (use inv in \<open>simp add: append_entry_def assms\<close>)
qed

lemma keeps_append_context: "vl_crypto V = L \<Longrightarrow> keeps (inv_for L E) (append_context V R k sp env j)"
  unfolding append_context_def by (intro keeps_bind keeps_append_entry)

text \<open>Reading evidence may load more of it, with ledgers of its own.\<close>

lemma loaded_inv:
  assumes "inv_for L E s" "only_loads A (sv_artifacts s, sv_ledgers s) (st, H)"
  shows "inv_for L E (s\<lparr>sv_artifacts := st, sv_ledgers := H\<rparr>)" "app_ledger (s\<lparr>sv_artifacts := st, sv_ledgers := H\<rparr>) = app_ledger s"
proof -
  let ?s = "s\<lparr>sv_artifacts := st, sv_ledgers := H\<rparr>"
  from assms(2) obtain more where H: "H = sv_ledgers s @ more" by (auto simp: only_loads_def)
  have i: "sv_ledger s < length (sv_ledgers s)" using assms(1) by (simp add: inv_for_def service_inv_def)
  then show a: "app_ledger ?s = app_ledger s" by (simp add: app_ledger_def H nth_append)
  have "ae_ledger ev < length H \<and> (ae_ledger ev = sv_ledger s \<longrightarrow> backed L (app_ledger s) ev \<and> vouched L (sv_keys s) (ae_user_envelope ev))"
    if ev: "map_of (es_evidence st) aid = Some ev" for aid ev
  proof (cases "map_of (es_evidence (sv_artifacts s)) aid")
    case None
    then have "length (sv_ledgers s) \<le> ae_ledger ev \<and> ae_ledger ev < length H"
      using assms(2) ev by (auto simp: only_loads_def)
    with i show ?thesis by simp
  next
    case (Some ev')
    with assms(2) ev have "ev' = ev" by (auto simp: only_loads_def)
    with Some assms(1) show ?thesis unfolding inv_for_def service_inv_def by (auto simp: H trans_less_add1)
  qed
  then show "inv_for L E ?s" using assms(1) i unfolding inv_for_def service_inv_def a by (simp add: H)
qed

lemma keeps_on_evidence:
  assumes "moves (only_loads A) m"
  shows "keeps (inv_for L E) (on_evidence m)" "keeps (signed_for L env sp p q) (on_evidence m)"
proof -
  have "only_loads A (sv_artifacts s, sv_ledgers s) (fst (snd (m (sv_artifacts s, sv_ledgers s))), snd (snd (m (sv_artifacts s, sv_ledgers s))))"
    for s using movesD [OF assms] by simp
  from loaded_inv [OF _ this]
  show "keeps (inv_for L E) (on_evidence m)" "keeps (signed_for L env sp p q) (on_evidence m)"
    by (auto intro!: keepsI simp: on_evidence_def zoom_def split_beta signed_for_def)
qed

lemma keeps_state_action: "(\<And>s0. keeps P (f s0)) \<Longrightarrow> keeps P (\<lambda>s. f s s)"
  by (auto simp: keeps_snd)

lemma keeps_run_pipeline: "keeps (inv_for L E) (run_pipeline V R eml aid)"
  unfolding run_pipeline_def [abs_def]
  by (rule keeps_state_action) (rule keeps_on_evidence [OF verify_at_loads])

text \<open>Recording an action that was signed.\<close>

lemma keeps_store_evidence:
  "runs (\<lambda>s. signed_for L env sp p q s \<and> ae_ledger ev = sv_ledger s \<and> ae_ledger_entry_count ev = int (length (all_entries (app_ledger s)))
       \<and> ae_user_envelope ev = env \<and> ae_system_prompt ev = sp \<and> ae_poi ev = Some q
       \<and> ae_action_type ev = Some (ap_action_type p) \<and> ae_action_payload ev = Some (JObj (ap_payload p)))
     (store_evidence V ev) (\<lambda>_. inv_for L {env}) (inv_for L {env})"
proof (rule runs_weaken [OF _ _ asm_rl asm_rl])
  show "runs (\<lambda>s. inv_for L {env} s \<and> ae_ledger ev = sv_ledger s \<and> backed L (app_ledger s) ev \<and> ae_user_envelope ev = env)
      (store_evidence V ev) (\<lambda>_. inv_for L {env}) (inv_for L {env})"
  proof (rule runsI)
    fix s x s' assume P: "inv_for L {env} s \<and> ae_ledger ev = sv_ledger s \<and> backed L (app_ledger s) ev \<and> ae_user_envelope ev = env"
      and s': "store_evidence V ev s = (Inr x, s')"
    obtain db where "s' = s\<lparr>sv_artifacts := (sv_artifacts s)\<lparr>es_evidence := dict_set (ae_action_id ev) ev (es_evidence (sv_artifacts s))\<rparr>,
        sv_database := db\<rparr>"
      using s' by (auto simp: store_evidence_def register_evidence_def)
    then show "inv_for L {env} s'"
      using P unfolding inv_for_def service_inv_def by (auto simp: app_ledger_def map_of_dict_set split: if_splits)
  qed (auto simp: store_evidence_def split: prod.splits)
qed (auto simp: backed_def signed_for_def inv_for_def service_inv_def)

section \<open>Verified prompts\<close>

lemma verify_envelope_valid:
  assumes "fst (verify_envelope L f c lookup env ns) = Inr r" "vr_valid r"
  shows "r = accepted"
proof -
  have "r = accepted" if "check_signature L lookup env = Inr r" "vr_valid r" for r
    using that by (auto simp: check_signature_def bind_res_eq_Inr split: option.splits sum.splits if_splits)
  then show ?thesis using assms by (auto simp: verify_envelope_def Let_def split: sum.splits bool.splits prod.splits if_splits)
qed

lemma check_envelope_vouched:
  assumes "check_envelope V R env s = (Inr r, s')" "vr_valid r"
  shows "vouched (vl_crypto V) (sv_keys s) env"
proof -
  from assms have "fst (verify_envelope (vl_crypto V) 60 (rq_attempt R) (registry_lookup (rq_clock R 1) (sv_keys s)) env (sv_nonces s)) = Inr r"
    by (auto simp: check_envelope_def split: prod.splits)
  with verify_envelope_valid [OF this assms(2)] show ?thesis
    by (auto simp: verify_envelope_accepts intro: accepted_vouched)
qed

lemma runs_check_envelope:
  assumes "vl_crypto V = L"
  shows "runs (inv_for L E) (check_envelope V R env) (\<lambda>r. inv_for L (if vr_valid r then insert env E else E)) (inv_for L E)"
proof -
  have rec: "same_record s s'" if "check_envelope V R env s = (r, s')" for s r s'
    using that by (auto simp: check_envelope_def split: prod.splits)
  show ?thesis
    using check_envelope_vouched [of V R env] assms same_record_inv_for [OF rec]
    by (intro runsI) (fastforce simp: inv_for_def dest: rec [unfolded same_record_def])+
qed

lemma runs_admit:
  assumes "vl_crypto V = L" "\<And>r. runs (inv_for L E) (refuse r) (\<lambda>_ _. False) (inv_for L E)"
  shows "runs (inv_for L E) (admit V R refuse env) (\<lambda>_. inv_for L (insert env E)) (inv_for L E)"
  unfolding admit_def
proof (rule runs_bind [OF runs_reads])
  fix before
  show "runs (\<lambda>s. inv_for L E s \<and> Inr (envelope_dump env \<in> set (sv_verified s)) = (Inr before :: bool res))
      (if before then ret () else bind_act (check_envelope V R env) (\<lambda>r. if vr_valid r then ret () else refuse r))
      (\<lambda>_. inv_for L (insert env E)) (inv_for L E)"
  proof (cases before)
    case True
    show ?thesis
      using True by (auto simp: runs_def ret_def inv_for_def service_inv_def envelope_dump_inject)
  next
    case False
    have "runs (inv_for L (if vr_valid r then insert env E else E)) (if vr_valid r then ret () else refuse r)
        (\<lambda>_. inv_for L (insert env E)) (inv_for L E)" for r
    proof (cases "vr_valid r")
      case False
      then show ?thesis using runs_weaken [OF assms(2)] by simp
    qed (simp add: runs_def ret_def)
    note b = runs_bind [OF runs_check_envelope [OF assms(1)] this, of R]
    show ?thesis using False by simp (rule runs_pre [OF b], simp)
  qed
qed

lemma keeps_check_owner: "keeps P (check_owner V R env)"
  unfolding check_owner_def by (intro keeps_bind keeps_still)

lemma reject_raises: "runs (inv_for L E) (reject_envelope R op env r) (\<lambda>_ _. False) (inv_for L E)"
  unfolding reject_envelope_def by (rule runs_bind [OF keeps_log(1)]) (simp add: runs_def raise_exc_def)

lemma refuse_raises: "runs (inv_for L E) (raise_exc e) (\<lambda>_ _. False) (inv_for L E)"
  by (simp add: runs_def raise_exc_def)

lemma keeps_remember: "env \<in> E \<Longrightarrow> keeps (inv_for L E) (remember_envelope env)"
  by (auto simp: keeps_snd remember_envelope_def modify_def inv_for_def service_inv_def app_ledger_def dest!: in_set_takeD)

section \<open>Signing and recording\<close>

lemma committed_signed:
  "build_poi L ts uuid (env_prompt env) sp l (JObj (ap_payload p)) model
       (Some (ap_agent_type p), aid, Some (ap_action_type p), Some (ap_policy_decision p)) = Inr p0
     \<Longrightarrow> sign_poi L p0 k = Inr q \<Longrightarrow> committed L env sp p q l"
  unfolding committed_def by blast

lemma runs_sign_intent:
  assumes "vl_crypto V = L"
  shows "runs (inv_for L {env}) (sign_intent V R k aid key env sp model p poi_agent) (\<lambda>q. signed_for L env sp p q) (inv_for L {env})"
  unfolding sign_intent_def
  by (rule runs_bind [OF keeps_on_keys runs_weaken [OF runs_reads]])
    (auto simp: assms signed_for_def bind_res_eq_Inr intro: register_agent_public_key_steps committed_signed)

lemma signed_for_inv: "signed_for L env sp p q s \<Longrightarrow> inv_for L {env} s"
  by (simp add: signed_for_def)

lemma keeps_agent_execute:
  "keeps (signed_for L env sp p q) (agent_execute V A R a p' q')"
proof -
  have "keeps (signed_for L env sp p q) (\<lambda>s. on_evidence (audit_execute (audit_env_of V R s) (app_audit A) p' (Some q')) s)"
    by (rule keeps_state_action) (rule keeps_on_evidence [OF audit_execute_loads])
  moreover note o = keeps_outside [OF recorded_only_invs(3)]
  ultimately show ?thesis
    unfolding agent_execute_def by (cases "ag_type a = ''email''"; cases "ag_type a = ''file''"; cases "ag_type a = ''audit''")
      (simp_all add: o)
qed

lemma runs_store_evidence_for:
  "runs (signed_for L env sp p q) (\<lambda>s. store_evidence V (evidence_for aid env sp s eml q p r) s) (\<lambda>_. inv_for L {env}) (inv_for L {env})"
  using keeps_store_evidence [of L env sp p q "evidence_for aid env sp s eml q p r" V for s]
  by (auto simp: runs_def evidence_for_def)

lemma keeps_save_record: "recorded_only P \<Longrightarrow> keeps P (save_record R k user env aid eml)"
  unfolding save_record_def by (intro keeps_bind keeps_outside keeps_still)

lemma keeps_files:
  assumes "recorded_only P"
  shows "keeps P (added_artifact A R p existing)" "keeps P (on_artifact (resolved_text A) f)"
    "keeps P (on_artifact (\<lambda>f. on_disk (read_bytes f)) f)" "keeps P (resolved_text A path)" "keeps P (load_key V R name)"
  using keeps_outside [OF assms]
  by (auto simp: added_artifact_def on_artifact_def resolved_text_def load_key_def Let_def
      intro!: keeps_bind keeps_still split: option.split)

lemma runs_execute_signed:
  "runs (signed_for L env router_system_prompt p q) (execute_signed V A R user env p a q) (\<lambda>_. inv_for L {env}) (inv_for L {env})"
  unfolding execute_signed_def
  by (intro runs_step [of "signed_for L env router_system_prompt p q" _ "inv_for L {env}"] runs_bind [OF runs_store_evidence_for]
      signed_for_inv keeps_bind keeps_still keeps_agent_execute keeps_files keeps_save_record keeps_log recorded_only_invs)

lemma keeps_run_plan: "vl_crypto V = L \<Longrightarrow> keeps (inv_for L {env}) (run_plan V A R user env p)"
  unfolding run_plan_def
  by (intro keeps_bind keeps_append_context keeps_still keeps_files recorded_only_invs runs_bind [OF runs_sign_intent]
      runs_execute_signed)

lemma keeps_run_plans:
  "vl_crypto V = L \<Longrightarrow> keeps (inv_for L {env}) (run_plans V A Rs user env i previous ps)"
proof (induction ps arbitrary: i previous)
  case (Cons p ps)
  then show ?case
    by (auto simp: check_confirmed_def intro!: keeps_bind keeps_still keeps_run_plan)
qed (simp add: keeps_still)

section \<open>Every request keeps the invariant\<close>

lemma inv_for_fewer: "inv_for L E s \<Longrightarrow> E' \<subseteq> E \<Longrightarrow> inv_for L E' s"
  by (auto simp: inv_for_def)

lemma keeps_fewer: "keeps (inv_for L E) m \<Longrightarrow> E' \<subseteq> E \<Longrightarrow> runs (inv_for L E) m (\<lambda>_. inv_for L E') (inv_for L E')"
  by (rule runs_weaken [of "inv_for L E" m "\<lambda>_. inv_for L E" "inv_for L E"]) (auto intro: inv_for_fewer)

lemma keeps_routed:
  assumes "vl_crypto V = L"
  shows "keeps (inv_for L {}) (execute_routed_agent V A R Rs env)"
  unfolding execute_routed_agent_def
proof (rule keeps_bind [OF keeps_check_owner], rule runs_bind [OF runs_admit [OF assms refuse_raises]], rule keeps_fewer)
  fix user
  show "keeps (inv_for L {env}) (bind_act (reads (route_plans A (env_prompt env))) (\<lambda>(rr, ps).
     bind_act (run_plans V A Rs user env 0 None ps) (\<lambda>xs.
       case ps of
         [] \<Rightarrow> raise_exc (Exc IndexError ''list index out of range'')
       | p # _ \<Rightarrow>
           ret \<lparr>xr_completed = (xs \<noteq> [] \<and> list_all (\<lambda>x. res_success (xe_result x)) xs), xr_route = rr, xr_agent_draft = agent_draft p,
                xr_results = xs, xr_action_id = last_some (\<lambda>x. Some (xe_action_id x)) xs, xr_eml_path = last_some xe_eml_path xs\<rparr>)))"
    by (intro keeps_bind keeps_still) (auto intro!: keeps_bind keeps_still keeps_run_plans [OF assms] split: list.split)
qed simp

lemma runs_deliver_signed:
  "runs (signed_for L env email_system_prompt p q) (deliver_signed V A R user env p draft q) (\<lambda>_. inv_for L {env}) (inv_for L {env})"
  unfolding deliver_signed_def
  by (intro runs_step [of "signed_for L env email_system_prompt p q" _ "inv_for L {env}"] runs_bind [OF runs_store_evidence_for]
      signed_for_inv keeps_bind keeps_still keeps_outside keeps_files keeps_save_record keeps_log recorded_only_invs)

lemma keeps_plan_mail: "keeps (inv_for L E) (plan_mail A R env)"
  unfolding plan_mail_def by (intro keeps_catching keeps_bind keeps_log keeps_still)

lemma keeps_generate:
  assumes "vl_crypto V = L"
  shows "keeps (inv_for L {}) (generate_artifact V A R env)"
proof -
  have k: "keeps (inv_for L {env}) (case x of (p, draft) \<Rightarrow>
     bind_act (append_context V R 3 email_system_prompt env (JObj (email_payload draft))) (\<lambda>_.
     bind_act (log_operation (operation_entry (rq_clock R 6) ''agent_plan'' ''planned'' (''planned email to '' @ ea_to draft)
          (Some (env_pubkey_id env)))) (\<lambda>_.
     bind_act (sign_intent V R 7 ''email-agent'' (app_key A) env email_system_prompt ''demo-model'' p (ap_agent_id p)) (\<lambda>q.
       deliver_signed V A R user env p draft q))))" for x user
    by (cases x) (auto intro!: keeps_bind keeps_append_context [OF assms] keeps_log runs_bind [OF runs_sign_intent [OF assms]]
        runs_deliver_signed)
  show ?thesis
    unfolding generate_artifact_def
    by (rule keeps_bind [OF keeps_check_owner], rule runs_bind [OF runs_admit [OF assms reject_raises]], rule keeps_fewer)
      (rule keeps_bind [OF keeps_plan_mail k], simp)
qed

lemma keeps_verify_prompt:
  assumes "vl_crypto V = L"
  shows "keeps (inv_for L {}) (verify_prompt V R env)"
proof -
  have a: "runs (inv_for L (if vr_valid r then {env} else {}))
     (if \<not> vr_valid r then reject_envelope R ''verify_prompt'' env r
       else
         bind_act (remember_envelope env) (\<lambda>_.
         bind_act (log_operation (operation_entry (rq_clock R 2) ''verify_prompt'' ''verified'' (''accepted '' @ env_pubkey_id env)
              (Some (env_pubkey_id env)))) (\<lambda>_.
           ret ((''status'', ''verified'') # default_verified_handler env))))
     (\<lambda>_. inv_for L {}) (inv_for L {})" for r
  proof (cases "vr_valid r")
    case True
    have "keeps (inv_for L {env}) (bind_act (remember_envelope env) (\<lambda>_.
         bind_act (log_operation (operation_entry (rq_clock R 2) ''verify_prompt'' ''verified'' (''accepted '' @ env_pubkey_id env)
              (Some (env_pubkey_id env)))) (\<lambda>_.
           ret ((''status'', ''verified'') # default_verified_handler env))))"
      by (intro keeps_bind keeps_remember keeps_log keeps_still) simp
    then show ?thesis using True keeps_fewer by fastforce
  next
    case False
    then show ?thesis using runs_weaken [OF reject_raises] by simp
  qed
  show ?thesis
    unfolding verify_prompt_def
    by (rule keeps_bind [OF keeps_check_owner], rule runs_bind [OF runs_check_envelope [OF assms] a])
qed

lemma keeps_quiet: "keeps P m \<Longrightarrow> keeps P (quiet m)"
  unfolding quiet_def by (intro keeps_bind keeps_still)

lemma keeps_keys:
  "keeps (inv_for L E) (register_pubkey_endpoint V R r)" "keeps (inv_for L E) (register_key_endpoint V R r')"
  "keeps (inv_for L E) (revoke_key_endpoint R kid)"
  if "vl_crypto V = L"
  unfolding register_pubkey_endpoint_def register_key_endpoint_def revoke_key_endpoint_def as_unprocessable_def
  by (auto intro!: keeps_bind keeps_catching keeps_still keeps_on_keys keeps_log r_into_rtranclp
      intro: registry_step.intros simp: that map_res_eq_Inr)

lemma keeps_accounts:
  assumes "recorded_only P"
  shows "keeps P (auth_signup V R d)" "keeps P (auth_login V R d)" "keeps P (auth_me V R)" "keeps P (auth_logout V R)"
    "keeps P (auth_reset_password d)" "keeps P (list_prompt_records V R)" "keeps P (get_jwks V R)" "keeps P list_operations"
    "keeps P list_anchors" "keeps P (anchor_ledger V R)"
proof -
  note o = keeps_outside [OF assms]
  show "keeps P (auth_signup V R d)" "keeps P (auth_login V R d)" "keeps P (auth_me V R)" "keeps P (auth_reset_password d)"
    "keeps P (list_prompt_records V R)" "keeps P (get_jwks V R)" "keeps P list_operations" "keeps P list_anchors"
    unfolding auth_signup_def auth_login_def auth_me_def auth_reset_password_def list_prompt_records_def required_user_def
      get_jwks_def list_operations_def list_anchors_def
    by (intro keeps_bind keeps_catching keeps_still o)+
  show "keeps P (auth_logout V R)" "keeps P (anchor_ledger V R)"
    by (auto intro!: keepsI elim!: recorded_onlyD [OF assms] simp: auth_logout_def anchor_ledger_def ret_def split: sum.split)
qed

lemma keeps_verify: "keeps (inv_for L E) (verify_by_id V R aid)" "keeps (inv_for L E) (verify_artifact V R b)"
proof -
  note o = keeps_run_pipeline keeps_outside [OF recorded_only_invs(2)]
  show 1: "keeps (inv_for L E) (verify_by_id V R aid)" for aid
    unfolding verify_by_id_def by (intro keeps_bind keeps_still o)
  show "keeps (inv_for L E) (verify_artifact V R b)"
    unfolding verify_artifact_def
    by (auto intro!: keeps_bind keeps_still o 1 split: request_body.split option.split sum.split)
qed

lemma serve_keeps: "keeps (inv_for (vl_crypto V) {}) (serve V A R Rs c)"
  unfolding serve_def
  by (cases c) (simp_all add: keeps_quiet keeps_accounts keeps_keys keeps_verify keeps_verify_prompt keeps_generate keeps_routed)

lemma serves_inv: "(serves V A)\<^sup>*\<^sup>* s s' \<Longrightarrow> service_inv (vl_crypto V) s \<Longrightarrow> service_inv (vl_crypto V) s'"
proof (induction rule: rtranclp_induct)
  case (step t u)
  then obtain R Rs c r where "serve V A R Rs c t = (r, u)" by (auto elim: serves.cases)
  with step.IH [OF step.prems] serve_keeps [of V A R Rs c] show ?case by (auto simp: keeps_snd inv_for_def)
qed

section \<open>The started service\<close>

lemma create_app_fresh:
  assumes "create_app V R cwd root dbp wsp ks db w = (Inr (A, s), w')"
  shows "sv_ledger s = 0" "sv_ledgers s = [new_ledger]" "sv_keys s = ks" "sv_operations s = []" "sv_verified s = []"
    "es_evidence (sv_artifacts s) = []" "sv_nonces s = \<lparr>ttl_seconds = 300, ns_seen = []\<rparr>"
  using assms
  by (auto simp: create_app_def Let_def bind_act_eq_Inr reads_def lift_res_def new_evidence_store_def new_nonce_store_def
      split: prod.splits)

lemma create_app_inv:
  assumes "create_app V R cwd root dbp wsp ks db w = (Inr (A, s), w')" "registry_inv L ks"
  shows "service_inv L s"
  using create_app_fresh [OF assms(1)] assms(2) by (simp add: service_inv_def app_ledger_def ledger_reach.intros)

lemmas started_inv = serves_inv [OF _ create_app_inv]

text \<open>An exception that left only the nonce store and the operations log changed.\<close>

definition touches_log :: "service \<Rightarrow> 'a res \<times> service \<Rightarrow> bool" where
  "touches_log s x \<longleftrightarrow> (\<exists>e. fst x = Inl e)
     \<and> snd x = s\<lparr>sv_nonces := sv_nonces (snd x), sv_operations := sv_operations (snd x)\<rparr>"

lemma touches_log_quiet: "touches_log s (m s) \<Longrightarrow> touches_log s (quiet m s)"
  by (cases "m s") (auto simp: touches_log_def quiet_def bind_act_def)

lemma check_envelope_nonces: "check_envelope V R env s = (x, s1) \<Longrightarrow> \<exists>ns. s1 = s\<lparr>sv_nonces := ns\<rparr>"
  by (auto simp: check_envelope_def split: prod.splits)

lemma reject_touches: "touches_log s (reject_envelope R op env r (s\<lparr>sv_nonces := ns\<rparr>))"
  by (simp add: touches_log_def reject_envelope_def bind_act_def log_operation_def modify_def raise_exc_def)

lemma check_refused:
  assumes "fst (check_envelope V R env s) \<noteq> Inr accepted" "\<And>r ns. touches_log s (refuse r (s\<lparr>sv_nonces := ns\<rparr>))"
  shows "touches_log s (bind_act (check_envelope V R env) (\<lambda>r. if vr_valid r then k r else refuse r) s)"
proof -
  obtain x s1 where c: "check_envelope V R env s = (x, s1)" by (cases "check_envelope V R env s")
  from check_envelope_nonces [OF c] obtain ns where s1: "s1 = s\<lparr>sv_nonces := ns\<rparr>" by blast
  show ?thesis
  proof (cases x)
    case (Inl e)
    then show ?thesis using c s1 by (simp add: touches_log_def bind_act_def)
  next
    case (Inr r)
    have "\<not> vr_valid r"
    proof
      assume "vr_valid r"
      with c Inr verify_envelope_valid [of "vl_crypto V" 60 "rq_attempt R" "registry_lookup (rq_clock R 1) (sv_keys s)" env "sv_nonces s" r]
      have "r = accepted" by (auto simp: check_envelope_def split: prod.splits)
      with assms(1) c Inr show False by simp
    qed
    then show ?thesis using c Inr s1 assms(2) by (simp add: bind_act_def)
  qed
qed

lemma owner_cases:
  obtains (other) e where "\<exists>u. request_user V R s = Some u \<and> env_user_id env \<noteq> pu_id u" "check_owner V R env s = (Inl e, s)"
  | (owner) "\<not> (\<exists>u. request_user V R s = Some u \<and> env_user_id env \<noteq> pu_id u)"
      "check_owner V R env s = (Inr (request_user V R s), s)"
  by (cases "request_user V R s") (auto simp: check_owner_def bind_act_reads bind_act_require ret_def)

definition refused :: "service_libs \<Rightarrow> request \<Rightarrow> signed_envelope \<Rightarrow> service \<Rightarrow> bool" where
  "refused V R env s \<longleftrightarrow> (envelope_dump env \<notin> set (sv_verified s) \<and> fst (check_envelope V R env s) \<noteq> Inr accepted)
     \<or> (\<exists>u. request_user V R s = Some u \<and> env_user_id env \<noteq> pu_id u)"

lemma refused_owner:
  assumes "refused V R env s"
    and "envelope_dump env \<notin> set (sv_verified s) \<Longrightarrow> fst (check_envelope V R env s) \<noteq> Inr accepted \<Longrightarrow> \<forall>u. touches_log s (f u s)"
  shows "touches_log s (bind_act (check_owner V R env) f s)"
proof (cases rule: owner_cases [of V R s env])
  case (other e)
  then show ?thesis by (simp add: touches_log_def bind_act_def)
next
  case owner
  then show ?thesis using assms by (auto simp: refused_def bind_act_def)
qed

lemma refused_admit:
  assumes "refused V R env s" "\<And>r ns. touches_log s (refuse r (s\<lparr>sv_nonces := ns\<rparr>))"
  shows "touches_log s (bind_act (check_owner V R env) (\<lambda>u. bind_act (admit V R refuse env) (f u)) s)"
proof (rule refused_owner [OF assms(1)], rule allI)
  fix u assume d: "envelope_dump env \<notin> set (sv_verified s)" "fst (check_envelope V R env s) \<noteq> Inr accepted"
  have "touches_log s (admit V R refuse env s)"
    using check_refused [OF d(2), where k = "\<lambda>_. ret ()" and refuse = refuse] assms(2) d(1) by (simp add: admit_def bind_act_reads)
  then show "touches_log s (bind_act (admit V R refuse env) (f u) s)"
    by (cases "admit V R refuse env s") (auto simp: touches_log_def bind_act_def)
qed

lemma if_not_swap: "(if \<not> b then x else y) = (if b then y else x)"
  by simp

lemma refused_verify:
  assumes "refused V R env s"
  shows "touches_log s (verify_prompt V R env s)"
  unfolding verify_prompt_def
proof (rule refused_owner [OF assms], rule allI)
  fix u :: "public_user option" assume "envelope_dump env \<notin> set (sv_verified s)" and c: "fst (check_envelope V R env s) \<noteq> Inr accepted"
  have "touches_log s (bind_act (check_envelope V R env) (\<lambda>r. if vr_valid r then
         bind_act (remember_envelope env) (\<lambda>_.
         bind_act (log_operation (operation_entry (rq_clock R 2) ''verify_prompt'' ''verified'' (''accepted '' @ env_pubkey_id env)
              (Some (env_pubkey_id env)))) (\<lambda>_.
           ret ((''status'', ''verified'') # default_verified_handler env)))
       else reject_envelope R ''verify_prompt'' env r) s)"
    by (rule check_refused [OF c]) (rule reject_touches)
  then show "touches_log s (bind_act (check_envelope V R env) (\<lambda>r.
       if \<not> vr_valid r then reject_envelope R ''verify_prompt'' env r
       else
         bind_act (remember_envelope env) (\<lambda>_.
         bind_act (log_operation (operation_entry (rq_clock R 2) ''verify_prompt'' ''verified'' (''accepted '' @ env_pubkey_id env)
              (Some (env_pubkey_id env)))) (\<lambda>_.
           ret ((''status'', ''verified'') # default_verified_handler env)))) s)"
    by (simp only: if_not_swap)
qed

lemma backed_holds:
  assumes "backed L (app_ledger s) ev" "ae_ledger ev = sv_ledger s" "ae_poi ev = Some q"
  shows "commitments_hold L X None parsed ev q \<and> context_holds L (sv_ledgers s) ev q"
proof -
  from assms(1,3) obtain led p where led: "ledger_reach L led" "(ledger_step L)\<^sup>*\<^sup>* led (app_ledger s)"
      "ae_ledger_entry_count ev = int (length (all_entries led))"
    and c: "committed L (ae_user_envelope ev) (ae_system_prompt ev) p q led" "ae_action_payload ev = Some (JObj (ap_payload p))"
    unfolding backed_def by auto
  from c(1) obtain ts uuid model aid p0 k where b: "build_poi L ts uuid (env_prompt (ae_user_envelope ev)) (ae_system_prompt ev) led
        (JObj (ap_payload p)) model (Some (ap_agent_type p), aid, Some (ap_action_type p), Some (ap_policy_decision p)) = Inr p0"
    and q: "sign_poi L p0 k = Inr q"
    unfolding committed_def by blast
  have q': "poi_user_prompt_hash q = poi_user_prompt_hash p0" "poi_system_prompt_hash q = poi_system_prompt_hash p0"
      "poi_action_payload_hash q = poi_action_payload_hash p0" "poi_context_root q = poi_context_root p0"
    using q by (auto simp: sign_poi_eq_Inr)
  have e: "action_entries (sv_ledgers s) ev = all_entries led"
    using later_action_entries [of L led "sv_ledgers s" ev] led assms(2) by (simp add: app_ledger_def)
  have "verify_chain L (app_ledger s) = Inr True"
    using ledger_reach_inv [OF ledger_steps_reach [OF led(2,1)]] by (simp add: ledger_inv_def verify_chain_iff)
  with b show ?thesis
    unfolding build_poi_eq_Inr by (auto simp: commitments_hold_def context_holds_def commits_def action_object_def c(2) q' e
        assms(2) app_ledger_def)
qed

lemma vouched_holds:
  assumes "vouched L st env"
  shows "user_holds L c st env \<longleftrightarrow> get_pubkey (user_key_clock c) (env_pubkey_id env) st \<noteq> None"
proof
  assume "get_pubkey (user_key_clock c) (env_pubkey_id env) st \<noteq> None"
  then have "registry_lookup (user_key_clock c) st (env_pubkey_id env) = ever_registered st (env_pubkey_id env)"
    by (auto simp: registry_lookup_def ever_registered_def get_pubkey_def split: option.splits if_splits)
  then have "check_signature L (registry_lookup (user_key_clock c) st) env = Inr accepted"
    using assms by (simp add: vouched_def check_signature_def)
  then show "user_holds L c st env" by (rule accepted_user_holds)
qed (auto simp: user_holds_def)

section \<open>Properties\<close>

text \<open>
  C34: the service's state stays well-formed and bounded. Whatever requests a started service has served,
  the operations log and the list of verified prompts hold at most 50 items, the application's ledger and
  the ledger of every piece of evidence exist, the key table satisfies its invariant, and the ledger is
  an unbroken chain numbered in order.
\<close>

theorem service_well_formed:
  assumes "create_app V R cwd root dbp wsp ks db w = (Inr (A, s0), w')" "registry_inv (vl_crypto V) ks" "(serves V A)\<^sup>*\<^sup>* s0 s"
  shows "length (sv_operations s) \<le> 50 \<and> length (sv_verified s) \<le> 50 \<and> sv_ledger s < length (sv_ledgers s)
    \<and> (\<forall>aid ev. map_of (es_evidence (sv_artifacts s)) aid = Some ev \<longrightarrow> ae_ledger ev < length (sv_ledgers s))
    \<and> registry_inv (vl_crypto V) (sv_keys s)
    \<and> verify_chain (vl_crypto V) (app_ledger s) = Inr True"
  using started_inv [OF assms(3,1,2)] ledger_reach_inv [of "vl_crypto V" "app_ledger s"]
  by (auto simp: service_inv_def ledger_inv_def verify_chain_iff)

text \<open>
  C10: every action has a signed prompt behind it. Whatever requests a started service has served, each
  piece of evidence it recorded belongs to a prompt whose signature verifies under the key that was
  registered for its identifier; and its PoI, signed by an agent, commits that prompt, the payload of
  the action and all entries the ledger had when it was signed, which the ledger still begins with.
\<close>

theorem actions_trace_to_prompts:
  assumes "create_app V R cwd root dbp wsp ks db w = (Inr (A, s0), w')" "registry_inv (vl_crypto V) ks" "(serves V A)\<^sup>*\<^sup>* s0 s"
    and "map_of (es_evidence (sv_artifacts s)) aid = Some ev" "ae_ledger ev = sv_ledger s"
  shows "(\<exists>r pk sig h. get_key_by_id (env_pubkey_id (ae_user_envelope ev)) (sv_keys s) = Some r
      \<and> load_registered_public_key (vl_crypto V) (StoredBytes (public_key_bytes r)) = Inr pk
      \<and> b64decode True (env_signature (ae_user_envelope ev)) = Inr sig
      \<and> hash_payload (vl_crypto V) (signing_payload (ae_user_envelope ev)) = Inr h
      \<and> verify (vl_crypto V) pk sig h = Inr True)
    \<and> (\<exists>led p q. committed (vl_crypto V) (ae_user_envelope ev) (ae_system_prompt ev) p q led
      \<and> ae_poi ev = Some q \<and> ae_action_payload ev = Some (JObj (ap_payload p))
      \<and> all_entries led = take (nat (ae_ledger_entry_count ev)) (all_entries (app_ledger s)))"
proof -
  have b: "backed (vl_crypto V) (app_ledger s) ev" and v: "vouched (vl_crypto V) (sv_keys s) (ae_user_envelope ev)"
    using started_inv [OF assms(3,1,2)] assms(4,5) by (auto simp: service_inv_def)
  from b obtain led p q where l: "(ledger_step (vl_crypto V))\<^sup>*\<^sup>* led (app_ledger s)"
      "ae_ledger_entry_count ev = int (length (all_entries led))"
    and c: "committed (vl_crypto V) (ae_user_envelope ev) (ae_system_prompt ev) p q led" "ae_poi ev = Some q"
      "ae_action_payload ev = Some (JObj (ap_payload p))"
    unfolding backed_def by blast
  have "all_entries led = take (nat (ae_ledger_entry_count ev)) (all_entries (app_ledger s))"
    using ledger_log.prefix_stable [OF l(1)] l(2) by (simp add: all_entries_def)
  with c v show ?thesis
    by (auto simp: vouched_def check_signature_accepts ever_registered_def)
qed

text \<open>
  C9: exactly how a recorded action can fail later. Whatever requests a started service has served,
  verifying an action it recorded answers "valid" if and only if the agent's key is active and its PoI
  passes the checks on signature, identity and policy, the key of the user is still active, and a
  timestamp token of its context verifies. So the hashes, the ledger and the Merkle root of a recorded
  action never break, and the user's signature only with the key.
\<close>

theorem recorded_action_verdict:
  assumes "create_app V R cwd root dbp wsp ks db w = (Inr (A, s0), w')" "registry_inv (vl_crypto V) ks" "(serves V A)\<^sup>*\<^sup>* s0 s"
    and "map_of (es_evidence (sv_artifacts s)) aid = Some ev" "ae_ledger ev = sv_ledger s" "ae_poi ev = Some q" "aid \<noteq> []"
    and "sha3_len (vl_crypto V)" "artifact_readable (vl_text V) ev" "verify_by_id V R' aid s = (Inr tr, s')"
  shows "vt_overall_valid tr \<longleftrightarrow>
    agent_holds (vl_crypto V) (rq_lookup R' 0) (sv_keys s) None ev q
    \<and> get_pubkey (user_key_clock (rq_lookup R' 0)) (env_pubkey_id (ae_user_envelope ev)) (sv_keys s) \<noteq> None
    \<and> time_holds (vl_crypto V) (vl_tsa V) (outside_of V R' s) (Some (sv_anchors s)) (sv_ledgers s) ev q"
proof -
  let ?L = "vl_crypto V" and ?c = "rq_lookup R' 0" and ?i = "stored_intake (vl_text V) aid ev q"
  let ?env = "ae_user_envelope ev"
  from started_inv [OF assms(3,1,2)] assms(4,5) have b: "backed ?L (app_ledger s) ev" and v: "vouched ?L (sv_keys s) ?env"
    by (auto simp: service_inv_def)
  have found: "get_evidence (vl_text V) (sv_database s) aid (sv_artifacts s, sv_ledgers s) = Inr (Some ev, sv_artifacts s, sv_ledgers s)"
    using assms(4) by (simp add: get_evidence_def)
  have ti: "take_in (vl_text V) (sv_database s) None (Some aid) (sv_artifacts s, sv_ledgers s) =
      (Inr ?i, sv_artifacts s, sv_ledgers s)"
    by (rule take_in_stored [OF found assms(7,6,9)])
  have run: "run_verification ?L (vl_text V) (vl_tsa V) (outside_of V R' s) ?c (pipeline_of s) None (Some aid)
      (sv_artifacts s, sv_ledgers s) = (Inr tr, sv_artifacts s, sv_ledgers s)"
    using assms(10) ti
    by (auto simp: verify_by_id_def bind_act_eq_Inr run_pipeline_def on_evidence_def zoom_def verify_at_def audit_env_of_def
        run_verification_def outside_of_def ret_def record_verdict_def modify_def split: prod.splits sum.splits)
  have "vt_overall_valid tr \<longleftrightarrow> authentic ?L (vl_text V) (vl_tsa V) (outside_of V R' s) ?c (pipeline_of s) (sv_ledgers s) None (in_parsed ?i) ev q"
    using run_verification_verdict [OF assms(8) _ run] ti by (simp add: outside_of_def)
  moreover have "commitments_hold ?L (vl_text V) None (in_parsed ?i) ev q \<and> context_holds ?L (sv_ledgers s) ev q"
    using backed_holds [OF b assms(5,6)] by simp
  moreover have "user_holds ?L ?c (sv_keys s) ?env \<longleftrightarrow> get_pubkey (user_key_clock ?c) (env_pubkey_id ?env) (sv_keys s) \<noteq> None"
    using vouched_holds [OF v] .
  ultimately show ?thesis by (simp add: authentic_def pipeline_of_def)
qed

text \<open>
  C11: a prompt without a valid signature has no effect. If the prompt was not verified before and the
  check of its envelope does not accept it, or the request is signed in as another user, then the
  endpoints that verify, generate an artifact or run agents raise, and change nothing but the nonce store
  and the operations log.
\<close>

theorem refused_prompt_ineffective:
  assumes "c \<in> {VerifyPrompt env, GenerateArtifact env, ExecuteRoutedAgent env}" "serve V A R Rs c s = (r, s')"
    and "(envelope_dump env \<notin> set (sv_verified s) \<and> fst (check_envelope V R env s) \<noteq> Inr accepted)
      \<or> (\<exists>u. request_user V R s = Some u \<and> env_user_id env \<noteq> pu_id u)"
  shows "(\<exists>e. r = Inl e) \<and> (\<exists>ns ops. s' = s\<lparr>sv_nonces := ns, sv_operations := ops\<rparr>)"
proof -
  have f: "refused V R env s" using assms(3) by (simp add: refused_def)
  have raise: "touches_log s (raise_exc e (s\<lparr>sv_nonces := ns\<rparr>))" for e ns
    by (simp add: touches_log_def raise_exc_def)
  have "touches_log s (serve V A R Rs c s)"
    using assms(1) refused_verify [OF f]
    by (auto simp: serve_def generate_artifact_def execute_routed_agent_def
        intro!: touches_log_quiet refused_admit [OF f] reject_touches raise)
  then show ?thesis by (auto simp: touches_log_def assms(2))
qed

section \<open>Agent calls and the list of verified prompts\<close>

text \<open>
  What the endpoints that act on a prompt do to the state: they may change every part of it except the
  list of verified prompts and the choice of the ledger. A property that the changes preserve, they keep.
\<close>

locale action_stable =
  fixes P :: "service \<Rightarrow> bool"
  assumes keys: "P s \<Longrightarrow> P (s\<lparr>sv_keys := x1\<rparr>)"
    and nonces: "P s \<Longrightarrow> P (s\<lparr>sv_nonces := x2\<rparr>)"
    and operations: "P s \<Longrightarrow> P (s\<lparr>sv_operations := x3\<rparr>)"
    and ledgers: "P s \<Longrightarrow> P (s\<lparr>sv_ledgers := x4\<rparr>)"
    and artifacts: "P s \<Longrightarrow> P (s\<lparr>sv_artifacts := x5\<rparr>)"
    and database: "P s \<Longrightarrow> P (s\<lparr>sv_database := x6\<rparr>)"
    and mail: "P s \<Longrightarrow> P (s\<lparr>sv_mail := x7\<rparr>)"
    and databases: "P s \<Longrightarrow> P (s\<lparr>sv_databases := x8\<rparr>)"
    and key_files: "P s \<Longrightarrow> P (s\<lparr>sv_key_files := x9\<rparr>)"
begin

lemma parts:
  "keeps P (on_keys f1)" "keeps P (on_store f2)" "keeps P (on_key_files f3)" "keeps P (on_evidence m1)" "keeps P (on_outbox m2)"
  "keeps P (on_disk m2')" "keeps P (on_databases m3)" "keeps P (log_operation e)" "keeps P (check_envelope V R env)"
  "keeps P (append_entry V now ty c)" "keeps P (\<lambda>s. store_evidence V (g s) s)" "keeps P (\<lambda>s. on_evidence (m4 s) s)"
  by (auto intro!: keepsI keys nonces operations ledgers artifacts database mail databases key_files
      simp: on_keys_def on_store_def on_key_files_def on_evidence_def on_disk_def on_outbox_def on_databases_def zoom_def
        log_operation_def modify_def check_envelope_def append_entry_def store_evidence_def
      split: prod.split sum.split)

lemmas steps = keeps_bind keeps_catching keeps_still parts

lemma keeps_agent: "keeps P (agent_execute V A R a p q)"
  unfolding agent_execute_def by (simp add: parts)

lemma pieces:
  "keeps P (append_context V R k sp env j)" "keeps P (sign_intent V R k aid key env sp m p pa)" "keeps P (load_key V R n)"
  "keeps P (resolved_text A f)" "keeps P (save_record R k user env aid eml)" "keeps P (plan_mail A R env)"
  "keeps P (check_owner V R env)" "keeps P (added_artifact A R p existing)"
  unfolding append_context_def sign_intent_def load_key_def resolved_text_def save_record_def plan_mail_def check_owner_def
    added_artifact_def
  by (auto simp: Let_def intro!: steps)

lemma artifact_pieces: "keeps P (on_artifact (resolved_text A) f)" "keeps P (on_artifact (\<lambda>f. on_disk (read_bytes f)) f)"
  unfolding on_artifact_def by (cases f; simp add: steps pieces)+

lemma keeps_admit: "(\<And>r. keeps P (refuse r)) \<Longrightarrow> keeps P (admit V R refuse env)"
  unfolding admit_def by (auto intro!: keeps_bind keeps_still parts)

lemma keeps_deliver: "keeps P (deliver_signed V A R user env p draft q)"
  unfolding deliver_signed_def by (intro steps pieces)

lemma keeps_execute: "keeps P (execute_signed V A R user env p a q)"
  unfolding execute_signed_def by (intro steps pieces artifact_pieces keeps_agent)

lemma keeps_loop: "keeps P (run_plans V A Rs user env i previous ps)"
proof (induction ps arbitrary: i previous)
  case (Cons p ps)
  have "keeps P (run_plan V A R user env p)" for R p
    unfolding run_plan_def by (intro steps pieces keeps_execute)
  then show ?case using Cons.IH by (auto simp: check_confirmed_def intro!: keeps_bind keeps_still)
qed (simp add: keeps_still)

lemma keeps_actions: "keeps P (generate_artifact V A R env)" "keeps P (execute_routed_agent V A R Rs env)"
proof -
  have r: "keeps P (reject_envelope R op env r)" for op r
    unfolding reject_envelope_def by (intro steps)
  show "keeps P (generate_artifact V A R env)"
    unfolding generate_artifact_def
    by (intro keeps_bind pieces keeps_admit r) (auto intro!: keeps_bind pieces parts keeps_deliver)
  show "keeps P (execute_routed_agent V A R Rs env)"
    unfolding execute_routed_agent_def
    by (intro keeps_bind pieces keeps_admit keeps_still) (auto intro!: keeps_bind keeps_still keeps_loop split: list.split)
qed

end

interpretation verified_list: action_stable "\<lambda>s. sv_verified s = v" for v
  by unfold_locales simp_all

text \<open>Any number of calls of the two endpoints.\<close>

inductive acts :: "service_libs \<Rightarrow> app \<Rightarrow> service \<Rightarrow> service \<Rightarrow> bool" for V A where
  generate: "serve V A R Rs (GenerateArtifact env) s = (r, s') \<Longrightarrow> acts V A s s'"
| execute: "serve V A R Rs (ExecuteRoutedAgent env) s = (r, s') \<Longrightarrow> acts V A s s'"

lemma acts_verified: "(acts V A)\<^sup>*\<^sup>* s s' \<Longrightarrow> sv_verified s' = sv_verified s"
proof (induction rule: rtranclp_induct)
  case (step t u)
  from step.hyps(2) have "sv_verified u = sv_verified t"
    using keeps_quiet [OF verified_list.keeps_actions(1)] keeps_quiet [OF verified_list.keeps_actions(2)]
    by cases (auto simp: serve_def keeps_snd dest!: arg_cong [where f = snd])
  then show ?case using step.IH by simp
qed simp

lemma verify_prompt_accepts:
  assumes "verify_prompt V R env s = (Inr x, s1)"
  obtains s0 where "check_envelope V R env s = (Inr accepted, s0)"
    "sv_verified s1 = take 50 (envelope_dump env # sv_verified s0)" "sv_nonces s1 = sv_nonces s0"
proof -
  from assms obtain r s0 where c: "check_envelope V R env s = (Inr r, s0)" and v: "vr_valid r"
    and s1: "sv_verified s1 = take 50 (envelope_dump env # sv_verified s0)" "sv_nonces s1 = sv_nonces s0"
    by (auto simp: verify_prompt_def bind_act_eq_Inr check_owner_def reads_def require_def ret_def remember_envelope_def modify_def
        log_operation_def reject_envelope_def raise_exc_def split: if_splits)
  have "r = accepted"
    using c v verify_envelope_valid [of "vl_crypto V" 60 "rq_attempt R" "registry_lookup (rq_clock R 1) (sv_keys s)" env "sv_nonces s" r]
    by (auto simp: check_envelope_def split: prod.splits)
  with c s1 show thesis by (auto intro: that)
qed

lemma nonce_reuse_rejected:
  assumes "check_envelope V R env s = (Inr accepted, s0)"
    and "seen_clock c \<le> mark_clock (rq_attempt R) + ttl_us (sv_nonces s)"
  shows "fst (verify_envelope L 60 c lookup env (sv_nonces s0)) \<in> {Inr (rejected ''timestamp_stale''), Inr (rejected ''nonce_reused'')}"
proof -
  let ?k = "rq_attempt R"
  from assms(1) have v: "verify_envelope (vl_crypto V) 60 ?k (registry_lookup (rq_clock R 1) (sv_keys s)) env (sv_nonces s)
      = (Inr accepted, sv_nonces s0)"
    by (auto simp: check_envelope_def split: prod.splits)
  then have f: "timestamp_is_fresh 60 (wall_clock ?k) (env_timestamp env) = Inr True"
    and g: "fst (nonces.gate (seen_clock ?k, sweep_clock ?k, mark_clock ?k) (env_nonce env) (sv_nonces s))"
    using verify_envelope_accepts [of "vl_crypto V" 60 ?k "registry_lookup (rq_clock R 1) (sv_keys s)" env "sv_nonces s"] by simp_all
  have n: "nonces.gate (seen_clock ?k, sweep_clock ?k, mark_clock ?k) (env_nonce env) (sv_nonces s) = (True, sv_nonces s0)"
    using g verify_envelope_store [of "vl_crypto V" 60 ?k "registry_lookup (rq_clock R 1) (sv_keys s)" env "sv_nonces s"] v f
    by (simp add: prod_eq_iff)
  from f obtain t where t: "parse_timestamp (env_timestamp env) = Inr t"
    by (auto simp: timestamp_is_fresh_def map_res_eq_Inr)
  have "fst (has_seen (seen_clock c) (env_nonce env) (sv_nonces s0))"
    using nonces.check_reports [OF prod.collapse [symmetric] nonces.gate_admits_remembers [OF n]] nonces.gate_ttl [OF n] assms(2)
    by simp
  then show ?thesis
    using t by (cases "has_seen (seen_clock c) (env_nonce env) (sv_nonces s0)")
      (auto simp: verify_envelope_def timestamp_is_fresh_def map_res_def split: option.split bool.split)
qed

text \<open>
  C36: an accepted prompt can be acted on again and again. Once the verification endpoint has accepted a
  prompt it does not accept it again while its nonce is remembered, but the two endpoints that act on
  prompts admit it at every later time without any check, however often it was acted on before.
\<close>

theorem accepted_prompt_acted_on_again:
  assumes "verify_prompt V R env s = (Inr x, s1)"
  shows "((acts V A)\<^sup>*\<^sup>* s1 s2 \<longrightarrow> admit V R' refuse env s2 = (Inr (), s2))
    \<and> (seen_clock (rq_attempt R'') \<le> mark_clock (rq_attempt R) + ttl_us (sv_nonces s) \<longrightarrow>
      fst (check_envelope V R'' env s1) \<in> {Inr (rejected ''timestamp_stale''), Inr (rejected ''nonce_reused'')})"
proof -
  from assms obtain s0 where c: "check_envelope V R env s = (Inr accepted, s0)"
    and s1: "sv_verified s1 = take 50 (envelope_dump env # sv_verified s0)" "sv_nonces s1 = sv_nonces s0"
    by (rule verify_prompt_accepts)
  have 1: "admit V R' refuse env s2 = (Inr (), s2)" if "(acts V A)\<^sup>*\<^sup>* s1 s2"
    using acts_verified [OF that] s1(1) by (simp add: admit_def bind_act_reads ret_def)
  have 2: "fst (check_envelope V R'' env s1) \<in> {Inr (rejected ''timestamp_stale''), Inr (rejected ''nonce_reused'')}"
    if "seen_clock (rq_attempt R'') \<le> mark_clock (rq_attempt R) + ttl_us (sv_nonces s)"
    using nonce_reuse_rejected [OF c that, of "vl_crypto V" "registry_lookup (rq_clock R'' 1) (sv_keys s1)"]
    by (simp add: check_envelope_def s1(2) split_beta)
  from 1 2 show ?thesis by blast
qed

section \<open>The statements at a concrete service\<close>

lemma demo_table_inv: "registry_inv (vl_crypto demo_service_libs) demo_table"
  by code_simp

lemma demo_flat_len: "sha3_len (vl_crypto demo_service_libs)"
  by (simp add: sha3_len_def demo_service_libs_def demo_flat_libs_def)

lemma demo_service:
  obtains A s0 w s ev q tr where
    "create_app demo_service_libs (demo_request 0) [] [''r''] None None demo_table demo_accounts demo_disk = (Inr (A, s0), w)"
    "(serves demo_service_libs A)\<^sup>*\<^sup>* s0 s" "map_of (es_evidence (sv_artifacts s)) ''audit-1'' = Some ev"
    "ae_ledger ev = sv_ledger s" "ae_poi ev = Some q" "ae_eml_bytes ev = None"
    "fst (verify_by_id demo_service_libs (demo_request 9) ''audit-1'' s) = Inr tr" "vt_overall_valid tr"
proof -
  obtain A s0 s where r: "demo_served = Inr (A, s0, s)" and v: "sv_ledger s = 0"
    and e: "map (\<lambda>(aid, ev). (aid, ae_ledger ev, ae_poi ev = None, ae_eml_bytes ev)) (es_evidence (sv_artifacts s)) = [(''audit-1'', 0, False, None)]"
    and t: "map_res vt_overall_valid (fst (verify_by_id demo_service_libs (demo_request 9) ''audit-1'' s)) = Inr True"
  proof -
    obtain y where "demo_served = Inr y" using demo_service_run unfolding map_res_eq_Inr by blast
    moreover obtain A s0 s where "y = (A, s0, s)" by (cases y)
    ultimately have y: "demo_served = Inr (A, s0, s)" by simp
    show thesis
      by (rule that [OF y]) (use demo_service_run [unfolded y map_res_simps prod.case sum.inject prod.inject] in \<open>blast+\<close>)
  qed
  obtain A1 s1 where p: "fst demo_start = Inr (A1, s1)"
    and e1: "(case execute_routed_agent demo_service_libs A1 (demo_request 1) (\<lambda>i. demo_request (2 + int i)) demo_prompt s1 of
       (Inl e, _) \<Rightarrow> Inl e | (Inr _, s') \<Rightarrow> Inr (A1, s1, s')) = Inr (A, s0, s)"
    using r unfolding demo_served_def bind_res_eq_Inr by auto
  obtain y t where y: "execute_routed_agent demo_service_libs A1 (demo_request 1) (\<lambda>i. demo_request (2 + int i)) demo_prompt s1 = (y, t)"
    by fastforce
  from e1 obtain z where z: "y = Inr z" "A1 = A" "s1 = s0" "t = s" unfolding y by (cases y) auto
  have x: "\<exists>y. execute_routed_agent demo_service_libs A (demo_request 1) (\<lambda>i. demo_request (2 + int i)) demo_prompt s0 = (Inr y, s)"
    using y z by blast
  obtain w where w: "create_app demo_service_libs (demo_request 0) [] [''r''] None None demo_table demo_accounts demo_disk = (Inr (A, s0), w)"
    using p z by (cases demo_start) (auto simp: demo_start_def)
  have "serves demo_service_libs A s0 s"
    using x by (intro serves.request [where c = "ExecuteRoutedAgent demo_prompt" and R = "demo_request 1" and Rs = "\<lambda>i. demo_request (2 + int i)"])
      (auto simp: serve_def quiet_def bind_act_def ret_def)
  moreover obtain ev q where "es_evidence (sv_artifacts s) = [(''audit-1'', ev)]" "ae_ledger ev = 0" "ae_poi ev = Some q" "ae_eml_bytes ev = None"
    using e by auto
  moreover obtain tr where "fst (verify_by_id demo_service_libs (demo_request 9) ''audit-1'' s) = Inr tr" "vt_overall_valid tr"
    using t by (auto simp: map_res_eq_Inr)
  ultimately show thesis using w v by (intro that [of A s0 w s ev q tr]) auto
qed

theorem service_well_formed_witness:
  "\<exists>A s0 w s. create_app demo_service_libs (demo_request 0) [] [''r''] None None demo_table demo_accounts demo_disk = (Inr (A, s0), w)
    \<and> sv_artifacts s \<noteq> sv_artifacts s0 \<and> length (sv_operations s) \<le> 50
    \<and> verify_chain (vl_crypto demo_service_libs) (app_ledger s) = Inr True"
proof -
  obtain A s0 w s ev where d: "create_app demo_service_libs (demo_request 0) [] [''r''] None None demo_table demo_accounts demo_disk = (Inr (A, s0), w)"
    "(serves demo_service_libs A)\<^sup>*\<^sup>* s0 s" "map_of (es_evidence (sv_artifacts s)) ''audit-1'' = Some ev"
    by (rule demo_service)
  have "sv_artifacts s \<noteq> sv_artifacts s0" using d(3) create_app_fresh(6) [OF d(1)] by auto
  with service_well_formed [OF d(1) demo_table_inv d(2)] d(1) show ?thesis by blast
qed

theorem actions_trace_to_prompts_witness:
  "\<exists>s :: service. \<exists>ev led p q. map_of (es_evidence (sv_artifacts s)) ''audit-1'' = Some ev \<and> ae_poi ev = Some q
    \<and> committed (vl_crypto demo_service_libs) (ae_user_envelope ev) (ae_system_prompt ev) p q led"
proof -
  obtain A s0 w s ev q tr where d: "create_app demo_service_libs (demo_request 0) [] [''r''] None None demo_table demo_accounts demo_disk = (Inr (A, s0), w)"
    "(serves demo_service_libs A)\<^sup>*\<^sup>* s0 s" "map_of (es_evidence (sv_artifacts s)) ''audit-1'' = Some ev" "ae_ledger ev = sv_ledger s"
    by (rule demo_service)
  from actions_trace_to_prompts [OF d(1) demo_table_inv d(2-4)] d(3) show ?thesis by blast
qed

theorem recorded_action_verdict_witness:
  "\<exists>s :: service. \<exists>ev q. map_of (es_evidence (sv_artifacts s)) ''audit-1'' = Some ev
    \<and> agent_holds (vl_crypto demo_service_libs) (rq_lookup (demo_request 9) 0) (sv_keys s) None ev q"
proof -
  obtain A s0 w s ev q tr where d: "create_app demo_service_libs (demo_request 0) [] [''r''] None None demo_table demo_accounts demo_disk = (Inr (A, s0), w)"
    "(serves demo_service_libs A)\<^sup>*\<^sup>* s0 s" "map_of (es_evidence (sv_artifacts s)) ''audit-1'' = Some ev" "ae_ledger ev = sv_ledger s"
    "ae_poi ev = Some q" "ae_eml_bytes ev = None"
    and t: "fst (verify_by_id demo_service_libs (demo_request 9) ''audit-1'' s) = Inr tr" "vt_overall_valid tr"
    by (rule demo_service)
  obtain s' where t': "verify_by_id demo_service_libs (demo_request 9) ''audit-1'' s = (Inr tr, s')"
    using t(1) by (cases "verify_by_id demo_service_libs (demo_request 9) ''audit-1'' s") simp
  have a: "artifact_readable (vl_text demo_service_libs) ev" by (simp add: artifact_readable_def d(6))
  from recorded_action_verdict [OF d(1) demo_table_inv d(2-5) _ demo_flat_len a t'] t(2) d(3) show ?thesis by blast
qed

text \<open>The same prompt at the beginning of time: the envelope is stale.\<close>

definition demo_stale :: request where
  "demo_stale = (demo_request 0)\<lparr>rq_attempt := \<lparr>wall_clock = 0, seen_clock = 0, sweep_clock = 0, mark_clock = 0\<rparr>\<rparr>"

theorem refused_prompt_ineffective_witness:
  "\<exists>A s0 w e s'. create_app demo_service_libs (demo_request 0) [] [''r''] None None demo_table demo_accounts demo_disk = (Inr (A, s0), w)
    \<and> serve demo_service_libs A demo_stale (\<lambda>_. demo_stale) (ExecuteRoutedAgent demo_prompt) s0 = (Inl e, s') \<and> disk s' = disk s0"
proof -
  obtain A s0 w where d: "create_app demo_service_libs (demo_request 0) [] [''r''] None None demo_table demo_accounts demo_disk = (Inr (A, s0), w)"
    by (rule demo_service)
  have "timestamp_is_fresh 60 0 (env_timestamp demo_prompt) = Inr False" by code_simp
  then have c: "fst (check_envelope demo_service_libs demo_stale demo_prompt s0) \<noteq> Inr accepted"
    by (simp add: check_envelope_def demo_stale_def verify_envelope_def)
  obtain r s' where r: "serve demo_service_libs A demo_stale (\<lambda>_. demo_stale) (ExecuteRoutedAgent demo_prompt) s0 = (r, s')" by fastforce
  from refused_prompt_ineffective [OF _ r] c create_app_fresh(5) [OF d] r d show ?thesis by fastforce
qed

theorem accepted_prompt_acted_on_again_witness:
  "\<exists>s1 :: service. admit demo_service_libs (demo_request 900000000) (\<lambda>_. raise_exc (http_error 401 [])) demo_prompt s1 = (Inr (), s1)
    \<and> fst (check_envelope demo_service_libs (demo_request 1000000) demo_prompt s1) \<noteq> Inr accepted"
proof -
  obtain A s0 w where d: "create_app demo_service_libs (demo_request 0) [] [''r''] None None demo_table demo_accounts demo_disk = (Inr (A, s0), w)"
    by (rule demo_service)
  have "fst (verify_envelope demo_flat_libs 60 (demo_clocks 1) (registry_lookup 1001 demo_table) demo_prompt
      \<lparr>ttl_seconds = 300, ns_seen = []\<rparr>) = Inr accepted" by code_simp
  then obtain t where c: "check_envelope demo_service_libs (demo_request 1) demo_prompt s0 = (Inr accepted, t)"
    using create_app_fresh(3,7) [OF d]
    by (cases "check_envelope demo_service_libs (demo_request 1) demo_prompt s0")
      (auto simp: check_envelope_def demo_service_libs_def demo_request_def split: prod.splits)
  have "request_user demo_service_libs (demo_request 1) s0 = None"
    by (simp add: request_user_def demo_request_def bearer_token_def user_from_token_def Let_def str_lower_def)
  then have "check_owner demo_service_libs (demo_request 1) demo_prompt s0 = (Inr None, s0)"
    by (simp add: check_owner_def bind_act_reads ret_def)
  then have "\<exists>x s1. verify_prompt demo_service_libs (demo_request 1) demo_prompt s0 = (Inr x, s1)"
    by (simp add: verify_prompt_def bind_act_Inr [OF _] c bind_act_def remember_envelope_def log_operation_def modify_def ret_def)
  then obtain x s1 where v: "verify_prompt demo_service_libs (demo_request 1) demo_prompt s0 = (Inr x, s1)" by blast
  from accepted_prompt_acted_on_again [OF v, of A s1 "demo_request 900000000" "\<lambda>_. raise_exc (http_error 401 [])" "demo_request 1000000"]
  show ?thesis using create_app_fresh(7) [OF d] by (auto simp: demo_request_def demo_clocks_def)
qed

end
