(* ===== verification/Kernel_Evaluation.thy ===== *)
theory Kernel_Evaluation
  imports Encodings
begin

text \<open>
  Code equations with which the kernel evaluates concrete runs quickly: characters are looked up, and their
  codes are integers, where the definitions compute with natural numbers. Each is proved equal to the
  definition it replaces.
\<close>

section \<open>Decimal numbers\<close>

lemma hex_char_nat: "n < 10 \<Longrightarrow> char_of (48 + n) = hex_char (int n)"
  using hex_char_digit [of n] by (simp add: hex_digit_def)

function show_pos :: "int \<Rightarrow> string" where
  "show_pos i = (if i < 10 then [hex_char i] else show_pos (i div 10) @ [hex_char (i mod 10)])"
  by pat_completeness auto

termination by (relation "measure nat") auto

declare show_pos.simps [simp del]

lemma show_nat_pos: "show_nat n = show_pos (int n)"
proof (induction n rule: show_nat.induct)
  case (1 n)
  then show ?case
    by (simp add: show_nat.simps [of n] show_pos.simps [of "int n"] hex_char_nat zdiv_int zmod_int)
qed

lemma show_nat_code [code]: "show_nat n = show_pos (int n)"
  by (rule show_nat_pos)

lemma show_int_code [code]: "show_int i = (if i < 0 then CHR ''-'' # show_pos (- i) else show_pos i)"
  by (simp add: show_int_def show_nat_pos)

section \<open>Encodings\<close>

definition b64_alphabet :: string where
  "b64_alphabet = ''ABCDEFGHIJKLMNOPQRSTUVWXYZabcdefghijklmnopqrstuvwxyz0123456789+/''"

lemma b64_char_alphabet: "list_all (\<lambda>n. b64_char n = b64_alphabet ! n) [0..<64]"
  by code_simp

lemma b64_char_code [code]: "b64_char n = (if n < 64 then b64_alphabet ! n else CHR ''/'')"
  using b64_char_alphabet by (auto simp: list_all_iff b64_char_def)

lemma b64_val_code [code]:
  "b64_val c = (let n = of_char c :: int in
     if 65 \<le> n \<and> n \<le> 90 then Some (nat (n - 65))
     else if 97 \<le> n \<and> n \<le> 122 then Some (nat (n - 71))
     else if 48 \<le> n \<and> n \<le> 57 then Some (nat (n + 4))
     else if n = 43 then Some 62
     else if n = 47 then Some 63
     else None)"
proof -
  obtain n where n: "of_char c = (n :: nat)" by blast
  have i: "(of_char c :: int) = int n" unfolding n [symmetric] by (rule of_nat_of_char [symmetric])
  show ?thesis unfolding b64_val_def Let_def n i by (simp add: nat_diff_distrib nat_add_distrib)
qed

lemma hex_val_code [code]:
  "hex_val c = (let n = of_char c :: int in
     if 48 \<le> n \<and> n \<le> 57 then Some (nat (n - 48))
     else if 97 \<le> n \<and> n \<le> 102 then Some (nat (n - 87))
     else if 65 \<le> n \<and> n \<le> 70 then Some (nat (n - 55))
     else None)"
proof -
  obtain n where n: "of_char c = (n :: nat)" by blast
  have i: "(of_char c :: int) = int n" unfolding n [symmetric] by (rule of_nat_of_char [symmetric])
  show ?thesis unfolding hex_val_def Let_def n i by (simp add: nat_diff_distrib)
qed

end
