(* ===== verification/Iso_Roundtrip.thy ===== *)
theory Iso_Roundtrip
  imports Service_State
begin

text \<open>
  \<^verbatim>\<open>isoformat\<close> and \<^verbatim>\<open>fromisoformat\<close> fit together: the timestamp that the code prints for an instant in UTC,
  with the offset spelled \<^verbatim>\<open>+00:00\<close> or \<^verbatim>\<open>Z\<close>, is parsed back to the same instant. The parts are the
  decimal fields, the calendar, and the layout of the text.
\<close>

section \<open>Decimal fields\<close>

lemma digits_append: "digits acc (s @ t) = bind_res (digits acc s) (\<lambda>n. digits n t)"
  by (induction s arbitrary: acc) (auto split: option.split)

lemma digit_char: "n < 10 \<Longrightarrow> digit (char_of (48 + n)) = Some (int n)" for n :: nat
proof -
  assume "n < 10"
  moreover have "int (of_char (char_of (48 + n) :: char)) = of_char (char_of (48 + n) :: char)" by (rule of_nat_of_char)
  ultimately have "of_char (char_of (48 + n) :: char) = 48 + int n" by simp
  then show ?thesis using \<open>n < 10\<close> by (simp add: digit_def)
qed

lemma digits_show_nat: "digits acc (show_nat n) = Inr (acc * 10 ^ length (show_nat n) + int n)"
proof (induction n arbitrary: acc rule: show_nat.induct)
  case (1 n)
  show ?case
  proof (cases "n < 10")
    case True
    then show ?thesis by (simp add: show_nat.simps [of n] digit_char)
  next
    case False
    have "int n = int (n div 10) * 10 + int (n mod 10)" by (simp add: zdiv_int zmod_int)
    with False 1 show ?thesis
      by (simp add: show_nat.simps [of n] digits_append digit_char algebra_simps)
  qed
qed

lemma length_show_nat: "n < 10 ^ k \<Longrightarrow> 0 < k \<Longrightarrow> length (show_nat n) \<le> k"
proof (induction k arbitrary: n)
  case (Suc k)
  show ?case
  proof (cases "n < 10")
    case False
    with Suc.prems have "n div 10 < 10 ^ k" by simp
    moreover from False Suc.prems have "0 < k" by (cases k) simp_all
    ultimately have "n div 10 < 10 ^ k" "0 < k" by blast+
    with Suc.IH False show ?thesis by (simp add: show_nat.simps [of n])
  qed (simp add: show_nat.simps [of n])
qed simp

lemma digits_zeros: "digits 0 (replicate j CHR ''0'' @ s) = digits 0 s"
proof (induction j)
  case (Suc j)
  have "digit CHR ''0'' = Some 0" by (simp add: digit_def)
  with Suc show ?case by simp
qed simp

lemma zero_pad_field:
  assumes "0 \<le> n" "n < 10 ^ k" "0 < k"
  shows "length (zero_pad k n) = k" "digits 0 (zero_pad k n) = Inr n"
proof -
  have "nat n < 10 ^ k" using assms by (simp add: nat_less_iff)
  then have "length (show_nat (nat n)) \<le> k" using length_show_nat assms(3) by blast
  then show "length (zero_pad k n) = k" using assms(1) by (simp add: zero_pad_def show_int_def)
  show "digits 0 (zero_pad k n) = Inr n"
    using assms(1) by (simp add: zero_pad_def show_int_def digits_zeros digits_show_nat)
qed

lemma two_digits:
  "0 \<le> n \<Longrightarrow> n \<le> 59 \<Longrightarrow> length (zero_pad 2 n) = 2" "0 \<le> n \<Longrightarrow> n \<le> 59 \<Longrightarrow> digits 0 (zero_pad 2 n) = Inr n"
  using zero_pad_field [of n 2] by simp_all

lemma digits_chars: "digits acc s = Inr n \<Longrightarrow> c \<in> set s \<Longrightarrow> digit c \<noteq> None"
  by (induction s arbitrary: acc) (auto split: option.splits)

lemma zero_pad_chars:
  assumes "0 \<le> n" "n < 10 ^ k" "0 < k" "c \<in> set (zero_pad k n)"
  shows "c \<noteq> CHR ''-''" "c \<noteq> CHR ''+''" "c \<noteq> CHR ''Z''"
  using digits_chars [OF zero_pad_field(2) [OF assms(1-3)] assms(4)] by (auto simp: digit_def)

section \<open>The calendar\<close>

text \<open>Days before a year, up to less than two days, are 146097/400 days for each year.\<close>

lemma quotients_bounds:
  fixes k :: int
  assumes "4 * a + p = k" "100 * b + q = k" "400 * c + r = k" "0 \<le> p" "p < 4" "0 \<le> q" "q < 100" "0 \<le> r" "r < 400"
  shows "146097 * k - 699 \<le> 400 * (k * 365 + a - b + c)" "400 * (k * 365 + a - b + c) \<le> 146097 * k + 396"
proof -
  have "400 * (k * 365 + a - b + c) = 146000 * k + 100 * (4 * a) - 4 * (100 * b) + 400 * c" by simp
  also have "\<dots> = 146000 * k + 100 * (k - p) - 4 * (k - q) + (k - r)" using assms by simp
  finally show "146097 * k - 699 \<le> 400 * (k * 365 + a - b + c)" "400 * (k * 365 + a - b + c) \<le> 146097 * k + 396"
    using assms by simp_all
qed

lemma days_before_year_bounds:
  "146097 * (y - 1) - 699 \<le> 400 * days_before_year y" "400 * days_before_year y \<le> 146097 * (y - 1) + 396"
  unfolding days_before_year_def Let_def
  by (rule quotients_bounds [where p = "(y - 1) mod 4" and q = "(y - 1) mod 100" and r = "(y - 1) mod 400"]; simp)+

lemma year_of_day_bounds: "days_before_year (year_of_day d) \<le> d" "d < days_before_year (year_of_day d + 1)"
proof -
  define y where "y = d * 400 div 146097 + 1"
  have "146097 * (y - 1) \<le> 400 * d" "400 * d < 146097 * y"
    using mult_div_mod_eq [of 146097 "d * 400"] pos_mod_bound [of 146097 "d * 400"] pos_mod_sign [of 146097 "d * 400"]
    unfolding y_def by simp_all
  then have "days_before_year (y - 1) \<le> d" "d < days_before_year (2 + y)"
    using days_before_year_bounds [of "y - 1"] days_before_year_bounds [of "2 + y"] by simp_all
  then show "days_before_year (year_of_day d) \<le> d" "d < days_before_year (year_of_day d + 1)"
    by (auto simp: year_of_day_def Let_def y_def [symmetric])
qed

lemma div_pred: "y div n = (y - 1) div n + (if y mod n = 0 then 1 else 0)" if "0 < n" for y n :: int
proof (cases "y mod n = 0")
  case True
  then obtain q where q: "y = n * q" by auto
  have "(n * q - 1) div n = q - 1"
    by (rule int_div_pos_eq [where r = "n - 1"]) (use that in \<open>simp_all add: algebra_simps\<close>)
  moreover have "y div n = q" using that by (simp add: q)
  ultimately show ?thesis using True by (simp add: q)
next
  case False
  have "y - 1 = n * (y div n) + (y mod n - 1)" using mult_div_mod_eq [of n y] by linarith
  moreover have "0 \<le> y mod n - 1" "y mod n - 1 < n"
    using False pos_mod_sign [OF that, of y] pos_mod_bound [OF that, of y] by simp_all
  ultimately have "(y - 1) div n = y div n" by (rule int_div_pos_eq)
  with False show ?thesis by simp
qed

lemma leap_sum:
  fixes y :: int
  assumes "a = a' + (if P then 1 else 0)" "b = b' + (if Q then 1 else 0)" "c = c' + (if R then 1 else 0)" "R \<longrightarrow> Q" "Q \<longrightarrow> P"
  shows "y * 365 + a - b + c = ((y - 1) * 365 + a' - b' + c') + (if P \<and> (\<not> Q \<or> R) then 366 else 365)"
  using assms(4,5) unfolding assms(1-3) by (cases P; cases Q; cases R) simp_all

lemma days_in_year: "days_before_year (y + 1) = days_before_year y + (if is_leap y then 366 else 365)"
proof -
  have "400 dvd y \<Longrightarrow> 100 dvd y" "100 dvd y \<Longrightarrow> 4 dvd y"
    by (rule dvd_trans [of 100 400 y] dvd_trans [of 4 100 y]; simp)+
  then have "y mod 400 = 0 \<longrightarrow> y mod 100 = 0" "y mod 100 = 0 \<longrightarrow> y mod 4 = 0" by auto
  then show ?thesis
    unfolding days_before_year_def Let_def is_leap_def add_diff_cancel_right'
    by (intro leap_sum div_pred) simp_all
qed

lemma days_before_year_mono: "y \<le> z \<Longrightarrow> days_before_year y \<le> days_before_year z"
  by (induction z rule: int_ge_induct) (simp_all add: days_in_year)

lemma year_range:
  assumes "0 \<le> d" "d < 3652059"
  shows "1 \<le> year_of_day d" "year_of_day d \<le> 9999"
proof -
  let ?y = "year_of_day d"
  show "1 \<le> ?y"
  proof (rule ccontr)
    assume "\<not> 1 \<le> ?y"
    then have "days_before_year (?y + 1) \<le> days_before_year 1" by (intro days_before_year_mono) simp
    with year_of_day_bounds(2) [of d] assms(1) show False by (simp add: days_before_year_def)
  qed
  show "?y \<le> 9999"
  proof (rule ccontr)
    assume "\<not> ?y \<le> 9999"
    then have "days_before_year 10000 \<le> days_before_year ?y" by (intro days_before_year_mono) simp
    with year_of_day_bounds(1) [of d] assms(2) show False by (simp add: days_before_year_def)
  qed
qed

lemma month_of_day_bounds:
  assumes "0 \<le> r" "r < (if is_leap y then 366 else 365)"
  shows "1 \<le> month_of_day y r" "month_of_day y r \<le> 12" "days_before_month y (month_of_day y r) \<le> r"
    "r < days_before_month y (month_of_day y r) + days_in_month y (month_of_day y r)"
proof -
  have "1 \<le> month_of_day y r \<and> month_of_day y r \<le> 12 \<and> days_before_month y (month_of_day y r) \<le> r
      \<and> r < days_before_month y (month_of_day y r) + days_in_month y (month_of_day y r)"
  proof (cases "is_leap y")
    case True
    with assms show ?thesis by (simp add: month_of_day_def days_before_month_def days_in_month_def)
  next
    case False
    with assms show ?thesis by (simp add: month_of_day_def days_before_month_def days_in_month_def)
  qed
  then show "1 \<le> month_of_day y r" "month_of_day y r \<le> 12" "days_before_month y (month_of_day y r) \<le> r"
    "r < days_before_month y (month_of_day y r) + days_in_month y (month_of_day y r)" by auto
qed

section \<open>The fields of an instant\<close>

lemma instant_date:
  assumes "0 \<le> d" "d < 3652059"
  defines "y \<equiv> year_of_day d"
  defines "r \<equiv> d - days_before_year y"
  defines "m \<equiv> month_of_day y r"
  shows "1 \<le> y" "y \<le> 9999" "1 \<le> m" "m \<le> 12" "1 \<le> r - days_before_month y m + 1"
    "r - days_before_month y m + 1 \<le> days_in_month y m"
proof -
  show "1 \<le> y" "y \<le> 9999" unfolding y_def using year_range [OF assms(1,2)] by auto
  have "0 \<le> r" "r < (if is_leap y then 366 else 365)"
    using year_of_day_bounds [of d] days_in_year [of y] by (auto simp: r_def y_def)
  from month_of_day_bounds [OF this]
  show "1 \<le> m" "m \<le> 12" "1 \<le> r - days_before_month y m + 1" "r - days_before_month y m + 1 \<le> days_in_month y m"
    unfolding m_def by auto
qed

lemma days_in_month_le: "days_in_month y m \<le> 31"
  by (simp add: days_in_month_def)

lemma clock_of_us:
  assumes "0 \<le> us" "us < day_us"
  defines "s \<equiv> us div second"
  shows "0 \<le> s div 3600" "s div 3600 \<le> 23" "0 \<le> s div 60 mod 60" "s div 60 mod 60 \<le> 59" "0 \<le> s mod 60" "s mod 60 \<le> 59"
    "0 \<le> us mod second" "us mod second \<le> 999999"
    "((s div 3600 * 60 + s div 60 mod 60) * 60 + s mod 60) * second + us mod second = us"
proof -
  have s: "0 \<le> s" "s < 86400" using assms by (simp_all add: pos_imp_zdiv_nonneg_iff)
  then show "0 \<le> s div 3600" "s div 3600 \<le> 23" "0 \<le> s div 60 mod 60" "s div 60 mod 60 \<le> 59" "0 \<le> s mod 60" "s mod 60 \<le> 59"
    by simp_all
  show "0 \<le> us mod second" "us mod second \<le> 999999"
    using pos_mod_bound [of second us] by simp_all
  have "s div 3600 = s div 60 div 60" by (simp add: zdiv_zmult2_eq [symmetric])
  then have "(s div 3600 * 60 + s div 60 mod 60) * 60 + s mod 60 = s" by simp
  then show "((s div 3600 * 60 + s div 60 mod 60) * 60 + s mod 60) * second + us mod second = us"
    by (simp add: s_def)
qed

lemma make_datetime_fields:
  assumes "1 \<le> y" "y \<le> 9999" "1 \<le> m" "m \<le> 12" "1 \<le> d" "d \<le> days_in_month y m" "h \<le> 23" "mi \<le> 59" "s \<le> 59" "f \<le> 999999"
    and "((h * 60 + mi) * 60 + s) * second + f = us"
  shows "make_datetime y m d h mi s f = Inr ((days_before_year y + days_before_month y m + (d - 1)) * day_us + us)"
  using assms by (simp add: make_datetime_def)

section \<open>The text\<close>

lemma parse_date_layout:
  assumes "length ys = 4" "length ms = 2" "length ds = 2" "digits 0 ys = Inr y" "digits 0 ms = Inr m" "digits 0 ds = Inr d"
  shows "parse_date (ys @ ''-'' @ ms @ ''-'' @ ds) = Inr (y, m, d)"
  using assms by (simp add: parse_date_def nth_append)

lemma parse_clock_layout:
  assumes "length hs = 2" "length ms = 2" "length ss = 2" "digits 0 hs = Inr h" "digits 0 ms = Inr m" "digits 0 ss = Inr s"
    and "parse_fraction fs = Inr f"
  shows "parse_clock (hs @ '':'' @ ms @ '':'' @ ss @ fs) = Inr (h, m, s, f)"
  using assms by (simp add: parse_clock_def nth_append)

definition fraction_text :: "int \<Rightarrow> string" where
  "fraction_text f = (if f = 0 then [] else ''.'' @ zero_pad 6 f)"

lemma parse_fraction_text: "0 \<le> f \<Longrightarrow> f \<le> 999999 \<Longrightarrow> parse_fraction (fraction_text f) = Inr f"
  using zero_pad_field [of f 6] by (simp add: fraction_text_def parse_fraction_def)

lemma zero_offset: "parse_offset CHR ''+'' ''00:00'' = Inr 0"
  by (simp add: parse_offset_def parse_clock_def digit_def clock_us_def)

lemma offset_pos_plus:
  assumes "CHR ''-'' \<notin> set (t @ u)" "CHR ''+'' \<notin> set t"
  shows "offset_pos (t @ CHR ''+'' # u) = Some (length t)"
proof -
  have "takeWhile (\<lambda>c. c \<noteq> CHR ''+'') (t @ CHR ''+'' # u) = t"
    using assms(2) by (subst takeWhile_append2) auto
  then show ?thesis using assms(1) by (simp add: offset_pos_def)
qed

definition stamp :: "string \<Rightarrow> string \<Rightarrow> string" where
  "stamp date clock = date @ ''T'' @ clock @ ''+00:00''"

lemma fromisoformat_stamp:
  assumes "parse_date date = Inr (y, m, d)" "parse_clock clock = Inr (h, mi, s, f)" "length date = 10"
    and "CHR ''-'' \<notin> set clock" "CHR ''+'' \<notin> set clock"
  shows "fromisoformat (stamp date clock) = map_res (\<lambda>w. Aware w 0) (make_datetime y m d h mi s f)"
proof -
  have "drop 11 (stamp date clock) = clock @ CHR ''+'' # ''00:00''" "take 10 (stamp date clock) = date"
    using assms(3) by (simp_all add: stamp_def)
  moreover have "offset_pos (clock @ CHR ''+'' # ''00:00'') = Some (length clock)"
    using assms(4,5) by (intro offset_pos_plus) auto
  ultimately show ?thesis
    using assms(1,2) by (simp add: fromisoformat_def zero_offset nth_append)
qed

text \<open>The two halves of the text of an instant, and what they are made of.\<close>

definition date_text :: "time \<Rightarrow> string" where
  "date_text t = (let d = t div day_us; y = year_of_day d; r = d - days_before_year y; m = month_of_day y r in
     zero_pad 4 y @ ''-'' @ zero_pad 2 m @ ''-'' @ zero_pad 2 (r - days_before_month y m + 1))"

definition clock_text :: "time \<Rightarrow> string" where
  "clock_text t = (let us = t mod day_us; s = us div second in
     zero_pad 2 (s div 3600) @ '':'' @ zero_pad 2 (s div 60 mod 60) @ '':'' @ zero_pad 2 (s mod 60) @ fraction_text (us mod second))"

lemma isoformat_stamp: "isoformat_utc t = stamp (date_text t) (clock_text t)"
  by (simp add: isoformat_utc_def stamp_def date_text_def clock_text_def fraction_text_def Let_def)

text \<open>No field contains a separator.\<close>

lemma clock_text_chars:
  assumes "c \<in> {CHR ''-'', CHR ''+'', CHR ''Z''}"
  shows "c \<notin> set (clock_text t)"
proof -
  define us where "us = t mod day_us"
  define s where "s = us div second"
  have "0 \<le> us" "us < day_us" by (simp_all add: us_def)
  note b = clock_of_us(1-8) [OF this, folded s_def]
  have two: "c \<notin> set (zero_pad 2 n)" if "0 \<le> n" "n \<le> 59" for n
    using zero_pad_chars [of n 2 c] that assms by auto
  have six: "c \<notin> set (zero_pad 6 f)" if "0 \<le> f" "f \<le> 999999" for f
    using zero_pad_chars [of f 6 c] that assms by auto
  have "s div 3600 \<le> 59" using b(2) by (rule order_trans) simp
  with b two have "c \<notin> set (zero_pad 2 (s div 3600))" "c \<notin> set (zero_pad 2 (s div 60 mod 60))" "c \<notin> set (zero_pad 2 (s mod 60))"
    by blast+
  moreover have "c \<notin> set (fraction_text (us mod second))"
    using six [OF b(7,8)] assms by (auto simp: fraction_text_def)
  moreover have "c \<noteq> CHR '':''" using assms by auto
  ultimately show ?thesis
    unfolding clock_text_def Let_def us_def [symmetric] s_def [symmetric] by simp
qed

lemma text_of_instant:
  assumes "in_range t"
  shows "length (date_text t) = 10" "CHR ''Z'' \<notin> set (date_text t)"
    "\<exists>y m d h mi s f. parse_date (date_text t) = Inr (y, m, d) \<and> parse_clock (clock_text t) = Inr (h, mi, s, f)
       \<and> make_datetime y m d h mi s f = Inr t"
proof -
  define d where "d = t div day_us"
  define us where "us = t mod day_us"
  define y where "y = year_of_day d"
  define r where "r = d - days_before_year y"
  define m where "m = month_of_day y r"
  define dm where "dm = r - days_before_month y m + 1"
  define s where "s = us div second"
  have "0 \<le> d" "d < 3652059" using assms by (auto simp: d_def in_range_def max_time_def pos_imp_zdiv_nonneg_iff)
  note date = instant_date [OF this, folded y_def, folded r_def, folded m_def, folded dm_def]
  have "0 \<le> us" "us < day_us" by (simp_all add: us_def)
  note clock = clock_of_us [OF this, folded s_def]
  have h: "s div 3600 \<le> 59" using clock(2) by (rule order_trans) simp
  have dt: "date_text t = zero_pad 4 y @ ''-'' @ zero_pad 2 m @ ''-'' @ zero_pad 2 dm"
    by (simp add: date_text_def Let_def d_def y_def r_def m_def dm_def)
  have ct: "clock_text t = zero_pad 2 (s div 3600) @ '':'' @ zero_pad 2 (s div 60 mod 60) @ '':'' @ zero_pad 2 (s mod 60)
      @ fraction_text (us mod second)"
    by (simp add: clock_text_def Let_def us_def s_def)
  have y: "0 \<le> y" "y < 10 ^ 4" and m: "0 \<le> m" "m < 10 ^ 2" and dm: "0 \<le> dm" "dm < 10 ^ 2"
    using date days_in_month_le [of y m] by simp_all
  note fields = zero_pad_field [OF y, simplified] zero_pad_field [OF m, simplified] zero_pad_field [OF dm, simplified]
  show "length (date_text t) = 10" unfolding dt using fields by simp
  show "CHR ''Z'' \<notin> set (date_text t)"
    unfolding dt using zero_pad_chars(3) [OF y] zero_pad_chars(3) [OF m] zero_pad_chars(3) [OF dm] by auto
  have "parse_date (date_text t) = Inr (y, m, dm)"
    unfolding dt using fields by (intro parse_date_layout)
  moreover have "parse_clock (clock_text t) = Inr (s div 3600, s div 60 mod 60, s mod 60, us mod second)"
    unfolding ct
    by (rule parse_clock_layout [OF two_digits(1) [OF clock(1) h] two_digits(1) [OF clock(3,4)] two_digits(1) [OF clock(5,6)]
          two_digits(2) [OF clock(1) h] two_digits(2) [OF clock(3,4)] two_digits(2) [OF clock(5,6)] parse_fraction_text [OF clock(7,8)]])
  moreover have "make_datetime y m dm (s div 3600) (s div 60 mod 60) (s mod 60) (us mod second) = Inr t"
  proof -
    have "days_before_year y + days_before_month y m + (dm - 1) = d" by (simp add: dm_def r_def)
    moreover have "d * day_us + us = t" unfolding d_def us_def by (rule div_mult_mod_eq)
    ultimately show ?thesis using make_datetime_fields [OF date clock(2,4,6,8,9)] by simp
  qed
  ultimately show "\<exists>y m d h mi s f. parse_date (date_text t) = Inr (y, m, d) \<and> parse_clock (clock_text t) = Inr (h, mi, s, f)
       \<and> make_datetime y m d h mi s f = Inr t" by blast
qed

lemma replace_z_plain: "CHR ''Z'' \<notin> set s \<Longrightarrow> replace_z (s @ t) = s @ replace_z t"
  by (induction s) (auto simp: replace_z_def)

lemma utc_z_stamp: "utc_z t = date_text t @ ''T'' @ clock_text t @ ''Z''"
  by (simp add: utc_z_def isoformat_stamp stamp_def Let_def)

lemma parse_printed:
  assumes "in_range t"
  shows "fromisoformat (isoformat_utc t) = Inr (Aware t 0)"
    "replace_z (isoformat_utc t) = isoformat_utc t" "replace_z (utc_z t) = isoformat_utc t"
proof -
  note x = text_of_instant [OF assms]
  have z: "CHR ''Z'' \<notin> set (date_text t @ ''T'' @ clock_text t)" using x(2) clock_text_chars by simp
  show "fromisoformat (isoformat_utc t) = Inr (Aware t 0)"
  proof -
    obtain y m d h mi s f where p: "parse_date (date_text t) = Inr (y, m, d)" "parse_clock (clock_text t) = Inr (h, mi, s, f)"
      "make_datetime y m d h mi s f = Inr t" using x(3) by blast
    have "CHR ''-'' \<notin> set (clock_text t)" "CHR ''+'' \<notin> set (clock_text t)" by (simp_all add: clock_text_chars)
    from fromisoformat_stamp [OF p(1,2) x(1) this] show ?thesis by (simp add: isoformat_stamp p(3))
  qed
  have "isoformat_utc t = (date_text t @ ''T'' @ clock_text t) @ ''+00:00''" by (simp add: isoformat_stamp stamp_def)
  then show "replace_z (isoformat_utc t) = isoformat_utc t"
    by (simp only: replace_z_plain [OF z]) (simp add: replace_z_def)
  have "utc_z t = (date_text t @ ''T'' @ clock_text t) @ ''Z''" by (simp add: utc_z_stamp)
  then show "replace_z (utc_z t) = isoformat_utc t"
    by (simp only: replace_z_plain [OF z]) (simp add: replace_z_def isoformat_stamp stamp_def)
qed

text \<open>
  C28: timestamps survive printing and parsing. For every instant that \<^verbatim>\<open>datetime\<close> can represent, the text
  that the code writes, with the offset \<^verbatim>\<open>+00:00\<close> or \<^verbatim>\<open>Z\<close>, is read back by the verifier as exactly that
  instant, to the microsecond; so different instants have different texts.
\<close>

theorem timestamp_round_trip:
  assumes "in_range t"
  shows "parse_timestamp (utc_z t) = Inr (Some t) \<and> parse_timestamp (isoformat_utc t) = Inr (Some t)"
  using parse_printed [OF assms] by (simp_all add: parse_timestamp_def astimezone_utc_def)

theorem timestamp_round_trip_witness:
  "parse_timestamp (utc_z 63903209584123456) = Inr (Some 63903209584123456)
     \<and> parse_timestamp (isoformat_utc 63903209584123456) = Inr (Some 63903209584123456)"
proof -
  have "in_range 63903209584123456" by (simp add: in_range_def max_time_def)
  from timestamp_round_trip [OF this] show ?thesis by blast
qed

end
