(* ===== verification/Command_Line.thy ===== *)
theory Command_Line
  imports Service_Agents
begin

text \<open>
  \<^verbatim>\<open>aor/cli.py\<close>: the command line routes a request, signs it with a fresh user key, and lets the e-mail,
  file and audit agents execute the plans, each under a Proof of Intent over a ledger of its own, and
  verifies each action at once. Everything but the files lives for one run.
\<close>

section \<open>Signing the prompt\<close>

text \<open>
  P-256 signing: the public key of a private key (given by its secret bytes), \<^verbatim>\<open>private_key.sign\<close>, which
  makes a DER signature, and \<^verbatim>\<open>decode_dss_signature\<close>.
\<close>

record ec_libs =
  ec_public_key :: "bytes \<Rightarrow> public_key"
  ec_sign :: "bytes \<Rightarrow> bytes \<Rightarrow> bytes"
  dss_numbers :: "bytes \<Rightarrow> nat \<times> nat"

text \<open>\<^verbatim>\<open>n.to_bytes(32, "big")\<close>\<close>

definition to_bytes_32 :: "nat \<Rightarrow> bytes res" where
  "to_bytes_32 n = (if n < 256 ^ 32 then Inr (to_bytes_big 32 n) else Inl (Exc OverflowError ''int too big to convert''))"

definition prompt_payload :: "string \<Rightarrow> time \<Rightarrow> string \<Rightarrow> json dict" where
  "prompt_payload prompt now nonce =
     [(''prompt'', JStr prompt), (''user_id'', JStr ''cli-user''), (''session_id'', JStr ''cli-session''),
      (''timestamp'', JStr (utc_z now)), (''nonce'', JStr nonce)]"

definition signed_prompt :: "crypto_libs \<Rightarrow> ec_libs \<Rightarrow> bytes \<Rightarrow> time \<Rightarrow> string \<Rightarrow> string \<Rightarrow> signed_envelope res" where
  "signed_prompt L E key now nonce prompt =
     (let payload = prompt_payload prompt now nonce in
      bind_res (hash_payload L (JObj payload)) (\<lambda>h.
        let (r, s) = dss_numbers E (ec_sign E key h) in
        bind_res (to_bytes_32 r) (\<lambda>rb. bind_res (to_bytes_32 s) (\<lambda>sb.
          validate_envelope (payload @ [(''signature'', JStr (b64encode (rb @ sb))), (''pubkey_id'', JStr ''cli-user-key'')])))))"

section \<open>The state of a run\<close>

text \<open>What a run prints, by the object that is printed.\<close>

datatype output_line =
  RouteLine route_result | PlanLine action_plan | CancelledLine | RejectedLine "string option"
| ActionLine action_result verification_trace

record cli =
  ci_keys :: key_table
  ci_nonces :: nonce_store
  ci_evidence :: evidence_store
  ci_ledgers :: ledger_heap
  ci_mail :: mail_state
  ci_output :: "output_line list"

record cli_agents =
  ca_workspace :: path
  ca_email :: email_agent
  ca_file :: file_agent
  ca_audit :: audit_agent

definition on_cli_keys :: "(key_table \<Rightarrow> ('a \<times> key_table) res) \<Rightarrow> (cli, 'a) act" where
  "on_cli_keys f s = (case f (ci_keys s) of Inl e \<Rightarrow> (Inl e, s) | Inr (x, st) \<Rightarrow> (Inr x, s\<lparr>ci_keys := st\<rparr>))"

definition on_cli_evidence :: "(audit_state, 'a) act \<Rightarrow> (cli, 'a) act" where
  "on_cli_evidence m = zoom (\<lambda>s. (ci_evidence s, ci_ledgers s)) (\<lambda>(st, H) s. s\<lparr>ci_evidence := st, ci_ledgers := H\<rparr>) m"

definition on_cli_mail :: "(mail_state, 'a) act \<Rightarrow> (cli, 'a) act" where
  "on_cli_mail m = zoom ci_mail (\<lambda>ms s. s\<lparr>ci_mail := ms\<rparr>) m"

definition on_cli_files :: "(file_system, 'a) act \<Rightarrow> (cli, 'a) act" where
  "on_cli_files m = on_cli_mail (mail_files m)"

definition print_line :: "output_line \<Rightarrow> (cli, unit) act" where
  "print_line l = modify (\<lambda>s. s\<lparr>ci_output := ci_output s @ [l]\<rparr>)"

section \<open>Parts of a run\<close>

text \<open>\<^verbatim>\<open>load_agent_keypair\<close> with its key directory in the file system; the file is created exclusively.\<close>

definition load_keypair_in :: "crypto_libs \<Rightarrow> bytes \<Rightarrow> path \<Rightarrow> string \<Rightarrow> (file_system, private_key) act" where
  "load_keypair_in L seed dir aid =
     bind_act (lift_res (key_file L aid)) (\<lambda>name.
     bind_act (reads (\<lambda>fs. Inr (path_exists fs (dir @ [name])))) (\<lambda>present.
       if present then bind_act (read_bytes (dir @ [name])) (\<lambda>pem. lift_res (deserialize_private_key_pem L pem))
       else
         bind_act (make_dirs dir) (\<lambda>_.
         bind_act (reads (\<lambda>fs. Inr (case locate fs dir of None \<Rightarrow> False | Some d \<Rightarrow> node_at fs (d @ [name]) \<noteq> None))) (\<lambda>taken.
           if taken then bind_act (read_bytes (dir @ [name])) (\<lambda>pem. lift_res (deserialize_private_key_pem L pem))
           else
             let k = fst (generate_keypair L seed) in
             bind_act (lift_res (serialize_private_key_pem L k)) (\<lambda>pem.
             bind_act (write_bytes (dir @ [name]) pem) (\<lambda>_. ret k))))))"

definition cli_registry :: "cli_agents \<Rightarrow> cli \<Rightarrow> agent_registry" where
  "cli_registry A s = map (\<lambda>a. (ag_type a, a))
     [\<lparr>ag_type = ''email'', ag_id = em_id (ca_email A), ag_can_handle = email_can_handle, ag_plan = email_plan (ca_email A)\<rparr>,
      \<lparr>ag_type = ''file'', ag_id = fa_id (ca_file A), ag_can_handle = file_can_handle,
       ag_plan = file_plan (ca_file A) (ms_files (ci_mail s))\<rparr>,
      \<lparr>ag_type = ''audit'', ag_id = aa_id (ca_audit A), ag_can_handle = audit_can_handle, ag_plan = audit_plan (ca_audit A)\<rparr>]"

definition cli_audit_env :: "service_libs \<Rightarrow> request \<Rightarrow> cli \<Rightarrow> audit_env" where
  "cli_audit_env V R s = \<lparr>av_crypto = vl_crypto V, av_text = vl_text V, av_tsa = vl_tsa V,
     av_outside = \<lambda>_. \<lparr>out_tsa_config = vl_tsa_json V, out_get = rq_get R, out_database = empty_database\<rparr>,
     av_clocks = rq_lookup R, av_pipeline = \<lparr>vp_registry = ci_keys s, vp_anchors = Some new_anchor_store\<rparr>\<rparr>"

text \<open>\<^verbatim>\<open>agent_registry.get(plan.agent_type).execute(plan, poi)\<close>\<close>

definition cli_execute :: "service_libs \<Rightarrow> cli_agents \<Rightarrow> request \<Rightarrow> action_plan \<Rightarrow> proof_of_intent \<Rightarrow> (cli, action_result) act" where
  "cli_execute V A R p q =
     bind_act (reads (\<lambda>s. get_agent (cli_registry A s) (ap_agent_type p))) (\<lambda>a.
       if ag_type a = ''email''
       then on_cli_mail (email_execute (mail_libs_of V) (rq_smtp R) (rq_mail R 0) (ca_email A) p (Some q))
       else if ag_type a = ''file'' then on_cli_files (file_execute (file_libs_of V) (ca_file A) p (Some q))
       else (\<lambda>s. on_cli_evidence (audit_execute (cli_audit_env V R s) (ca_audit A) p (Some q)) s))"

text \<open>The confirmation prompt; \<open>None\<close> is the refusal.\<close>

definition confirm_plan :: "string res \<Rightarrow> bool \<Rightarrow> action_plan \<Rightarrow> (cli, action_plan option) act" where
  "confirm_plan answer assume_yes p =
     (if \<not> ap_requires_confirmation p then ret (Some p)
      else if assume_yes then ret (Some (p\<lparr>ap_confirmed := True\<rparr>))
      else bind_act (lift_res answer) (\<lambda>text.
        ret (if str_lower text \<in> {''y'', ''yes''} then Some (p\<lparr>ap_confirmed := True\<rparr>) else None)))"

definition report_of :: "action_result \<Rightarrow> string option" where
  "report_of r = (case map_of (res_details r) ''report_markdown'' of Some (JStr t) \<Rightarrow> Some t | _ \<Rightarrow> None)"

definition with_report :: "action_result option \<Rightarrow> action_plan \<Rightarrow> action_plan" where
  "with_report previous p =
     (case previous of
        None \<Rightarrow> p
      | Some r \<Rightarrow>
          if ap_action_type p = ''file.create'' \<and> \<not> truthy (get_or_null (ap_payload p) ''content'')
          then (case report_of r of None \<Rightarrow> p | Some t \<Rightarrow> p\<lparr>ap_payload := dict_set ''content'' (JStr t) (ap_payload p)\<rparr>)
          else p)"

definition cli_system_prompt :: string where
  "cli_system_prompt = ''Only execute the exact typed action plan selected by the router.''"

text \<open>The ledger of an action: a fresh one, with the system prompt, the request and the payload.\<close>

definition action_ledger :: "crypto_libs \<Rightarrow> request \<Rightarrow> string \<Rightarrow> json \<Rightarrow> ledger res" where
  "action_ledger L R prompt payload =
     bind_res (ledger_append L (utc_z (rq_clock R 1)) ''system_prompt'' (JObj [(''text'', JStr cli_system_prompt)]) new_ledger) (\<lambda>(_, l1).
     bind_res (ledger_append L (utc_z (rq_clock R 2)) ''user_prompt'' (JObj [(''text'', JStr prompt)]) l1) (\<lambda>(_, l2).
       map_res snd (ledger_append L (utc_z (rq_clock R 3)) ''agent_action'' payload l2)))"

definition cli_check_envelope :: "service_libs \<Rightarrow> request \<Rightarrow> signed_envelope \<Rightarrow> (cli, verification_result) act" where
  "cli_check_envelope V R env s =
     (case verify_envelope (vl_crypto V) 60 (rq_attempt R) (registry_lookup (rq_clock R 4) (ci_keys s)) env (ci_nonces s) of
        (r, ns) \<Rightarrow> (r, s\<lparr>ci_nonces := ns\<rparr>))"

text \<open>The agent's key, its registration, and the signed PoI over the ledger of the action.\<close>

definition sign_plan :: "service_libs \<Rightarrow> cli_agents \<Rightarrow> request \<Rightarrow> string \<Rightarrow> action_plan \<Rightarrow> ledger \<Rightarrow> (cli, proof_of_intent) act" where
  "sign_plan V A R prompt p l =
     (let aid = named_agent p (ap_agent_type p @ ''-agent'') in
      bind_act (on_cli_files (load_keypair_in (vl_crypto V) (rq_seed R 0) (ca_workspace A @ [''.aor_agent_keys'']) aid)) (\<lambda>k.
      bind_act (on_cli_keys (register_agent_public_key (vl_crypto V) (rq_clock R 5) (rq_clock R 6) (rq_clock R 7) aid k)) (\<lambda>_.
        lift_res (bind_res (build_poi (vl_crypto V) (utc_z (rq_clock R 8)) (rq_uuid R 1) prompt cli_system_prompt l
             (JObj (ap_payload p)) ''cli-demo-model''
             (Some (ap_agent_type p), ap_agent_id p, Some (ap_action_type p), Some (ap_policy_decision p))) (\<lambda>q.
           sign_poi (vl_crypto V) q k)))))"

text \<open>\<^verbatim>\<open>result.artifact_ref or f"cli-{uuid4()}"\<close>\<close>

definition cli_action_id :: "request \<Rightarrow> action_result \<Rightarrow> string" where
  "cli_action_id R r =
     (case res_artifact_ref r of None \<Rightarrow> ''cli-'' @ rq_uuid R 2 | Some a \<Rightarrow> if a = [] then ''cli-'' @ rq_uuid R 2 else a)"

definition cli_evidence :: "string \<Rightarrow> signed_envelope \<Rightarrow> nat \<Rightarrow> ledger \<Rightarrow> proof_of_intent \<Rightarrow> action_plan \<Rightarrow> action_result \<Rightarrow> action_evidence" where
  "cli_evidence aid env i l q p r =
     \<lparr>ae_action_id = aid, ae_user_envelope = env, ae_system_prompt = cli_system_prompt, ae_ledger = i,
      ae_ledger_entry_count = int (length (all_entries l)), ae_eml_bytes = None, ae_poi = Some q,
      ae_action_type = Some (ap_action_type p), ae_action_payload = Some (JObj (ap_payload p)),
      ae_observed_effect = Some (JObj (res_observed_effect r)), ae_timestamp_token = None\<rparr>"

definition record_and_verify ::
  "service_libs \<Rightarrow> request \<Rightarrow> signed_envelope \<Rightarrow> ledger \<Rightarrow> proof_of_intent \<Rightarrow> action_plan \<Rightarrow> action_result \<Rightarrow> (cli, verification_trace) act"
where
  "record_and_verify V R env l q p r =
     bind_act (modify (\<lambda>s.
        let H = ci_ledgers s @ [l]; ev = cli_evidence (cli_action_id R r) env (length (ci_ledgers s)) l q p r in
        s\<lparr>ci_ledgers := H, ci_evidence := fst (register_evidence (vl_text V) H ev (ci_evidence s, empty_database))\<rparr>)) (\<lambda>_ s.
       on_cli_evidence (verify_at (cli_audit_env V R s) 0 None (Some (cli_action_id R r))) s)"

text \<open>
  One plan of the loop that was confirmed, in three parts: under a signed PoI, under a verified envelope, and
  from the signing of the prompt. \<open>None\<close> is \<^verbatim>\<open>return 1\<close>.
\<close>

definition perform_signed ::
  "service_libs \<Rightarrow> cli_agents \<Rightarrow> request \<Rightarrow> signed_envelope \<Rightarrow> action_plan \<Rightarrow> ledger \<Rightarrow> proof_of_intent \<Rightarrow> (cli, action_result option) act"
where
  "perform_signed V A R env p l q =
     bind_act (cli_execute V A R p q) (\<lambda>r.
     bind_act (record_and_verify V R env l q p r) (\<lambda>t.
     bind_act (print_line (ActionLine r t)) (\<lambda>_.
       ret (if res_success r \<and> vt_overall_valid t then Some r else None))))"

definition perform_verified ::
  "service_libs \<Rightarrow> cli_agents \<Rightarrow> request \<Rightarrow> string \<Rightarrow> signed_envelope \<Rightarrow> action_plan \<Rightarrow> (cli, action_result option) act"
where
  "perform_verified V A R prompt env p =
     bind_act (lift_res (action_ledger (vl_crypto V) R prompt (JObj (ap_payload p)))) (\<lambda>l.
     bind_act (sign_plan V A R prompt p l) (\<lambda>q.
       perform_signed V A R env p l q))"

definition run_confirmed ::
  "service_libs \<Rightarrow> ec_libs \<Rightarrow> cli_agents \<Rightarrow> request \<Rightarrow> bytes \<Rightarrow> string \<Rightarrow> action_plan \<Rightarrow> (cli, action_result option) act"
where
  "run_confirmed V E A R key prompt p =
     bind_act (lift_res (signed_prompt (vl_crypto V) E key (rq_clock R 0) (rq_uuid R 0) prompt)) (\<lambda>env.
     bind_act (cli_check_envelope V R env) (\<lambda>verified.
       if \<not> vr_valid verified then bind_act (print_line (RejectedLine (vr_reason verified))) (\<lambda>_. ret None)
       else perform_verified V A R prompt env p))"

text \<open>The loop over the plans: each meets its own answer and its own fresh values. The result is the exit status.\<close>

fun run_cli_plans ::
  "service_libs \<Rightarrow> ec_libs \<Rightarrow> cli_agents \<Rightarrow> (nat \<Rightarrow> request) \<Rightarrow> (nat \<Rightarrow> string res) \<Rightarrow> bool \<Rightarrow> bytes \<Rightarrow> string \<Rightarrow> nat
     \<Rightarrow> action_result option \<Rightarrow> action_plan list \<Rightarrow> (cli, nat) act"
where
  "run_cli_plans V E A Rs answers yes key prompt i previous [] = ret 0"
| "run_cli_plans V E A Rs answers yes key prompt i previous (p # ps) =
     bind_act (confirm_plan (answers i) yes p) (\<lambda>confirmed.
       case confirmed of
         None \<Rightarrow> bind_act (print_line CancelledLine) (\<lambda>_. ret 1)
       | Some p' \<Rightarrow>
           bind_act (run_confirmed V E A (Rs i) key prompt (with_report previous p')) (\<lambda>outcome.
             case outcome of
               None \<Rightarrow> ret 1
             | Some r \<Rightarrow> run_cli_plans V E A Rs answers yes key prompt (Suc i) (Some r) ps))"

section \<open>\<^verbatim>\<open>run_request\<close> and \<^verbatim>\<open>main\<close>\<close>

text \<open>The objects of a run; the agents find or make their directories in the workspace.\<close>

definition new_run :: "path \<Rightarrow> string \<Rightarrow> (cli, cli_agents) act" where
  "new_run cwd workspace =
     bind_act (reads (\<lambda>s. resolve_from (ms_files (ci_mail s)) cwd workspace)) (\<lambda>ws.
     bind_act (modify (\<lambda>s. s\<lparr>ci_keys := [], ci_evidence := new_evidence_store False, ci_ledgers := []\<rparr>)) (\<lambda>_.
     bind_act (lift_res (new_email_agent cwd (Some ((default_smtp_config cwd)\<lparr>sc_dry_run := True, sc_output_dir := ws @ [''.aor_outbox'']\<rparr>))
          None ''email-agent'')) (\<lambda>email.
     bind_act (on_cli_files (new_file_agent cwd (path_str ws) None ''file-agent'')) (\<lambda>file.
     bind_act (lift_res (new_audit_agent True ''audit-agent'')) (\<lambda>audit.
       ret \<lparr>ca_workspace = ws, ca_email = email, ca_file = file, ca_audit = audit\<rparr>)))))"

definition register_user :: "service_libs \<Rightarrow> ec_libs \<Rightarrow> request \<Rightarrow> bytes \<Rightarrow> (cli, unit) act" where
  "register_user V E R key =
     bind_act (on_cli_keys (register_key (vl_crypto V) (rq_clock R 1) ''cli-user'' ''cli-user-key''
          (public_der (vl_crypto V) (ec_public_key E key)) ''ECDSA-P256-SHA256'' (Aware (rq_clock R 0) 0) None None)) (\<lambda>_. ret ())"

definition run_request ::
  "service_libs \<Rightarrow> ec_libs \<Rightarrow> path \<Rightarrow> request \<Rightarrow> (nat \<Rightarrow> request) \<Rightarrow> (nat \<Rightarrow> string res) \<Rightarrow> bytes \<Rightarrow> string \<Rightarrow> string \<Rightarrow> bool
     \<Rightarrow> (cli, nat) act"
where
  "run_request V E cwd R Rs answers key prompt workspace yes =
     bind_act (new_run cwd workspace) (\<lambda>A.
     bind_act (reads (\<lambda>s. Inr (route (cli_registry A s) prompt))) (\<lambda>rr.
     bind_act (print_line (RouteLine rr)) (\<lambda>_.
       if \<not> rr_handled rr then ret 2
       else
         bind_act (reads (\<lambda>s. router_plan (cli_registry A s) prompt None)) (\<lambda>ps.
         bind_act (modify (\<lambda>s. s\<lparr>ci_output := ci_output s @ map PlanLine ps\<rparr>)) (\<lambda>_.
         bind_act (register_user V E R key) (\<lambda>_.
         bind_act (lift_res (new_nonce_store 300)) (\<lambda>ns.
         bind_act (modify (\<lambda>s. s\<lparr>ci_nonces := ns\<rparr>)) (\<lambda>_.
           run_cli_plans V E A Rs answers yes key prompt 0 None ps))))))))"

text \<open>\<^verbatim>\<open>main\<close> with the arguments as \<^verbatim>\<open>argparse\<close> hands them over: the words of the request, the workspace, \<^verbatim>\<open>--yes\<close>.\<close>

definition cli_main ::
  "service_libs \<Rightarrow> ec_libs \<Rightarrow> path \<Rightarrow> request \<Rightarrow> (nat \<Rightarrow> request) \<Rightarrow> (nat \<Rightarrow> string res) \<Rightarrow> bytes
     \<Rightarrow> string list \<Rightarrow> string option \<Rightarrow> bool \<Rightarrow> (cli, nat) act"
where
  "cli_main V E cwd R Rs answers key words workspace yes =
     run_request V E cwd R Rs answers key (str_join '' '' words)
       (case workspace of None \<Rightarrow> ''.aor_workspace'' | Some w \<Rightarrow> w) yes"

text \<open>What a run starts with: the file system.\<close>

definition cli_start :: "file_system \<Rightarrow> cli" where
  "cli_start fs = \<lparr>ci_keys = [], ci_nonces = \<lparr>ttl_seconds = 300, ns_seen = []\<rparr>, ci_evidence = new_evidence_store False, ci_ledgers = [],
     ci_mail = \<lparr>ms_files = fs, ms_sent = []\<rparr>, ci_output = []\<rparr>"

end
