(* ===== verification/Command_Demo.thy ===== *)
theory Command_Demo
  imports Command_Line Service_Demo Kernel_Evaluation
begin

text \<open>A concrete run of the command line: an audit request in an empty workspace, with the libraries of the service's instance.\<close>

definition demo_ec :: ec_libs where
  "demo_ec = \<lparr>ec_public_key = \<lambda>_. EllipticCurvePublicKey SECP256R1 5 6, ec_sign = \<lambda>_ m. m, dss_numbers = \<lambda>m. (unat (hd m), 5)\<rparr>"

lemma from_bytes_big_less: "from_bytes_big b < 256 ^ length b"
proof (induction b rule: rev_induct)
  case (snoc w b)
  have "from_bytes_big (b @ [w]) = from_bytes_big b * 256 + unat w" by (simp add: from_bytes_big_def)
  also have "\<dots> < (from_bytes_big b + 1) * 256" using unat_byte_less [of w] by (simp del: unat_byte_less)
  also have "\<dots> \<le> 256 ^ length b * 256" using snoc by (intro mult_le_mono1) simp
  finally show ?case by simp
qed (simp add: from_bytes_big_def)

lemma to_bytes_32_code [code]:
  "to_bytes_32 n = (if from_bytes_big (to_bytes_big 32 n) = n then Inr (to_bytes_big 32 n) else Inl (Exc OverflowError ''int too big to convert''))"
  using from_bytes_big_less [of "to_bytes_big 32 n"] by (auto simp: to_bytes_32_def from_to_bytes_big)

lemma signed_prompt_code [code]:
  "signed_prompt L E key now nonce prompt =
     (case hash_payload L (JObj (prompt_payload prompt now nonce)) of
        Inl e \<Rightarrow> Inl e
      | Inr h \<Rightarrow>
          (case to_bytes_32 (fst (dss_numbers E (ec_sign E key h))) of
             Inl e \<Rightarrow> Inl e
           | Inr rb \<Rightarrow>
               (case to_bytes_32 (snd (dss_numbers E (ec_sign E key h))) of
                  Inl e \<Rightarrow> Inl e
                | Inr sb \<Rightarrow>
                    validate_envelope (prompt_payload prompt now nonce
                      @ [(''signature'', JStr (b64encode (rb @ sb))), (''pubkey_id'', JStr ''cli-user-key'')]))))"
  by (simp add: signed_prompt_def Let_def split_beta split: sum.split)

definition demo_run_request :: "int \<Rightarrow> request" where
  "demo_run_request t = (demo_request t)\<lparr>rq_attempt := (demo_clocks t)\<lparr>wall_clock := 1000 + t\<rparr>, rq_uuid := \<lambda>i. [char_of (49 + i)]\<rparr>"

definition demo_run :: "nat res \<times> cli" where
  "demo_run = run_request demo_service_libs demo_ec [] (demo_run_request 0) (\<lambda>i. demo_run_request (1 + int i)) (\<lambda>i. Inl (Exc OSError []))
     [7] ''tamper'' ''/w'' False (cli_start [])"

lemma demo_prompt_signed: "(case signed_prompt demo_flat_libs demo_ec [7] 1000 ''1'' ''tamper'' of Inl _ \<Rightarrow> False | Inr _ \<Rightarrow> True)"
  by code_simp

lemma demo_user_registered:
  "(case register_key demo_flat_libs 1000 ''cli-user'' ''cli-user-key'' (public_der demo_flat_libs (ec_public_key demo_ec [7]))
      ''ECDSA-P256-SHA256'' (Aware 1000 0) None None [] of Inl _ \<Rightarrow> False | Inr _ \<Rightarrow> True)"
  by code_simp

lemma demo_run_result:
  "(fst demo_run, map (\<lambda>(aid, ev). (aid, ae_ledger ev, ae_poi ev = None)) (es_evidence (ci_evidence (snd demo_run))),
    length (ci_output (snd demo_run))) = (Inr 0, [(''cli-3'', 0, False)], 3)"
  by code_simp

end
