(* ===== verification/Command_Contracts.thy ===== *)
theory Command_Contracts
  imports Iso_Roundtrip Service_Contracts Command_Demo
begin

text \<open>
  What the command line guarantees: the prompt it signs is accepted by its verifier, every piece of evidence
  of a run is bound to the request and to exactly the context the action had, and exit status 0 means that
  every planned action succeeded and was verified.
\<close>

section \<open>The signed prompt is accepted\<close>

text \<open>
  What the code relies on: a P-256 key pair of the library survives its DER encoding, and a signature that
  it makes passes its check.
\<close>

definition ec_correct :: "crypto_libs \<Rightarrow> ec_libs \<Rightarrow> bool" where
  "ec_correct L E \<longleftrightarrow> (\<forall>key. \<exists>x y. ec_public_key E key = EllipticCurvePublicKey SECP256R1 x y
     \<and> load_der_public_key L (public_der L (ec_public_key E key)) = Inr (ec_public_key E key)
     \<and> (\<forall>m. ecdsa_check L x y (fst (dss_numbers E (ec_sign E key m))) (snd (dss_numbers E (ec_sign E key m))) m))"

lemma to_bytes_32_eq_Inr: "to_bytes_32 n = Inr b \<longleftrightarrow> n < 256 ^ 32 \<and> b = to_bytes_big 32 n"
  by (auto simp: to_bytes_32_def)

lemma signed_prompt_parts:
  assumes "signed_prompt L E key now nonce prompt = Inr env"
  obtains h r t where "hash_payload L (JObj (prompt_payload prompt now nonce)) = Inr h" "dss_numbers E (ec_sign E key h) = (r, t)"
    "r < 256 ^ 32" "t < 256 ^ 32"
    "validate_envelope (prompt_payload prompt now nonce
       @ [(''signature'', JStr (b64encode (to_bytes_big 32 r @ to_bytes_big 32 t))), (''pubkey_id'', JStr ''cli-user-key'')]) = Inr env"
proof -
  obtain h where h: "hash_payload L (JObj (prompt_payload prompt now nonce)) = Inr h"
    using assms by (auto simp: signed_prompt_def Let_def bind_res_eq_Inr)
  obtain r t where d: "dss_numbers E (ec_sign E key h) = (r, t)" by (cases "dss_numbers E (ec_sign E key h)")
  show ?thesis
    by (rule that [OF h d]) (use assms in \<open>auto simp: signed_prompt_def Let_def h d bind_res_eq_Inr to_bytes_32_eq_Inr\<close>)
qed

lemma validated_prompt:
  assumes "validate_envelope (prompt_payload prompt now nonce @ [(''signature'', JStr sig), (''pubkey_id'', JStr ''cli-user-key'')]) = Inr env"
  shows "env = \<lparr>env_prompt = prompt, env_user_id = ''cli-user'', env_session_id = ''cli-session'', env_timestamp = utc_z now,
    env_nonce = nonce, env_signature = sig, env_pubkey_id = ''cli-user-key'', env_signature_algorithm = ''ECDSA-P256-SHA256''\<rparr>"
  using assms by (auto simp: validate_envelope_def bind_res_eq_Inr prompt_payload_def required_text_def split: if_splits)

lemma signed_prompt_fields:
  assumes "signed_prompt L E key now nonce prompt = Inr env"
  shows "env_prompt env = prompt" "env_timestamp env = utc_z now" "env_nonce env = nonce" "env_pubkey_id env = ''cli-user-key''"
    "env_signature_algorithm env = ''ECDSA-P256-SHA256''" "signing_payload env = JObj (prompt_payload prompt now nonce)"
  by (rule signed_prompt_parts [OF assms], drule validated_prompt, simp add: signing_payload_def prompt_payload_def)+

lemma signed_prompt_checks:
  assumes "ec_correct L E" "signed_prompt L E key now nonce prompt = Inr env"
    and "lookup ''cli-user-key'' = Some (StoredBytes (public_der L (ec_public_key E key)))"
  shows "check_signature L lookup env = Inr accepted"
proof -
  obtain x y where k: "ec_public_key E key = EllipticCurvePublicKey SECP256R1 x y"
      "load_der_public_key L (public_der L (ec_public_key E key)) = Inr (ec_public_key E key)"
    and c: "\<And>m. ecdsa_check L x y (fst (dss_numbers E (ec_sign E key m))) (snd (dss_numbers E (ec_sign E key m))) m"
    using assms(1) unfolding ec_correct_def by blast
  obtain h r s where h: "hash_payload L (signing_payload env) = Inr h" "dss_numbers E (ec_sign E key h) = (r, s)"
      "r < 256 ^ 32" "s < 256 ^ 32" "env_signature env = b64encode (to_bytes_big 32 r @ to_bytes_big 32 s)"
    unfolding signed_prompt_fields(6) [OF assms(2)]
    by (rule signed_prompt_parts [OF assms(2)]) (auto dest: validated_prompt)
  have "load_registered_public_key L (StoredBytes (public_der L (ec_public_key E key))) = Inr (ec_public_key E key)"
    using k(2) by (simp add: load_registered_public_key_def k(1))
  moreover have "verify L (ec_public_key E key) (to_bytes_big 32 r @ to_bytes_big 32 s) h = Inr True"
    using c [of h] h(2-4) by (simp add: verify_def k(1) from_to_bytes_big)
  ultimately show ?thesis
    unfolding check_signature_accepts using signed_prompt_fields [OF assms(2)] assms(3) h(1,5) by (auto simp: b64decode_encode)
qed

section \<open>The evidence of a run\<close>

text \<open>
  Evidence of an action that was confirmed where that is required, under a prompt whose signature verifies,
  with a ledger that holds the system prompt, the request and the executed payload, and a PoI that commits
  all three and the ledger.
\<close>

definition context_of :: "string \<Rightarrow> json \<Rightarrow> (string \<times> json) list" where
  "context_of prompt payload =
     [(''system_prompt'', JObj [(''text'', JStr cli_system_prompt)]), (''user_prompt'', JObj [(''text'', JStr prompt)]),
      (''agent_action'', payload)]"

definition action_committed :: "crypto_libs \<Rightarrow> string \<Rightarrow> action_plan \<Rightarrow> proof_of_intent \<Rightarrow> ledger \<Rightarrow> signed_envelope \<Rightarrow> bool" where
  "action_committed L prompt p q l env \<longleftrightarrow>
     map (\<lambda>e. (entry_type e, content e)) (all_entries l) = context_of prompt (JObj (ap_payload p)) \<and> ledger_reach L l
     \<and> committed L env cli_system_prompt p q l \<and> (ap_requires_confirmation p \<longrightarrow> ap_confirmed p) \<and> env_prompt env = prompt"

definition run_backed :: "crypto_libs \<Rightarrow> string \<Rightarrow> key_table \<Rightarrow> ledger_heap \<Rightarrow> action_evidence \<Rightarrow> bool" where
  "run_backed L prompt st H ev \<longleftrightarrow> ae_ledger ev < length H \<and> vouched L st (ae_user_envelope ev)
     \<and> (\<exists>p q. action_committed L prompt p q (H ! ae_ledger ev) (ae_user_envelope ev)
         \<and> ae_system_prompt ev = cli_system_prompt \<and> ae_ledger_entry_count ev = 3 \<and> ae_poi ev = Some q
         \<and> ae_action_type ev = Some (ap_action_type p) \<and> ae_action_payload ev = Some (JObj (ap_payload p)))"

definition run_inv :: "crypto_libs \<Rightarrow> string \<Rightarrow> signed_envelope set \<Rightarrow> cli \<Rightarrow> bool" where
  "run_inv L prompt N s \<longleftrightarrow> (\<forall>env \<in> N. vouched L (ci_keys s) env)
     \<and> (\<forall>aid ev. map_of (es_evidence (ci_evidence s)) aid = Some ev \<longrightarrow> run_backed L prompt (ci_keys s) (ci_ledgers s) ev)"

lemma run_inv_start: "run_inv L prompt {} (cli_start fs)"
  by (simp add: run_inv_def cli_start_def new_evidence_store_def)

lemma run_inv_same:
  "run_inv L prompt N s \<Longrightarrow> ci_keys s' = ci_keys s \<Longrightarrow> ci_evidence s' = ci_evidence s \<Longrightarrow> ci_ledgers s' = ci_ledgers s
     \<Longrightarrow> run_inv L prompt N s'"
  by (simp add: run_inv_def)

lemma run_backed_later:
  "run_backed L prompt st H ev \<Longrightarrow> (registry_step L)\<^sup>*\<^sup>* st st' \<Longrightarrow> run_backed L prompt st' (H @ fresh) ev"
  unfolding run_backed_def by (auto simp: nth_append intro: vouched_later)

lemma keeps_run_outside:
  "keeps (run_inv L prompt N) (on_cli_mail m)" "keeps (run_inv L prompt N) (on_cli_files m')" "keeps (run_inv L prompt N) (print_line l)"
  by (auto intro!: keepsI elim!: run_inv_same simp: on_cli_mail_def on_cli_files_def print_line_def zoom_def modify_def split: prod.split)

lemma keeps_run_keys:
  assumes "\<And>st x st'. f st = Inr (x, st') \<Longrightarrow> (registry_step L)\<^sup>*\<^sup>* st st'"
  shows "keeps (run_inv L prompt N) (on_cli_keys f)"
proof (rule keepsI)
  fix s assume inv: "run_inv L prompt N s"
  show "run_inv L prompt N (snd (on_cli_keys f s))"
  proof (cases "f (ci_keys s)")
    case (Inr r)
    obtain x st where r: "r = (x, st)" by (cases r)
    note steps = assms [OF Inr [unfolded r]]
    show ?thesis
      using inv vouched_later [OF _ steps] run_backed_later [OF _ steps, where fresh = "[]"]
      by (simp add: on_cli_keys_def Inr r run_inv_def)
  qed (use inv in \<open>simp add: on_cli_keys_def\<close>)
qed

lemma keeps_run_evidence:
  assumes "moves (only_loads X) m" "\<And>i. out_database (av_outside X i) = empty_database"
  shows "keeps (run_inv L prompt N) (on_cli_evidence m)"
proof (rule keepsI)
  fix s assume inv: "run_inv L prompt N s"
  obtain r st H where m: "m (ci_evidence s, ci_ledgers s) = (r, st, H)" by (metis prod_cases3)
  have l: "only_loads X (ci_evidence s, ci_ledgers s) (st, H)" using movesD [OF assms(1), of "(ci_evidence s, ci_ledgers s)"] by (simp add: m)
  then obtain more where H: "H = ci_ledgers s @ more" by (auto simp: only_loads_def)
  have "map_of (es_evidence (ci_evidence s)) aid = Some ev" if "map_of (es_evidence st) aid = Some ev" for aid ev
    using l that by (cases "map_of (es_evidence (ci_evidence s)) aid")
      (fastforce simp: only_loads_def assms(2) get_action_evidence_def empty_database_def)+
  moreover have "run_backed L prompt (ci_keys s) (ci_ledgers s @ more) ev" if "run_backed L prompt (ci_keys s) (ci_ledgers s) ev" for ev
    using run_backed_later [OF that] by blast
  ultimately show "run_inv L prompt N (snd (on_cli_evidence m s))"
    using inv unfolding run_inv_def by (simp add: on_cli_evidence_def zoom_def m H) blast
qed

lemma cli_audit_database: "out_database (av_outside (cli_audit_env V R s) i) = empty_database"
  by (simp add: cli_audit_env_def)

lemma keeps_cli_execute: "keeps (run_inv L prompt N) (cli_execute V A R p q)"
  unfolding cli_execute_def
proof (rule keeps_bind [OF keeps_still(4)])
  fix a
  have "keeps (run_inv L prompt N) (\<lambda>s. on_cli_evidence (audit_execute (cli_audit_env V R s) (ca_audit A) p (Some q)) s)"
    by (rule keeps_state_action) (rule keeps_run_evidence [OF audit_execute_loads cli_audit_database])
  then show "keeps (run_inv L prompt N) (if ag_type a = ''email''
       then on_cli_mail (email_execute (mail_libs_of V) (rq_smtp R) (rq_mail R 0) (ca_email A) p (Some q))
       else if ag_type a = ''file'' then on_cli_files (file_execute (file_libs_of V) (ca_file A) p (Some q))
       else (\<lambda>s. on_cli_evidence (audit_execute (cli_audit_env V R s) (ca_audit A) p (Some q)) s))"
    by (simp add: keeps_run_outside)
qed

lemma cli_check_run:
  assumes "cli_check_envelope V R env s = (r, s')"
  shows "ci_keys s' = ci_keys s \<and> ci_evidence s' = ci_evidence s \<and> ci_ledgers s' = ci_ledgers s"
    "r = Inr v \<Longrightarrow> vr_valid v \<Longrightarrow> vouched (vl_crypto V) (ci_keys s) env"
proof -
  show "ci_keys s' = ci_keys s \<and> ci_evidence s' = ci_evidence s \<and> ci_ledgers s' = ci_ledgers s"
    using assms by (auto simp: cli_check_envelope_def split: prod.splits)
  assume v: "r = Inr v" "vr_valid v"
  with assms have f: "fst (verify_envelope (vl_crypto V) 60 (rq_attempt R) (registry_lookup (rq_clock R 4) (ci_keys s)) env (ci_nonces s)) = Inr v"
    by (auto simp: cli_check_envelope_def split: prod.splits)
  with verify_envelope_valid [OF this v(2)] show "vouched (vl_crypto V) (ci_keys s) env"
    by (auto simp: verify_envelope_accepts intro: accepted_vouched)
qed

lemma runs_cli_check:
  assumes "vl_crypto V = L"
  shows "runs (run_inv L prompt {}) (cli_check_envelope V R env) (\<lambda>v. run_inv L prompt (if vr_valid v then {env} else {})) (run_inv L prompt {})"
proof (rule runsI)
  fix s v s' assume inv: "run_inv L prompt {} s" and c: "cli_check_envelope V R env s = (Inr v, s')"
  show "run_inv L prompt (if vr_valid v then {env} else {}) s'"
    using inv cli_check_run [OF c] assms by (auto simp: run_inv_def)
next
  fix s e s' assume inv: "run_inv L prompt {} s" and c: "cli_check_envelope V R env s = (Inl e, s')"
  show "run_inv L prompt {} s'" using run_inv_same [OF inv] cli_check_run(1) [OF c] by blast
qed

lemma action_ledger_holds:
  assumes "action_ledger L R prompt payload = Inr l"
  shows "ledger_reach L l" "map (\<lambda>e. (entry_type e, content e)) (all_entries l) = context_of prompt payload"
proof -
  obtain e1 l1 e2 l2 e3 where a:
      "ledger_append L (utc_z (rq_clock R 1)) ''system_prompt'' (JObj [(''text'', JStr cli_system_prompt)]) new_ledger = Inr (e1, l1)"
      "ledger_append L (utc_z (rq_clock R 2)) ''user_prompt'' (JObj [(''text'', JStr prompt)]) l1 = Inr (e2, l2)"
      "ledger_append L (utc_z (rq_clock R 3)) ''agent_action'' payload l2 = Inr (e3, l)"
    using assms by (auto simp: action_ledger_def bind_res_eq_Inr map_res_eq_Inr)
  show "ledger_reach L l"
    by (rule ledger_reach.append [OF ledger_reach.append [OF ledger_reach.append [OF ledger_reach.init a(1)] a(2)] a(3)])
  show "map (\<lambda>e. (entry_type e, content e)) (all_entries l) = context_of prompt payload"
    using a by (auto simp: ledger_append_def bind_res_eq_Inr Let_def context_of_def all_entries_def new_ledger_def split: if_splits)
qed

lemma runs_sign_plan:
  assumes "vl_crypto V = L"
  shows "runs (run_inv L prompt {env}) (sign_plan V A R prompt p l)
     (\<lambda>q s. run_inv L prompt {env} s \<and> (env_prompt env = prompt \<longrightarrow> committed L env cli_system_prompt p q l)) (run_inv L prompt {env})"
  unfolding sign_plan_def Let_def
proof (rule runs_bind [OF keeps_run_outside(2)], rule runs_bind [OF keeps_run_keys])
  show "register_agent_public_key (vl_crypto V) (rq_clock R 5) (rq_clock R 6) (rq_clock R 7) (named_agent p (ap_agent_type p @ ''-agent'')) k st = Inr (x, st')
      \<Longrightarrow> (registry_step L)\<^sup>*\<^sup>* st st'" for k st x st'
    using register_agent_public_key_steps assms by blast
qed (rule runs_weaken [OF runs_lift], auto simp: assms bind_res_eq_Inr intro: committed_signed)

lemma runs_record_and_verify:
  assumes "vl_crypto V = L" "action_committed L prompt p q l env"
  shows "runs (run_inv L prompt {env}) (record_and_verify V R env l q p r) (\<lambda>_. run_inv L prompt {env}) (run_inv L prompt {env})"
  unfolding record_and_verify_def
proof (rule runs_bind)
  show "runs (run_inv L prompt {env}) (modify (\<lambda>s.
        let H = ci_ledgers s @ [l]; ev = cli_evidence (cli_action_id R r) env (length (ci_ledgers s)) l q p r in
        s\<lparr>ci_ledgers := H, ci_evidence := fst (register_evidence (vl_text V) H ev (ci_evidence s, empty_database))\<rparr>))
     (\<lambda>_. run_inv L prompt {env}) (run_inv L prompt {env})"
  proof (rule keepsI)
    fix s assume inv: "run_inv L prompt {env} s"
    have "length (map (\<lambda>e. (entry_type e, content e)) (all_entries l)) = 3"
      using assms(2) by (simp add: action_committed_def context_of_def)
    then have "run_backed L prompt (ci_keys s) (ci_ledgers s @ [l]) (cli_evidence (cli_action_id R r) env (length (ci_ledgers s)) l q p r)"
      using inv assms(2) by (auto simp: run_backed_def run_inv_def cli_evidence_def)
    moreover have "run_backed L prompt (ci_keys s) (ci_ledgers s @ [l]) ev" if "run_backed L prompt (ci_keys s) (ci_ledgers s) ev" for ev
      using run_backed_later [OF that] by blast
    ultimately show "run_inv L prompt {env} (snd (modify (\<lambda>s.
        let H = ci_ledgers s @ [l]; ev = cli_evidence (cli_action_id R r) env (length (ci_ledgers s)) l q p r in
        s\<lparr>ci_ledgers := H, ci_evidence := fst (register_evidence (vl_text V) H ev (ci_evidence s, empty_database))\<rparr>) s))"
      using inv by (auto simp: run_inv_def modify_def Let_def register_evidence_def map_of_dict_set split: if_splits)
  qed
  show "keeps (run_inv L prompt {env}) (\<lambda>s. on_cli_evidence (verify_at (cli_audit_env V R s) 0 None (Some (cli_action_id R r))) s)"
    by (rule keeps_state_action) (rule keeps_run_evidence [OF verify_at_loads cli_audit_database])
qed

lemma run_inv_fewer: "run_inv L prompt N s \<Longrightarrow> run_inv L prompt {} s"
  by (simp add: run_inv_def)

lemma runs_forget: "keeps (run_inv L prompt N) m \<Longrightarrow> runs (run_inv L prompt N) m (\<lambda>_. run_inv L prompt {}) (run_inv L prompt {})"
  by (rule runs_weaken [of "run_inv L prompt N" m "\<lambda>_. run_inv L prompt N" "run_inv L prompt N"]) (auto intro: run_inv_fewer)

lemma runs_known:
  "(\<And>x. r = Inr x \<Longrightarrow> runs P (f x) S E) \<Longrightarrow> (\<And>s. P s \<Longrightarrow> E s) \<Longrightarrow> runs P (bind_act (lift_res r) f) S E"
  by (cases r) (auto simp: runs_def)

lemma runs_fact: "(c \<Longrightarrow> runs P m Q E) \<Longrightarrow> runs (\<lambda>s. P s \<and> c) m Q E"
  by (auto simp: runs_def)

lemma keeps_perform_signed:
  assumes "vl_crypto V = L" "action_committed L prompt p q l env"
  shows "keeps (run_inv L prompt {env}) (perform_signed V A R env p l q)"
  unfolding perform_signed_def
  by (intro keeps_bind keeps_cli_execute runs_record_and_verify [OF assms] keeps_run_outside keeps_still)

lemma keeps_perform_verified:
  assumes L: "vl_crypto V = L" and p: "ap_requires_confirmation p \<longrightarrow> ap_confirmed p" and env: "env_prompt env = prompt"
  shows "keeps (run_inv L prompt {env}) (perform_verified V A R prompt env p)"
  unfolding perform_verified_def
proof (rule runs_known)
  fix l assume "action_ledger (vl_crypto V) R prompt (JObj (ap_payload p)) = Inr l"
  note l = action_ledger_holds [OF this]
  show "keeps (run_inv L prompt {env}) (bind_act (sign_plan V A R prompt p l) (\<lambda>q. perform_signed V A R env p l q))"
  proof (rule runs_bind [OF runs_sign_plan [OF L]], rule runs_fact)
    show "keeps (run_inv L prompt {env}) (perform_signed V A R env p l q)"
      if "env_prompt env = prompt \<longrightarrow> committed L env cli_system_prompt p q l" for q
      using that l p env by (intro keeps_perform_signed L) (auto simp: action_committed_def L)
  qed
qed

lemma keeps_run_confirmed:
  assumes L: "vl_crypto V = L" and p: "ap_requires_confirmation p \<longrightarrow> ap_confirmed p"
  shows "keeps (run_inv L prompt {}) (run_confirmed V E A R key prompt p)"
  unfolding run_confirmed_def
proof (rule runs_known)
  fix env assume "signed_prompt (vl_crypto V) E key (rq_clock R 0) (rq_uuid R 0) prompt = Inr env"
  note v = runs_forget [OF keeps_perform_verified [OF L p signed_prompt_fields(1) [OF this]]]
  have "keeps (run_inv L prompt {}) (bind_act (print_line x) (\<lambda>_. ret (None :: action_result option)))" for x
    by (intro keeps_bind keeps_run_outside keeps_still)
  then show "keeps (run_inv L prompt {}) (bind_act (cli_check_envelope V R env) (\<lambda>verified.
       if \<not> vr_valid verified then bind_act (print_line (RejectedLine (vr_reason verified))) (\<lambda>_. ret None)
       else perform_verified V A R prompt env p))"
    using v by (intro runs_bind [OF runs_cli_check [OF L]]) (simp split: if_split)
qed

lemma with_report_confirmation [simp]:
  "ap_requires_confirmation (with_report previous p) = ap_requires_confirmation p" "ap_confirmed (with_report previous p) = ap_confirmed p"
  by (auto simp: with_report_def split: option.split)

lemma runs_confirm:
  "runs P (confirm_plan answer yes p) (\<lambda>c s. P s \<and> (\<forall>p'. c = Some p' \<longrightarrow> ap_requires_confirmation p' \<longrightarrow> ap_confirmed p')) P"
  by (auto simp: runs_def confirm_plan_def act_defs split: sum.split)

lemma keeps_run_cli_plans:
  assumes L: "vl_crypto V = L"
  shows "keeps (run_inv L prompt {}) (run_cli_plans V E A Rs answers yes key prompt i previous ps)"
proof (induction ps arbitrary: i previous)
  case (Cons p ps)
  have "keeps (run_inv L prompt {}) (case c of
         None \<Rightarrow> bind_act (print_line CancelledLine) (\<lambda>_. ret 1)
       | Some p' \<Rightarrow>
           bind_act (run_confirmed V E A (Rs i) key prompt (with_report previous p')) (\<lambda>outcome.
             case outcome of
               None \<Rightarrow> ret 1
             | Some r \<Rightarrow> run_cli_plans V E A Rs answers yes key prompt (Suc i) (Some r) ps))"
    if "\<forall>p'. c = Some p' \<longrightarrow> ap_requires_confirmation p' \<longrightarrow> ap_confirmed p'" for c
    using that Cons.IH
    by (cases c) (auto intro!: keeps_bind keeps_run_outside keeps_still keeps_run_confirmed [OF L] split: option.split)
  then show ?case
    unfolding run_cli_plans.simps by (intro runs_bind [OF runs_confirm] runs_fact)
qed (simp add: keeps_still)

lemma keeps_run_request:
  assumes L: "vl_crypto V = L"
  shows "runs (run_inv L prompt {}) (run_request V E cwd R Rs answers key prompt workspace yes) (\<lambda>_. run_inv L prompt {}) (run_inv L prompt {})"
proof -
  have fresh: "keeps (run_inv L prompt {}) (modify (\<lambda>s. s\<lparr>ci_keys := [], ci_evidence := new_evidence_store False, ci_ledgers := []\<rparr>))"
    and out: "keeps (run_inv L prompt {}) (modify (\<lambda>s. s\<lparr>ci_output := ci_output s @ ls\<rparr>))"
    and nonces: "keeps (run_inv L prompt {}) (modify (\<lambda>s. s\<lparr>ci_nonces := ns\<rparr>))" for ls ns
    by (auto intro!: keepsI simp: run_inv_def modify_def new_evidence_store_def)
  have new: "keeps (run_inv L prompt {}) (new_run cwd workspace)"
    unfolding new_run_def by (intro keeps_bind keeps_still keeps_run_outside fresh)
  have user: "keeps (run_inv L prompt {}) (register_user V E R key)"
    unfolding register_user_def
    by (intro keeps_bind keeps_still keeps_run_keys r_into_rtranclp) (auto simp: L intro: registry_step.register)
  show ?thesis
    unfolding run_request_def
    by (auto intro!: keeps_bind new user out nonces keeps_still keeps_run_outside keeps_run_cli_plans [OF L])
qed

section \<open>What a run prints\<close>

text \<open>Actions do not print: only the loop does.\<close>

definition same_output :: "cli \<Rightarrow> cli \<Rightarrow> bool" where
  "same_output s s' \<longleftrightarrow> ci_output s' = ci_output s"

lemma same_output_order: "reflp same_output" "transp same_output"
  by (auto simp: same_output_def reflp_def transp_def)

lemma quiet_parts:
  "moves same_output (on_cli_mail m1)" "moves same_output (on_cli_files m2)" "moves same_output (on_cli_keys f)"
  "moves same_output (on_cli_evidence m3)" "moves same_output (cli_check_envelope V R env)"
  by (auto intro!: movesI simp: same_output_def on_cli_mail_def on_cli_files_def on_cli_keys_def on_cli_evidence_def
      cli_check_envelope_def zoom_def split: prod.split sum.split)

lemmas quiet_moves = moves_bind [OF same_output_order(2)] moves_still [OF same_output_order(1)] quiet_parts

lemma moves_state_action: "(\<And>s0. moves R (f s0)) \<Longrightarrow> moves R (\<lambda>s. f s s)"
  by (simp add: moves_def)

lemma quiet_execute: "moves same_output (cli_execute V A R p q)"
proof -
  have "moves same_output (\<lambda>s. on_cli_evidence (audit_execute (cli_audit_env V R s) (ca_audit A) p (Some q)) s)"
    by (rule moves_state_action) (rule quiet_parts)
  then show ?thesis unfolding cli_execute_def by (auto intro!: quiet_moves)
qed

lemma quiet_record: "moves same_output (record_and_verify V R env l q p r)"
  unfolding record_and_verify_def
proof (rule moves_bind [OF same_output_order(2)])
  show "moves same_output (\<lambda>s. on_cli_evidence (verify_at (cli_audit_env V R s) 0 None (Some (cli_action_id R r))) s)"
    by (rule moves_state_action) (rule quiet_parts)
qed (auto intro!: movesI simp: modify_def same_output_def Let_def)

lemma quiet_sign: "moves same_output (sign_plan V A R prompt p l)"
  unfolding sign_plan_def Let_def by (intro quiet_moves)

lemma quiet_run: "moves same_output m \<Longrightarrow> m s = (r, s') \<Longrightarrow> ci_output s' = ci_output s"
  using movesD [of same_output m s] by (simp add: same_output_def)

lemma performed_output:
  assumes "perform_signed V A R env p l q s = (Inr (Some r), s')"
  shows "\<exists>t. ci_output s' = ci_output s @ [ActionLine r t] \<and> res_success r \<and> vt_overall_valid t"
proof -
  obtain r0 t s1 s2 where e: "cli_execute V A R p q s = (Inr r0, s1)" and v: "record_and_verify V R env l q p r0 s1 = (Inr t, s2)"
    and p: "(if res_success r0 \<and> vt_overall_valid t then Some r0 else None) = Some r"
      "s' = s2\<lparr>ci_output := ci_output s2 @ [ActionLine r0 t]\<rparr>"
    using assms by (auto simp: perform_signed_def bind_act_eq_Inr print_line_def modify_def ret_def)
  then show ?thesis
    using quiet_run [OF quiet_execute e] quiet_run [OF quiet_record v] by (auto split: if_splits)
qed

lemma confirmed_output:
  assumes "run_confirmed V E A R key prompt p s = (Inr (Some r), s')"
  shows "\<exists>t. ci_output s' = ci_output s @ [ActionLine r t] \<and> res_success r \<and> vt_overall_valid t"
proof -
  obtain env v s1 where c: "cli_check_envelope V R env s = (Inr v, s1)"
    and f: "(if \<not> vr_valid v then bind_act (print_line (RejectedLine (vr_reason v))) (\<lambda>_. ret None)
       else perform_verified V A R prompt env p) s1 = (Inr (Some r), s')"
    using assms by (auto simp: run_confirmed_def bind_act_eq_Inr lift_res_def)
  then have "perform_verified V A R prompt env p s1 = (Inr (Some r), s')"
    by (auto simp: bind_act_eq_Inr ret_def split: if_splits)
  then obtain l q s2 where q: "sign_plan V A R prompt p l s1 = (Inr q, s2)" "perform_signed V A R env p l q s2 = (Inr (Some r), s')"
    by (auto simp: perform_verified_def bind_act_eq_Inr lift_res_def)
  show ?thesis
    using performed_output [OF q(2)] quiet_run [OF quiet_sign q(1)] quiet_run [OF quiet_parts(5) c] by simp
qed

lemma quiet_confirm: "confirm_plan answer yes p s = (r, s') \<Longrightarrow> s' = s"
  by (auto simp: confirm_plan_def act_defs split: if_splits sum.splits)

text \<open>The lines of successful, verified actions.\<close>

definition done_lines :: "output_line list \<Rightarrow> bool" where
  "done_lines ls \<longleftrightarrow> (\<forall>l \<in> set ls. \<exists>r t. l = ActionLine r t \<and> res_success r \<and> vt_overall_valid t)"

lemma run_cli_plans_output:
  assumes "run_cli_plans V E A Rs answers yes key prompt i previous ps s = (Inr 0, s')"
  shows "\<exists>ls. ci_output s' = ci_output s @ ls \<and> length ls = length ps \<and> done_lines ls"
  using assms
proof (induction ps arbitrary: i previous s)
  case (Cons p ps)
  obtain c where c: "confirm_plan (answers i) yes p s = (Inr c, s)"
    and rest: "(case c of
         None \<Rightarrow> bind_act (print_line CancelledLine) (\<lambda>_. ret 1)
       | Some p' \<Rightarrow>
           bind_act (run_confirmed V E A (Rs i) key prompt (with_report previous p')) (\<lambda>outcome.
             case outcome of
               None \<Rightarrow> ret 1
             | Some r \<Rightarrow> run_cli_plans V E A Rs answers yes key prompt (Suc i) (Some r) ps)) s = (Inr 0, s')"
    using Cons.prems by (auto simp: bind_act_eq_Inr simp del: One_nat_def dest: quiet_confirm)
  then obtain p' r s1 where r: "run_confirmed V E A (Rs i) key prompt (with_report previous p') s = (Inr (Some r), s1)"
      "run_cli_plans V E A Rs answers yes key prompt (Suc i) (Some r) ps s1 = (Inr 0, s')"
    by (auto simp: bind_act_eq_Inr ret_def split: option.splits)
  obtain t where t: "ci_output s1 = ci_output s @ [ActionLine r t]" "res_success r" "vt_overall_valid t"
    using confirmed_output [OF r(1)] by blast
  obtain ls where "ci_output s' = ci_output s1 @ ls" "length ls = length ps" "done_lines ls"
    using Cons.IH [OF r(2)] by blast
  with t show ?case by (intro exI [of _ "ActionLine r t # ls"]) (auto simp: done_lines_def)
qed (auto simp: ret_def done_lines_def)

lemma quiet_new_run: "moves same_output (new_run cwd workspace)"
  unfolding new_run_def by (intro quiet_moves) (auto intro!: movesI simp: modify_def same_output_def)

lemma quiet_register_user: "moves same_output (register_user V E R key)"
  unfolding register_user_def by (intro quiet_moves)

section \<open>Properties\<close>

text \<open>
  C8: a prompt that the command line signs is accepted. When the user key of the run is registered and not
  revoked, the wall clock of the verifier is at most 60 seconds from the time of signing, and the nonce is
  not one that the nonce store still holds, the verifier accepts the envelope: the timestamp text, the
  base64 signature of two 32-byte numbers, the DER key and the signed bytes fit together.
\<close>

theorem signed_prompt_accepted:
  assumes "ec_correct L E" "signed_prompt L E key now nonce prompt = Inr env" "in_range now"
    and "register_key L created ''cli-user'' ''cli-user-key'' (public_der L (ec_public_key E key)) ''ECDSA-P256-SHA256''
      (Aware valid 0) None None st = Inr (k, st')"
    and "valid \<le> later" "\<bar>wall_clock c - now\<bar> \<le> 60 * second" "nonce \<notin> fst ` set (ns_seen ns)"
  shows "fst (verify_envelope L 60 c (registry_lookup later st') env ns) = Inr accepted"
proof -
  have r: "st' = st @ [k]" "''cli-user-key'' \<notin> set (map pubkey_id st)" "pubkey_id k = ''cli-user-key''"
      "public_key_bytes k = public_der L (ec_public_key E key)" "valid_from k = valid" "valid_until k = None" "\<not> revoked k"
    using assms(4) by (auto simp: register_key_def bind_res_eq_Inr map_res_eq_Inr insert_key_def make_agent_key_record_def validator_def
        as_utc_def astimezone_utc_def optional_as_utc_def Let_def simp del: set_map split: if_splits)
  then have "find (\<lambda>r. pubkey_id r = ''cli-user-key'') st = None" by (force simp: find_None_iff)
  with r(1,3) have "get_key_by_id ''cli-user-key'' st' = Some k" by (simp add: get_key_by_id_def find_append)
  moreover have "is_active k later" using r(5-7) assms(5) by (simp add: is_active_def)
  moreover note r(4)
  ultimately have k: "get_key_by_id ''cli-user-key'' st' = Some k" "public_key_bytes k = public_der L (ec_public_key E key)" "is_active k later"
    by blast+
  then have "check_signature L (registry_lookup later st') env = Inr accepted"
    by (intro signed_prompt_checks [OF assms(1,2)]) (simp add: registry_lookup_def get_pubkey_def)
  moreover have "timestamp_is_fresh 60 (wall_clock c) (env_timestamp env) = Inr True"
    using parse_printed [OF assms(3)] assms(6)
    by (simp add: signed_prompt_fields(2) [OF assms(2)] timestamp_is_fresh_def parse_timestamp_def astimezone_utc_def)
  moreover have "fst (nonces.gate (seen_clock c, sweep_clock c, mark_clock c) (env_nonce env) ns)"
    using assms(7) by (auto simp: signed_prompt_fields(3) [OF assms(2)] nonces.gate_def has_seen_def sweep_expired_def Let_def map_of_eq_None_iff)
  ultimately show ?thesis unfolding verify_envelope_accepts by blast
qed

theorem signed_prompt_accepted_witness:
  "\<exists>env k st. signed_prompt demo_flat_libs demo_ec [7] 1000 ''1'' ''tamper'' = Inr env
     \<and> register_key demo_flat_libs 1000 ''cli-user'' ''cli-user-key'' (public_der demo_flat_libs (ec_public_key demo_ec [7]))
         ''ECDSA-P256-SHA256'' (Aware 1000 0) None None [] = Inr (k, st)
     \<and> fst (verify_envelope demo_flat_libs 60 ((demo_clocks 1)\<lparr>wall_clock := 2000\<rparr>) (registry_lookup 2000 st) env demo_nonces) = Inr accepted"
proof -
  obtain env where env: "signed_prompt demo_flat_libs demo_ec [7] 1000 ''1'' ''tamper'' = Inr env"
    using demo_prompt_signed by (auto split: sum.splits)
  obtain k st where k: "register_key demo_flat_libs 1000 ''cli-user'' ''cli-user-key'' (public_der demo_flat_libs (ec_public_key demo_ec [7]))
         ''ECDSA-P256-SHA256'' (Aware 1000 0) None None [] = Inr (k, st)"
    using demo_user_registered by (auto split: sum.splits)
  have e: "ec_correct demo_flat_libs demo_ec"
    using from_to_bytes_big [of 5 32] from_to_bytes_big [of 6 32]
    by (auto simp: ec_correct_def demo_ec_def demo_flat_libs_def demo_libs_def demo_ecdsa_def)
  have "in_range 1000" by (simp add: in_range_def max_time_def)
  from signed_prompt_accepted [OF e env this k, of 2000 "(demo_clocks 1)\<lparr>wall_clock := 2000\<rparr>" demo_nonces]
  have "fst (verify_envelope demo_flat_libs 60 ((demo_clocks 1)\<lparr>wall_clock := 2000\<rparr>) (registry_lookup 2000 st) env demo_nonces) = Inr accepted"
    by (simp add: demo_nonces_def)
  with env k show ?thesis by blast
qed





end
