(* ===== verification/Spec2Isabelle.thy ===== *)
theory Spec2Isabelle
  imports Aor_Prelude Encodings Iso_Time Crypto_Core Context_Ledger Merkle_Tree Key_Registry
    Envelope_Verifier Proof_Of_Intent Tsa_Anchor Account_Database Poi_Encoding Evidence_Store Verify_Pipeline
    Pipeline_Contracts Py_Regex Agent_Base Py_State File_System Database_Agent Smtp_Action Action_Executor Email_Agent
    Unified_Diff File_Agent Audit_Agent Service_State Service_Agents Service_Demo Service_Contracts
    Action_Rules Kernel_Evaluation Iso_Roundtrip Command_Line Command_Demo Command_Contracts
begin

text \<open>
  A verification library for Agent-of-Record: a service that lets software agents act on prompts a user
  has signed, and that can prove afterwards who asked for an action, in which context, and what was done.

  \<^bold>\<open>The program.\<close> A client sends an envelope: a prompt with user, session, time and nonce, signed with the
  user's P-256 key. The verifier checks freshness, nonce and signature against the key registry. For a
  verified prompt the service chooses an agent, lets it plan a typed action, appends system prompt, user
  prompt and action to the context ledger (a hash chain), and signs a Proof of Intent (PoI) that commits
  the hashes of both prompts, the Merkle root of the ledger and the hash of the action's payload. The
  agent executes the plan only under a PoI for exactly that payload. The evidence of the action is stored;
  the verification pipeline later recomputes every commitment, checks both signatures and an RFC 3161
  timestamp of the root, and reports six links and a verdict.

  \<^bold>\<open>Theories and the code they model\<close> (directories under \<^verbatim>\<open>src/\<close>).
  \<^item> \<open>Aor_Prelude\<close>, \<open>Encodings\<close>, \<open>Iso_Time\<close>, \<open>Py_Regex\<close>, \<open>Py_State\<close>, \<open>File_System\<close>: what the code uses of
    Python and its standard library. Exceptions are values (\<open>'a res = py_error + 'a\<close>); code that changes
    state and may raise is a state transformer \<open>('s, 'a) act\<close> that keeps the effects made before an
    exception; JSON objects and dictionaries are association lists in insertion order; hex and base64,
    \<^verbatim>\<open>fromisoformat\<close> and \<^verbatim>\<open>isoformat\<close>, backtracking regular expressions, paths, symbolic links and
    text files are executable definitions.
  \<^item> \<open>Crypto_Core\<close>: \<^verbatim>\<open>crypto_core/\<close>. \<open>Context_Ledger\<close>, \<open>Merkle_Tree\<close>: \<^verbatim>\<open>ledger_core/\<close>. \<open>Key_Registry\<close>:
    \<^verbatim>\<open>key_registry/\<close>. \<open>Envelope_Verifier\<close>: \<^verbatim>\<open>verifier_service/\<close> \<^verbatim>\<open>models.py\<close>, \<^verbatim>\<open>nonce_store.py\<close>,
    \<^verbatim>\<open>pubkey_store.py\<close>, \<^verbatim>\<open>verifier.py\<close>. \<open>Proof_Of_Intent\<close>: \<^verbatim>\<open>poi_generator/\<close>. \<open>Tsa_Anchor\<close>:
    \<^verbatim>\<open>tsa_anchor/\<close>. \<open>Account_Database\<close>: \<^verbatim>\<open>verifier_service/database.py\<close>.
  \<^item> \<open>Poi_Encoding\<close>, \<open>Smtp_Action\<close>, \<open>Action_Executor\<close>: \<^verbatim>\<open>action_executor/\<close>. \<open>Evidence_Store\<close>,
    \<open>Verify_Pipeline\<close>: \<^verbatim>\<open>verification_portal/backend/\<close>; \<open>Pipeline_Contracts\<close> holds its guarantees.
  \<^item> \<open>Agent_Base\<close>, \<open>Email_Agent\<close>, \<open>File_Agent\<close> with \<open>Unified_Diff\<close>, \<open>Database_Agent\<close>, \<open>Audit_Agent\<close>:
    \<^verbatim>\<open>aor/agents/\<close> and \<^verbatim>\<open>verifier_service/agent_runtime.py\<close>.
  \<^item> \<open>Service_State\<close>, \<open>Service_Agents\<close>: \<^verbatim>\<open>verifier_service/main.py\<close>, the application state and every
    endpoint; \<open>Service_Contracts\<close> holds the guarantees over all sequences of requests, applied to the
    concrete service of \<open>Service_Demo\<close>.
  \<^item> \<open>Command_Line\<close>: \<^verbatim>\<open>aor/cli.py\<close>, with its guarantees in \<open>Command_Contracts\<close> and a concrete run in
    \<open>Command_Demo\<close>. The service and the command line share the rules of \<open>Action_Rules\<close>;
    \<open>Iso_Roundtrip\<close> proves that timestamps survive printing and parsing; \<open>Kernel_Evaluation\<close> has code
    equations for the evaluation of concrete runs.

  \<^bold>\<open>State.\<close> A class with state is a record or the value it keeps, and a method a function from the state to
  the result and the next state. Where the code shares a mutable object, the model has a store and an
  index: ledgers live in a \<open>ledger_heap\<close>, evidence and sessions refer to them by position. A row of a
  table is a record, a table the list of its rows. Every reading of a clock, every random identifier or
  key, and every answer of the network is an argument, so the theorems hold for all of them.

  \<^bold>\<open>Interfaces\<close> are locales, each interpreted on the model: \<open>codec\<close> (the encodings), \<open>append_only\<close> (ledger
  and anchor log), \<open>persistent_store\<close> (key registry), \<open>replay_guard\<close> (nonce store and verifier),
  \<open>key_directory\<close> (the two key stores of the verifier), \<open>evidence_persistence\<close> (database and evidence
  store), \<open>poi_bound_agent\<close> (agents that execute only what a PoI commits), \<open>action_stable\<close> (what the acting
  endpoints leave alone).

  \<^bold>\<open>What is shown.\<close> For the verifier: exactly which envelopes are accepted, no replay, authenticity. For
  ledger and Merkle tree: every reachable ledger is a valid chain, a rewritten entry is located, proofs of
  all entries verify, root and proofs bind the context. For the PoI: it commits prompt, context and action,
  and a verifying PoI was signed. For the pipeline: a trace is always produced, the verdict is equivalent
  to the specification \<open>authentic\<close>, honest actions verify now and after a restart, changed records do not.
  For executor and agents: nothing happens without a PoI for the payload; the file agent stays in its
  workspace, its effects are exact, and unconfirmed plans lose no file; only safe SQL is run; artifacts
  carry their proof; an audit changes nothing and its success is a proof of authenticity. For stores and
  registries: bindings are permanent, revocation is final, evidence survives a restart. For the service:
  its state stays well-formed and bounded, refused prompts have no effect, every recorded action goes back
  to a signed prompt, and how a recorded action can fail later is characterised exactly. For the command
  line: the prompt it signs is accepted, its evidence is bound to the request and the executed payload, and
  exit status 0 means that everything was done and verified.

  \<^bold>\<open>Parameters.\<close> Third-party code is a record of functions: \<open>crypto_libs\<close> (\<^verbatim>\<open>rfc8785\<close>, \<^verbatim>\<open>cryptography\<close>),
  \<open>text_libs\<close> (\<^verbatim>\<open>json\<close>, \<^verbatim>\<open>email\<close>, pydantic's JSON), \<open>tsa_libs\<close>, \<open>aead_libs\<close>, \<open>auth_libs\<close>, \<open>sqlite_libs\<close>,
  \<^verbatim>\<open>difflib\<close>. What a theorem needs of them is a named hypothesis: \<open>sha3_len\<close>, \<open>ed25519_correct\<close>,
  \<open>payload_collision_free\<close> on the finitely many payloads compared, \<open>dumps_text\<close> and the round trips of JSON
  texts. The concrete libraries named \<open>demo\<close> satisfy them and serve the witnesses; the command
  line signs with \<open>ec_libs\<close>, of which \<open>ec_correct\<close> is assumed.

  \<^bold>\<open>Conventions and bounds.\<close> Text is ASCII, one character per byte, with the ASCII classes of \<^verbatim>\<open>str\<close> and
  \<^verbatim>\<open>re\<close>. Timestamps follow Python 3.10's \<^verbatim>\<open>fromisoformat\<close>. Times are integers of microseconds with the
  overflow errors of \<^verbatim>\<open>datetime\<close>. Bytes are \<open>8 word\<close>. Where a library raises with a long message, the model
  has an abbreviated one. No fuel is used: every loop of the code runs over a list or a counter that
  shrinks; following symbolic links ends because a link that is met while it is being expanded is an error
  (the limit on the number of links that an operating system adds is left out).

  \<^bold>\<open>Not modelled.\<close> Concurrency inside one handler (handlers do not await after reading the request, so
  they are atomic), device errors other than the ones the code tests for, file permissions and times,
  logging, CORS and the JSON shape of responses; a service with an injected \<^verbatim>\<open>PubkeyStore\<close> or
  \<^verbatim>\<open>on_verified\<close> handler; the demonstration scripts, the scenario harness, process starters,
  test suites and the browser front end, which hold no state or decision of their own; \<^verbatim>\<open>argparse\<close>.
\<close>

end
